(* ===== verification/Canal_Prelude.thy ===== *)
theory Canal_Prelude
  imports Main "HOL-Library.Word" "HOL-Library.Product_Lexorder"
begin

text \<open>
  Shared vocabulary of the development: the machine integers and byte strings of the Rust code,
  results and options, and decimal printing and parsing of integers.

  A Rust \<open>String\<close> is its UTF-8 encoding, a \<open>string\<close> whose characters are bytes, so
  \<open>length\<close> is Rust's \<open>len()\<close>. A \<open>usize\<close> that is a length or an index of an
  in-memory vector is a \<open>nat\<close>; every other integer keeps its width.
\<close>

named_theorems store_simps \<open>equations of the event store's operations\<close>
named_theorems server_simps \<open>equations of the server's handlers and its session table\<close>
named_theorems binlog_simps \<open>equations of the binlog converter and its connector\<close>

type_synonym u8 = "8 word"
type_synonym u16 = "16 word"
type_synonym u32 = "32 word"
type_synonym u64 = "64 word"
type_synonym i32 = "32 word"
type_synonym i64 = "64 word"
type_synonym bytes = "u8 list"

text \<open>\<open>Result<T, E>\<close> is a sum: \<open>Inl\<close> is \<open>Err\<close>, \<open>Inr\<close> is \<open>Ok\<close>.\<close>

type_synonym ('e, 'a) rust_result = "'e + 'a"

subsection \<open>Options\<close>

text \<open>\<open>Option::is_none_or\<close>, \<open>Option::is_some_and\<close> and \<open>Option::or\<close>.\<close>

fun is_none_or :: "('a \<Rightarrow> bool) \<Rightarrow> 'a option \<Rightarrow> bool" where
  "is_none_or P None = True"
| "is_none_or P (Some x) = P x"

fun is_some_and :: "('a \<Rightarrow> bool) \<Rightarrow> 'a option \<Rightarrow> bool" where
  "is_some_and P None = False"
| "is_some_and P (Some x) = P x"

fun opt_or :: "'a option \<Rightarrow> 'a option \<Rightarrow> 'a option" where
  "opt_or (Some x) b = Some x"
| "opt_or None b = b"

fun unwrap_or :: "'a option \<Rightarrow> 'a \<Rightarrow> 'a" where
  "unwrap_or (Some x) d = x"
| "unwrap_or None d = d"

lemma is_none_or_iff: "is_none_or P m \<longleftrightarrow> (\<forall>x. m = Some x \<longrightarrow> P x)"
  by (cases m) auto

lemma is_some_and_iff: "is_some_and P m \<longleftrightarrow> (\<exists>x. m = Some x \<and> P x)"
  by (cases m) auto

lemma opt_or_None [simp]: "opt_or m None = m"
  by (cases m) auto

subsection \<open>Characters and bytes\<close>

definition byte_of_char :: "char \<Rightarrow> u8" where
  "byte_of_char c = of_nat (of_char c)"

definition char_of_byte :: "u8 \<Rightarrow> char" where
  "char_of_byte b = char_of (unat b)"

text \<open>\<open>String::as_bytes\<close>.\<close>

definition as_bytes :: "string \<Rightarrow> bytes" where
  "as_bytes s = map byte_of_char s"

definition of_bytes :: "bytes \<Rightarrow> string" where
  "of_bytes bs = map char_of_byte bs"

lemma unat_byte_of_char [simp]: "unat (byte_of_char c) = of_char c"
  by (simp add: byte_of_char_def unat_of_nat)

lemma char_of_byte_of_char [simp]: "char_of_byte (byte_of_char c) = c"
  by (simp add: char_of_byte_def)

lemma byte_of_char_of_byte [simp]: "byte_of_char (char_of_byte b) = b"
proof -
  have "unat b < 256"
    using unsigned_less [of b] by simp
  then have "of_char (char_of (unat b)) = unat b"
    by simp
  then have "unat (byte_of_char (char_of_byte b)) = unat b"
    by (simp add: char_of_byte_def)
  then show ?thesis
    by (simp add: word_unat_eq_iff)
qed

lemma byte_of_char_inject [simp]: "byte_of_char c = byte_of_char d \<longleftrightarrow> c = d"
  by (metis char_of_byte_of_char)

lemma of_bytes_as_bytes [simp]: "of_bytes (as_bytes s) = s"
  by (simp add: of_bytes_def as_bytes_def comp_def)

lemma as_bytes_of_bytes [simp]: "as_bytes (of_bytes b) = b"
  by (simp add: of_bytes_def as_bytes_def comp_def)

lemma as_bytes_inject [simp]: "as_bytes s = as_bytes t \<longleftrightarrow> s = t"
  by (metis of_bytes_as_bytes)

lemma length_as_bytes [simp]: "length (as_bytes s) = length s"
  by (simp add: as_bytes_def)

lemma as_bytes_append [simp]: "as_bytes (s @ t) = as_bytes s @ as_bytes t"
  by (simp add: as_bytes_def)

lemma as_bytes_Nil_iff [simp]: "as_bytes s = [] \<longleftrightarrow> s = []"
  by (simp add: as_bytes_def)

subsection \<open>Decimal printing and parsing\<close>

definition digit_char :: "nat \<Rightarrow> char" where
  "digit_char d = char_of (48 + d)"

definition is_digit :: "char \<Rightarrow> bool" where
  "is_digit c \<longleftrightarrow> 48 \<le> (of_char c :: nat) \<and> (of_char c :: nat) \<le> 57"

definition digit_val :: "char \<Rightarrow> nat" where
  "digit_val c = of_char c - 48"

text \<open>\<open>Display\<close> for unsigned and signed integers.\<close>

fun nat_str :: "nat \<Rightarrow> string" where
  "nat_str n = (if n < 10 then [digit_char n] else nat_str (n div 10) @ [digit_char (n mod 10)])"

declare nat_str.simps [simp del]

definition int_str :: "int \<Rightarrow> string" where
  "int_str i = (if i < 0 then CHR ''-'' # nat_str (nat (- i)) else nat_str (nat i))"

text \<open>\<open>{:0w}\<close>: left-padded with zeros to width \<open>w\<close>.\<close>

definition pad_str :: "nat \<Rightarrow> string \<Rightarrow> string" where
  "pad_str w s = replicate (w - length s) CHR ''0'' @ s"

text \<open>
  The digit loop of \<open>u64::from_str\<close>: a non-digit is an error, and so is a step whose value
  exceeds \<open>u64::MAX\<close>.
\<close>

fun parse_digits :: "nat \<Rightarrow> string \<Rightarrow> nat option" where
  "parse_digits acc [] = Some acc"
| "parse_digits acc (c # cs) =
     (if is_digit c
      then (let v = acc * 10 + digit_val c in if v < 2 ^ 64 then parse_digits v cs else None)
      else None)"

text \<open>\<open>str::parse::<u64>\<close>: the empty string and a lone sign are errors, one leading \<open>+\<close> is
  accepted.\<close>

definition parse_u64 :: "string \<Rightarrow> nat option" where
  "parse_u64 s =
     (case s of
        [] \<Rightarrow> None
      | c # cs \<Rightarrow> (if c = CHR ''+'' then (if cs = [] then None else parse_digits 0 cs)
                   else parse_digits 0 s))"

lemma of_char_digit_char [simp]: "d < 10 \<Longrightarrow> (of_char (digit_char d) :: nat) = 48 + d"
  by (simp add: digit_char_def)

lemma is_digit_digit_char [simp]: "d < 10 \<Longrightarrow> is_digit (digit_char d)"
  by (simp add: is_digit_def)

lemma digit_val_digit_char [simp]: "d < 10 \<Longrightarrow> digit_val (digit_char d) = d"
  by (simp add: digit_val_def)

lemma nat_str_nonempty [simp]: "nat_str n \<noteq> []"
  by (subst nat_str.simps) simp

lemma nat_str_digits: "c \<in> set (nat_str n) \<Longrightarrow> is_digit c"
proof (induction n rule: nat_str.induct)
  case (1 n)
  show ?case
  proof (cases "n < 10")
    case True
    with "1.prems" show ?thesis by (simp add: nat_str.simps [of n])
  next
    case False
    with "1.prems" have "c \<in> set (nat_str (n div 10)) \<or> c = digit_char (n mod 10)"
      by (auto simp: nat_str.simps [of n])
    with False "1.IH" show ?thesis by auto
  qed
qed

lemma parse_digits_append:
  "parse_digits acc (s @ t) =
     (case parse_digits acc s of None \<Rightarrow> None | Some v \<Rightarrow> parse_digits v t)"
  by (induction acc s rule: parse_digits.induct) (auto simp: Let_def)

lemma parse_digits_nat_str:
  assumes "n < 2 ^ 64"
  shows "parse_digits 0 (nat_str n) = Some n"
  using assms
proof (induction n rule: nat_str.induct)
  case (1 n)
  show ?case
  proof (cases "n < 10")
    case True
    then show ?thesis by (simp add: nat_str.simps [of n])
  next
    case False
    have "n div 10 < 2 ^ 64"
      using "1.prems" by linarith
    with False "1.IH" have "parse_digits 0 (nat_str (n div 10)) = Some (n div 10)"
      by simp
    then show ?thesis
      using False "1.prems" by (simp add: nat_str.simps [of n] parse_digits_append)
  qed
qed

lemma parse_u64_nat_str:
  assumes "n < 2 ^ 64"
  shows "parse_u64 (nat_str n) = Some n"
proof -
  obtain c cs where s: "nat_str n = c # cs"
    using nat_str_nonempty [of n] by (cases "nat_str n") auto
  have "is_digit c"
    using nat_str_digits [of c n] s by simp
  then have "c \<noteq> CHR ''+''"
    by (auto simp: is_digit_def)
  then show ?thesis
    using parse_digits_nat_str [OF assms] by (simp add: parse_u64_def s)
qed

lemma parse_digits_zeros: "parse_digits 0 (replicate k CHR ''0'' @ s) = parse_digits 0 s"
  by (induction k) (auto simp: is_digit_def digit_val_def)

lemma parse_digits_bound: "parse_digits acc s = Some v \<Longrightarrow> acc < 2 ^ 64 \<Longrightarrow> v < 2 ^ 64"
  by (induction acc s rule: parse_digits.induct) (auto simp: Let_def split: if_splits)

lemma parse_u64_bound: "parse_u64 s = Some v \<Longrightarrow> v < 2 ^ 64"
  by (auto simp: parse_u64_def simp del: parse_digits.simps dest: parse_digits_bound
      split: list.splits if_splits)

lemma nat_str_inject [simp]:
  assumes "m < 2 ^ 64" and "n < 2 ^ 64"
  shows "nat_str m = nat_str n \<longleftrightarrow> m = n"
  using assms by (metis parse_u64_nat_str option.inject)

end
