(* ===== verification/Canal_Std.thy ===== *)
theory Canal_Std
  imports Canal_Prelude
begin

unbundle bit_operations_syntax

text \<open>
  The pieces of Rust's standard library that the code computes with and that decide what it does:
  \<open>slice::partition_point\<close>, big-endian integers, UTF-8 (\<open>str::from_utf8\<close>,
  \<open>chars().take\<close>, \<open>trim().is_empty()\<close>), saturating arithmetic, and the folds the code
  uses to compare secrets in constant time.
\<close>

subsection \<open>Lists ordered by a key\<close>

lemma takeWhile_le_sorted:
  fixes key :: "'a \<Rightarrow> 'k::linorder"
  assumes "sorted (map key xs)"
  shows "takeWhile (\<lambda>e. key e \<le> t) xs = filter (\<lambda>e. key e \<le> t) xs"
  using assms
proof (induction xs)
  case (Cons x xs)
  then have "t < key x \<Longrightarrow> filter (\<lambda>e. key e \<le> t) xs = []"
    by (fastforce simp: filter_empty_conv)
  with Cons show ?case
    by (cases "key x \<le> t") auto
qed simp

lemma dropWhile_le_sorted:
  fixes key :: "'a \<Rightarrow> 'k::linorder"
  assumes "sorted (map key xs)"
  shows "dropWhile (\<lambda>e. key e \<le> t) xs = filter (\<lambda>e. t < key e) xs"
  using assms
proof (induction xs)
  case (Cons x xs)
  then have "t < key x \<Longrightarrow> filter (\<lambda>e. t < key e) xs = xs"
    by (fastforce simp: filter_id_conv)
  with Cons show ?case
    by (cases "key x \<le> t") auto
qed simp

lemma sorted_map_append:
  "sorted (map f (xs @ ys)) \<longleftrightarrow>
     sorted (map f xs) \<and> sorted (map f ys) \<and> (\<forall>x \<in> set xs. \<forall>y \<in> set ys. f x \<le> f y)"
  by (simp add: sorted_append)

lemma sorted_map_take: "sorted (map f xs) \<Longrightarrow> sorted (map f (take n xs))"
  by (simp add: sorted_wrt_take flip: take_map)

lemma sorted_map_drop: "sorted (map f xs) \<Longrightarrow> sorted (map f (drop n xs))"
  by (simp add: sorted_wrt_drop flip: drop_map)

lemma drop_length_takeWhile: "drop (length (takeWhile P xs)) xs = dropWhile P xs"
  by (induction xs) auto

lemma sorted_map_last:
  assumes "sorted (map f xs)" and "x \<in> set xs"
  shows "f x \<le> f (last xs)"
  using assms by (induction xs) auto

lemma sorted_map_hd:
  assumes "sorted (map f xs)" and "x \<in> set xs"
  shows "f (hd xs) \<le> f x"
  using assms by (cases xs) auto

lemma length_takeWhile_unique:
  assumes "k \<le> length xs" and "\<And>i. i < length xs \<Longrightarrow> P (xs ! i) \<longleftrightarrow> i < k"
  shows "k = length (takeWhile P xs)"
proof (rule linorder_cases [of k "length (takeWhile P xs)"])
  assume "k < length (takeWhile P xs)"
  moreover then have "P (xs ! k)"
    by (metis nth_mem set_takeWhileD takeWhile_nth)
  moreover have "length (takeWhile P xs) \<le> length xs"
    by (rule length_takeWhile_le)
  ultimately show ?thesis using assms(2) [of k] by simp
next
  assume less: "length (takeWhile P xs) < k"
  then have "length (takeWhile P xs) < length xs"
    using assms(1) by simp
  then have "\<not> P (xs ! length (takeWhile P xs))"
    by (rule nth_length_takeWhile)
  with less assms show ?thesis by auto
qed simp

subsection \<open>\<open>slice::partition_point\<close>\<close>

text \<open>
  The standard library's search: halve the window \<open>[base, base + sz)\<close> until one element is
  left, moving the base up to the middle when the predicate holds there, then look at that last
  element.
\<close>

function pp_loop :: "('a \<Rightarrow> bool) \<Rightarrow> 'a list \<Rightarrow> nat \<Rightarrow> nat \<Rightarrow> nat" where
  "pp_loop P xs base sz =
     (if 1 < sz
      then (let half = sz div 2; mid = base + half
            in pp_loop P xs (if P (xs ! mid) then mid else base) (sz - half))
      else base)"
  by pat_completeness auto
termination
  by (relation "measure (\<lambda>(P, xs, base, sz). sz)") auto

declare pp_loop.simps [simp del]

definition partition_point :: "('a \<Rightarrow> bool) \<Rightarrow> 'a list \<Rightarrow> nat" where
  "partition_point P xs =
     (if xs = [] then 0
      else (let base = pp_loop P xs 0 (length xs) in if P (xs ! base) then base + 1 else base))"

definition partitioned :: "('a \<Rightarrow> bool) \<Rightarrow> 'a list \<Rightarrow> bool" where
  "partitioned P xs \<longleftrightarrow> (\<forall>i j. i \<le> j \<longrightarrow> j < length xs \<longrightarrow> P (xs ! j) \<longrightarrow> P (xs ! i))"

lemma partitionedD: "partitioned P xs \<Longrightarrow> P (xs ! j) \<Longrightarrow> i \<le> j \<Longrightarrow> j < length xs \<Longrightarrow> P (xs ! i)"
  by (simp add: partitioned_def)

lemma pp_loop_bounds:
  assumes "partitioned P xs" and "0 < sz" and "base + sz \<le> length xs"
    and "\<And>i. i < base \<Longrightarrow> P (xs ! i)"
    and "\<And>i. base + sz \<le> i \<Longrightarrow> i < length xs \<Longrightarrow> \<not> P (xs ! i)"
  shows "pp_loop P xs base sz < length xs
    \<and> (\<forall>i < pp_loop P xs base sz. P (xs ! i))
    \<and> (\<forall>i. pp_loop P xs base sz < i \<longrightarrow> i < length xs \<longrightarrow> \<not> P (xs ! i))"
  using assms
proof (induction P xs base sz rule: pp_loop.induct)
  case (1 P xs base sz)
  show ?case
  proof (cases "1 < sz")
    case False
    then have "sz = 1" "pp_loop P xs base sz = base"
      using "1.prems"(2) by (simp_all add: pp_loop.simps [of P xs base sz])
    then show ?thesis using "1.prems"(3-5) by simp
  next
    case True
    define half where "half = sz div 2"
    define base' where "base' = (if P (xs ! (base + half)) then base + half else base)"
    have half: "0 < half" "half < sz"
      using True by (auto simp: half_def)
    have below: "P (xs ! i)" if "i < base'" for i
    proof (cases "P (xs ! (base + half))")
      case True
      then have "i \<le> base + half" "base + half < length xs"
        using that half "1.prems"(3) by (auto simp: base'_def)
      then show ?thesis
        by (rule partitionedD [OF "1.prems"(1) True])
    next
      case False
      then show ?thesis using that "1.prems"(4) by (simp add: base'_def)
    qed
    have above: "\<not> P (xs ! i)" if "base' + (sz - half) \<le> i" "i < length xs" for i
    proof (cases "P (xs ! (base + half))")
      case True
      then show ?thesis using that half "1.prems"(5) by (simp add: base'_def)
    next
      case False
      have "base + half \<le> i"
        using that False half by (simp add: base'_def half_def)
      then show ?thesis
        using False partitionedD [OF "1.prems"(1) _ _ that(2), of "base + half"] by blast
    qed
    have fits: "base' + (sz - half) \<le> length xs"
      using half "1.prems"(3) by (auto simp: base'_def)
    have eq: "pp_loop P xs base sz = pp_loop P xs base' (sz - half)"
      using True by (simp add: pp_loop.simps [of P xs base sz] base'_def half_def Let_def)
    have shrinks: "0 < sz - half"
      using half by simp
    show ?thesis
      unfolding eq
      by (rule "1.IH" [OF True half_def refl, folded base'_def,
            OF "1.prems"(1) shrinks fits below above])
  qed
qed

text \<open>
  On a partitioned slice, the only kind for which the library documents a result, the search finds
  the length of the prefix on which the predicate holds.
\<close>

lemma partition_point_eq_takeWhile:
  assumes "partitioned P xs"
  shows "partition_point P xs = length (takeWhile P xs)"
proof (cases "xs = []")
  case False
  define base where "base = pp_loop P xs 0 (length xs)"
  have b: "base < length xs" "\<forall>i < base. P (xs ! i)"
    "\<forall>i. base < i \<longrightarrow> i < length xs \<longrightarrow> \<not> P (xs ! i)"
    using pp_loop_bounds [OF assms, of "length xs" 0] False by (auto simp: base_def)
  have "partition_point P xs = (if P (xs ! base) then base + 1 else base)"
    using False by (simp add: partition_point_def base_def Let_def)
  moreover have "(if P (xs ! base) then base + 1 else base) = length (takeWhile P xs)"
  proof (rule length_takeWhile_unique)
    show "(if P (xs ! base) then base + 1 else base) \<le> length xs"
      using b(1) by simp
    fix i
    assume "i < length xs"
    then show "P (xs ! i) \<longleftrightarrow> i < (if P (xs ! base) then base + 1 else base)"
      using b by (cases i base rule: linorder_cases) auto
  qed
  ultimately show ?thesis by simp
qed (simp add: partition_point_def)

lemma partitioned_le_sorted:
  fixes key :: "'a \<Rightarrow> 'k::linorder"
  assumes "sorted (map key xs)"
  shows "partitioned (\<lambda>e. key e \<le> t) xs"
  unfolding partitioned_def
proof (intro allI impI)
  fix i j
  assume ij: "i \<le> j" "j < length xs" and le: "key (xs ! j) \<le> t"
  have "map key xs ! i \<le> map key xs ! j"
    using ij by (intro sorted_nth_mono [OF assms]) simp_all
  then show "key (xs ! i) \<le> t"
    using ij le by simp
qed

subsection \<open>Big-endian 32-bit integers\<close>

definition u32_from_be_bytes :: "bytes \<Rightarrow> u32" where
  "u32_from_be_bytes bs = of_nat (foldl (\<lambda>acc b. acc * 256 + unat b) 0 bs)"

definition u32_to_be_bytes :: "u32 \<Rightarrow> bytes" where
  "u32_to_be_bytes w = map (\<lambda>k. of_nat (unat w div 256 ^ k)) [3, 2, 1, 0]"

lemma length_u32_to_be_bytes [simp]: "length (u32_to_be_bytes w) = 4"
  by (simp add: u32_to_be_bytes_def)

lemma unat_of_nat_u8: "unat (of_nat n :: u8) = n mod 256"
  by (simp add: unat_of_nat)

lemma base256_digits:
  fixes n :: nat
  assumes "n < 4294967296"
  shows "((n div 16777216 mod 256 * 256 + n div 65536 mod 256) * 256 + n div 256 mod 256) * 256
    + n mod 256 = n"
proof -
  have "n div 16777216 mod 256 = n div 16777216"
    using assms by (simp add: div_less_iff_less_mult)
  moreover have "n div 16777216 * 256 + n div 65536 mod 256 = n div 65536"
    using div_mult_mod_eq [of "n div 65536" 256] by (simp add: div_mult2_eq [symmetric])
  moreover have "n div 65536 * 256 + n div 256 mod 256 = n div 256"
    using div_mult_mod_eq [of "n div 256" 256] by (simp add: div_mult2_eq [symmetric])
  ultimately show ?thesis by simp
qed

lemma u32_from_to_be_bytes [simp]: "u32_from_be_bytes (u32_to_be_bytes w) = w"
proof -
  define n where "n = unat w"
  have "n < 4294967296"
    using unsigned_less [of w] by (simp add: n_def)
  then have "foldl (\<lambda>acc b. acc * 256 + unat b) 0
      (map (\<lambda>k. of_nat (n div 256 ^ k) :: u8) [3, 2, 1, 0]) = n"
    using base256_digits [of n] by (simp add: unat_of_nat_u8)
  then show ?thesis
    by (simp add: u32_from_be_bytes_def u32_to_be_bytes_def n_def del: list.map)
qed

subsection \<open>Constant-time comparison\<close>

text \<open>\<open>a.iter().zip(b).fold(0, |acc, (x, y)| acc | (x ^ y))\<close>.\<close>

definition xor_fold :: "bytes \<Rightarrow> bytes \<Rightarrow> u8" where
  "xor_fold xs ys = foldl (\<lambda>acc (x, y). acc OR (x XOR y)) 0 (zip xs ys)"

lemma word_or_eq_0_iff: "(a :: 'a::len word) OR b = 0 \<longleftrightarrow> a = 0 \<and> b = 0"
  by (auto simp: bit_eq_iff bit_simps)

lemma word_xor_eq_0_iff: "(a :: 'a::len word) XOR b = 0 \<longleftrightarrow> a = b"
  by (metis bit.xor_self word_bw_assocs(3) xor.right_neutral)

lemma foldl_or_eq_0:
  "foldl (\<lambda>acc p. acc OR f p) (a :: 'a::len word) ps = 0 \<longleftrightarrow> a = 0 \<and> (\<forall>p \<in> set ps. f p = 0)"
  by (induction ps arbitrary: a) (auto simp: word_or_eq_0_iff)

lemma xor_fold_eq_0_iff:
  assumes "length xs = length ys"
  shows "xor_fold xs ys = 0 \<longleftrightarrow> xs = ys"
proof -
  have "xor_fold xs ys = foldl (\<lambda>acc p. acc OR (fst p XOR snd p)) 0 (zip xs ys)"
    by (simp add: xor_fold_def split_def)
  then have "xor_fold xs ys = 0 \<longleftrightarrow> (\<forall>p \<in> set (zip xs ys). fst p = snd p)"
    by (simp add: foldl_or_eq_0 word_xor_eq_0_iff)
  also have "\<dots> \<longleftrightarrow> xs = ys"
    using assms by (induction xs ys rule: list_induct2) auto
  finally show ?thesis .
qed

subsection \<open>UTF-8\<close>

text \<open>\<open>str::from_utf8\<close> succeeds exactly on the well-formed sequences of the Unicode standard.\<close>

definition utf8_cont :: "nat \<Rightarrow> bool" where
  "utf8_cont b \<longleftrightarrow> 0x80 \<le> b \<and> b \<le> 0xBF"

definition utf8_seq3 :: "nat \<Rightarrow> nat \<Rightarrow> bool" where
  "utf8_seq3 a b \<longleftrightarrow> (a = 0xE0 \<and> 0xA0 \<le> b \<and> b \<le> 0xBF) \<or> (0xE1 \<le> a \<and> a \<le> 0xEC \<and> utf8_cont b)
     \<or> (a = 0xED \<and> 0x80 \<le> b \<and> b \<le> 0x9F) \<or> (0xEE \<le> a \<and> a \<le> 0xEF \<and> utf8_cont b)"

definition utf8_seq4 :: "nat \<Rightarrow> nat \<Rightarrow> bool" where
  "utf8_seq4 a b \<longleftrightarrow> (a = 0xF0 \<and> 0x90 \<le> b \<and> b \<le> 0xBF) \<or> (0xF1 \<le> a \<and> a \<le> 0xF3 \<and> utf8_cont b)
     \<or> (a = 0xF4 \<and> 0x80 \<le> b \<and> b \<le> 0x8F)"

text \<open>One character off the front of a byte sequence, if it starts with a well-formed one.\<close>

definition utf8_step :: "nat list \<Rightarrow> nat list option" where
  "utf8_step bs =
     (case bs of
        a # bs1 \<Rightarrow>
          if a < 0x80 then Some bs1
          else (case bs1 of
                  b # bs2 \<Rightarrow>
                    if 0xC2 \<le> a \<and> a \<le> 0xDF \<and> utf8_cont b then Some bs2
                    else (case bs2 of
                            c # bs3 \<Rightarrow>
                              if utf8_seq3 a b \<and> utf8_cont c then Some bs3
                              else (case bs3 of
                                      d # bs4 \<Rightarrow>
                                        if utf8_seq4 a b \<and> utf8_cont c \<and> utf8_cont d
                                        then Some bs4 else None
                                    | [] \<Rightarrow> None)
                          | [] \<Rightarrow> None)
                | [] \<Rightarrow> None)
      | [] \<Rightarrow> None)"

lemma utf8_step_shorter: "utf8_step bs = Some r \<Longrightarrow> length r < length bs"
  unfolding utf8_step_def by (auto split: list.splits if_splits)

function utf8_valid :: "nat list \<Rightarrow> bool" where
  "utf8_valid bs =
     (bs = [] \<or> (case utf8_step bs of None \<Rightarrow> False | Some r \<Rightarrow> utf8_valid r))"
  by pat_completeness auto
termination
  by (relation "measure length") (auto simp: utf8_step_shorter)

declare utf8_valid.simps [simp del]

text \<open>
  \<open>s.chars().take(n).collect()\<close>: the first \<open>n\<close> characters, each a leading byte with its
  continuation bytes.
\<close>

fun chars_take :: "nat \<Rightarrow> string \<Rightarrow> string" where
  "chars_take n [] = []"
| "chars_take n (c # cs) =
     (if utf8_cont (of_char c) then c # chars_take n cs
      else (case n of 0 \<Rightarrow> [] | Suc m \<Rightarrow> c # chars_take m cs))"

definition chars_count :: "string \<Rightarrow> nat" where
  "chars_count s = length (filter (\<lambda>c. \<not> utf8_cont (of_char c)) s)"

lemma chars_take_all: "chars_count s \<le> n \<Longrightarrow> chars_take n s = s"
  by (induction s arbitrary: n) (auto simp: chars_count_def split: nat.splits if_splits)

lemma chars_count_chars_take: "chars_count (chars_take n s) \<le> n"
  by (induction n s rule: chars_take.induct) (auto simp: chars_count_def split: nat.splits)

lemma chars_take_prefix: "\<exists>t. s = chars_take n s @ t"
  by (induction n s rule: chars_take.induct) (auto split: nat.splits)

text \<open>\<open>s.trim().is_empty()\<close>: every character has the Unicode property White_Space.\<close>

definition whitespace_step :: "nat list \<Rightarrow> nat list option" where
  "whitespace_step bs =
     (case bs of
        a # bs1 \<Rightarrow>
          if (9 \<le> a \<and> a \<le> 13) \<or> a = 32 then Some bs1
          else (case bs1 of
                  b # bs2 \<Rightarrow>
                    if a = 0xC2 \<and> (b = 0x85 \<or> b = 0xA0) then Some bs2
                    else (case bs2 of
                            c # bs3 \<Rightarrow>
                              if (a = 0xE1 \<and> b = 0x9A \<and> c = 0x80)
                                 \<or> (a = 0xE2 \<and> b = 0x80 \<and> ((0x80 \<le> c \<and> c \<le> 0x8A)
                                      \<or> c = 0xA8 \<or> c = 0xA9 \<or> c = 0xAF))
                                 \<or> (a = 0xE2 \<and> b = 0x81 \<and> c = 0x9F)
                                 \<or> (a = 0xE3 \<and> b = 0x80 \<and> c = 0x80)
                              then Some bs3 else None
                          | [] \<Rightarrow> None)
                | [] \<Rightarrow> None)
      | [] \<Rightarrow> None)"

lemma whitespace_step_shorter: "whitespace_step bs = Some r \<Longrightarrow> length r < length bs"
  unfolding whitespace_step_def by (auto split: list.splits if_splits)

function all_whitespace :: "nat list \<Rightarrow> bool" where
  "all_whitespace bs =
     (bs = [] \<or> (case whitespace_step bs of None \<Rightarrow> False | Some r \<Rightarrow> all_whitespace r))"
  by pat_completeness auto
termination
  by (relation "measure length") (auto simp: whitespace_step_shorter)

declare all_whitespace.simps [simp del]

definition trim_is_empty :: "string \<Rightarrow> bool" where
  "trim_is_empty s = all_whitespace (map of_char s)"

subsection \<open>Saturating arithmetic\<close>

definition saturating_add_u32 :: "u32 \<Rightarrow> u32 \<Rightarrow> u32" where
  "saturating_add_u32 a b = (if unat a + unat b < 2 ^ 32 then a + b else - 1)"

definition saturating_mul_u64 :: "u64 \<Rightarrow> u64 \<Rightarrow> u64" where
  "saturating_mul_u64 a b = (if unat a * unat b < 2 ^ 64 then a * b else - 1)"

definition saturating_pow_u64 :: "u64 \<Rightarrow> nat \<Rightarrow> u64" where
  "saturating_pow_u64 a n = (if unat a ^ n < 2 ^ 64 then a ^ n else - 1)"

end
