(* ===== verification/Canal_Types.thy ===== *)
theory Canal_Types
  imports Canal_Std
begin

text \<open>
  The crate \<open>canal-common\<close>: binlog positions and their order (\<open>types.rs\<close>), the event
  model, filter patterns, errors (\<open>error.rs\<close>) and the lifecycle contract
  (\<open>lifecycle.rs\<close>), the latter as a locale that the stateful components interpret.
  The lemmas give the order's laws, the numeric suffix of a binlog file name, and the range that
  a batch of events carries.

  The \<open>regex\<close> crate is a parameter: a compiled \<open>Regex\<close> is the predicate
  \<open>is_match\<close>, and an engine builds one from an optional size limit and a pattern, or
  reports an error text.
\<close>

type_synonym regex = "string \<Rightarrow> bool"
type_synonym regex_engine = "nat option \<Rightarrow> string \<Rightarrow> (string, regex) rust_result"

subsection \<open>Errors\<close>

datatype canal_error =
    BinlogConnection string
  | PositionNotFound string u64
  | Protocol string
  | AuthFailed string
  | Io string
  | StoreError string
  | Config string
  | NotFound string
  | Internal string

type_synonym 'a canal_result = "(canal_error, 'a) rust_result"

definition error_display :: "canal_error \<Rightarrow> string" where
  "error_display e =
     (case e of
        BinlogConnection m \<Rightarrow> ''binlog connection: '' @ m
      | PositionNotFound j p \<Rightarrow> ''position '' @ j @ '':'' @ nat_str (unat p) @ '' not found''
      | Protocol m \<Rightarrow> ''protocol: '' @ m
      | AuthFailed m \<Rightarrow> ''authentication failed for client '' @ m
      | Io m \<Rightarrow> ''io: '' @ m
      | StoreError m \<Rightarrow> ''store: '' @ m
      | Config m \<Rightarrow> ''configuration: '' @ m
      | NotFound m \<Rightarrow> ''not found: '' @ m
      | Internal m \<Rightarrow> ''internal: '' @ m)"

text \<open>The punctuation mark U+2014 of several messages, in UTF-8.\<close>

definition em_dash :: string where
  "em_dash = [CHR 0xE2, CHR 0x80, CHR 0x94]"

subsection \<open>Binlog positions\<close>

record log_position =
  lp_journal_name :: string
  lp_position :: u64
  lp_timestamp :: "i64 option"
  lp_server_id :: "u64 option"
  lp_gtid :: "string option"

definition log_position_new :: "string \<Rightarrow> u64 \<Rightarrow> log_position" where
  "log_position_new j p =
     \<lparr>lp_journal_name = j, lp_position = p, lp_timestamp = None, lp_server_id = None,
      lp_gtid = None\<rparr>"

definition log_position_display :: "log_position \<Rightarrow> string" where
  "log_position_display p =
     (case lp_gtid p of
        Some gtid \<Rightarrow> lp_journal_name p @ '':'' @ nat_str (unat (lp_position p)) @ '':'' @ gtid
      | None \<Rightarrow> lp_journal_name p @ '':'' @ nat_str (unat (lp_position p)))"

text \<open>\<open>journal_name.rsplit('.').next()\<close>: the part after the last dot, all of it if none.\<close>

definition last_segment :: "string \<Rightarrow> string" where
  "last_segment s = rev (takeWhile (\<lambda>c. c \<noteq> CHR ''.'') (rev s))"

definition binlog_suffix :: "string \<Rightarrow> u64" where
  "binlog_suffix j =
     (case parse_u64 (last_segment j) of Some n \<Rightarrow> of_nat n | None \<Rightarrow> - 1)"

datatype cmp_ordering = Less | Equal | Greater

definition u64_cmp :: "u64 \<Rightarrow> u64 \<Rightarrow> cmp_ordering" where
  "u64_cmp a b = (if a < b then Less else if a = b then Equal else Greater)"

definition then_with :: "cmp_ordering \<Rightarrow> cmp_ordering \<Rightarrow> cmp_ordering" where
  "then_with o1 o2 = (if o1 = Equal then o2 else o1)"

definition log_position_cmp :: "'a log_position_scheme \<Rightarrow> 'b log_position_scheme \<Rightarrow> cmp_ordering" where
  "log_position_cmp p q =
     then_with (u64_cmp (binlog_suffix (lp_journal_name p)) (binlog_suffix (lp_journal_name q)))
       (u64_cmp (lp_position p) (lp_position q))"

text \<open>The sort key \<open>(binlog_suffix(&journal_name), position)\<close> the code compares with.\<close>

definition lp_key :: "'a log_position_scheme \<Rightarrow> u64 \<times> u64" where
  "lp_key p = (binlog_suffix (lp_journal_name p), lp_position p)"

lemma log_position_cmp_key:
  "log_position_cmp p q =
     (if lp_key p < lp_key q then Less else if lp_key p = lp_key q then Equal else Greater)"
  by (auto simp: log_position_cmp_def lp_key_def then_with_def u64_cmp_def)

text \<open>
  The derived comparison operators of \<open>LogPosition\<close>, which look at \<open>cmp\<close> only. They form a
  preorder and not an order: \<open>PartialEq\<close> is derived on all five fields.
\<close>

instantiation log_position_ext :: (type) preorder
begin

definition less_eq_log_position_ext ::
    "'a log_position_scheme \<Rightarrow> 'a log_position_scheme \<Rightarrow> bool" where
  "p \<le> q \<longleftrightarrow> log_position_cmp p q \<noteq> Greater"

definition less_log_position_ext ::
    "'a log_position_scheme \<Rightarrow> 'a log_position_scheme \<Rightarrow> bool" where
  "p < q \<longleftrightarrow> log_position_cmp p q = Less"

instance
  by standard (auto simp: less_eq_log_position_ext_def less_log_position_ext_def
      log_position_cmp_key split: if_splits)

end

lemma lp_less_iff: "(p :: log_position) < q \<longleftrightarrow> lp_key p < lp_key q"
  by (simp add: less_log_position_ext_def log_position_cmp_key)

lemma lp_le_iff: "(p :: log_position) \<le> q \<longleftrightarrow> lp_key p \<le> lp_key q"
  by (auto simp: less_eq_log_position_ext_def log_position_cmp_key)

lemma lp_key_new: "lp_key (log_position_new j p) = (binlog_suffix j, p)"
  by (simp add: lp_key_def log_position_new_def)

lemma last_segment_append [simp]:
  assumes "CHR ''.'' \<notin> set t"
  shows "last_segment (s @ CHR ''.'' # t) = t"
proof -
  have "takeWhile (\<lambda>c. c \<noteq> CHR ''.'') (rev t @ CHR ''.'' # rev s) = rev t"
    using assms by (subst takeWhile_append2) auto
  then show ?thesis by (simp add: last_segment_def)
qed

lemma dot_not_in_nat_str: "CHR ''.'' \<notin> set (nat_str n)"
  using nat_str_digits [of "CHR ''.''" n] by (auto simp: is_digit_def)

lemma parse_u64_zeros:
  assumes "0 < k" and "n < 2 ^ 64"
  shows "parse_u64 (replicate k CHR ''0'' @ nat_str n) = Some n"
  using assms parse_digits_zeros [of k "nat_str n"] parse_digits_nat_str [OF assms(2)]
  by (cases k) (auto simp: parse_u64_def)

text \<open>A rotated file's name, base name, dot and zero-padded number, orders by that number.\<close>

lemma binlog_suffix_numbered:
  assumes "n < 2 ^ 64"
  shows "binlog_suffix (base @ CHR ''.'' # pad_str w (nat_str n)) = of_nat n"
proof -
  have "parse_u64 (pad_str w (nat_str n)) = Some n"
    using parse_u64_zeros [of "w - length (nat_str n)", OF _ assms] parse_u64_nat_str [OF assms]
    by (cases "w - length (nat_str n)") (auto simp: pad_str_def)
  moreover have "CHR ''.'' \<notin> set (pad_str w (nat_str n))"
    using dot_not_in_nat_str by (auto simp: pad_str_def)
  ultimately show ?thesis by (simp add: binlog_suffix_def)
qed

text \<open>Order of rotated files. On positions whose file names are a base name, a dot and a
  sequence number, zero-padded or not, the comparison is that of the sequence numbers, then of the
  offsets: a server that rotates past the padding's width, or changes its base name, still orders
  its events by rotation.\<close>

theorem log_position_cmp_rotation:
  assumes "m < 2 ^ 64" and "n < 2 ^ 64"
  shows "log_position_cmp (log_position_new (base @ CHR ''.'' # pad_str w (nat_str m)) p)
      (log_position_new (base' @ CHR ''.'' # pad_str w' (nat_str n)) q)
    = (if m < n \<or> m = n \<and> p < q then Less else if m = n \<and> p = q then Equal else Greater)"
proof -
  have "(of_nat m :: u64) < of_nat n \<longleftrightarrow> m < n" "(of_nat m :: u64) = of_nat n \<longleftrightarrow> m = n"
    using assms by (simp_all add: word_less_nat_alt word_unat_eq_iff unat_of_nat)
  then show ?thesis
    using assms by (auto simp: log_position_cmp_key lp_key_new binlog_suffix_numbered le_less)
qed

lemma log_position_cmp_rotation_witness:
  "log_position_cmp (log_position_new (''b'' @ CHR ''.'' # pad_str 6 (nat_str 999999)) 900)
      (log_position_new (''b'' @ CHR ''.'' # pad_str 6 (nat_str 1000000)) 4) = Less"
  using log_position_cmp_rotation [of 999999 1000000 "''b''" 6 900 "''b''" 6 4] by simp

text \<open>The order of positions is not consistent with their equality. Two positions compare
  as equal exactly when their file suffixes and offsets agree, which leaves the derived equality
  of all five fields apart: there are different positions that compare as equal.\<close>

theorem log_position_cmp_not_eq:
  "(log_position_cmp p q = Equal \<longleftrightarrow> lp_key p = lp_key q)
    \<and> (\<exists>p' q' :: log_position. log_position_cmp p' q' = Equal \<and> p' \<noteq> q')"
proof -
  let ?p = "log_position_new ''b.1'' 4"
  have "log_position_cmp ?p (?p\<lparr>lp_gtid := Some ''g''\<rparr>) = Equal" "?p \<noteq> ?p\<lparr>lp_gtid := Some ''g''\<rparr>"
    by (simp_all add: log_position_cmp_key lp_key_def log_position_new_def)
  then have "\<exists>p' q' :: log_position. log_position_cmp p' q' = Equal \<and> p' \<noteq> q'"
    by blast
  then show ?thesis
    by (simp add: log_position_cmp_key)
qed

subsection \<open>Event types\<close>

datatype event_type =
    EtInsert | EtUpdate | EtDelete | EtDdl | EtQuery | EtRotate | EtXid | EtHeartbeat
  | EtUnknown i32

definition event_type_as_str :: "event_type \<Rightarrow> string" where
  "event_type_as_str t =
     (case t of
        EtInsert \<Rightarrow> ''INSERT'' | EtUpdate \<Rightarrow> ''UPDATE'' | EtDelete \<Rightarrow> ''DELETE'' | EtDdl \<Rightarrow> ''DDL''
      | EtQuery \<Rightarrow> ''QUERY'' | EtRotate \<Rightarrow> ''ROTATE'' | EtXid \<Rightarrow> ''XID'' | EtHeartbeat \<Rightarrow> ''HEARTBEAT''
      | EtUnknown _ \<Rightarrow> ''UNKNOWN'')"

definition event_type_from_proto :: "i32 \<Rightarrow> event_type" where
  "event_type_from_proto v =
     (if v = 1 then EtInsert else if v = 2 then EtUpdate else if v = 3 then EtDelete
      else if v = 4 then EtDdl else if v = 5 then EtQuery else if v = 7 then EtDdl
      else if v = 13 then EtXid else if v = 15 then EtHeartbeat else EtUnknown v)"

text \<open>\<open>impl From<i32> for EventType\<close>.\<close>

definition event_type_from :: "i32 \<Rightarrow> event_type" where
  "event_type_from v =
     (if v = 1 then EtInsert else if v = 2 then EtUpdate else if v = 3 then EtDelete
      else if v = 4 then EtDdl else if v = 5 then EtQuery else if v = 6 then EtRotate
      else if v = 7 then EtXid else if v = 8 then EtHeartbeat else EtUnknown v)"

datatype dml_type = DmlInsert | DmlUpdate | DmlDelete

definition dml_type_as_str :: "dml_type \<Rightarrow> string" where
  "dml_type_as_str t =
     (case t of DmlInsert \<Rightarrow> ''INSERT'' | DmlUpdate \<Rightarrow> ''UPDATE'' | DmlDelete \<Rightarrow> ''DELETE'')"

subsection \<open>Rows and events\<close>

record column_value =
  cv_name :: string
  cv_value :: "string option"
  cv_column_type :: i32
  cv_is_key :: bool
  cv_updated :: bool

record row_data =
  rd_columns :: "column_value list"

record row_change =
  rc_table_name :: string
  rc_schema_name :: string
  rc_before :: "row_data option"
  rc_after :: "row_data option"
  rc_dml_type :: dml_type

record canal_event =
  ev_journal_name :: string
  ev_position :: u64
  ev_server_id :: u64
  ev_execute_time :: i64
  ev_entry_type :: event_type
  ev_schema_name :: string
  ev_table_name :: string
  ev_row_change :: "row_change option"
  ev_ddl_sql :: "string option"
  ev_gtid :: "string option"
  ev_raw_bytes :: bytes

definition ev_key :: "canal_event \<Rightarrow> u64 \<times> u64" where
  "ev_key e = (binlog_suffix (ev_journal_name e), ev_position e)"

text \<open>\<open>LogPosition::new(&e.journal_name, e.position)\<close>.\<close>

definition ev_log_position :: "canal_event \<Rightarrow> log_position" where
  "ev_log_position e = log_position_new (ev_journal_name e) (ev_position e)"

lemma lp_key_ev_log_position [simp]: "lp_key (ev_log_position e) = ev_key e"
  by (simp add: ev_log_position_def lp_key_new ev_key_def)

lemma lp_timestamp_ev_log_position [simp]: "lp_timestamp (ev_log_position e) = None"
  by (simp add: ev_log_position_def log_position_new_def)

text \<open>\<open>format!("{}.{}", schema_name, table_name)\<close>, the name filters match.\<close>

definition ev_full_name :: "canal_event \<Rightarrow> string" where
  "ev_full_name e = ev_schema_name e @ ''.'' @ ev_table_name e"

record position_range =
  pr_start :: log_position
  pr_end :: log_position

record events =
  es_position_range :: position_range
  es_events :: "canal_event list"
  es_batch_id :: i64

definition events_new :: "i64 \<Rightarrow> events" where
  "events_new batch_id =
     \<lparr>es_position_range = \<lparr>pr_start = log_position_new '''' 0, pr_end = log_position_new '''' 0\<rparr>,
      es_events = [], es_batch_id = batch_id\<rparr>"

definition events_with_events :: "canal_event list \<Rightarrow> i64 \<Rightarrow> events" where
  "events_with_events evs batch_id =
     (let range =
        (case evs of
           [] \<Rightarrow> (log_position_new '''' 0, log_position_new '''' 0)
         | f # _ \<Rightarrow> (ev_log_position f, ev_log_position (last evs)))
      in \<lparr>es_position_range = \<lparr>pr_start = fst range, pr_end = snd range\<rparr>,
          es_events = evs, es_batch_id = batch_id\<rparr>)"

definition events_is_empty :: "events \<Rightarrow> bool" where
  "events_is_empty es \<longleftrightarrow> es_events es = []"

definition events_len :: "events \<Rightarrow> nat" where
  "events_len es = length (es_events es)"

lemma events_with_events_simps [simp]:
  "es_events (events_with_events evs i) = evs"
  "es_batch_id (events_with_events evs i) = i"
  by (simp_all add: events_with_events_def Let_def)

lemma events_with_events_range:
  assumes "evs \<noteq> []"
  shows "pr_start (es_position_range (events_with_events evs i)) = ev_log_position (hd evs)"
    and "pr_end (es_position_range (events_with_events evs i)) = ev_log_position (last evs)"
  using assms by (auto simp: events_with_events_def Let_def split: list.splits)

lemma events_is_empty_simps [simp]:
  "events_is_empty (events_new i)"
  "events_is_empty (events_with_events evs i) \<longleftrightarrow> evs = []"
  by (simp_all add: events_is_empty_def events_new_def)

lemma es_batch_id_events_new [simp]: "es_batch_id (events_new i) = i"
  by (simp add: events_new_def)

text \<open>A row event at a position of a numbered file, for the concrete instances of the theorems.\<close>

definition sample_event :: "string \<Rightarrow> u64 \<Rightarrow> canal_event" where
  "sample_event j p =
     \<lparr>ev_journal_name = j, ev_position = p, ev_server_id = 1, ev_execute_time = 0,
      ev_entry_type = EtInsert, ev_schema_name = ''db'', ev_table_name = ''t'',
      ev_row_change = None, ev_ddl_sql = None, ev_gtid = None, ev_raw_bytes = []\<rparr>"

lemma ev_key_sample_event [simp]: "ev_key (sample_event j p) = (binlog_suffix j, p)"
  by (simp add: ev_key_def sample_event_def)

subsection \<open>Filter patterns\<close>

record filter_pattern =
  fp_pattern :: string
  fp_black_list :: string

definition filter_pattern_default :: filter_pattern where
  "filter_pattern_default = \<lparr>fp_pattern = ''.*'' @ [CHR 0x5C] @ ''..*'', fp_black_list = ''''\<rparr>"

definition filter_size_limit :: nat where
  "filter_size_limit = 2 ^ 20"

definition filter_pattern_validate :: "regex_engine \<Rightarrow> filter_pattern \<Rightarrow> (string, unit) rust_result" where
  "filter_pattern_validate rx fp =
     (case rx (Some filter_size_limit) (fp_pattern fp) of
        Inl e \<Rightarrow> Inl (''invalid pattern: '' @ e)
      | Inr _ \<Rightarrow>
          (if fp_black_list fp \<noteq> []
           then (case rx (Some filter_size_limit) (fp_black_list fp) of
                   Inl e \<Rightarrow> Inl (''invalid blacklist: '' @ e)
                 | Inr _ \<Rightarrow> Inr ())
           else Inr ()))"

text \<open>
  The documented meaning of the size limit: it only makes \<open>build\<close> fail. An engine that builds a
  pattern under a limit builds the same regex with the crate's default, which is larger.
\<close>

definition regex_limit_sound :: "regex_engine \<Rightarrow> bool" where
  "regex_limit_sound rx \<longleftrightarrow>
     (\<forall>p m. rx (Some filter_size_limit) p = Inr m \<longrightarrow> rx None p = Inr m)"

lemma filter_pattern_validate_ok_iff:
  "filter_pattern_validate rx fp = Inr () \<longleftrightarrow>
     (\<exists>m. rx (Some filter_size_limit) (fp_pattern fp) = Inr m)
     \<and> (fp_black_list fp \<noteq> [] \<longrightarrow> (\<exists>m. rx (Some filter_size_limit) (fp_black_list fp) = Inr m))"
  by (auto simp: filter_pattern_validate_def split: sum.splits)

subsection \<open>The lifecycle contract\<close>

text \<open>
  \<open>trait CanalLifecycle\<close> as the operations a client sees: \<open>start\<close> and \<open>stop\<close> on the
  component's state and the query \<open>is_running\<close>, with what its callers rely on.
\<close>

locale lifecycle =
  fixes start :: "'s \<Rightarrow> 's" and stop :: "'s \<Rightarrow> 's" and is_running :: "'s \<Rightarrow> bool"
  assumes running_start: "is_running (start s)"
    and not_running_stop: "\<not> is_running (stop s)"
    and start_stop: "start (stop s) = start s"
    and stop_start: "stop (start s) = stop s"
    and start_running: "is_running s \<Longrightarrow> start s = s"
    and stop_stopped: "\<not> is_running s \<Longrightarrow> stop s = s"
begin

lemma start_idem: "start (start s) = start s"
  by (simp add: running_start start_running)

lemma stop_idem: "stop (stop s) = stop s"
  by (simp add: not_running_stop stop_stopped)

text \<open>The last command alone decides the state after a sequence of starts and stops.\<close>

lemma fold_commands:
  "fold (\<lambda>b. if b then start else stop) (cs @ [c]) s = (if c then start s else stop s)"
proof (induction cs arbitrary: s)
  case Nil
  show ?case by simp
next
  case (Cons b cs)
  then show ?case
    by (cases b; cases c) (simp_all add: start_idem stop_idem start_stop stop_start)
qed

end

end
