(* ===== verification/Canal_Binlog.thy ===== *)
theory Canal_Binlog
  imports Canal_Types
begin

text \<open>
  The conversion half of \<open>canal-binlog\<close>: the table map cache (\<open>table_map.rs\<close>), the event
  converter (\<open>converter.rs\<close>) and the serialisation of column values (\<open>column_serde.rs\<close>). The
  lemmas give the column metadata, the images of inserts, updates and deletes with the columns
  marked as updated, the error of an unmapped table, and the texts of binary values.

  The decoded binlog comes from the crate \<open>mysql_cdc\<close>: its records carry the fields that the
  code reads. An integer cell stands for its value, whatever its width there. The text of a
  floating point cell is \<open>to_string\<close>'s, an argument.
\<close>

subsection \<open>Decoded binlog data\<close>

record mysql_date =
  md_year :: int
  md_month :: int
  md_day :: int

record mysql_time =
  mt_hour :: int
  mt_minute :: int
  mt_second :: int

datatype mysql_value =
    TinyInt int | SmallInt int | MediumInt int | MyInt int | BigInt int
  | MyFloat u32 | MyDouble u64
  | MyDecimal string | MyString string
  | MyBlob bytes | MyBit "bool list"
  | MyEnum int | MySet int | MyYear int
  | MyDate mysql_date | MyTime mysql_time | MyDateTime mysql_date mysql_time | MyTimestamp int

record float_display =
  fd_f32 :: "u32 \<Rightarrow> string"
  fd_f64 :: "u64 \<Rightarrow> string"

type_synonym row_cells = "mysql_value option list"

record table_metadata =
  tmd_column_names :: "string list option"
  tmd_simple_primary_keys :: "u32 list option"
  tmd_primary_keys_with_prefix :: "(u32 \<times> u32) list option"

record table_map_event =
  tm_table_id :: u64
  tm_database_name :: string
  tm_table_name :: string
  tm_column_types :: "u8 list"
  tm_null_bitmap :: "bool list"
  tm_table_metadata :: "table_metadata option"

subsection \<open>Table map\<close>

record column_info =
  ci_name :: string
  ci_column_type :: i32
  ci_is_key :: bool
  ci_is_nullable :: bool

record table_map_cache =
  tc_names :: "u64 \<rightharpoonup> string \<times> string"
  tc_columns :: "u64 \<rightharpoonup> column_info list"

definition table_map_new :: table_map_cache where
  "table_map_new = \<lparr>tc_names = Map.empty, tc_columns = Map.empty\<rparr>"

definition table_map_put :: "u64 \<Rightarrow> string \<Rightarrow> string \<Rightarrow> table_map_cache \<Rightarrow> table_map_cache" where
  "table_map_put table_id schema tab c =
     c\<lparr>tc_columns := (tc_columns c)(table_id := None),
       tc_names := (tc_names c)(table_id \<mapsto> (schema, tab))\<rparr>"

definition table_map_put_with_columns ::
    "u64 \<Rightarrow> string \<Rightarrow> string \<Rightarrow> column_info list \<Rightarrow> table_map_cache \<Rightarrow> table_map_cache" where
  "table_map_put_with_columns table_id schema tab cols c =
     c\<lparr>tc_columns := (tc_columns c)(table_id \<mapsto> cols),
       tc_names := (tc_names c)(table_id \<mapsto> (schema, tab))\<rparr>"

definition table_map_get :: "table_map_cache \<Rightarrow> u64 \<Rightarrow> (string \<times> string) option" where
  "table_map_get c table_id = tc_names c table_id"

definition table_map_get_columns :: "table_map_cache \<Rightarrow> u64 \<Rightarrow> column_info list option" where
  "table_map_get_columns c table_id = tc_columns c table_id"

definition table_map_clear :: "table_map_cache \<Rightarrow> table_map_cache" where
  "table_map_clear c = c\<lparr>tc_names := Map.empty, tc_columns := Map.empty\<rparr>"

subsection \<open>Event converter\<close>

record event_converter =
  ec_table_map :: table_map_cache

definition event_converter_new :: event_converter where
  "event_converter_new = \<lparr>ec_table_map = table_map_new\<rparr>"

definition handle_table_map :: "u64 \<Rightarrow> string \<Rightarrow> string \<Rightarrow> event_converter \<Rightarrow> event_converter" where
  "handle_table_map table_id schema tab c =
     c\<lparr>ec_table_map := table_map_put table_id schema tab (ec_table_map c)\<rparr>"

definition handle_table_map_event ::
    "u64 \<Rightarrow> string \<Rightarrow> string \<Rightarrow> column_info list \<Rightarrow> event_converter \<Rightarrow> event_converter" where
  "handle_table_map_event table_id schema tab columns c =
     c\<lparr>ec_table_map := table_map_put_with_columns table_id schema tab columns (ec_table_map c)\<rparr>"

definition converter_get_columns :: "event_converter \<Rightarrow> u64 \<Rightarrow> column_info list option" where
  "converter_get_columns c table_id = table_map_get_columns (ec_table_map c) table_id"

definition clear_table_map :: "event_converter \<Rightarrow> event_converter" where
  "clear_table_map c = c\<lparr>ec_table_map := table_map_clear (ec_table_map c)\<rparr>"

definition table_not_found :: "u64 \<Rightarrow> canal_error" where
  "table_not_found table_id =
     NotFound (''table_id '' @ nat_str (unat table_id) @ '' not found in TableMap '' @ em_dash
       @ '' did you call handle_table_map_event?'')"

text \<open>The derived \<open>Debug\<close> text of an event type.\<close>

definition event_type_debug :: "event_type \<Rightarrow> string" where
  "event_type_debug t =
     (case t of
        EtInsert \<Rightarrow> ''Insert'' | EtUpdate \<Rightarrow> ''Update'' | EtDelete \<Rightarrow> ''Delete'' | EtDdl \<Rightarrow> ''Ddl''
      | EtQuery \<Rightarrow> ''Query'' | EtRotate \<Rightarrow> ''Rotate'' | EtXid \<Rightarrow> ''Xid'' | EtHeartbeat \<Rightarrow> ''Heartbeat''
      | EtUnknown v \<Rightarrow> ''Unknown('' @ int_str (sint v) @ '')'')"

definition handle_row_event ::
    "event_converter \<Rightarrow> u64 \<Rightarrow> event_type \<Rightarrow> column_value list \<Rightarrow> row_change canal_result" where
  "handle_row_event c table_id event_type columns =
     (case table_map_get (ec_table_map c) table_id of
        None \<Rightarrow> Inl (table_not_found table_id)
      | Some (schema, tab) \<Rightarrow>
          (case
             (case event_type of
                EtInsert \<Rightarrow> Inr (None, Some \<lparr>rd_columns = columns\<rparr>, DmlInsert)
              | EtDelete \<Rightarrow> Inr (Some \<lparr>rd_columns = columns\<rparr>, None, DmlDelete)
              | _ \<Rightarrow> Inl (Internal (''handle_row_event does not support '' @ event_type_debug event_type
                       @ ''; use handle_update_row_event'')))
           of
             Inl e \<Rightarrow> Inl e
           | Inr (before, after, dml) \<Rightarrow>
               Inr \<lparr>rc_table_name = tab, rc_schema_name = schema, rc_before = before,
                    rc_after = after, rc_dml_type = dml\<rparr>))"

text \<open>The loop that marks the after image, column \<open>i\<close> against column \<open>i\<close> of the before image.\<close>

fun mark_updated :: "nat \<Rightarrow> column_value list \<Rightarrow> column_value list \<Rightarrow> column_value list" where
  "mark_updated i before [] = []"
| "mark_updated i before (col # cols) =
     col\<lparr>cv_updated :=
           is_none_or (\<lambda>b. cv_value b \<noteq> cv_value col) (if i < length before then Some (before ! i) else None)\<rparr>
       # mark_updated (i + 1) before cols"

definition handle_update_row_event ::
    "event_converter \<Rightarrow> u64 \<Rightarrow> column_value list \<Rightarrow> column_value list \<Rightarrow> row_change canal_result" where
  "handle_update_row_event c table_id before_columns after_columns =
     (case table_map_get (ec_table_map c) table_id of
        None \<Rightarrow> Inl (table_not_found table_id)
      | Some (schema, tab) \<Rightarrow>
          Inr \<lparr>rc_table_name = tab, rc_schema_name = schema,
               rc_before = Some \<lparr>rd_columns = before_columns\<rparr>,
               rc_after = Some \<lparr>rd_columns = mark_updated 0 before_columns after_columns\<rparr>,
               rc_dml_type = DmlUpdate\<rparr>)"

subsection \<open>Column serialisation\<close>

definition col_name :: "nat \<Rightarrow> string" where
  "col_name i = ''col_'' @ nat_str i"

text \<open>\<open>xs.get(i)\<close>.\<close>

definition list_get :: "'a list \<Rightarrow> nat \<Rightarrow> 'a option" where
  "list_get xs i = (if i < length xs then Some (xs ! i) else None)"

definition mark_key :: "nat \<Rightarrow> u32 \<Rightarrow> bool list \<Rightarrow> bool list" where
  "mark_key num_cols idx ks = (if unat idx < num_cols then ks[unat idx := True] else ks)"

definition build_column_infos :: "table_map_event \<Rightarrow> column_info list" where
  "build_column_infos tm =
     (let num_cols = length (tm_column_types tm);
          column_names = unwrap_or (Option.bind (tm_table_metadata tm) tmd_column_names)
                           (map col_name [0..<num_cols]);
          is_key = replicate num_cols False;
          is_key1 =
            (case tm_table_metadata tm of
               None \<Rightarrow> is_key
             | Some meta \<Rightarrow>
                 (let k1 = (case tmd_simple_primary_keys meta of
                              None \<Rightarrow> is_key
                            | Some pks \<Rightarrow> fold (mark_key num_cols) pks is_key)
                  in (case tmd_primary_keys_with_prefix meta of
                        None \<Rightarrow> k1
                      | Some pks \<Rightarrow> fold (\<lambda>(idx, _). mark_key num_cols idx) pks k1)))
      in map (\<lambda>i. \<lparr>ci_name = unwrap_or (list_get column_names i) (col_name i),
                   ci_column_type = ucast (unwrap_or (list_get (tm_column_types tm) i) 0),
                   ci_is_key = is_key1 ! i,
                   ci_is_nullable = unwrap_or (list_get (tm_null_bitmap tm) i) True\<rparr>) [0..<num_cols])"

text \<open>\<open>{:02x}\<close> of a byte, and \<open>{:0w}\<close> of an integer, where the sign counts for the width.\<close>

definition hex_digit :: "nat \<Rightarrow> char" where
  "hex_digit d = (if d < 10 then char_of (48 + d) else char_of (87 + d))"

definition hex_byte :: "u8 \<Rightarrow> string" where
  "hex_byte b = [hex_digit (unat b div 16), hex_digit (unat b mod 16)]"

definition pad_int :: "nat \<Rightarrow> int \<Rightarrow> string" where
  "pad_int w i = (if i < 0 then CHR ''-'' # pad_str (w - 1) (nat_str (nat (- i))) else pad_str w (nat_str (nat i)))"

definition date_str :: "mysql_date \<Rightarrow> string" where
  "date_str d = pad_int 4 (md_year d) @ ''-'' @ pad_int 2 (md_month d) @ ''-'' @ pad_int 2 (md_day d)"

definition time_str :: "mysql_time \<Rightarrow> string" where
  "time_str t = pad_int 2 (mt_hour t) @ '':'' @ pad_int 2 (mt_minute t) @ '':'' @ pad_int 2 (mt_second t)"

definition mysql_value_to_string :: "float_display \<Rightarrow> mysql_value \<Rightarrow> string" where
  "mysql_value_to_string fd v =
     (case v of
        TinyInt n \<Rightarrow> int_str n
      | SmallInt n \<Rightarrow> int_str n
      | MediumInt n \<Rightarrow> int_str n
      | MyInt n \<Rightarrow> int_str n
      | BigInt n \<Rightarrow> int_str n
      | MyFloat n \<Rightarrow> fd_f32 fd n
      | MyDouble n \<Rightarrow> fd_f64 fd n
      | MyDecimal s \<Rightarrow> s
      | MyString s \<Rightarrow> s
      | MyBlob b \<Rightarrow> (if utf8_valid (map unat b) then of_bytes b else concat (map hex_byte b))
      | MyBit bits \<Rightarrow> map (\<lambda>b. if b then CHR ''1'' else CHR ''0'') bits
      | MyEnum n \<Rightarrow> int_str n
      | MySet n \<Rightarrow> int_str n
      | MyYear n \<Rightarrow> int_str n
      | MyDate d \<Rightarrow> date_str d
      | MyTime t \<Rightarrow> time_str t
      | MyDateTime d t \<Rightarrow> date_str d @ '' '' @ time_str t
      | MyTimestamp ts \<Rightarrow> int_str ts)"

definition extract_column_values ::
    "float_display \<Rightarrow> row_cells \<Rightarrow> column_info list \<Rightarrow> column_value list" where
  "extract_column_values fd cells infos =
     map (\<lambda>(i, cell).
            (let info = list_get infos i
             in \<lparr>cv_name = (case info of None \<Rightarrow> col_name i | Some c \<Rightarrow> ci_name c),
                 cv_value = map_option (mysql_value_to_string fd) cell,
                 cv_column_type = (case info of None \<Rightarrow> 0 | Some c \<Rightarrow> ci_column_type c),
                 cv_is_key = is_some_and ci_is_key info,
                 cv_updated = False\<rparr>))
       (enumerate 0 cells)"

subsection \<open>Properties\<close>

lemma table_map_simps [binlog_simps]:
  "table_map_get (table_map_put_with_columns i s t cs c) j = (if j = i then Some (s, t) else table_map_get c j)"
  "table_map_get_columns (table_map_put_with_columns i s t cs c) j
    = (if j = i then Some cs else table_map_get_columns c j)"
  "table_map_get (table_map_put i s t c) j = (if j = i then Some (s, t) else table_map_get c j)"
  "table_map_get_columns (table_map_put i s t c) j = (if j = i then None else table_map_get_columns c j)"
  "table_map_get (table_map_clear c) j = None"
  "table_map_get_columns (table_map_clear c) j = None"
  by (simp_all add: table_map_get_def table_map_get_columns_def table_map_put_with_columns_def
      table_map_put_def table_map_clear_def)

text \<open>Columns without names: a cached column list belongs to a cached name, whatever is done.\<close>

definition table_map_ok :: "table_map_cache \<Rightarrow> bool" where
  "table_map_ok c \<longleftrightarrow> (\<forall>i. table_map_get_columns c i \<noteq> None \<longrightarrow> table_map_get c i \<noteq> None)"

lemma table_map_ok_step:
  assumes "table_map_ok c"
  shows "table_map_ok (table_map_put i s t c)" and "table_map_ok (table_map_put_with_columns i s t cs c)"
    and "table_map_ok (table_map_clear c)"
  using assms by (simp_all add: table_map_ok_def binlog_simps)

lemma nth_mark_updated:
  "k < length cols \<Longrightarrow> mark_updated i before cols ! k = (cols ! k)
     \<lparr>cv_updated := is_none_or (\<lambda>b. cv_value b \<noteq> cv_value (cols ! k)) (list_get before (i + k))\<rparr>"
  by (induction cols arbitrary: i k) (auto simp: list_get_def nth_Cons split: nat.splits)

lemma length_mark_updated [simp]: "length (mark_updated i before cols) = length cols"
  by (induction i before cols rule: mark_updated.induct) simp_all

text \<open>C32: The images of an update. For a mapped table an update keeps the before image as it is and
  every column of the after image, and marks a column as updated exactly when the before image has
  no column at its index or a different value there, NULL included; for an unmapped table it is an
  error.\<close>

theorem update_images:
  "handle_update_row_event c table_id before after =
     (case table_map_get (ec_table_map c) table_id of
        None \<Rightarrow> Inl (table_not_found table_id)
      | Some (schema, tab) \<Rightarrow>
          Inr \<lparr>rc_table_name = tab, rc_schema_name = schema, rc_before = Some \<lparr>rd_columns = before\<rparr>,
               rc_after = Some \<lparr>rd_columns =
                 map (\<lambda>k. (after ! k)\<lparr>cv_updated :=
                    (\<not> (k < length before \<and> cv_value (before ! k) = cv_value (after ! k)))\<rparr>) [0..<length after]\<rparr>,
               rc_dml_type = DmlUpdate\<rparr>)"
proof -
  have "mark_updated 0 before after = map (\<lambda>k. (after ! k)\<lparr>cv_updated :=
      (\<not> (k < length before \<and> cv_value (before ! k) = cv_value (after ! k)))\<rparr>) [0..<length after]"
    by (rule nth_equalityI) (auto simp: nth_mark_updated list_get_def)
  then show ?thesis by (simp only: handle_update_row_event_def)
qed

lemma length_mark_key [simp]: "length (mark_key n idx ks) = length ks"
  by (simp add: mark_key_def)

lemma fold_mark_key:
  assumes "length ks = n" and "i < n"
  shows "length (fold (mark_key n) pks ks) = n
    \<and> (fold (mark_key n) pks ks ! i \<longleftrightarrow> ks ! i \<or> i \<in> unat ` set pks)"
  using assms by (induction pks arbitrary: ks) (auto simp: mark_key_def nth_list_update)

lemma fold_mark_key_prefix:
  "fold (\<lambda>(idx, _). mark_key n idx) pks ks = fold (mark_key n) (map fst pks) ks"
  by (induction pks arbitrary: ks) auto

text \<open>The column indices that a table map declares as primary key.\<close>

definition key_columns :: "table_map_event \<Rightarrow> nat set" where
  "key_columns tm =
     (case tm_table_metadata tm of
        None \<Rightarrow> {}
      | Some meta \<Rightarrow>
          unat ` (set (unwrap_or (tmd_simple_primary_keys meta) [])
                  \<union> fst ` set (unwrap_or (tmd_primary_keys_with_prefix meta) [])))"

text \<open>Column metadata. There is one column per declared column type; each has the name that the
  metadata gives at its index or else \<open>col_i\<close>, its type, its nullability (nullable when unknown),
  and is a key exactly when a primary key, with or without prefix lengths, names its index; indices
  beyond the columns are ignored.\<close>

theorem column_infos:
  "length (build_column_infos tm) = length (tm_column_types tm) \<and>
    build_column_infos tm = map (\<lambda>i.
      \<lparr>ci_name = unwrap_or (Option.bind (Option.bind (tm_table_metadata tm) tmd_column_names)
                   (\<lambda>ns. list_get ns i)) (''col_'' @ nat_str i),
       ci_column_type = ucast (tm_column_types tm ! i), ci_is_key = (i \<in> key_columns tm),
       ci_is_nullable = unwrap_or (list_get (tm_null_bitmap tm) i) True\<rparr>) [0..<length (tm_column_types tm)]"
proof -
  let ?n = "length (tm_column_types tm)"
  have keys: "(case tm_table_metadata tm of
        None \<Rightarrow> replicate ?n False
      | Some meta \<Rightarrow>
          (let k1 = (case tmd_simple_primary_keys meta of None \<Rightarrow> replicate ?n False
                     | Some pks \<Rightarrow> fold (mark_key ?n) pks (replicate ?n False))
           in (case tmd_primary_keys_with_prefix meta of None \<Rightarrow> k1
               | Some pks \<Rightarrow> fold (\<lambda>(idx, _). mark_key ?n idx) pks k1))) ! i \<longleftrightarrow> i \<in> key_columns tm"
    if "i < ?n" for i
    using that
    by (auto simp: key_columns_def fold_mark_key_prefix fold_mark_key Let_def split: option.splits)
  have names: "unwrap_or (list_get (unwrap_or (Option.bind (tm_table_metadata tm) tmd_column_names)
        (map col_name [0..<?n])) i) (col_name i)
      = unwrap_or (Option.bind (Option.bind (tm_table_metadata tm) tmd_column_names)
          (\<lambda>ns. list_get ns i)) (''col_'' @ nat_str i)" if "i < ?n" for i
    using that by (cases "Option.bind (tm_table_metadata tm) tmd_column_names")
      (simp_all add: list_get_def col_name_def)
  have "unwrap_or (list_get (tm_column_types tm) i) 0 = tm_column_types tm ! i" if "i < ?n" for i
    using that by (simp add: list_get_def)
  then show ?thesis
    using keys names unfolding build_column_infos_def Let_def by (auto simp: Let_def)
qed

lemma length_hex: "length (concat (map hex_byte b)) = 2 * length b"
  by (induction b) (simp_all add: hex_byte_def)

definition hex_val :: "char \<Rightarrow> nat" where
  "hex_val c = (let n = of_char c in if n < 58 then n - 48 else n - 87)"

fun unhex :: "string \<Rightarrow> bytes" where
  "unhex (a # b # s) = of_nat (16 * hex_val a + hex_val b) # unhex s"
| "unhex _ = []"

lemma hex_val_hex_digit: "d < 16 \<Longrightarrow> hex_val (hex_digit d) = d"
  by (auto simp: hex_val_def hex_digit_def Let_def)

lemma unhex_hex: "unhex (concat (map hex_byte b)) = b"
proof (induction b)
  case (Cons x b)
  have "unat x < 256"
    using unsigned_less [of x] by simp
  then have "16 * hex_val (hex_digit (unat x div 16)) + hex_val (hex_digit (unat x mod 16)) = unat x"
    by (simp add: hex_val_hex_digit div_less_iff_less_mult)
  with Cons show ?case by (simp add: hex_byte_def)
qed simp

text \<open>The text of a blob. A blob whose bytes are valid UTF-8 becomes that text; any other
  becomes its lower-case hexadecimal text, two characters a byte, from which the bytes can be read
  back. So two blobs of the same kind have the same text only if they are equal.\<close>

theorem blob_text:
  "mysql_value_to_string fd (MyBlob b) =
     (if utf8_valid (map unat b) then of_bytes b else concat (map hex_byte b))
    \<and> as_bytes (of_bytes b) = b \<and> unhex (concat (map hex_byte b)) = b
    \<and> length (concat (map hex_byte b)) = 2 * length b"
  by (simp add: mysql_value_to_string_def unhex_hex length_hex)

end
