(* ===== verification/Canal_Connector.thy ===== *)
theory Canal_Connector
  imports Canal_Binlog
begin

text \<open>
  The replication half of \<open>canal-binlog\<close>, \<open>connector.rs\<close>: one binlog event
  (\<open>process_and_send\<close>), the replication loop (\<open>run_replication\<close>), and the connector's lifecycle
  (\<open>connect\<close>, \<open>disconnect\<close>, \<open>take_receiver\<close>). The lemmas give what the loop puts on the event
  channel for a stream of binlog events: one Canal event per row and per statement, in order, at
  the binlog position, which is the order that the event store requires.

  \<open>mysql_cdc\<close> is the environment: what its iterator yields is the list of \<open>next_outcome\<close>s, and
  \<open>commit\<close> only records what it was given.
\<close>

subsection \<open>The stream and the channel\<close>

record event_header =
  eh_timestamp :: u32
  eh_server_id :: u32
  eh_next_event_position :: u32

datatype binlog_event =
    TableMapEvent table_map_event
  | RotateEvent string
  | HeartbeatEvent
  | XidEvent
  | QueryEvent string string
  | WriteRowsEvent u64 "row_cells list"
  | UpdateRowsEvent u64 "(row_cells \<times> row_cells) list"
  | DeleteRowsEvent u64 "row_cells list"
  | MySqlGtidEvent string
  | MariaDbGtidEvent string
  | OtherEvent string

type_synonym binlog_item = "(string, event_header \<times> binlog_event) rust_result"

text \<open>The sender's end: what was sent, and how many more items are taken before the receiver
  is dropped (all of them if \<open>None\<close>).\<close>

record channel =
  ch_sent :: "canal_event canal_result list"
  ch_room :: "nat option"

definition blocking_send :: "canal_event canal_result \<Rightarrow> channel \<Rightarrow> bool \<times> channel" where
  "blocking_send x ch =
     (if ch_room ch = Some 0 then (False, ch)
      else (True, ch\<lparr>ch_sent := ch_sent ch @ [x], ch_room := map_option (\<lambda>n. n - 1) (ch_room ch)\<rparr>))"

subsection \<open>One binlog event\<close>

definition ddl_sql_max_len :: nat where
  "ddl_sql_max_len = 64 * 1024"

definition truncate_ddl :: "string \<Rightarrow> string" where
  "truncate_ddl sql = (if ddl_sql_max_len < length sql then chars_take ddl_sql_max_len sql else sql)"

definition ddl_event :: "event_header \<Rightarrow> string \<Rightarrow> string \<Rightarrow> string \<Rightarrow> string option \<Rightarrow> canal_event" where
  "ddl_event hdr file database sql gtid =
     \<lparr>ev_journal_name = file, ev_position = ucast (eh_next_event_position hdr),
      ev_server_id = ucast (eh_server_id hdr), ev_execute_time = ucast (eh_timestamp hdr),
      ev_entry_type = EtDdl, ev_schema_name = database, ev_table_name = '''',
      ev_row_change = None, ev_ddl_sql = Some (truncate_ddl sql), ev_gtid = gtid, ev_raw_bytes = []\<rparr>"

definition row_event ::
    "event_header \<Rightarrow> string \<Rightarrow> event_type \<Rightarrow> row_change \<Rightarrow> string option \<Rightarrow> canal_event" where
  "row_event hdr file ty change gtid =
     \<lparr>ev_journal_name = file, ev_position = ucast (eh_next_event_position hdr),
      ev_server_id = ucast (eh_server_id hdr), ev_execute_time = ucast (eh_timestamp hdr),
      ev_entry_type = ty, ev_schema_name = rc_schema_name change,
      ev_table_name = rc_table_name change, ev_row_change = Some change, ev_ddl_sql = None,
      ev_gtid = gtid, ev_raw_bytes = []\<rparr>"

fun send_row_events ::
    "event_header \<Rightarrow> string \<Rightarrow> event_type \<Rightarrow> u64 \<Rightarrow> row_cells list \<Rightarrow> event_converter \<Rightarrow> string option
      \<Rightarrow> (row_cells \<Rightarrow> column_info list \<Rightarrow> column_value list) \<Rightarrow> channel \<Rightarrow> unit canal_result \<times> channel"
  where
  "send_row_events hdr file ty table_id [] conv gtid extract ch = (Inr (), ch)"
| "send_row_events hdr file ty table_id (row # rows) conv gtid extract ch =
     (let columns = unwrap_or (converter_get_columns conv table_id) [];
          values = extract row columns;
          ch' = (case handle_row_event conv table_id ty values of
                   Inr change \<Rightarrow> snd (blocking_send (Inr (row_event hdr file ty change gtid)) ch)
                 | Inl err \<Rightarrow> snd (blocking_send (Inl err) ch))
      in send_row_events hdr file ty table_id rows conv gtid extract ch')"

fun send_update_events ::
    "float_display \<Rightarrow> event_header \<Rightarrow> string \<Rightarrow> u64 \<Rightarrow> (row_cells \<times> row_cells) list \<Rightarrow> event_converter
      \<Rightarrow> string option \<Rightarrow> channel \<Rightarrow> unit canal_result \<times> channel"
  where
  "send_update_events fd hdr file table_id [] conv gtid ch = (Inr (), ch)"
| "send_update_events fd hdr file table_id ((before, after) # rows) conv gtid ch =
     (let columns = unwrap_or (converter_get_columns conv table_id) [];
          before_values = extract_column_values fd before columns;
          after_values = extract_column_values fd after columns;
          ch' = (case handle_update_row_event conv table_id before_values after_values of
                   Inr change \<Rightarrow> snd (blocking_send (Inr (row_event hdr file EtUpdate change gtid)) ch)
                 | Inl err \<Rightarrow> snd (blocking_send (Inl err) ch))
      in send_update_events fd hdr file table_id rows conv gtid ch')"

definition process_and_send ::
    "float_display \<Rightarrow> event_header \<Rightarrow> binlog_event \<Rightarrow> event_converter \<Rightarrow> string \<Rightarrow> string option \<Rightarrow> channel
      \<Rightarrow> unit canal_result \<times> event_converter \<times> channel"
  where
  "process_and_send fd hdr event conv file gtid ch =
     (case event of
        TableMapEvent e \<Rightarrow>
          (Inr (), handle_table_map_event (tm_table_id e) (tm_database_name e) (tm_table_name e)
                     (build_column_infos e) conv, ch)
      | RotateEvent _ \<Rightarrow> (Inr (), clear_table_map conv, ch)
      | HeartbeatEvent \<Rightarrow> (Inr (), conv, ch)
      | XidEvent \<Rightarrow> (Inr (), conv, ch)
      | QueryEvent database sql \<Rightarrow>
          (Inr (), conv, snd (blocking_send (Inr (ddl_event hdr file database sql gtid)) ch))
      | WriteRowsEvent table_id rows \<Rightarrow>
          (let (r, ch') = send_row_events hdr file EtInsert table_id rows conv gtid
                            (extract_column_values fd) ch in (r, conv, ch'))
      | UpdateRowsEvent table_id rows \<Rightarrow>
          (let (r, ch') = send_update_events fd hdr file table_id rows conv gtid ch in (r, conv, ch'))
      | DeleteRowsEvent table_id rows \<Rightarrow>
          (let (r, ch') = send_row_events hdr file EtDelete table_id rows conv gtid
                            (extract_column_values fd) ch in (r, conv, ch'))
      | _ \<Rightarrow> (Inr (), conv, ch))"

subsection \<open>The replication loop\<close>

datatype next_outcome = Item binlog_item | Done | Panicked string

text \<open>
  \<open>next_or_panic\<close>: what the iterator does next, it yields an item, ends, or panics with a
  payload that is a string or not.
\<close>

datatype iterator_step = Yields binlog_item | Ends | PanicsWith "string option"

definition next_or_panic :: "iterator_step \<Rightarrow> next_outcome" where
  "next_or_panic it =
     (case it of
        Yields item \<Rightarrow> Item item
      | Ends \<Rightarrow> Done
      | PanicsWith payload \<Rightarrow> Panicked (unwrap_or payload ''<non-string panic payload>''))"

record replication =
  rp_converter :: event_converter
  rp_file :: string
  rp_gtid :: "string option"
  rp_last_pos :: u64
  rp_errors :: u32
  rp_last_error :: "(string \<times> u64) option"
  rp_channel :: channel
  rp_committed :: "(event_header \<times> binlog_event) list"

definition replication_start :: "string \<Rightarrow> channel \<Rightarrow> replication" where
  "replication_start start_journal ch =
     \<lparr>rp_converter = event_converter_new, rp_file = start_journal, rp_gtid = None,
      rp_last_pos = 0, rp_errors = 0, rp_last_error = None, rp_channel = ch, rp_committed = []\<rparr>"

definition max_consecutive_errors :: u32 where
  "max_consecutive_errors = 3"

definition send_to :: "canal_event canal_result \<Rightarrow> replication \<Rightarrow> bool \<times> replication" where
  "send_to x r = (let (ok, ch) = blocking_send x (rp_channel r) in (ok, r\<lparr>rp_channel := ch\<rparr>))"

definition commit :: "event_header \<Rightarrow> binlog_event \<Rightarrow> replication \<Rightarrow> replication" where
  "commit hdr event r = r\<lparr>rp_committed := rp_committed r @ [(hdr, event)]\<rparr>"

text \<open>The bookkeeping of one decoded event: position, GTID, current file.\<close>

definition track :: "event_header \<Rightarrow> binlog_event \<Rightarrow> replication \<Rightarrow> replication" where
  "track hdr event r =
     (let r1 = r\<lparr>rp_last_pos := ucast (eh_next_event_position hdr)\<rparr>;
          r2 = (case event of
                  MySqlGtidEvent g \<Rightarrow> r1\<lparr>rp_gtid := Some g\<rparr>
                | MariaDbGtidEvent g \<Rightarrow> r1\<lparr>rp_gtid := Some g\<rparr>
                | _ \<Rightarrow> r1)
      in (case event of RotateEvent f \<Rightarrow> r2\<lparr>rp_file := f\<rparr> | _ \<Rightarrow> r2))"

definition decoded_event ::
    "float_display \<Rightarrow> event_header \<Rightarrow> binlog_event \<Rightarrow> replication \<Rightarrow> bool \<times> replication" where
  "decoded_event fd hdr event r0 =
     (let r = track hdr event r0
      in (case process_and_send fd hdr event (rp_converter r) (rp_file r) (rp_gtid r) (rp_channel r) of
            (Inr _, conv, ch) \<Rightarrow>
              (True, commit hdr event (r\<lparr>rp_converter := conv, rp_channel := ch,
                       rp_errors := 0, rp_last_error := None\<rparr>))
          | (Inl e, conv, ch) \<Rightarrow>
              (let pos = (rp_file r, ucast (eh_next_event_position hdr));
                   r1 = r\<lparr>rp_converter := conv, rp_channel := ch\<rparr>;
                   r2 = (if rp_last_error r1 = Some pos then r1\<lparr>rp_errors := rp_errors r1 + 1\<rparr>
                         else r1\<lparr>rp_errors := 1, rp_last_error := Some pos\<rparr>)
               in (case send_to (Inl e) r2 of
                     (False, r3) \<Rightarrow> (False, r3)
                   | (True, r3) \<Rightarrow>
                       (True, commit hdr event
                          (if max_consecutive_errors \<le> rp_errors r3
                           then r3\<lparr>rp_errors := 0, rp_last_error := None\<rparr> else r3))))))"

text \<open>One round of the loop, with the cancellation token as it is read; \<open>False\<close> is a \<open>break\<close>.\<close>

definition replication_round ::
    "float_display \<Rightarrow> iterator_step \<times> bool \<Rightarrow> replication \<Rightarrow> bool \<times> replication" where
  "replication_round fd inp r =
     (let (it, cancelled) = inp
      in (case next_or_panic it of
            Done \<Rightarrow> (False, r)
          | Panicked msg \<Rightarrow>
              (False, snd (send_to (Inl (Protocol (''binlog decoder panicked near '' @ rp_file r @ '':''
                 @ nat_str (unat (rp_last_pos r)) @ '': '' @ msg))) r))
          | Item result \<Rightarrow>
              (if cancelled then (False, r)
               else
                 (case result of
                    Inl e \<Rightarrow> send_to (Inl (Protocol (''binlog stream error: '' @ e))) r
                  | Inr (hdr, event) \<Rightarrow> decoded_event fd hdr event r))))"

fun replication_loop ::
    "float_display \<Rightarrow> (iterator_step \<times> bool) list \<Rightarrow> replication \<Rightarrow> replication" where
  "replication_loop fd [] r = r"
| "replication_loop fd (inp # inps) r =
     (case replication_round fd inp r of
        (False, r') \<Rightarrow> r'
      | (True, r') \<Rightarrow> replication_loop fd inps r')"

text \<open>
  The whole thread: \<open>replicate\<close> fails with the debug text of its error, or starts the stream.
  The first component says whether the start signal was sent.
\<close>

definition run_replication ::
    "float_display \<Rightarrow> string option \<Rightarrow> (iterator_step \<times> bool) list \<Rightarrow> string \<Rightarrow> channel \<Rightarrow> bool \<times> replication"
  where
  "run_replication fd replicate_error inps start_journal ch =
     (let r = replication_start start_journal ch
      in (case replicate_error of
            Some e \<Rightarrow>
              send_to (Inl (BinlogConnection (''failed to start binlog replication: '' @ e))) r
          | None \<Rightarrow> (True, replication_loop fd inps r)))"

subsection \<open>The connector\<close>

text \<open>
  The connector's fields. Its cancellation token is a number; \<open>bc_cancelled\<close> lists the tokens
  that were cancelled, the replication thread's view of them, and \<open>bc_next_token\<close> is a fresh one.
\<close>

record binlog_connector =
  bc_host :: string
  bc_port :: u16
  bc_username :: string
  bc_password :: string
  bc_original_password :: "string option"
  bc_server_id :: u64
  bc_ssl_mode :: string
  bc_connect_timeout_secs :: u64
  bc_sender :: bool
  bc_current_pos :: "log_position option"
  bc_running :: bool
  bc_cancel_token :: "nat option"
  bc_connected :: bool
  bc_cancelled :: "nat list"
  bc_next_token :: nat

definition connector_new ::
    "string \<Rightarrow> u16 \<Rightarrow> string \<Rightarrow> string \<Rightarrow> u64 \<Rightarrow> binlog_connector canal_result" where
  "connector_new host port username password server_id =
     (if 2 ^ 32 - 1 < unat server_id
      then Inl (Config (''server_id '' @ nat_str (unat server_id) @ '' exceeds u32::MAX''))
      else Inr \<lparr>bc_host = host, bc_port = port, bc_username = username, bc_password = password,
                bc_original_password = Some password, bc_server_id = server_id,
                bc_ssl_mode = ''Disabled'', bc_connect_timeout_secs = 30, bc_sender = False,
                bc_current_pos = None, bc_running = False, bc_cancel_token = None,
                bc_connected = False, bc_cancelled = [], bc_next_token = 0\<rparr>)"

definition with_ssl_mode :: "string \<Rightarrow> binlog_connector \<Rightarrow> binlog_connector" where
  "with_ssl_mode mode c = c\<lparr>bc_ssl_mode := mode\<rparr>"

definition with_connect_timeout :: "u64 \<Rightarrow> binlog_connector \<Rightarrow> binlog_connector" where
  "with_connect_timeout secs c = c\<lparr>bc_connect_timeout_secs := secs\<rparr>"

definition with_channel :: "binlog_connector \<Rightarrow> binlog_connector \<times> channel" where
  "with_channel c = (c\<lparr>bc_sender := True\<rparr>, \<lparr>ch_sent = [], ch_room = None\<rparr>)"

record replica_options =
  ro_hostname :: string
  ro_port :: u16
  ro_username :: string
  ro_password :: string
  ro_server_id :: u32
  ro_blocking :: bool
  ro_ssl_mode :: string
  ro_binlog_file :: string
  ro_binlog_pos :: u32

definition build_options :: "binlog_connector \<Rightarrow> log_position \<Rightarrow> replica_options" where
  "build_options c pos =
     \<lparr>ro_hostname = bc_host c, ro_port = bc_port c, ro_username = bc_username c,
      ro_password = bc_password c, ro_server_id = ucast (bc_server_id c), ro_blocking = True,
      ro_ssl_mode = bc_ssl_mode c, ro_binlog_file = lp_journal_name pos,
      ro_binlog_pos = ucast (lp_position pos)\<rparr>"

text \<open>What \<open>connect\<close> sees of the thread it started: its start signal, the signal's sender dropped
  without it, or nothing within the timeout.\<close>

datatype start_signal = SignalSent | SignalDropped | SignalTimeout

definition connector_connect ::
    "log_position \<Rightarrow> start_signal \<Rightarrow> binlog_connector \<Rightarrow> unit canal_result \<times> replica_options option \<times> binlog_connector"
  where
  "connector_connect pos signal c =
     (if bc_running c then (Inl (Internal (''already connected '' @ em_dash @ '' disconnect first'')), None, c)
      else if \<not> bc_sender c then (Inl (Internal ''no sender configured''), None, c)
      else
        (let options = build_options c pos;
             token = bc_next_token c;
             c1 = c\<lparr>bc_password := '''', bc_cancel_token := Some token, bc_next_token := token + 1,
                    bc_current_pos := Some pos, bc_running := True\<rparr>
         in (case signal of
               SignalTimeout \<Rightarrow>
                 (Inl (BinlogConnection (''connection timed out after ''
                    @ nat_str (unat (bc_connect_timeout_secs c)) @ ''s'')), Some options,
                  c1\<lparr>bc_cancelled := token # bc_cancelled c1, bc_running := False\<rparr>)
             | SignalSent \<Rightarrow> (Inr (), Some options, c1\<lparr>bc_connected := True\<rparr>)
             | SignalDropped \<Rightarrow> (Inr (), Some options, c1\<lparr>bc_running := False\<rparr>))))"

text \<open>\<open>None\<close> is the panic of an assertion.\<close>

definition connector_take_receiver :: "binlog_connector \<Rightarrow> (binlog_connector \<times> channel) option" where
  "connector_take_receiver c =
     (if bc_connected c then None
      else if bc_sender c then None
      else Some (c\<lparr>bc_sender := True\<rparr>, \<lparr>ch_sent = [], ch_room = None\<rparr>))"

definition cancel_current :: "binlog_connector \<Rightarrow> binlog_connector" where
  "cancel_current c =
     (case bc_cancel_token c of
        None \<Rightarrow> c
      | Some token \<Rightarrow> c\<lparr>bc_cancel_token := None, bc_cancelled := token # bc_cancelled c\<rparr>)"

definition connector_disconnect :: "binlog_connector \<Rightarrow> unit canal_result \<times> binlog_connector" where
  "connector_disconnect c =
     (let c1 = cancel_current (c\<lparr>bc_running := False, bc_connected := False, bc_sender := False\<rparr>)
      in (Inr (),
          if bc_password c1 = []
          then (case bc_original_password c1 of Some orig \<Rightarrow> c1\<lparr>bc_password := orig\<rparr> | None \<Rightarrow> c1)
          else c1))"

definition connector_current_position :: "binlog_connector \<Rightarrow> log_position option" where
  "connector_current_position c = bc_current_pos c"

definition connector_drop :: "binlog_connector \<Rightarrow> binlog_connector" where
  "connector_drop c = cancel_current c"

subsection \<open>What the channel carries\<close>

text \<open>The specification: what one event puts on an open channel.\<close>

definition row_output ::
    "event_header \<Rightarrow> string \<Rightarrow> event_type \<Rightarrow> string option \<Rightarrow> row_change canal_result \<Rightarrow> canal_event canal_result"
  where
  "row_output hdr file ty gtid r = (case r of Inr change \<Rightarrow> Inr (row_event hdr file ty change gtid) | Inl e \<Rightarrow> Inl e)"

definition event_output ::
    "float_display \<Rightarrow> event_header \<Rightarrow> binlog_event \<Rightarrow> event_converter \<Rightarrow> string \<Rightarrow> string option
      \<Rightarrow> canal_event canal_result list" where
  "event_output fd hdr event conv file gtid =
     (let cols = (\<lambda>table_id row. extract_column_values fd row (unwrap_or (converter_get_columns conv table_id) []))
      in (case event of
            QueryEvent database sql \<Rightarrow> [Inr (ddl_event hdr file database sql gtid)]
          | WriteRowsEvent table_id rows \<Rightarrow>
              map (\<lambda>row. row_output hdr file EtInsert gtid
                     (handle_row_event conv table_id EtInsert (cols table_id row))) rows
          | DeleteRowsEvent table_id rows \<Rightarrow>
              map (\<lambda>row. row_output hdr file EtDelete gtid
                     (handle_row_event conv table_id EtDelete (cols table_id row))) rows
          | UpdateRowsEvent table_id rows \<Rightarrow>
              map (\<lambda>(b, a). row_output hdr file EtUpdate gtid
                     (handle_update_row_event conv table_id (cols table_id b) (cols table_id a))) rows
          | _ \<Rightarrow> []))"

definition next_converter :: "binlog_event \<Rightarrow> event_converter \<Rightarrow> event_converter" where
  "next_converter event conv =
     (case event of
        TableMapEvent e \<Rightarrow> handle_table_map_event (tm_table_id e) (tm_database_name e) (tm_table_name e)
                     (build_column_infos e) conv
      | RotateEvent _ \<Rightarrow> clear_table_map conv
      | _ \<Rightarrow> conv)"

lemma blocking_send_open:
  "ch_room ch = None \<Longrightarrow> blocking_send x ch = (True, ch\<lparr>ch_sent := ch_sent ch @ [x]\<rparr>)"
  by (simp add: blocking_send_def)

lemma send_row_events_open:
  assumes "ch_room ch = None"
  shows "send_row_events hdr file ty table_id rows conv gtid extract ch = (Inr (), ch\<lparr>ch_sent := ch_sent ch
    @ map (\<lambda>row. row_output hdr file ty gtid (handle_row_event conv table_id ty
        (extract row (unwrap_or (converter_get_columns conv table_id) [])))) rows\<rparr>)"
  using assms by (induction rows arbitrary: ch) (auto simp: Let_def blocking_send_open row_output_def split: sum.splits)

lemma send_update_events_open:
  assumes "ch_room ch = None"
  shows "send_update_events fd hdr file table_id rows conv gtid ch = (Inr (), ch\<lparr>ch_sent := ch_sent ch
    @ map (\<lambda>(b, a). row_output hdr file EtUpdate gtid (handle_update_row_event conv table_id
        (extract_column_values fd b (unwrap_or (converter_get_columns conv table_id) []))
        (extract_column_values fd a (unwrap_or (converter_get_columns conv table_id) [])))) rows\<rparr>)"
  using assms by (induction rows arbitrary: ch) (auto simp: Let_def blocking_send_open row_output_def split: sum.splits)

lemma send_row_events_ok: "fst (send_row_events hdr file ty table_id rows conv gtid extract ch) = Inr ()"
  by (induction rows arbitrary: ch) (simp_all add: Let_def)

lemma send_update_events_ok: "fst (send_update_events fd hdr file table_id rows conv gtid ch) = Inr ()"
  by (induction rows arbitrary: ch) (auto simp: Let_def)

lemma process_and_send_ok:
  "fst (process_and_send fd hdr event conv file gtid ch) = Inr ()
    \<and> fst (snd (process_and_send fd hdr event conv file gtid ch)) = next_converter event conv"
  by (cases event) (simp_all add: process_and_send_def next_converter_def split_def Let_def
      send_row_events_ok send_update_events_ok)

lemma process_and_send_open:
  assumes "ch_room ch = None"
  shows "process_and_send fd hdr event conv file gtid ch =
    (Inr (), next_converter event conv, ch\<lparr>ch_sent := ch_sent ch @ event_output fd hdr event conv file gtid\<rparr>)"
  using assms by (cases event) (simp_all add: process_and_send_def event_output_def next_converter_def
      Let_def blocking_send_open send_row_events_open send_update_events_open)

text \<open>Conversion is total. Whatever the event, the state of the channel and the table map,
  processing an event returns \<open>Ok\<close>: rows that cannot be converted go to the channel as errors, one
  per row. So the loop's guard against repeated failures at one position never counts: in every
  state of a replication its error counter is 0 and it has no failed position.\<close>

theorem livelock_guard_unused:
  "rp_errors (snd (run_replication fd err inps start ch)) = 0
    \<and> rp_last_error (snd (run_replication fd err inps start ch)) = None"
proof -
  have round: "rp_errors (snd (replication_round fd inp r)) = 0
      \<and> rp_last_error (snd (replication_round fd inp r)) = None"
    if "rp_errors r = 0" "rp_last_error r = None" for inp r
  proof -
    have dec: "rp_errors (snd (decoded_event fd hdr event r)) = 0
        \<and> rp_last_error (snd (decoded_event fd hdr event r)) = None" for hdr event
      using process_and_send_ok by (auto simp: decoded_event_def commit_def Let_def split: prod.splits sum.splits)
        (metis fst_conv sum.distinct(1))+
    show ?thesis
      using that dec
      by (auto simp: replication_round_def send_to_def split_def Let_def split: next_outcome.splits sum.splits)
  qed
  have "rp_errors (replication_loop fd inps r) = 0 \<and> rp_last_error (replication_loop fd inps r) = None"
    if "rp_errors r = 0" "rp_last_error r = None" for r
    using that
  proof (induction inps arbitrary: r)
    case (Cons inp inps)
    show ?case
      using Cons.IH round [OF Cons.prems, of inp] by (auto split: prod.splits bool.splits)
  qed simp
  then show ?thesis
    by (auto simp: run_replication_def replication_start_def send_to_def Let_def split_def split: option.splits)
qed

subsection \<open>The stream as a whole\<close>

definition next_file :: "binlog_event \<Rightarrow> string \<Rightarrow> string" where
  "next_file event file = (case event of RotateEvent f \<Rightarrow> f | _ \<Rightarrow> file)"

definition next_gtid :: "binlog_event \<Rightarrow> string option \<Rightarrow> string option" where
  "next_gtid event gtid = (case event of MySqlGtidEvent g \<Rightarrow> Some g | MariaDbGtidEvent g \<Rightarrow> Some g | _ \<Rightarrow> gtid)"

fun emitted ::
    "float_display \<Rightarrow> (event_header \<times> binlog_event) list \<Rightarrow> event_converter \<Rightarrow> string \<Rightarrow> string option
      \<Rightarrow> canal_event canal_result list" where
  "emitted fd [] conv file gtid = []"
| "emitted fd ((hdr, event) # items) conv file gtid =
     event_output fd hdr event conv (next_file event file) (next_gtid event gtid)
       @ emitted fd items (next_converter event conv) (next_file event file) (next_gtid event gtid)"

lemma track_simps [simp]:
  "rp_file (track hdr event r) = next_file event (rp_file r)"
  "rp_gtid (track hdr event r) = next_gtid event (rp_gtid r)"
  "rp_converter (track hdr event r) = rp_converter r"
  "rp_channel (track hdr event r) = rp_channel r"
  "rp_committed (track hdr event r) = rp_committed r"
  by (cases event; simp add: track_def Let_def next_file_def next_gtid_def)+

lemma decoded_event_any:
  "fst (decoded_event fd hdr event r) \<and>
    rp_committed (snd (decoded_event fd hdr event r)) = rp_committed r @ [(hdr, event)] \<and>
    rp_file (snd (decoded_event fd hdr event r)) = next_file event (rp_file r) \<and>
    rp_gtid (snd (decoded_event fd hdr event r)) = next_gtid event (rp_gtid r) \<and>
    rp_converter (snd (decoded_event fd hdr event r)) = next_converter event (rp_converter r) \<and>
    rp_channel (snd (decoded_event fd hdr event r)) = snd (snd (process_and_send fd hdr event
      (rp_converter r) (next_file event (rp_file r)) (next_gtid event (rp_gtid r)) (rp_channel r)))"
proof -
  obtain ch where "process_and_send fd hdr event (rp_converter r) (next_file event (rp_file r))
      (next_gtid event (rp_gtid r)) (rp_channel r) = (Inr (), next_converter event (rp_converter r), ch)"
    using process_and_send_ok [of fd hdr event "rp_converter r" "next_file event (rp_file r)"
        "next_gtid event (rp_gtid r)" "rp_channel r"] by (metis prod.collapse)
  then show ?thesis
    by (simp add: decoded_event_def Let_def commit_def)
qed

abbreviation decoded :: "(event_header \<times> binlog_event) list \<Rightarrow> (iterator_step \<times> bool) list" where
  "decoded items \<equiv> map (\<lambda>x. (Yields (Inr x), False)) items"

lemma replication_round_decoded:
  "replication_round fd (Yields (Inr (hdr, event)), False) r = decoded_event fd hdr event r"
  by (simp add: replication_round_def next_or_panic_def)

lemma replication_loop_decoded:
  "replication_loop fd ((Yields (Inr (hdr, event)), False) # inps) r
    = replication_loop fd inps (snd (decoded_event fd hdr event r))"
proof -
  obtain r' where "decoded_event fd hdr event r = (True, r')"
    using decoded_event_any [of fd hdr event r] by (metis prod.collapse)
  then show ?thesis by (simp add: replication_round_decoded)
qed

lemma replication_loop_emits:
  assumes "ch_room (rp_channel r) = None"
  shows "ch_sent (rp_channel (replication_loop fd (decoded items) r))
      = ch_sent (rp_channel r) @ emitted fd items (rp_converter r) (rp_file r) (rp_gtid r)"
  using assms
proof (induction items arbitrary: r)
  case (Cons x items)
  obtain hdr event where x: "x = (hdr, event)" by fastforce
  show ?case
    using Cons.IH [of "snd (decoded_event fd hdr event r)"] Cons.prems
      decoded_event_any [of fd hdr event r]
    by (simp add: x replication_loop_decoded process_and_send_open del: replication_loop.simps)
qed simp

text \<open>C24: What replication emits. For a stream of decoded events and an open channel, the channel
  carries, in stream order, one event per statement and per row of a mapped table and one error per
  row of an unmapped one: with the binlog file current at that point, the position after the binlog
  event, the last GTID seen, and the images of the row under the table map current at that
  point.\<close>

theorem replication_emits:
  assumes "ch_room ch = None"
  shows "ch_sent (rp_channel (snd (run_replication fd None (decoded items) start ch)))
    = ch_sent ch @ emitted fd items event_converter_new start None"
  using replication_loop_emits [of "replication_start start ch" fd items] assms
  by (simp add: run_replication_def replication_start_def Let_def)

text \<open>A stream of one statement and one row, for the concrete instances.\<close>

definition sample_header :: "u32 \<Rightarrow> event_header" where
  "sample_header p = \<lparr>eh_timestamp = 0, eh_server_id = 1, eh_next_event_position = p\<rparr>"

definition sample_floats :: float_display where
  "sample_floats = \<lparr>fd_f32 = (\<lambda>_. ''0''), fd_f64 = (\<lambda>_. ''0'')\<rparr>"

definition sample_stream :: "(event_header \<times> binlog_event) list" where
  "sample_stream = [(sample_header 100, QueryEvent ''db'' ''BEGIN''),
     (sample_header 200, WriteRowsEvent 9 [[Some (MyInt 1)]]), (sample_header 4, RotateEvent ''b.2'')]"

lemma replication_emits_witness:
  "ch_sent (rp_channel (snd (run_replication sample_floats None (decoded sample_stream) ''b.1''
      \<lparr>ch_sent = [], ch_room = None\<rparr>)))
    = [Inr (ddl_event (sample_header 100) ''b.1'' ''db'' ''BEGIN'' None), Inl (table_not_found 9)]"
  using replication_emits [of "\<lparr>ch_sent = [], ch_room = None\<rparr>" sample_floats sample_stream "''b.1''"]
  by (simp add: sample_stream_def event_output_def next_file_def next_gtid_def next_converter_def
      row_output_def handle_row_event_def event_converter_new_def table_map_new_def table_map_get_def)

text \<open>The events among what was sent.\<close>

definition ok_events :: "canal_event canal_result list \<Rightarrow> canal_event list" where
  "ok_events xs = concat (map (\<lambda>x. case x of Inr e \<Rightarrow> [e] | Inl _ \<Rightarrow> []) xs)"

lemma ok_events_append [simp]: "ok_events (xs @ ys) = ok_events xs @ ok_events ys"
  by (simp add: ok_events_def)

lemma in_ok_events [simp]: "e \<in> set (ok_events xs) \<longleftrightarrow> Inr e \<in> set xs"
  by (induction xs) (auto simp: ok_events_def split: sum.splits)

lemma ok_events_Nil [simp]: "ok_events [] = []"
  by (simp add: ok_events_def)

text \<open>
  The keys of the binlog events that carry data, statements and rows, in their stream: current file
  and next position. The positions in the headers of the other events, a rotation's among them, do
  not matter.
\<close>

definition carries_data :: "binlog_event \<Rightarrow> bool" where
  "carries_data event =
     (case event of
        QueryEvent _ _ \<Rightarrow> True
      | WriteRowsEvent _ _ \<Rightarrow> True
      | UpdateRowsEvent _ _ \<Rightarrow> True
      | DeleteRowsEvent _ _ \<Rightarrow> True
      | _ \<Rightarrow> False)"

fun stream_keys :: "(event_header \<times> binlog_event) list \<Rightarrow> string \<Rightarrow> (u64 \<times> u64) list" where
  "stream_keys [] file = []"
| "stream_keys ((hdr, event) # items) file =
     (if carries_data event
      then [(binlog_suffix (next_file event file), ucast (eh_next_event_position hdr))] else [])
       @ stream_keys items (next_file event file)"

lemma event_output_keys:
  "e \<in> set (ok_events (event_output fd hdr event conv file gtid)) \<Longrightarrow>
    carries_data event \<and> ev_key e = (binlog_suffix file, ucast (eh_next_event_position hdr))"
  by (cases event) (auto simp: event_output_def row_output_def ev_key_def carries_data_def
      ddl_event_def row_event_def Let_def split: sum.splits)

lemma emitted_keys:
  "e \<in> set (ok_events (emitted fd items conv jf gtid)) \<Longrightarrow> ev_key e \<in> set (stream_keys items jf)"
  by (induction fd items conv jf gtid rule: emitted.induct)
    (auto dest: event_output_keys [unfolded in_ok_events])

lemma emitted_sorted:
  "sorted (stream_keys items jf) \<Longrightarrow> sorted (map ev_key (ok_events (emitted fd items conv jf gtid)))"
proof (induction fd items conv jf gtid rule: emitted.induct)
  case (2 fd hdr event items conv jf gtid)
  let ?k = "(binlog_suffix (next_file event jf), ucast (eh_next_event_position hdr)) :: u64 \<times> u64"
  let ?out = "ok_events (event_output fd hdr event conv (next_file event jf) (next_gtid event gtid))"
  have "map ev_key ?out = map (\<lambda>_. ?k) ?out"
    using event_output_keys by (intro map_cong refl) blast
  then have "sorted (map ev_key ?out)"
    by (simp add: map_replicate_const)
  moreover have keys: "sorted (stream_keys items (next_file event jf))"
    "carries_data event \<Longrightarrow> \<forall>k \<in> set (stream_keys items (next_file event jf)). ?k \<le> k"
    using "2.prems" by (simp_all add: sorted_append split: if_splits)
  moreover have "ev_key x \<le> ev_key y"
    if "x \<in> set ?out" "y \<in> set (ok_events (emitted fd items (next_converter event conv)
      (next_file event jf) (next_gtid event gtid)))" for x y
    using event_output_keys [OF that(1)] emitted_keys [OF that(2)] keys(2) by simp
  ultimately show ?case
    using "2.IH" unfolding emitted.simps ok_events_append sorted_map_append by blast
qed simp

text \<open>Replication feeds the store in order. When the statements and row events of a stream come
  in the order of file number and position, as MySQL sends them, so do the Canal events on the channel,
  which is what \<open>put_batch\<close> asserts of what it is fed.\<close>

theorem replication_in_order:
  assumes "sorted (stream_keys items start)"
  shows "sorted (map ev_key (ok_events (ch_sent (rp_channel (snd
    (run_replication fd None (decoded items) start \<lparr>ch_sent = [], ch_room = None\<rparr>))))))"
  using emitted_sorted [OF assms, of fd event_converter_new None]
    replication_loop_emits [of "replication_start start \<lparr>ch_sent = [], ch_room = None\<rparr>" fd items]
  by (simp add: run_replication_def replication_start_def Let_def)

lemma binlog_suffix_sample: "binlog_suffix ''b.1'' = 1" "binlog_suffix ''b.2'' = 2"
proof -
  have "nat_str 1 = ''1''" "nat_str 2 = ''2''"
    by code_simp+
  then show "binlog_suffix ''b.1'' = 1" "binlog_suffix ''b.2'' = 2"
    using binlog_suffix_numbered [of 1 "''b''" 0] binlog_suffix_numbered [of 2 "''b''" 0]
    by (simp_all add: pad_str_def)
qed

lemma replication_in_order_witness:
  "sorted (map ev_key (ok_events (ch_sent (rp_channel (snd
    (run_replication sample_floats None (decoded sample_stream) ''b.1'' \<lparr>ch_sent = [], ch_room = None\<rparr>))))))"
  by (rule replication_in_order)
    (simp add: sample_stream_def next_file_def sample_header_def binlog_suffix_sample carries_data_def)

text \<open>Rows of unmapped tables. A row event whose table id is not in the table map, which after
  a rotation is every table id until its next table map event, puts one error per row on the
  channel and no event.\<close>

theorem unmapped_rows_are_errors:
  assumes "table_map_get (ec_table_map conv) table_id = None"
    and "event \<in> {WriteRowsEvent table_id rows, DeleteRowsEvent table_id rows, UpdateRowsEvent table_id urows}"
  shows "\<exists>n. event_output fd hdr event conv file gtid = replicate n (Inl (table_not_found table_id))
    \<and> n = (case event of UpdateRowsEvent _ us \<Rightarrow> length us | _ \<Rightarrow> length rows)
    \<and> table_map_get (ec_table_map (next_converter (RotateEvent f) conv')) table_id = None"
  using assms by (auto simp: event_output_def row_output_def handle_row_event_def Let_def split_def
      handle_update_row_event_def map_replicate_const next_converter_def clear_table_map_def binlog_simps)

lemma unmapped_rows_are_errors_witness:
  "event_output sample_floats (sample_header 9) (WriteRowsEvent 7 [[], []]) event_converter_new ''b.1'' None
    = replicate 2 (Inl (table_not_found 7))"
  using unmapped_rows_are_errors [of event_converter_new 7 "WriteRowsEvent 7 [[], []]" "[[], []]"]
  by (fastforce simp: event_converter_new_def table_map_new_def table_map_get_def numeral_2_eq_2)

lemma process_and_send_closed:
  assumes "ch_room ch = Some 0"
  shows "snd (snd (process_and_send fd hdr event conv file gtid ch)) = ch"
proof -
  have closed: "snd (blocking_send x ch) = ch" for x
    using assms by (simp add: blocking_send_def)
  have "snd (send_row_events hdr file ty table_id rows conv gtid ex ch) = ch"
    for ty table_id rows ex
    by (induction rows) (auto simp: Let_def closed split: sum.splits)
  moreover have "snd (send_update_events fd hdr file table_id rows conv gtid ch) = ch" for table_id rows
    by (induction rows) (auto simp: Let_def closed split: sum.splits)
  ultimately show ?thesis
    by (cases event) (simp_all add: process_and_send_def split_def Let_def closed)
qed

text \<open>Events are committed whether or not they are received. Every decoded event of the
  stream is committed once and in order. When the receiver of the channel is gone nothing stops the
  loop: it goes on decoding and committing, and the events are lost.\<close>

theorem commits_without_receiver:
  "let r = snd (run_replication fd None (decoded items) start (ch\<lparr>ch_room := Some 0\<rparr>))
   in rp_committed r = items \<and> ch_sent (rp_channel r) = ch_sent ch"
proof -
  have "rp_committed (replication_loop fd (decoded items) r) = rp_committed r @ items
      \<and> rp_channel (replication_loop fd (decoded items) r) = rp_channel r"
    if "ch_room (rp_channel r) = Some 0" for r
    using that
  proof (induction items arbitrary: r)
    case (Cons x items)
    obtain hdr event where x: "x = (hdr, event)" by fastforce
    show ?case
      using Cons.IH [of "snd (decoded_event fd hdr event r)"] Cons.prems decoded_event_any [of fd hdr event r]
      by (simp add: x replication_loop_decoded process_and_send_closed del: replication_loop.simps)
  qed simp
  then show ?thesis
    by (simp add: run_replication_def replication_start_def Let_def)
qed

subsection \<open>Long statements\<close>

lemma chars_count_le: "chars_count s \<le> length s"
  by (simp add: chars_count_def)

text \<open>A text of two-byte characters.\<close>

definition two_byte :: "nat \<Rightarrow> string" where
  "two_byte n = concat (replicate n [CHR 0xC3, CHR 0xA9])"

lemma length_two_byte [simp]: "length (two_byte n) = 2 * n"
  by (induction n) (simp_all add: two_byte_def)

lemma chars_take_two_byte: "chars_take n (two_byte (n + m)) = two_byte n"
proof (induction n)
  case 0
  then show ?case by (cases m) (simp_all add: two_byte_def utf8_cont_def)
next
  case (Suc n)
  then show ?case by (simp add: two_byte_def utf8_cont_def)
qed

text \<open>Truncation of long statements. A statement of at most 64 KB is kept as it is; a longer
  one is cut to its first 65536 characters, at a character boundary. The limit is meant in bytes
  but counts characters: a text of more than 64 KB may be kept whole, and the result may be longer
  than 64 KB.\<close>

theorem ddl_truncation:
  "(\<exists>rest. sql = truncate_ddl sql @ rest) \<and> chars_count (truncate_ddl sql) \<le> ddl_sql_max_len
    \<and> (if chars_count sql \<le> ddl_sql_max_len then truncate_ddl sql = sql else ddl_sql_max_len < length sql)
    \<and> (\<exists>long. ddl_sql_max_len < length (truncate_ddl long) \<and> truncate_ddl long \<noteq> long)"
proof -
  have pre: "\<exists>rest. sql = truncate_ddl sql @ rest"
    using chars_take_prefix by (auto simp: truncate_ddl_def)
  have count: "chars_count (truncate_ddl sql) \<le> ddl_sql_max_len"
    using chars_count_le [of sql] chars_count_chars_take [of ddl_sql_max_len sql]
    by (auto simp: truncate_ddl_def)
  have keep: "if chars_count sql \<le> ddl_sql_max_len then truncate_ddl sql = sql else ddl_sql_max_len < length sql"
    using chars_count_le [of sql] by (auto simp: truncate_ddl_def chars_take_all)
  have "truncate_ddl (two_byte (ddl_sql_max_len + 1)) = two_byte ddl_sql_max_len"
    unfolding truncate_ddl_def using chars_take_two_byte [of ddl_sql_max_len 1] by simp
  moreover have "two_byte ddl_sql_max_len \<noteq> two_byte (ddl_sql_max_len + 1)"
    using length_two_byte [of ddl_sql_max_len] length_two_byte [of "ddl_sql_max_len + 1"] by fastforce
  moreover have "0 < ddl_sql_max_len"
    by (simp add: ddl_sql_max_len_def)
  ultimately have "ddl_sql_max_len < length (truncate_ddl (two_byte (ddl_sql_max_len + 1)))
      \<and> truncate_ddl (two_byte (ddl_sql_max_len + 1)) \<noteq> two_byte (ddl_sql_max_len + 1)"
    by simp
  with pre count keep show ?thesis by blast
qed

subsection \<open>Connecting again\<close>

text \<open>Reconnecting. A connect that is answered, in whatever way, followed by a disconnect
  leaves the connector as it needs to be to connect again: not running, with its password, with the
  thread's token cancelled, and ready to give out a new receiver. A connect after a timeout without
  the disconnect in between goes out with an empty password.\<close>

theorem reconnect:
  assumes "\<not> bc_running c" and "bc_sender c" and "bc_original_password c = Some pw" and "bc_password c = pw"
    and "connector_connect pos signal c = (r, opts, c1)" and "connector_disconnect c1 = (r2, c2)"
    and "connector_connect pos SignalTimeout c = (r3, opts3, c3)"
  shows "(\<exists>o1. opts = Some o1 \<and> ro_password o1 = pw) \<and> r2 = Inr () \<and> \<not> bc_running c2
    \<and> \<not> bc_connected c2 \<and> bc_password c2 = pw \<and> bc_next_token c \<in> set (bc_cancelled c2)
    \<and> connector_take_receiver c2 = Some (c2\<lparr>bc_sender := True\<rparr>, \<lparr>ch_sent = [], ch_room = None\<rparr>)
    \<and> (\<exists>o2. fst (snd (connector_connect pos signal' c3)) = Some o2 \<and> ro_password o2 = '''')"
proof -
  have c1: "bc_password c1 = '''' \<and> bc_cancel_token c1 = Some (bc_next_token c)
      \<and> bc_original_password c1 = Some pw \<and> opts = Some (build_options c pos)"
    using assms(1,2,3,5) by (cases signal) (auto simp: connector_connect_def Let_def)
  then have c2: "c2 = c1\<lparr>bc_running := False, bc_connected := False, bc_sender := False,
      bc_cancel_token := None, bc_cancelled := bc_next_token c # bc_cancelled c1, bc_password := pw\<rparr>" "r2 = Inr ()"
    using assms(6) by (auto simp: connector_disconnect_def cancel_current_def Let_def)
  have c3: "\<not> bc_running c3 \<and> bc_sender c3 \<and> bc_password c3 = ''''"
    using assms(1,2,7) by (auto simp: connector_connect_def Let_def)
  have "ro_password (build_options c pos) = pw"
    using assms(4) by (simp add: build_options_def)
  moreover have "fst (snd (connector_connect pos signal' c3)) = Some (build_options c3 pos)"
    using c3 by (cases signal') (simp_all add: connector_connect_def Let_def)
  moreover have "ro_password (build_options c3 pos) = ''''"
    using c3 by (simp add: build_options_def)
  moreover have "connector_take_receiver c2 = Some (c2\<lparr>bc_sender := True\<rparr>, \<lparr>ch_sent = [], ch_room = None\<rparr>)"
    by (simp add: connector_take_receiver_def c2)
  ultimately show ?thesis
    using c1 by (simp add: c2)
qed

lemma reconnect_witness:
  "\<exists>c c3 o2. connector_new ''h'' 3306 ''u'' ''pw'' 1 = Inr c
    \<and> c3 = snd (snd (connector_connect (log_position_new ''b.1'' 4) SignalTimeout (fst (with_channel c))))
    \<and> fst (snd (connector_connect (log_position_new ''b.1'' 4) SignalSent c3)) = Some o2
    \<and> ro_password o2 = ''''"
proof -
  let ?p = "log_position_new ''b.1'' 4"
  obtain c where c: "connector_new ''h'' 3306 ''u'' ''pw'' 1 = Inr c" "\<not> bc_running c"
    "bc_original_password c = Some ''pw''" "bc_password c = ''pw''"
    by (simp add: connector_new_def)
  let ?c = "fst (with_channel c)"
  have d: "\<not> bc_running ?c" "bc_sender ?c" "bc_original_password ?c = Some ''pw''" "bc_password ?c = ''pw''"
    using c by (simp_all add: with_channel_def)
  obtain r1 o1 c1 where c1: "connector_connect ?p SignalSent ?c = (r1, o1, c1)" by (metis prod_cases3)
  obtain r2 c2 where c2: "connector_disconnect c1 = (r2, c2)" by fastforce
  obtain r3 o3 c3 where c3: "connector_connect ?p SignalTimeout ?c = (r3, o3, c3)" by (metis prod_cases3)
  show ?thesis
    using reconnect [OF d c1 c2 c3, of SignalSent] c(1) c3 by auto
qed

text \<open>A connect that reports success without a connection. When replication cannot be started
  and its error can still be put on the channel, the thread sends the start signal all the same, and
  \<open>connect\<close> returns \<open>Ok\<close> as connected; when the channel is closed, the signal is dropped and
  \<open>connect\<close> returns \<open>Ok\<close> too. Only the timeout is an error.\<close>

theorem connect_hides_failure:
  assumes "\<not> bc_running c" and "bc_sender c"
    and "run_replication fd (Some e) inps start ch = (signalled, r)"
    and "signal = (if signalled then SignalSent else SignalDropped)"
  shows "fst (connector_connect pos signal c) = Inr ()
    \<and> (bc_connected (snd (snd (connector_connect pos signal c))) \<longleftrightarrow> ch_room ch \<noteq> Some 0 \<or> bc_connected c)"
  using assms by (auto simp: connector_connect_def run_replication_def send_to_def blocking_send_def
      replication_start_def Let_def)

lemma connect_hides_failure_witness:
  "\<exists>c. connector_new ''h'' 3306 ''u'' ''pw'' 1 = Inr c \<and>
    fst (connector_connect (log_position_new ''b.1'' 4) SignalSent (fst (with_channel c))) = Inr ()"
proof -
  obtain c where c: "connector_new ''h'' 3306 ''u'' ''pw'' 1 = Inr c" "\<not> bc_running c"
    by (simp add: connector_new_def)
  have "\<not> bc_running (fst (with_channel c))" "bc_sender (fst (with_channel c))"
    using c by (simp_all add: with_channel_def)
  then show ?thesis
    using connect_hides_failure [of "fst (with_channel c)" sample_floats "''refused''" "[]" "''b.1''"
        "\<lparr>ch_sent = [], ch_room = None\<rparr>" True _ SignalSent "log_position_new ''b.1'' 4"] c(1)
    by (auto simp: run_replication_def send_to_def blocking_send_def replication_start_def Let_def)
qed

end
