(* ===== verification/Canal_Proto.thy ===== *)
theory Canal_Proto
  imports Canal_Types
begin

text \<open>
  The crate \<open>canal-proto\<close>: the message and enumeration types of the Canal wire protocol, as
  \<open>prost-build\<close> generates them. A \<open>oneof\<close> is a datatype inside an \<open>option\<close>; an
  enumeration field is its \<open>i32\<close>. The enumerations carry their discriminants, their protobuf
  names in both directions, and the derived order.

  The wire format itself is the \<open>prost\<close> crate's, a parameter: the record \<open>prost\<close> has one
  encoder and one decoder per message type the code uses, and what the code relies on, that a
  decoder reads back what the encoder wrote, is a hypothesis on the messages concerned.
\<close>

subsection \<open>Enumerations\<close>

text \<open>Facts on discriminants that every enumeration uses.\<close>

lemma disc_word_inject:
  assumes "m < n" and "k < n" and "n \<le> 2 ^ 31"
  shows "(of_nat m :: i32) = of_nat k \<longleftrightarrow> m = k"
  using assms by (simp add: word_unat_eq_iff unat_of_nat)

lemma find_unique:
  assumes "x \<in> set xs" and "P x" and "\<And>y. P y \<Longrightarrow> y = x"
  shows "find P xs = Some x"
proof -
  have "find P xs = Some x" if "x \<in> set xs" for xs
    using that
  proof (induction xs)
    case (Cons a xs)
    show ?case
      using Cons assms(2) assms(3) [of a] by (cases "P a") auto
  qed simp
  with assms(1) show ?thesis by blast
qed

datatype compression =
    CmpCompressioncompatibleproto2 | CmpNone | CmpZlib | CmpGzip | CmpLzf

definition compression_disc :: "compression \<Rightarrow> nat" where
  "compression_disc x =
     (case x of
        CmpCompressioncompatibleproto2 \<Rightarrow> 0
      | CmpNone \<Rightarrow> 1
      | CmpZlib \<Rightarrow> 2
      | CmpGzip \<Rightarrow> 3
      | CmpLzf \<Rightarrow> 4)"

definition compression_i32 :: "compression \<Rightarrow> i32" where
  "compression_i32 x = of_nat (compression_disc x)"

definition compression_as_str_name :: "compression \<Rightarrow> string" where
  "compression_as_str_name x =
     (case x of
        CmpCompressioncompatibleproto2 \<Rightarrow> ''COMPRESSIONCOMPATIBLEPROTO2''
      | CmpNone \<Rightarrow> ''NONE''
      | CmpZlib \<Rightarrow> ''ZLIB''
      | CmpGzip \<Rightarrow> ''GZIP''
      | CmpLzf \<Rightarrow> ''LZF'')"

definition compression_from_str_name :: "string \<Rightarrow> compression option" where
  "compression_from_str_name v =
     (if v = ''COMPRESSIONCOMPATIBLEPROTO2'' then Some CmpCompressioncompatibleproto2
      else if v = ''NONE'' then Some CmpNone
      else if v = ''ZLIB'' then Some CmpZlib
      else if v = ''GZIP'' then Some CmpGzip
      else if v = ''LZF'' then Some CmpLzf
      else None)"

definition compression_all :: "compression list" where
  "compression_all = [CmpCompressioncompatibleproto2, CmpNone, CmpZlib, CmpGzip, CmpLzf]"

text \<open>\<open>TryFrom<i32>\<close>, derived by \<open>Enumeration\<close>: the variant with that discriminant.\<close>

definition compression_try_from :: "i32 \<Rightarrow> compression option" where
  "compression_try_from v = find (\<lambda>x. compression_i32 x = v) compression_all"

lemma compression_in_all [simp]: "x \<in> set compression_all"
  by (cases x) (simp_all add: compression_all_def)

lemma compression_disc_lt: "compression_disc x < 5"
  by (cases x) (simp_all add: compression_disc_def)

lemma compression_disc_inject [simp]: "compression_disc x = compression_disc y \<longleftrightarrow> x = y"
  by (cases x; cases y) (simp_all add: compression_disc_def)

lemma compression_i32_inject [simp]: "compression_i32 x = compression_i32 y \<longleftrightarrow> x = y"
  using compression_disc_lt [of x] compression_disc_lt [of y]
  by (simp add: compression_i32_def disc_word_inject [of _ 5])

lemma compression_try_from_i32 [simp]: "compression_try_from (compression_i32 x) = Some x"
  unfolding compression_try_from_def by (rule find_unique) simp_all

lemma compression_from_as_str [simp]: "compression_from_str_name (compression_as_str_name x) = Some x"
  by (cases x) (simp_all add: compression_as_str_name_def compression_from_str_name_def)

lemma compression_from_str_name_Some: "compression_from_str_name v = Some x \<Longrightarrow> v = compression_as_str_name x"
  unfolding compression_from_str_name_def by (auto simp: compression_as_str_name_def split: if_splits)

instantiation compression :: linorder
begin

definition less_eq_compression :: "compression \<Rightarrow> compression \<Rightarrow> bool" where
  "x \<le> y \<longleftrightarrow> compression_disc x \<le> compression_disc y"

definition less_compression :: "compression \<Rightarrow> compression \<Rightarrow> bool" where
  "x < y \<longleftrightarrow> compression_disc x < compression_disc y"

instance
  by standard (auto simp: less_eq_compression_def less_compression_def)

end

datatype packet_type =
    PtPackagetypecompatibleproto2 | PtHandshake | PtClientauthentication | PtAck
  | PtSubscription | PtUnsubscription | PtGet | PtMessages | PtClientack | PtShutdown | PtDump
  | PtHeartbeat | PtClientrollback

definition packet_type_disc :: "packet_type \<Rightarrow> nat" where
  "packet_type_disc x =
     (case x of
        PtPackagetypecompatibleproto2 \<Rightarrow> 0
      | PtHandshake \<Rightarrow> 1
      | PtClientauthentication \<Rightarrow> 2
      | PtAck \<Rightarrow> 3
      | PtSubscription \<Rightarrow> 4
      | PtUnsubscription \<Rightarrow> 5
      | PtGet \<Rightarrow> 6
      | PtMessages \<Rightarrow> 7
      | PtClientack \<Rightarrow> 8
      | PtShutdown \<Rightarrow> 9
      | PtDump \<Rightarrow> 10
      | PtHeartbeat \<Rightarrow> 11
      | PtClientrollback \<Rightarrow> 12)"

definition packet_type_i32 :: "packet_type \<Rightarrow> i32" where
  "packet_type_i32 x = of_nat (packet_type_disc x)"

definition packet_type_as_str_name :: "packet_type \<Rightarrow> string" where
  "packet_type_as_str_name x =
     (case x of
        PtPackagetypecompatibleproto2 \<Rightarrow> ''PACKAGETYPECOMPATIBLEPROTO2''
      | PtHandshake \<Rightarrow> ''HANDSHAKE''
      | PtClientauthentication \<Rightarrow> ''CLIENTAUTHENTICATION''
      | PtAck \<Rightarrow> ''ACK''
      | PtSubscription \<Rightarrow> ''SUBSCRIPTION''
      | PtUnsubscription \<Rightarrow> ''UNSUBSCRIPTION''
      | PtGet \<Rightarrow> ''GET''
      | PtMessages \<Rightarrow> ''MESSAGES''
      | PtClientack \<Rightarrow> ''CLIENTACK''
      | PtShutdown \<Rightarrow> ''SHUTDOWN''
      | PtDump \<Rightarrow> ''DUMP''
      | PtHeartbeat \<Rightarrow> ''HEARTBEAT''
      | PtClientrollback \<Rightarrow> ''CLIENTROLLBACK'')"

definition packet_type_from_str_name :: "string \<Rightarrow> packet_type option" where
  "packet_type_from_str_name v =
     (if v = ''PACKAGETYPECOMPATIBLEPROTO2'' then Some PtPackagetypecompatibleproto2
      else if v = ''HANDSHAKE'' then Some PtHandshake
      else if v = ''CLIENTAUTHENTICATION'' then Some PtClientauthentication
      else if v = ''ACK'' then Some PtAck
      else if v = ''SUBSCRIPTION'' then Some PtSubscription
      else if v = ''UNSUBSCRIPTION'' then Some PtUnsubscription
      else if v = ''GET'' then Some PtGet
      else if v = ''MESSAGES'' then Some PtMessages
      else if v = ''CLIENTACK'' then Some PtClientack
      else if v = ''SHUTDOWN'' then Some PtShutdown
      else if v = ''DUMP'' then Some PtDump
      else if v = ''HEARTBEAT'' then Some PtHeartbeat
      else if v = ''CLIENTROLLBACK'' then Some PtClientrollback
      else None)"

definition packet_type_all :: "packet_type list" where
  "packet_type_all = [PtPackagetypecompatibleproto2, PtHandshake, PtClientauthentication, PtAck,
     PtSubscription, PtUnsubscription, PtGet, PtMessages, PtClientack, PtShutdown, PtDump,
     PtHeartbeat, PtClientrollback]"

text \<open>\<open>TryFrom<i32>\<close>, derived by \<open>Enumeration\<close>: the variant with that discriminant.\<close>

definition packet_type_try_from :: "i32 \<Rightarrow> packet_type option" where
  "packet_type_try_from v = find (\<lambda>x. packet_type_i32 x = v) packet_type_all"

lemma packet_type_in_all [simp]: "x \<in> set packet_type_all"
  by (cases x) (simp_all add: packet_type_all_def)

lemma packet_type_disc_lt: "packet_type_disc x < 13"
  by (cases x) (simp_all add: packet_type_disc_def)

lemma packet_type_disc_inject [simp]: "packet_type_disc x = packet_type_disc y \<longleftrightarrow> x = y"
  by (cases x; cases y) (simp_all add: packet_type_disc_def)

lemma packet_type_i32_inject [simp]: "packet_type_i32 x = packet_type_i32 y \<longleftrightarrow> x = y"
  using packet_type_disc_lt [of x] packet_type_disc_lt [of y]
  by (simp add: packet_type_i32_def disc_word_inject [of _ 13])

lemma packet_type_try_from_i32 [simp]: "packet_type_try_from (packet_type_i32 x) = Some x"
  unfolding packet_type_try_from_def by (rule find_unique) simp_all

lemma packet_type_from_as_str [simp]: "packet_type_from_str_name (packet_type_as_str_name x) = Some x"
  by (cases x) (simp_all add: packet_type_as_str_name_def packet_type_from_str_name_def)

lemma packet_type_from_str_name_Some: "packet_type_from_str_name v = Some x \<Longrightarrow> v = packet_type_as_str_name x"
  unfolding packet_type_from_str_name_def by (auto simp: packet_type_as_str_name_def split: if_splits)

instantiation packet_type :: linorder
begin

definition less_eq_packet_type :: "packet_type \<Rightarrow> packet_type \<Rightarrow> bool" where
  "x \<le> y \<longleftrightarrow> packet_type_disc x \<le> packet_type_disc y"

definition less_packet_type :: "packet_type \<Rightarrow> packet_type \<Rightarrow> bool" where
  "x < y \<longleftrightarrow> packet_type_disc x < packet_type_disc y"

instance
  by standard (auto simp: less_eq_packet_type_def less_packet_type_def)

end

datatype entry_type =
    EntEntrytypecompatibleproto2 | EntTransactionbegin | EntRowdata | EntTransactionend
  | EntInnerheartbeat | EntGtidlog

definition entry_type_disc :: "entry_type \<Rightarrow> nat" where
  "entry_type_disc x =
     (case x of
        EntEntrytypecompatibleproto2 \<Rightarrow> 0
      | EntTransactionbegin \<Rightarrow> 1
      | EntRowdata \<Rightarrow> 2
      | EntTransactionend \<Rightarrow> 3
      | EntInnerheartbeat \<Rightarrow> 4
      | EntGtidlog \<Rightarrow> 5)"

definition entry_type_i32 :: "entry_type \<Rightarrow> i32" where
  "entry_type_i32 x = of_nat (entry_type_disc x)"

definition entry_type_as_str_name :: "entry_type \<Rightarrow> string" where
  "entry_type_as_str_name x =
     (case x of
        EntEntrytypecompatibleproto2 \<Rightarrow> ''ENTRYTYPECOMPATIBLEPROTO2''
      | EntTransactionbegin \<Rightarrow> ''TRANSACTIONBEGIN''
      | EntRowdata \<Rightarrow> ''ROWDATA''
      | EntTransactionend \<Rightarrow> ''TRANSACTIONEND''
      | EntInnerheartbeat \<Rightarrow> ''INNERHEARTBEAT''
      | EntGtidlog \<Rightarrow> ''GTIDLOG'')"

definition entry_type_from_str_name :: "string \<Rightarrow> entry_type option" where
  "entry_type_from_str_name v =
     (if v = ''ENTRYTYPECOMPATIBLEPROTO2'' then Some EntEntrytypecompatibleproto2
      else if v = ''TRANSACTIONBEGIN'' then Some EntTransactionbegin
      else if v = ''ROWDATA'' then Some EntRowdata
      else if v = ''TRANSACTIONEND'' then Some EntTransactionend
      else if v = ''INNERHEARTBEAT'' then Some EntInnerheartbeat
      else if v = ''GTIDLOG'' then Some EntGtidlog
      else None)"

definition entry_type_all :: "entry_type list" where
  "entry_type_all = [EntEntrytypecompatibleproto2, EntTransactionbegin, EntRowdata,
     EntTransactionend, EntInnerheartbeat, EntGtidlog]"

text \<open>\<open>TryFrom<i32>\<close>, derived by \<open>Enumeration\<close>: the variant with that discriminant.\<close>

definition entry_type_try_from :: "i32 \<Rightarrow> entry_type option" where
  "entry_type_try_from v = find (\<lambda>x. entry_type_i32 x = v) entry_type_all"

lemma entry_type_in_all [simp]: "x \<in> set entry_type_all"
  by (cases x) (simp_all add: entry_type_all_def)

lemma entry_type_disc_lt: "entry_type_disc x < 6"
  by (cases x) (simp_all add: entry_type_disc_def)

lemma entry_type_disc_inject [simp]: "entry_type_disc x = entry_type_disc y \<longleftrightarrow> x = y"
  by (cases x; cases y) (simp_all add: entry_type_disc_def)

lemma entry_type_i32_inject [simp]: "entry_type_i32 x = entry_type_i32 y \<longleftrightarrow> x = y"
  using entry_type_disc_lt [of x] entry_type_disc_lt [of y]
  by (simp add: entry_type_i32_def disc_word_inject [of _ 6])

lemma entry_type_try_from_i32 [simp]: "entry_type_try_from (entry_type_i32 x) = Some x"
  unfolding entry_type_try_from_def by (rule find_unique) simp_all

lemma entry_type_from_as_str [simp]: "entry_type_from_str_name (entry_type_as_str_name x) = Some x"
  by (cases x) (simp_all add: entry_type_as_str_name_def entry_type_from_str_name_def)

lemma entry_type_from_str_name_Some: "entry_type_from_str_name v = Some x \<Longrightarrow> v = entry_type_as_str_name x"
  unfolding entry_type_from_str_name_def by (auto simp: entry_type_as_str_name_def split: if_splits)

instantiation entry_type :: linorder
begin

definition less_eq_entry_type :: "entry_type \<Rightarrow> entry_type \<Rightarrow> bool" where
  "x \<le> y \<longleftrightarrow> entry_type_disc x \<le> entry_type_disc y"

definition less_entry_type :: "entry_type \<Rightarrow> entry_type \<Rightarrow> bool" where
  "x < y \<longleftrightarrow> entry_type_disc x < entry_type_disc y"

instance
  by standard (auto simp: less_eq_entry_type_def less_entry_type_def)

end

datatype proto_event_type =
    PeEventtypecompatibleproto2 | PeInsert | PeUpdate | PeDelete | PeCreate | PeAlter
  | PeErase | PeQuery | PeTruncate | PeRename | PeCindex | PeDindex | PeGtid | PeXacommit
  | PeXarollback | PeMheartbeat

definition proto_event_type_disc :: "proto_event_type \<Rightarrow> nat" where
  "proto_event_type_disc x =
     (case x of
        PeEventtypecompatibleproto2 \<Rightarrow> 0
      | PeInsert \<Rightarrow> 1
      | PeUpdate \<Rightarrow> 2
      | PeDelete \<Rightarrow> 3
      | PeCreate \<Rightarrow> 4
      | PeAlter \<Rightarrow> 5
      | PeErase \<Rightarrow> 6
      | PeQuery \<Rightarrow> 7
      | PeTruncate \<Rightarrow> 8
      | PeRename \<Rightarrow> 9
      | PeCindex \<Rightarrow> 10
      | PeDindex \<Rightarrow> 11
      | PeGtid \<Rightarrow> 12
      | PeXacommit \<Rightarrow> 13
      | PeXarollback \<Rightarrow> 14
      | PeMheartbeat \<Rightarrow> 15)"

definition proto_event_type_i32 :: "proto_event_type \<Rightarrow> i32" where
  "proto_event_type_i32 x = of_nat (proto_event_type_disc x)"

definition proto_event_type_as_str_name :: "proto_event_type \<Rightarrow> string" where
  "proto_event_type_as_str_name x =
     (case x of
        PeEventtypecompatibleproto2 \<Rightarrow> ''EVENTTYPECOMPATIBLEPROTO2''
      | PeInsert \<Rightarrow> ''INSERT''
      | PeUpdate \<Rightarrow> ''UPDATE''
      | PeDelete \<Rightarrow> ''DELETE''
      | PeCreate \<Rightarrow> ''CREATE''
      | PeAlter \<Rightarrow> ''ALTER''
      | PeErase \<Rightarrow> ''ERASE''
      | PeQuery \<Rightarrow> ''QUERY''
      | PeTruncate \<Rightarrow> ''TRUNCATE''
      | PeRename \<Rightarrow> ''RENAME''
      | PeCindex \<Rightarrow> ''CINDEX''
      | PeDindex \<Rightarrow> ''DINDEX''
      | PeGtid \<Rightarrow> ''GTID''
      | PeXacommit \<Rightarrow> ''XACOMMIT''
      | PeXarollback \<Rightarrow> ''XAROLLBACK''
      | PeMheartbeat \<Rightarrow> ''MHEARTBEAT'')"

definition proto_event_type_from_str_name :: "string \<Rightarrow> proto_event_type option" where
  "proto_event_type_from_str_name v =
     (if v = ''EVENTTYPECOMPATIBLEPROTO2'' then Some PeEventtypecompatibleproto2
      else if v = ''INSERT'' then Some PeInsert
      else if v = ''UPDATE'' then Some PeUpdate
      else if v = ''DELETE'' then Some PeDelete
      else if v = ''CREATE'' then Some PeCreate
      else if v = ''ALTER'' then Some PeAlter
      else if v = ''ERASE'' then Some PeErase
      else if v = ''QUERY'' then Some PeQuery
      else if v = ''TRUNCATE'' then Some PeTruncate
      else if v = ''RENAME'' then Some PeRename
      else if v = ''CINDEX'' then Some PeCindex
      else if v = ''DINDEX'' then Some PeDindex
      else if v = ''GTID'' then Some PeGtid
      else if v = ''XACOMMIT'' then Some PeXacommit
      else if v = ''XAROLLBACK'' then Some PeXarollback
      else if v = ''MHEARTBEAT'' then Some PeMheartbeat
      else None)"

definition proto_event_type_all :: "proto_event_type list" where
  "proto_event_type_all = [PeEventtypecompatibleproto2, PeInsert, PeUpdate, PeDelete, PeCreate,
     PeAlter, PeErase, PeQuery, PeTruncate, PeRename, PeCindex, PeDindex, PeGtid, PeXacommit,
     PeXarollback, PeMheartbeat]"

text \<open>\<open>TryFrom<i32>\<close>, derived by \<open>Enumeration\<close>: the variant with that discriminant.\<close>

definition proto_event_type_try_from :: "i32 \<Rightarrow> proto_event_type option" where
  "proto_event_type_try_from v = find (\<lambda>x. proto_event_type_i32 x = v) proto_event_type_all"

lemma proto_event_type_in_all [simp]: "x \<in> set proto_event_type_all"
  by (cases x) (simp_all add: proto_event_type_all_def)

lemma proto_event_type_disc_lt: "proto_event_type_disc x < 16"
  by (cases x) (simp_all add: proto_event_type_disc_def)

lemma proto_event_type_disc_inject [simp]: "proto_event_type_disc x = proto_event_type_disc y \<longleftrightarrow> x = y"
  by (cases x; cases y) (simp_all add: proto_event_type_disc_def)

lemma proto_event_type_i32_inject [simp]: "proto_event_type_i32 x = proto_event_type_i32 y \<longleftrightarrow> x = y"
  using proto_event_type_disc_lt [of x] proto_event_type_disc_lt [of y]
  by (simp add: proto_event_type_i32_def disc_word_inject [of _ 16])

lemma proto_event_type_try_from_i32 [simp]: "proto_event_type_try_from (proto_event_type_i32 x) = Some x"
  unfolding proto_event_type_try_from_def by (rule find_unique) simp_all

lemma proto_event_type_from_as_str [simp]: "proto_event_type_from_str_name (proto_event_type_as_str_name x) = Some x"
  by (cases x) (simp_all add: proto_event_type_as_str_name_def proto_event_type_from_str_name_def)

lemma proto_event_type_from_str_name_Some: "proto_event_type_from_str_name v = Some x \<Longrightarrow> v = proto_event_type_as_str_name x"
  unfolding proto_event_type_from_str_name_def by (auto simp: proto_event_type_as_str_name_def split: if_splits)

instantiation proto_event_type :: linorder
begin

definition less_eq_proto_event_type :: "proto_event_type \<Rightarrow> proto_event_type \<Rightarrow> bool" where
  "x \<le> y \<longleftrightarrow> proto_event_type_disc x \<le> proto_event_type_disc y"

definition less_proto_event_type :: "proto_event_type \<Rightarrow> proto_event_type \<Rightarrow> bool" where
  "x < y \<longleftrightarrow> proto_event_type_disc x < proto_event_type_disc y"

instance
  by standard (auto simp: less_eq_proto_event_type_def less_proto_event_type_def)

end

datatype source_type =
    TyTypecompatibleproto2 | TyOracle | TyMysql | TyPgsql

definition source_type_disc :: "source_type \<Rightarrow> nat" where
  "source_type_disc x =
     (case x of
        TyTypecompatibleproto2 \<Rightarrow> 0
      | TyOracle \<Rightarrow> 1
      | TyMysql \<Rightarrow> 2
      | TyPgsql \<Rightarrow> 3)"

definition source_type_i32 :: "source_type \<Rightarrow> i32" where
  "source_type_i32 x = of_nat (source_type_disc x)"

definition source_type_as_str_name :: "source_type \<Rightarrow> string" where
  "source_type_as_str_name x =
     (case x of
        TyTypecompatibleproto2 \<Rightarrow> ''TYPECOMPATIBLEPROTO2''
      | TyOracle \<Rightarrow> ''ORACLE''
      | TyMysql \<Rightarrow> ''MYSQL''
      | TyPgsql \<Rightarrow> ''PGSQL'')"

definition source_type_from_str_name :: "string \<Rightarrow> source_type option" where
  "source_type_from_str_name v =
     (if v = ''TYPECOMPATIBLEPROTO2'' then Some TyTypecompatibleproto2
      else if v = ''ORACLE'' then Some TyOracle
      else if v = ''MYSQL'' then Some TyMysql
      else if v = ''PGSQL'' then Some TyPgsql
      else None)"

definition source_type_all :: "source_type list" where
  "source_type_all = [TyTypecompatibleproto2, TyOracle, TyMysql, TyPgsql]"

text \<open>\<open>TryFrom<i32>\<close>, derived by \<open>Enumeration\<close>: the variant with that discriminant.\<close>

definition source_type_try_from :: "i32 \<Rightarrow> source_type option" where
  "source_type_try_from v = find (\<lambda>x. source_type_i32 x = v) source_type_all"

lemma source_type_in_all [simp]: "x \<in> set source_type_all"
  by (cases x) (simp_all add: source_type_all_def)

lemma source_type_disc_lt: "source_type_disc x < 4"
  by (cases x) (simp_all add: source_type_disc_def)

lemma source_type_disc_inject [simp]: "source_type_disc x = source_type_disc y \<longleftrightarrow> x = y"
  by (cases x; cases y) (simp_all add: source_type_disc_def)

lemma source_type_i32_inject [simp]: "source_type_i32 x = source_type_i32 y \<longleftrightarrow> x = y"
  using source_type_disc_lt [of x] source_type_disc_lt [of y]
  by (simp add: source_type_i32_def disc_word_inject [of _ 4])

lemma source_type_try_from_i32 [simp]: "source_type_try_from (source_type_i32 x) = Some x"
  unfolding source_type_try_from_def by (rule find_unique) simp_all

lemma source_type_from_as_str [simp]: "source_type_from_str_name (source_type_as_str_name x) = Some x"
  by (cases x) (simp_all add: source_type_as_str_name_def source_type_from_str_name_def)

lemma source_type_from_str_name_Some: "source_type_from_str_name v = Some x \<Longrightarrow> v = source_type_as_str_name x"
  unfolding source_type_from_str_name_def by (auto simp: source_type_as_str_name_def split: if_splits)

instantiation source_type :: linorder
begin

definition less_eq_source_type :: "source_type \<Rightarrow> source_type \<Rightarrow> bool" where
  "x \<le> y \<longleftrightarrow> source_type_disc x \<le> source_type_disc y"

definition less_source_type :: "source_type \<Rightarrow> source_type \<Rightarrow> bool" where
  "x < y \<longleftrightarrow> source_type_disc x < source_type_disc y"

instance
  by standard (auto simp: less_eq_source_type_def less_source_type_def)

end

subsection \<open>Messages\<close>

text \<open>
  Every message with its \<open>Default\<close>: zero, empty and absent fields.
\<close>

datatype magic_number_present = MagicNumber i32

datatype packet_version_present = PacketVersion i32

datatype compression_present = CompressionField i32

record packet =
  pk_type :: i32
  pk_body :: bytes
  pk_magic_number_present :: "magic_number_present option"
  pk_version_present :: "packet_version_present option"
  pk_compression_present :: "compression_present option"

definition packet_default :: packet where
  "packet_default =
     \<lparr>pk_type = 0, pk_body = [], pk_magic_number_present = None, pk_version_present = None,
      pk_compression_present = None\<rparr>"

record heart_beat =
  hb_send_timestamp :: i64
  hb_start_timestamp :: i64

definition heart_beat_default :: heart_beat where
  "heart_beat_default =
     \<lparr>hb_send_timestamp = 0, hb_start_timestamp = 0\<rparr>"

datatype communication_encoding_present = CommunicationEncoding string

record handshake =
  hs_seeds :: bytes
  hs_supported_compressions :: i32
  hs_communication_encoding_present :: "communication_encoding_present option"

definition handshake_default :: handshake where
  "handshake_default =
     \<lparr>hs_seeds = [], hs_supported_compressions = 0,
      hs_communication_encoding_present = None\<rparr>"

datatype net_read_timeout_present = NetReadTimeout i32

datatype net_write_timeout_present = NetWriteTimeout i32

record client_auth =
  ca_username :: string
  ca_password :: bytes
  ca_destination :: string
  ca_client_id :: string
  ca_filter :: string
  ca_start_timestamp :: i64
  ca_net_read_timeout_present :: "net_read_timeout_present option"
  ca_net_write_timeout_present :: "net_write_timeout_present option"

definition client_auth_default :: client_auth where
  "client_auth_default =
     \<lparr>ca_username = '''', ca_password = [], ca_destination = '''', ca_client_id = '''',
      ca_filter = '''', ca_start_timestamp = 0, ca_net_read_timeout_present = None,
      ca_net_write_timeout_present = None\<rparr>"

datatype error_code_present = ErrorCode i32

record ack =
  ak_error_message :: string
  ak_error_code_present :: "error_code_present option"

definition ack_default :: ack where
  "ack_default =
     \<lparr>ak_error_message = '''', ak_error_code_present = None\<rparr>"

record client_ack =
  cl_destination :: string
  cl_client_id :: string
  cl_batch_id :: i64

definition client_ack_default :: client_ack where
  "client_ack_default =
     \<lparr>cl_destination = '''', cl_client_id = '''', cl_batch_id = 0\<rparr>"

record sub =
  sb_destination :: string
  sb_client_id :: string
  sb_filter :: string

definition sub_default :: sub where
  "sub_default =
     \<lparr>sb_destination = '''', sb_client_id = '''', sb_filter = ''''\<rparr>"

record unsub =
  us_destination :: string
  us_client_id :: string
  us_filter :: string

definition unsub_default :: unsub where
  "unsub_default =
     \<lparr>us_destination = '''', us_client_id = '''', us_filter = ''''\<rparr>"

datatype timeout_present = Timeout i64

datatype unit_present = Unit i32

datatype auto_ack_present = AutoAck bool

record get_request =
  gt_destination :: string
  gt_client_id :: string
  gt_fetch_size :: i32
  gt_timeout_present :: "timeout_present option"
  gt_unit_present :: "unit_present option"
  gt_auto_ack_present :: "auto_ack_present option"

definition get_request_default :: get_request where
  "get_request_default =
     \<lparr>gt_destination = '''', gt_client_id = '''', gt_fetch_size = 0,
      gt_timeout_present = None, gt_unit_present = None, gt_auto_ack_present = None\<rparr>"

record messages =
  mg_batch_id :: i64
  mg_messages :: "bytes list"

definition messages_default :: messages where
  "messages_default =
     \<lparr>mg_batch_id = 0, mg_messages = []\<rparr>"

datatype timestamp_present = Timestamp i64

record dump =
  dp_journal :: string
  dp_position :: i64
  dp_timestamp_present :: "timestamp_present option"

definition dump_default :: dump where
  "dump_default =
     \<lparr>dp_journal = '''', dp_position = 0, dp_timestamp_present = None\<rparr>"

record client_rollback =
  cr_destination :: string
  cr_client_id :: string
  cr_batch_id :: i64

definition client_rollback_default :: client_rollback where
  "client_rollback_default =
     \<lparr>cr_destination = '''', cr_client_id = '''', cr_batch_id = 0\<rparr>"

record pair =
  kv_key :: string
  kv_value :: string

definition pair_default :: pair where
  "pair_default =
     \<lparr>kv_key = '''', kv_value = ''''\<rparr>"

datatype header_version_present = HeaderVersion i32

datatype source_type_present = SourceType i32

datatype event_type_present = EventTypeField i32

record header =
  hd_logfile_name :: string
  hd_logfile_offset :: i64
  hd_server_id :: i64
  hd_serveren_code :: string
  hd_execute_time :: i64
  hd_schema_name :: string
  hd_table_name :: string
  hd_event_length :: i64
  hd_props :: "pair list"
  hd_gtid :: string
  hd_version_present :: "header_version_present option"
  hd_source_type_present :: "source_type_present option"
  hd_event_type_present :: "event_type_present option"

definition header_default :: header where
  "header_default =
     \<lparr>hd_logfile_name = '''', hd_logfile_offset = 0, hd_server_id = 0,
      hd_serveren_code = '''', hd_execute_time = 0, hd_schema_name = '''', hd_table_name = '''',
      hd_event_length = 0, hd_props = [], hd_gtid = '''', hd_version_present = None,
      hd_source_type_present = None, hd_event_type_present = None\<rparr>"

datatype entry_type_present = EntryTypeField i32

record entry =
  en_header :: "header option"
  en_store_value :: bytes
  en_entry_type_present :: "entry_type_present option"

definition entry_default :: entry where
  "entry_default =
     \<lparr>en_header = None, en_store_value = [], en_entry_type_present = None\<rparr>"

datatype is_null_present = IsNull bool

record column =
  co_index :: i32
  co_sql_type :: i32
  co_name :: string
  co_is_key :: bool
  co_updated :: bool
  co_props :: "pair list"
  co_value :: string
  co_length :: i32
  co_mysql_type :: string
  co_is_null_present :: "is_null_present option"

definition column_default :: column where
  "column_default =
     \<lparr>co_index = 0, co_sql_type = 0, co_name = '''', co_is_key = False, co_updated = False,
      co_props = [], co_value = '''', co_length = 0, co_mysql_type = '''',
      co_is_null_present = None\<rparr>"

record proto_row_data =
  prd_before_columns :: "column list"
  prd_after_columns :: "column list"
  prd_props :: "pair list"

definition proto_row_data_default :: proto_row_data where
  "proto_row_data_default =
     \<lparr>prd_before_columns = [], prd_after_columns = [], prd_props = []\<rparr>"

datatype row_event_type_present = RowEventType i32

datatype is_ddl_present = IsDdl bool

record proto_row_change =
  prc_table_id :: i64
  prc_sql :: string
  prc_row_datas :: "proto_row_data list"
  prc_props :: "pair list"
  prc_ddl_schema_name :: string
  prc_event_type_present :: "row_event_type_present option"
  prc_is_ddl_present :: "is_ddl_present option"

definition proto_row_change_default :: proto_row_change where
  "proto_row_change_default =
     \<lparr>prc_table_id = 0, prc_sql = '''', prc_row_datas = [], prc_props = [],
      prc_ddl_schema_name = '''', prc_event_type_present = None, prc_is_ddl_present = None\<rparr>"

record transaction_begin =
  tb_execute_time :: i64
  tb_transaction_id :: string
  tb_props :: "pair list"
  tb_thread_id :: i64

definition transaction_begin_default :: transaction_begin where
  "transaction_begin_default =
     \<lparr>tb_execute_time = 0, tb_transaction_id = '''', tb_props = [], tb_thread_id = 0\<rparr>"

record transaction_end =
  te_execute_time :: i64
  te_transaction_id :: string
  te_props :: "pair list"

definition transaction_end_default :: transaction_end where
  "transaction_end_default =
     \<lparr>te_execute_time = 0, te_transaction_id = '''', te_props = []\<rparr>"

subsection \<open>The wire format\<close>

record prost =
  enc_packet :: "packet \<Rightarrow> bytes"
  dec_packet :: "bytes \<Rightarrow> (string, packet) rust_result"
  enc_client_auth :: "client_auth \<Rightarrow> bytes"
  dec_client_auth :: "bytes \<Rightarrow> (string, client_auth) rust_result"
  enc_ack :: "ack \<Rightarrow> bytes"
  dec_ack :: "bytes \<Rightarrow> (string, ack) rust_result"
  enc_client_ack :: "client_ack \<Rightarrow> bytes"
  dec_client_ack :: "bytes \<Rightarrow> (string, client_ack) rust_result"
  enc_sub :: "sub \<Rightarrow> bytes"
  dec_sub :: "bytes \<Rightarrow> (string, sub) rust_result"
  enc_get_request :: "get_request \<Rightarrow> bytes"
  dec_get_request :: "bytes \<Rightarrow> (string, get_request) rust_result"
  enc_messages :: "messages \<Rightarrow> bytes"
  dec_messages :: "bytes \<Rightarrow> (string, messages) rust_result"
  enc_client_rollback :: "client_rollback \<Rightarrow> bytes"
  dec_client_rollback :: "bytes \<Rightarrow> (string, client_rollback) rust_result"
  enc_entry :: "entry \<Rightarrow> bytes"
  dec_entry :: "bytes \<Rightarrow> (string, entry) rust_result"
  enc_proto_row_change :: "proto_row_change \<Rightarrow> bytes"
  dec_proto_row_change :: "bytes \<Rightarrow> (string, proto_row_change) rust_result"

text \<open>A wire format that reads nothing, the base of the concrete instances.\<close>

definition null_prost :: prost where
  "null_prost =
     \<lparr>enc_packet = \<lambda>_. [], dec_packet = \<lambda>_. Inl ''unreadable'',
      enc_client_auth = \<lambda>_. [], dec_client_auth = \<lambda>_. Inl ''unreadable'',
      enc_ack = \<lambda>_. [], dec_ack = \<lambda>_. Inl ''unreadable'',
      enc_client_ack = \<lambda>_. [], dec_client_ack = \<lambda>_. Inl ''unreadable'',
      enc_sub = \<lambda>_. [], dec_sub = \<lambda>_. Inl ''unreadable'',
      enc_get_request = \<lambda>_. [], dec_get_request = \<lambda>_. Inl ''unreadable'',
      enc_messages = \<lambda>_. [], dec_messages = \<lambda>_. Inl ''unreadable'',
      enc_client_rollback = \<lambda>_. [], dec_client_rollback = \<lambda>_. Inl ''unreadable'',
      enc_entry = \<lambda>_. [], dec_entry = \<lambda>_. Inl ''unreadable'',
      enc_proto_row_change = \<lambda>_. [], dec_proto_row_change = \<lambda>_. Inl ''unreadable''\<rparr>"

text \<open>Enumeration codes. For each of the five wire enumerations the protobuf name determines
  the variant and the other way round, no other text is a name, and the \<open>i32\<close> of a packet type
  reads back as that type and as no other, so a dispatcher that compares \<open>i32\<close> values
  distinguishes all packet types.\<close>

theorem proto_enum_roundtrip:
  "(packet_type_from_str_name v = Some p \<longleftrightarrow> v = packet_type_as_str_name p)
    \<and> (compression_from_str_name v = Some c \<longleftrightarrow> v = compression_as_str_name c)
    \<and> (entry_type_from_str_name v = Some n \<longleftrightarrow> v = entry_type_as_str_name n)
    \<and> (proto_event_type_from_str_name v = Some t \<longleftrightarrow> v = proto_event_type_as_str_name t)
    \<and> (source_type_from_str_name v = Some s \<longleftrightarrow> v = source_type_as_str_name s)
    \<and> (packet_type_try_from i = Some p \<longleftrightarrow> i = packet_type_i32 p)"
proof (intro conjI)
  show "packet_type_try_from i = Some p \<longleftrightarrow> i = packet_type_i32 p"
  proof
    assume "packet_type_try_from i = Some p"
    then show "i = packet_type_i32 p"
      by (auto simp: packet_type_try_from_def find_Some_iff)
  qed simp
qed (auto dest: packet_type_from_str_name_Some compression_from_str_name_Some
    entry_type_from_str_name_Some proto_event_type_from_str_name_Some
    source_type_from_str_name_Some)

end
