(* ===== verification/Canal_Conversion.thy ===== *)
theory Canal_Conversion
  imports Canal_Proto
begin

text \<open>
  The two ends of the event encoding: \<open>canal_event_to_entry\<close> of \<open>canal-server\<close>
  (\<open>conversion.rs\<close>) and \<open>entry_bytes_to_event\<close> of \<open>canal-client\<close> (\<open>lib.rs\<close>). The
  main lemma gives, for every event the server can serialise, what a client makes of it:
  everything is preserved except what the wire format has no room for.
\<close>

subsection \<open>Server side\<close>

definition column_value_to_proto :: "column_value \<Rightarrow> bool \<Rightarrow> column" where
  "column_value_to_proto col upd =
     column_default
       \<lparr>co_name := cv_name col,
        co_value := unwrap_or (cv_value col) '''',
        co_is_key := cv_is_key col,
        co_updated := upd,
        co_mysql_type := int_str (sint (cv_column_type col)),
        co_sql_type := cv_column_type col,
        co_is_null_present := (if cv_value col = None then Some (IsNull True) else None)\<rparr>"

definition unknown_event_error :: "i32 \<Rightarrow> canal_error" where
  "unknown_event_error v =
     Protocol (''unknown event type '' @ int_str (sint v) @ '' '' @ em_dash @ '' cannot serialize to proto'')"

definition proto_event_code :: "event_type \<Rightarrow> i32 canal_result" where
  "proto_event_code t =
     (case t of
        EtInsert \<Rightarrow> Inr (proto_event_type_i32 PeInsert)
      | EtUpdate \<Rightarrow> Inr (proto_event_type_i32 PeUpdate)
      | EtDelete \<Rightarrow> Inr (proto_event_type_i32 PeDelete)
      | EtDdl \<Rightarrow> Inr (proto_event_type_i32 PeQuery)
      | EtQuery \<Rightarrow> Inr (proto_event_type_i32 PeQuery)
      | EtRotate \<Rightarrow> Inr (proto_event_type_i32 PeQuery)
      | EtXid \<Rightarrow> Inr (proto_event_type_i32 PeXacommit)
      | EtHeartbeat \<Rightarrow> Inr (proto_event_type_i32 PeMheartbeat)
      | EtUnknown v \<Rightarrow> Inl (unknown_event_error v))"

definition dml_code :: "dml_type \<Rightarrow> i32" where
  "dml_code t =
     (case t of
        DmlInsert \<Rightarrow> proto_event_type_i32 PeInsert
      | DmlUpdate \<Rightarrow> proto_event_type_i32 PeUpdate
      | DmlDelete \<Rightarrow> proto_event_type_i32 PeDelete)"

text \<open>The header as first built, with length 0.\<close>

definition entry_header :: "canal_event \<Rightarrow> i32 \<Rightarrow> header" where
  "entry_header event code =
     header_default
       \<lparr>hd_logfile_name := ev_journal_name event,
        hd_logfile_offset := ev_position event,
        hd_server_id := ev_server_id event,
        hd_execute_time := ev_execute_time event,
        hd_schema_name := ev_schema_name event,
        hd_table_name := ev_table_name event,
        hd_gtid := unwrap_or (ev_gtid event) '''',
        hd_event_type_present := Some (EventTypeField code),
        hd_source_type_present := Some (SourceType (source_type_i32 TyMysql)),
        hd_event_length := 0\<rparr>"

text \<open>The \<open>RowChange\<close> stored in the entry, for the three kinds of event.\<close>

definition entry_row_change :: "canal_event \<Rightarrow> i32 \<Rightarrow> proto_row_change" where
  "entry_row_change event code =
     (case ev_row_change event of
        Some change \<Rightarrow>
          (let rd = proto_row_data_default;
               rd1 = (case rc_before change of
                        None \<Rightarrow> rd
                      | Some before \<Rightarrow>
                          rd\<lparr>prd_before_columns := prd_before_columns rd
                               @ map (\<lambda>col. column_value_to_proto col False) (rd_columns before)\<rparr>);
               rd2 = (case rc_after change of
                        None \<Rightarrow> rd1
                      | Some after \<Rightarrow>
                          rd1\<lparr>prd_after_columns := prd_after_columns rd1
                               @ map (\<lambda>col. column_value_to_proto col (cv_updated col)) (rd_columns after)\<rparr>)
           in proto_row_change_default
                \<lparr>prc_event_type_present := Some (RowEventType (dml_code (rc_dml_type change))),
                 prc_row_datas := [rd2]\<rparr>)
      | None \<Rightarrow>
          (case ev_ddl_sql event of
             Some ddl_sql \<Rightarrow>
               proto_row_change_default
                 \<lparr>prc_sql := ddl_sql,
                  prc_is_ddl_present := Some (IsDdl True),
                  prc_event_type_present := Some (RowEventType (proto_event_type_i32 PeQuery)),
                  prc_ddl_schema_name := ev_schema_name event\<rparr>
           | None \<Rightarrow>
               proto_row_change_default\<lparr>prc_event_type_present := Some (RowEventType code)\<rparr>))"

definition canal_event_to_entry :: "prost \<Rightarrow> canal_event \<Rightarrow> entry canal_result" where
  "canal_event_to_entry pb event =
     (case proto_event_code (ev_entry_type event) of
        Inl e \<Rightarrow> Inl e
      | Inr code \<Rightarrow>
          (let hdr = entry_header event code;
               store_value = enc_proto_row_change pb (entry_row_change event code);
               len = (if store_value \<noteq> [] then of_nat (length store_value)
                      else of_nat (length (ev_raw_bytes event)))
           in Inr (entry_default
                \<lparr>en_header := Some (hdr\<lparr>hd_event_length := len\<rparr>), en_store_value := store_value\<rparr>)))"

subsection \<open>Client side\<close>

definition column_to_value :: "column \<Rightarrow> column_value" where
  "column_to_value c =
     \<lparr>cv_name = co_name c,
      cv_value = (if co_value c = [] \<and> co_is_null_present c \<noteq> None then None else Some (co_value c)),
      cv_column_type = co_sql_type c,
      cv_is_key = co_is_key c,
      cv_updated = co_updated c\<rparr>"

definition columns_to_row :: "column list \<Rightarrow> row_data option" where
  "columns_to_row cs = (if cs = [] then None else Some \<lparr>rd_columns = map column_to_value cs\<rparr>)"

definition dml_of_code :: "row_event_type_present option \<Rightarrow> dml_type" where
  "dml_of_code et =
     (case et of
        None \<Rightarrow> DmlInsert
      | Some (RowEventType v) \<Rightarrow>
          (if v = 1 then DmlInsert else if v = 2 then DmlUpdate else if v = 3 then DmlDelete
           else DmlInsert))"

definition row_change_of :: "header \<Rightarrow> proto_row_change \<Rightarrow> row_change option \<times> string option" where
  "row_change_of hdr rc =
     (let ddl = (case prc_is_ddl_present rc of Some (IsDdl True) \<Rightarrow> Some (prc_sql rc) | _ \<Rightarrow> None);
          change =
            (if ddl = None \<and> prc_row_datas rc \<noteq> []
             then (let rd = prc_row_datas rc ! 0
                   in Some \<lparr>rc_table_name = hd_table_name hdr, rc_schema_name = hd_schema_name hdr,
                            rc_before = columns_to_row (prd_before_columns rd),
                            rc_after = columns_to_row (prd_after_columns rd),
                            rc_dml_type = dml_of_code (prc_event_type_present rc)\<rparr>)
             else None)
      in (change, ddl))"

definition entry_to_event :: "prost \<Rightarrow> entry \<Rightarrow> canal_event canal_result" where
  "entry_to_event pb entry =
     (case en_header entry of
        None \<Rightarrow> Inl (Protocol ''Entry missing header'')
      | Some hdr \<Rightarrow>
          (let ev_type = (case hd_event_type_present hdr of Some (EventTypeField v) \<Rightarrow> v | None \<Rightarrow> 0);
               (change, ddl) =
                 (if en_store_value entry \<noteq> []
                  then (case dec_proto_row_change pb (en_store_value entry) of
                          Inr rc \<Rightarrow> row_change_of hdr rc
                        | Inl _ \<Rightarrow> (None, None))
                  else (None, None))
           in Inr \<lparr>ev_journal_name = hd_logfile_name hdr,
                   ev_position = hd_logfile_offset hdr,
                   ev_server_id = hd_server_id hdr,
                   ev_execute_time = hd_execute_time hdr,
                   ev_entry_type = event_type_from_proto ev_type,
                   ev_schema_name = hd_schema_name hdr,
                   ev_table_name = hd_table_name hdr,
                   ev_row_change = change,
                   ev_ddl_sql = ddl,
                   ev_gtid = (if hd_gtid hdr = [] then None else Some (hd_gtid hdr)),
                   ev_raw_bytes = en_store_value entry\<rparr>))"

definition entry_bytes_to_event :: "prost \<Rightarrow> bytes \<Rightarrow> canal_event canal_result" where
  "entry_bytes_to_event pb d =
     (case dec_entry pb d of
        Inl e \<Rightarrow> Inl (Protocol (''Failed to decode Entry from '' @ nat_str (length d) @ '' bytes: '' @ e))
      | Inr entry \<Rightarrow> entry_to_event pb entry)"

subsection \<open>What a client sees of an event\<close>

text \<open>
  The image of an event under the two conversions: the event types that share the code
  \<open>Query\<close> become \<open>EtDdl\<close>; a before image never has its columns marked as updated, and an
  empty image is no image; the table and schema of the row change are the event's; an empty GTID
  is none; a row change hides a DDL text; the raw bytes are the encoded row change.
\<close>

definition wire_type :: "event_type \<Rightarrow> event_type" where
  "wire_type t = (if t = EtQuery \<or> t = EtRotate then EtDdl else t)"

definition wire_row :: "bool \<Rightarrow> row_data option \<Rightarrow> row_data option" where
  "wire_row before r =
     (case r of
        None \<Rightarrow> None
      | Some d \<Rightarrow>
          (if rd_columns d = [] then None
           else Some \<lparr>rd_columns = map (\<lambda>c. if before then c\<lparr>cv_updated := False\<rparr> else c) (rd_columns d)\<rparr>))"

definition wire_event :: "bytes \<Rightarrow> canal_event \<Rightarrow> canal_event" where
  "wire_event raw e =
     e\<lparr>ev_entry_type := wire_type (ev_entry_type e),
       ev_row_change := map_option (\<lambda>c.
          \<lparr>rc_table_name = ev_table_name e, rc_schema_name = ev_schema_name e,
           rc_before = wire_row True (rc_before c), rc_after = wire_row False (rc_after c),
           rc_dml_type = rc_dml_type c\<rparr>) (ev_row_change e),
       ev_ddl_sql := (if ev_row_change e = None then ev_ddl_sql e else None),
       ev_gtid := (if ev_gtid e = Some [] then None else ev_gtid e),
       ev_raw_bytes := raw\<rparr>"

lemma column_roundtrip:
  "column_to_value (column_value_to_proto c b) = c\<lparr>cv_updated := b\<rparr>"
  by (cases "cv_value c") (auto simp: column_to_value_def column_value_to_proto_def column_default_def)

lemma columns_to_row_map:
  "columns_to_row (map (\<lambda>c. column_value_to_proto c (f c)) cs)
    = (if cs = [] then None else Some \<lparr>rd_columns = map (\<lambda>c. c\<lparr>cv_updated := f c\<rparr>) cs\<rparr>)"
  by (simp add: columns_to_row_def comp_def column_roundtrip)

lemma proto_event_code_from_proto:
  "proto_event_code t = Inr code \<Longrightarrow> event_type_from_proto code = wire_type t"
  by (cases t) (auto simp: proto_event_code_def event_type_from_proto_def wire_type_def
      proto_event_type_i32_def proto_event_type_disc_def)

lemma dml_of_dml_code: "dml_of_code (Some (RowEventType (dml_code t))) = t"
  by (cases t) (simp_all add: dml_of_code_def dml_code_def proto_event_type_i32_def
      proto_event_type_disc_def)

lemma row_change_of_entry:
  assumes "hd_table_name hdr = ev_table_name e" and "hd_schema_name hdr = ev_schema_name e"
  shows "row_change_of hdr (entry_row_change e code)
    = (ev_row_change (wire_event raw e), ev_ddl_sql (wire_event raw e))"
proof (cases "ev_row_change e")
  case None
  then show ?thesis
    by (cases "ev_ddl_sql e")
      (simp_all add: row_change_of_def entry_row_change_def wire_event_def
        proto_row_change_default_def)
next
  case (Some c)
  have id: "map (\<lambda>x. x\<lparr>cv_updated := cv_updated x\<rparr>) xs = xs" for xs :: "column_value list"
    by (simp add: map_idI)
  show ?thesis
    using Some assms columns_to_row_map [of "\<lambda>_. False"] columns_to_row_map [of cv_updated]
    by (cases "rc_before c"; cases "rc_after c")
      (simp_all add: row_change_of_def entry_row_change_def wire_event_def wire_row_def Let_def
        proto_row_change_default_def proto_row_data_default_def dml_of_dml_code id
        columns_to_row_def [of "[]"])
qed

lemma entry_bytes_roundtrip:
  assumes "\<And>x. canal_event_to_entry pb e = Inr x \<Longrightarrow> dec_entry pb (enc_entry pb x) = Inr x"
    and "\<And>code. proto_event_code (ev_entry_type e) = Inr code \<Longrightarrow>
      dec_proto_row_change pb (enc_proto_row_change pb (entry_row_change e code)) = Inr (entry_row_change e code)"
    and "\<And>code. proto_event_code (ev_entry_type e) = Inr code \<Longrightarrow>
      enc_proto_row_change pb (entry_row_change e code) \<noteq> []"
  shows "case canal_event_to_entry pb e of
      Inl err \<Rightarrow> \<exists>v. ev_entry_type e = EtUnknown v \<and> err = unknown_event_error v
    | Inr x \<Rightarrow> (\<forall>v. ev_entry_type e \<noteq> EtUnknown v)
        \<and> entry_bytes_to_event pb (enc_entry pb x) = Inr (wire_event (en_store_value x) e)"
proof (cases "proto_event_code (ev_entry_type e)")
  case (Inl err)
  then show ?thesis
    by (cases "ev_entry_type e") (simp_all add: canal_event_to_entry_def proto_event_code_def)
next
  case (Inr code)
  define x where "x = projr (canal_event_to_entry pb e)"
  have x: "canal_event_to_entry pb e = Inr x"
    by (simp add: x_def canal_event_to_entry_def Inr Let_def)
  obtain hdr where hdr: "en_header x = Some hdr" "hd_table_name hdr = ev_table_name e"
    "hd_schema_name hdr = ev_schema_name e" "hd_logfile_name hdr = ev_journal_name e"
    "hd_logfile_offset hdr = ev_position e" "hd_server_id hdr = ev_server_id e"
    "hd_execute_time hdr = ev_execute_time e" "hd_gtid hdr = unwrap_or (ev_gtid e) ''''"
    "hd_event_type_present hdr = Some (EventTypeField code)"
    by (simp add: x_def canal_event_to_entry_def Inr Let_def entry_header_def)
  have store: "en_store_value x = enc_proto_row_change pb (entry_row_change e code)"
    by (simp add: x_def canal_event_to_entry_def Inr Let_def)
  have "entry_to_event pb x = Inr (wire_event (en_store_value x) e)"
  proof -
    define y where "y = projr (entry_to_event pb x)"
    have ne: "en_store_value x \<noteq> []"
      using assms(3) [OF Inr] by (simp add: store)
    have dec: "dec_proto_row_change pb (en_store_value x) = Inr (entry_row_change e code)"
      using assms(2) [OF Inr] by (simp add: store)
    note row = row_change_of_entry [OF hdr(2,3), of code "en_store_value x"]
    have y: "entry_to_event pb x = Inr y"
      by (simp add: y_def entry_to_event_def hdr(1) Let_def split_def)
    have "y = wire_event (en_store_value x) e"
      by (rule canal_event.equality)
        (simp_all add: y_def entry_to_event_def hdr ne dec row Let_def split_def,
         simp_all add: wire_event_def proto_event_code_from_proto [OF Inr],
         cases "ev_gtid e", auto)
    with y show ?thesis by simp
  qed
  moreover have "\<forall>v. ev_entry_type e \<noteq> EtUnknown v"
    using Inr by (auto simp: proto_event_code_def)
  ultimately show ?thesis
    using assms(1) [OF x] x by (simp add: entry_bytes_to_event_def)
qed

text \<open>C28: Events survive the wire. The server serialises every event except those of an unknown
  type, which are an error; from the bytes of the entry the client builds back the event, up to
  exactly the losses that \<open>wire_event\<close> lists.\<close>

theorem entry_roundtrip:
  assumes "\<And>x. canal_event_to_entry pb e = Inr x \<Longrightarrow> dec_entry pb (enc_entry pb x) = Inr x"
    and "\<And>code. proto_event_code (ev_entry_type e) = Inr code \<Longrightarrow>
      dec_proto_row_change pb (enc_proto_row_change pb (entry_row_change e code)) = Inr (entry_row_change e code)"
    and "\<And>code. proto_event_code (ev_entry_type e) = Inr code \<Longrightarrow>
      enc_proto_row_change pb (entry_row_change e code) \<noteq> []"
  shows "case canal_event_to_entry pb e of
      Inl err \<Rightarrow> \<exists>v. ev_entry_type e = EtUnknown v \<and> err = unknown_event_error v
    | Inr x \<Rightarrow> (\<forall>v. ev_entry_type e \<noteq> EtUnknown v)
        \<and> entry_bytes_to_event pb (enc_entry pb x) = Inr (wire_event (en_store_value x) e)"
  using assms by (rule entry_bytes_roundtrip)

text \<open>The wire format of one entry, for the concrete instance.\<close>

definition sample_row_event :: canal_event where
  "sample_row_event = sample_event ''b.1'' 4
     \<lparr>ev_entry_type := EtUpdate,
      ev_row_change := Some \<lparr>rc_table_name = ''t'', rc_schema_name = ''db'',
        rc_before = Some \<lparr>rd_columns = [\<lparr>cv_name = ''c'', cv_value = None, cv_column_type = 3,
          cv_is_key = True, cv_updated = True\<rparr>]\<rparr>,
        rc_after = Some \<lparr>rd_columns = []\<rparr>, rc_dml_type = DmlUpdate\<rparr>\<rparr>"

definition const_prost :: "entry \<Rightarrow> proto_row_change \<Rightarrow> prost" where
  "const_prost x rc =
     null_prost\<lparr>enc_entry := \<lambda>_. [1], dec_entry := \<lambda>_. Inr x,
        enc_proto_row_change := \<lambda>_. [2], dec_proto_row_change := \<lambda>_. Inr rc\<rparr>"

lemma entry_roundtrip_witness:
  "\<exists>x raw. entry_bytes_to_event (const_prost x (entry_row_change sample_row_event 0))
      (enc_entry (const_prost x (entry_row_change sample_row_event 0)) x)
    = Inr (wire_event raw sample_row_event)"
proof -
  define x where "x = projr (canal_event_to_entry (const_prost undefined undefined) sample_row_event)"
  let ?pb = "const_prost x (entry_row_change sample_row_event 0)"
  have ty: "ev_entry_type sample_row_event = EtUpdate"
    by (simp add: sample_row_event_def)
  have x: "canal_event_to_entry ?pb sample_row_event = Inr x"
    by (simp add: x_def canal_event_to_entry_def const_prost_def Let_def ty proto_event_code_def)
  have rc: "entry_row_change sample_row_event code = entry_row_change sample_row_event 0" for code
    by (simp add: entry_row_change_def sample_row_event_def)
  have "case canal_event_to_entry ?pb sample_row_event of
      Inl err \<Rightarrow> \<exists>v. ev_entry_type sample_row_event = EtUnknown v \<and> err = unknown_event_error v
    | Inr x \<Rightarrow> (\<forall>v. ev_entry_type sample_row_event \<noteq> EtUnknown v)
        \<and> entry_bytes_to_event ?pb (enc_entry ?pb x) = Inr (wire_event (en_store_value x) sample_row_event)"
    using x by (intro entry_roundtrip) (auto simp: const_prost_def intro: rc [symmetric])
  then show ?thesis
    using x by auto
qed

end
