(* ===== verification/Canal_Typing.thy ===== *)
theory Canal_Typing
  imports Canal_Connector Canal_Conversion
begin

text \<open>
  The types of the events. \<open>canal_event\<close> has room for far more than replication ever puts there: an
  entry type, an optional row change with two optional images and its own names and kind, an
  optional statement. \<open>well_typed\<close> says which of these go together. The lemmas show preservation,
  for every step of replication and whatever the decoder yields, and progress: a well-typed event
  can always be serialised, and it comes back from the wire as it was.
\<close>

subsection \<open>Well-typed events\<close>

text \<open>The columns of an image: their types are type bytes of MySQL, and only the after image of an
  update has columns marked as updated.\<close>

definition image_typed :: "bool \<Rightarrow> row_data option \<Rightarrow> bool" where
  "image_typed upd img \<longleftrightarrow>
     (case img of
        None \<Rightarrow> True
      | Some d \<Rightarrow> list_all (\<lambda>c. cv_column_type c \<le> 255 \<and> (cv_updated c \<longrightarrow> upd)) (rd_columns d))"

definition change_typed :: "event_type \<Rightarrow> row_change \<Rightarrow> bool" where
  "change_typed ty rc \<longleftrightarrow>
     (case rc_dml_type rc of
        DmlInsert \<Rightarrow> ty = EtInsert \<and> rc_before rc = None \<and> rc_after rc \<noteq> None
      | DmlUpdate \<Rightarrow> ty = EtUpdate \<and> rc_before rc \<noteq> None \<and> rc_after rc \<noteq> None
      | DmlDelete \<Rightarrow> ty = EtDelete \<and> rc_before rc \<noteq> None \<and> rc_after rc = None)
     \<and> image_typed False (rc_before rc) \<and> image_typed (ty = EtUpdate) (rc_after rc)"

definition well_typed :: "canal_event \<Rightarrow> bool" where
  "well_typed e \<longleftrightarrow>
     (case ev_row_change e of
        None \<Rightarrow> ev_entry_type e = EtDdl \<and> ev_ddl_sql e \<noteq> None \<and> ev_table_name e = []
      | Some rc \<Rightarrow> change_typed (ev_entry_type e) rc \<and> ev_ddl_sql e = None
          \<and> ev_schema_name e = rc_schema_name rc \<and> ev_table_name e = rc_table_name rc)
     \<and> ev_position e < 2 ^ 32 \<and> ev_server_id e < 2 ^ 32
     \<and> 0 \<le> sint (ev_execute_time e) \<and> sint (ev_execute_time e) < 2 ^ 32 \<and> ev_raw_bytes e = []"

text \<open>The converter's table map holds only type bytes.\<close>

definition converter_typed :: "event_converter \<Rightarrow> bool" where
  "converter_typed conv \<longleftrightarrow>
     (\<forall>i cols. converter_get_columns conv i = Some cols \<longrightarrow> list_all (\<lambda>ci. ci_column_type ci \<le> 255) cols)"

lemma ucast_byte: "(ucast (b :: u8) :: i32) \<le> 255"
proof -
  have "unat (ucast b :: i32) = unat b"
    by (simp add: unsigned_ucast_eq take_bit_nat_eq_self unsigned_less [of b, simplified] less_trans [OF unsigned_less])
  moreover have "unat b < 256"
    using unsigned_less [of b] by simp
  ultimately show ?thesis
    by (simp add: word_le_nat_alt)
qed

lemma build_column_infos_typed: "list_all (\<lambda>ci. ci_column_type ci \<le> 255) (build_column_infos tm)"
  by (auto simp: build_column_infos_def list_all_iff Let_def ucast_byte)

lemma converter_typed_step:
  "converter_typed event_converter_new"
  "converter_typed conv \<Longrightarrow> converter_typed (clear_table_map conv)"
  "converter_typed conv \<Longrightarrow> converter_typed (handle_table_map_event i s t (build_column_infos tm) conv)"
  by (auto simp: converter_typed_def converter_get_columns_def event_converter_new_def table_map_new_def
      table_map_get_columns_def clear_table_map_def table_map_clear_def handle_table_map_event_def
      table_map_put_with_columns_def build_column_infos_typed)

lemma extract_typed:
  assumes "converter_typed conv"
  shows "list_all (\<lambda>c. cv_column_type c \<le> 255 \<and> \<not> cv_updated c)
    (extract_column_values fd cells (unwrap_or (converter_get_columns conv i) []))"
proof -
  have "\<forall>ci \<in> set (unwrap_or (converter_get_columns conv i) []). ci_column_type ci \<le> 255"
    using assms by (cases "converter_get_columns conv i") (auto simp: converter_typed_def list_all_iff)
  then show ?thesis
    by (auto simp: extract_column_values_def list_all_iff list_get_def Let_def)
qed

lemma mark_updated_typed:
  "list_all (\<lambda>c. cv_column_type c \<le> 255) cols \<Longrightarrow> list_all (\<lambda>c. cv_column_type c \<le> 255) (mark_updated i before cols)"
  by (induction i before cols rule: mark_updated.induct) simp_all

subsection \<open>Preservation\<close>

lemma ucast_u32:
  "(ucast (x :: u32) :: u64) < 2 ^ 32" "0 \<le> sint (ucast (x :: u32) :: i64)" "sint (ucast (x :: u32) :: i64) < 2 ^ 32"
proof -
  have u: "uint (ucast x :: u64) = uint x"
    by (simp add: unsigned_ucast_eq take_bit_int_eq_self unsigned_less [of x, simplified] less_trans [OF unsigned_less])
  moreover have x: "uint x < 2 ^ 32"
    using unsigned_less [of x] by simp
  moreover have zero: "0 \<le> uint x"
    by simp
  ultimately show "(ucast x :: u64) < 2 ^ 32"
    by (simp add: word_less_def)
  have "sint (ucast x :: i64) = uint x"
    using u signed_take_bit_int_eq_self [OF order_trans [OF _ zero] order.strict_trans [OF x], of 63]
    by (simp add: sint_uint)
  with x show "0 \<le> sint (ucast x :: i64)" "sint (ucast x :: i64) < 2 ^ 32"
    by simp_all
qed

lemma ddl_event_typed: "well_typed (ddl_event hdr jf db sql gtid)"
  by (simp add: well_typed_def ddl_event_def ucast_u32 [simplified])

lemma row_event_typed:
  "change_typed ty change \<Longrightarrow> well_typed (row_event hdr jf ty change gtid)"
  by (simp add: well_typed_def row_event_def ucast_u32 [simplified])

lemma handle_row_event_typed:
  assumes "handle_row_event conv i ty cols = Inr change"
    and "list_all (\<lambda>c. cv_column_type c \<le> 255 \<and> \<not> cv_updated c) cols"
  shows "change_typed ty change"
  using assms by (auto simp: handle_row_event_def change_typed_def image_typed_def list_all_iff
      split: option.splits event_type.splits)

lemma handle_update_typed:
  assumes "handle_update_row_event conv i before after = Inr change"
    and "list_all (\<lambda>c. cv_column_type c \<le> 255 \<and> \<not> cv_updated c) before"
    and "list_all (\<lambda>c. cv_column_type c \<le> 255 \<and> \<not> cv_updated c) after"
  shows "change_typed EtUpdate change"
proof -
  have "list_all (\<lambda>c. cv_column_type c \<le> 255) (mark_updated 0 before after)"
    using assms(3) by (intro mark_updated_typed) (simp add: list_all_iff)
  with assms(1,2) show ?thesis
    by (auto simp: handle_update_row_event_def change_typed_def image_typed_def list_all_iff
        split: option.splits)
qed

definition channel_typed :: "channel \<Rightarrow> bool" where
  "channel_typed ch \<longleftrightarrow> (\<forall>e. Inr e \<in> set (ch_sent ch) \<longrightarrow> well_typed e)"

lemma channel_typed_send:
  "channel_typed ch \<Longrightarrow> (\<And>e. x = Inr e \<Longrightarrow> well_typed e) \<Longrightarrow> channel_typed (snd (blocking_send x ch))"
  by (auto simp: channel_typed_def blocking_send_def)

lemma send_row_events_typed:
  assumes "converter_typed conv" and "channel_typed ch"
  shows "channel_typed (snd (send_row_events hdr jf ty i rows conv gtid (extract_column_values fd) ch))"
  using assms(2)
proof (induction rows arbitrary: ch)
  case (Cons row rows)
  let ?change = "handle_row_event conv i ty
    (extract_column_values fd row (unwrap_or (converter_get_columns conv i) []))"
  have "?change = Inr c \<Longrightarrow> well_typed (row_event hdr jf ty c gtid)" for c
    using handle_row_event_typed extract_typed [OF assms(1)] row_event_typed by blast
  then have "channel_typed (case ?change of
      Inr change \<Rightarrow> snd (blocking_send (Inr (row_event hdr jf ty change gtid)) ch)
    | Inl err \<Rightarrow> snd (blocking_send (Inl err) ch))"
    using channel_typed_send [OF Cons.prems] by (cases ?change) auto
  from Cons.IH [OF this] show ?case by (simp add: Let_def)
qed simp

lemma send_update_events_typed:
  assumes "converter_typed conv" and "channel_typed ch"
  shows "channel_typed (snd (send_update_events fd hdr jf i rows conv gtid ch))"
  using assms(2)
proof (induction rows arbitrary: ch)
  case (Cons row rows)
  obtain b a where row: "row = (b, a)" by fastforce
  let ?columns = "\<lambda>cells. extract_column_values fd cells (unwrap_or (converter_get_columns conv i) [])"
  let ?change = "handle_update_row_event conv i (?columns b) (?columns a)"
  have "?change = Inr c \<Longrightarrow> well_typed (row_event hdr jf EtUpdate c gtid)" for c
    using handle_update_typed extract_typed [OF assms(1)] row_event_typed by blast
  then have "channel_typed (case ?change of
      Inr change \<Rightarrow> snd (blocking_send (Inr (row_event hdr jf EtUpdate change gtid)) ch)
    | Inl err \<Rightarrow> snd (blocking_send (Inl err) ch))"
    using channel_typed_send [OF Cons.prems] by (cases ?change) auto
  from Cons.IH [OF this] show ?case by (simp add: row Let_def)
qed simp

lemma process_and_send_typed:
  assumes "converter_typed conv" and "channel_typed ch"
    and "process_and_send fd hdr event conv jf gtid ch = (r, conv', ch')"
  shows "converter_typed conv' \<and> channel_typed ch'"
proof -
  have rows: "send_row_events hdr jf ty i rows conv gtid (extract_column_values fd) ch = (q, ch'') \<Longrightarrow> channel_typed ch''"
    for ty i rows q ch''
    by (metis send_row_events_typed [OF assms(1,2)] snd_conv)
  have updates: "send_update_events fd hdr jf i rows conv gtid ch = (q, ch'') \<Longrightarrow> channel_typed ch''"
    for i rows q ch''
    by (metis send_update_events_typed [OF assms(1,2)] snd_conv)
  have ddl: "channel_typed (snd (blocking_send (Inr (ddl_event hdr jf db sql gtid)) ch))" for db sql
    by (rule channel_typed_send [OF assms(2)]) (use ddl_event_typed in auto)
  show ?thesis
    using assms converter_typed_step(2,3) [OF assms(1)] ddl
    by (cases event) (auto simp: process_and_send_def Let_def intro: rows updates split: prod.splits)
qed

definition replication_typed :: "replication \<Rightarrow> bool" where
  "replication_typed r \<longleftrightarrow> converter_typed (rp_converter r) \<and> channel_typed (rp_channel r)"

lemma send_to_typed:
  "replication_typed r \<Longrightarrow> replication_typed (snd (send_to (Inl err) r))"
  using channel_typed_send [of "rp_channel r" "Inl err"]
  by (auto simp: replication_typed_def send_to_def split_def Let_def)

lemma decoded_event_typed:
  assumes "replication_typed r"
  shows "replication_typed (snd (decoded_event fd hdr event r))"
proof -
  let ?r = "track hdr event r"
  obtain res conv ch where p: "process_and_send fd hdr event (rp_converter ?r) (rp_file ?r) (rp_gtid ?r) (rp_channel ?r)
      = (res, conv, ch)"
    by (metis prod_cases3)
  then have t: "converter_typed conv" "channel_typed ch"
    using process_and_send_typed [of "rp_converter ?r" "rp_channel ?r"] assms
    by (auto simp: replication_typed_def)
  show ?thesis
  proof (cases res)
    case (Inr u)
    with p t show ?thesis
      by (simp add: decoded_event_def replication_typed_def commit_def Let_def)
  next
    case (Inl e)
    define r2 where "r2 = (let r1 = ?r\<lparr>rp_converter := conv, rp_channel := ch\<rparr>; pos = (rp_file ?r, ucast (eh_next_event_position hdr))
      in if rp_last_error r1 = Some pos then r1\<lparr>rp_errors := rp_errors r1 + 1\<rparr>
         else r1\<lparr>rp_errors := 1, rp_last_error := Some pos\<rparr>)"
    have "replication_typed r2"
      using t by (simp add: r2_def replication_typed_def Let_def)
    then have "replication_typed (snd (send_to (Inl e) r2))"
      by (rule send_to_typed)
    moreover have "decoded_event fd hdr event r = (case send_to (Inl e) r2 of (False, r3) \<Rightarrow> (False, r3)
      | (True, r3) \<Rightarrow> (True, commit hdr event (if max_consecutive_errors \<le> rp_errors r3
          then r3\<lparr>rp_errors := 0, rp_last_error := None\<rparr> else r3)))"
      using p by (simp add: decoded_event_def Inl r2_def Let_def)
    ultimately show ?thesis
      by (auto simp: replication_typed_def commit_def split: prod.splits bool.splits)
  qed
qed

lemma replication_loop_typed:
  assumes "replication_typed r"
  shows "replication_typed (replication_loop fd inps r)"
  using assms
proof (induction inps arbitrary: r)
  case (Cons inp inps)
  have "replication_typed (snd (replication_round fd inp r))"
    using Cons.prems decoded_event_typed send_to_typed
    by (auto simp: replication_round_def split: prod.splits next_outcome.splits sum.splits)
  with Cons.IH show ?case
    by (auto split: prod.splits bool.splits)
qed simp


lemma run_replication_typed:
  assumes "ch_sent ch = []"
  shows "channel_typed (rp_channel (snd (run_replication fd err inps start ch)))"
proof -
  have "replication_typed (replication_start start ch)"
    using assms by (simp add: replication_typed_def replication_start_def converter_typed_step channel_typed_def)
  then have "replication_typed (snd (run_replication fd err inps start ch))"
    using replication_loop_typed send_to_typed
    by (simp add: run_replication_def Let_def split: option.splits)
  then show ?thesis
    by (simp add: replication_typed_def)
qed

subsection \<open>Progress, and what the wire keeps\<close>

lemma well_typed_converts:
  "well_typed e \<Longrightarrow> \<exists>x. canal_event_to_entry pb e = Inr x"
  by (cases "ev_row_change e"; cases "rc_dml_type (the (ev_row_change e))")
    (auto simp: well_typed_def change_typed_def canal_event_to_entry_def proto_event_code_def Let_def)

text \<open>The images have columns, and a transaction id is not the empty text.\<close>

definition image_filled :: "row_data option \<Rightarrow> bool" where
  "image_filled img \<longleftrightarrow> (case img of None \<Rightarrow> True | Some d \<Rightarrow> rd_columns d \<noteq> [])"

definition event_filled :: "canal_event \<Rightarrow> bool" where
  "event_filled e \<longleftrightarrow> ev_gtid e \<noteq> Some []
     \<and> (case ev_row_change e of
          None \<Rightarrow> True | Some rc \<Rightarrow> image_filled (rc_before rc) \<and> image_filled (rc_after rc))"

lemma wire_row_before:
  assumes "image_typed False img" and "image_filled img"
  shows "wire_row True img = img"
proof (cases img)
  case (Some d)
  have "map (\<lambda>c. c\<lparr>cv_updated := False\<rparr>) (rd_columns d) = rd_columns d"
    using assms(1) by (intro map_idI) (simp add: Some image_typed_def list_all_iff)
  with assms(2) show ?thesis
    by (simp add: Some wire_row_def image_filled_def)
qed (simp add: wire_row_def)

lemma wire_row_after: "image_filled img \<Longrightarrow> wire_row False img = img"
  by (auto simp: wire_row_def image_filled_def split: option.splits)

lemma well_typed_wire:
  assumes "well_typed e" and "event_filled e"
  shows "wire_event raw e = e\<lparr>ev_raw_bytes := raw\<rparr>"
proof (cases "ev_row_change e")
  case None
  then show ?thesis
    using assms by (simp add: well_typed_def wire_event_def wire_type_def event_filled_def)
next
  case (Some rc)
  then have rc: "change_typed (ev_entry_type e) rc" "ev_ddl_sql e = None"
    "ev_schema_name e = rc_schema_name rc" "ev_table_name e = rc_table_name rc"
    "image_filled (rc_before rc)" "image_filled (rc_after rc)" "ev_gtid e \<noteq> Some []"
    using assms by (simp_all add: well_typed_def event_filled_def)
  moreover have "wire_type (ev_entry_type e) = ev_entry_type e"
    using rc(1) by (cases "rc_dml_type rc") (simp_all add: change_typed_def wire_type_def)
  moreover have "wire_row True (rc_before rc) = rc_before rc" "wire_row False (rc_after rc) = rc_after rc"
    using rc wire_row_before wire_row_after by (simp_all add: change_typed_def)
  ultimately show ?thesis
    using Some by (simp add: wire_event_def)
qed

text \<open>C11: The type of the events. Whatever the decoder yields, errors and panics included, and
  whenever replication is cancelled or its receiver is dropped, every event that replication puts
  on the channel is well typed: a statement without a row change, or the one or two images that its
  kind of change has, under the names of its own table, with type bytes in its columns, update marks
  in the after image of an update only, and its numbers within 32 bits. A well-typed event can
  always be serialised. When its images have columns and its transaction id is not the empty text,
  and the wire format decodes the two messages it was put into (the entry, and the row change
  inside it, whose encoding is not empty) as they were, the client's decoding of the entry's bytes
  gives back the event itself: every field as replication emitted it, but for the raw bytes, which
  are the encoded row change.\<close>

theorem replication_well_typed:
  assumes "Inr e \<in> set (ch_sent (rp_channel (snd (run_replication fd err inps start ch))))"
    and "ch_sent ch = []"
  shows "well_typed e \<and> (case canal_event_to_entry pb e of
      Inl _ \<Rightarrow> False
    | Inr x \<Rightarrow>
        event_filled e \<and> dec_entry pb (enc_entry pb x) = Inr x \<and> en_store_value x \<noteq> []
        \<and> (\<forall>code. proto_event_code (ev_entry_type e) = Inr code \<longrightarrow>
              dec_proto_row_change pb (enc_proto_row_change pb (entry_row_change e code))
                = Inr (entry_row_change e code))
        \<longrightarrow> entry_bytes_to_event pb (enc_entry pb x) = Inr (e\<lparr>ev_raw_bytes := en_store_value x\<rparr>))"
proof -
  have typed: "well_typed e"
    using run_replication_typed [OF assms(2), of fd err inps start] assms(1) by (simp add: channel_typed_def)
  then obtain x where x: "canal_event_to_entry pb e = Inr x"
    using well_typed_converts by blast
  have "entry_bytes_to_event pb (enc_entry pb x) = Inr (e\<lparr>ev_raw_bytes := en_store_value x\<rparr>)"
    if "event_filled e" and "dec_entry pb (enc_entry pb x) = Inr x" and ne: "en_store_value x \<noteq> []"
      and rc: "\<forall>code. proto_event_code (ev_entry_type e) = Inr code \<longrightarrow>
        dec_proto_row_change pb (enc_proto_row_change pb (entry_row_change e code))
          = Inr (entry_row_change e code)"
  proof -
    have "enc_proto_row_change pb (entry_row_change e code) \<noteq> []"
      if "proto_event_code (ev_entry_type e) = Inr code" for code
      using x ne that by (auto simp: canal_event_to_entry_def Let_def)
    then have "entry_bytes_to_event pb (enc_entry pb x) = Inr (wire_event (en_store_value x) e)"
      using entry_bytes_roundtrip [of pb e] x that(2) rc by simp
    then show ?thesis
      by (simp add: well_typed_wire [OF typed that(1)])
  qed
  with typed x show ?thesis by simp
qed

lemma replication_well_typed_witness:
  "\<exists>x raw. well_typed (ddl_event (sample_header 100) ''b.1'' ''db'' ''BEGIN'' None)
    \<and> entry_bytes_to_event
        (const_prost x (entry_row_change (ddl_event (sample_header 100) ''b.1'' ''db'' ''BEGIN'' None) 0)) [1]
      = Inr ((ddl_event (sample_header 100) ''b.1'' ''db'' ''BEGIN'' None)\<lparr>ev_raw_bytes := raw\<rparr>)"
proof -
  let ?e = "ddl_event (sample_header 100) ''b.1'' ''db'' ''BEGIN'' None"
  have sent: "Inr ?e
      \<in> set (ch_sent (rp_channel (snd (run_replication sample_floats None (decoded sample_stream) ''b.1''
          \<lparr>ch_sent = [], ch_room = None\<rparr>))))"
    using replication_loop_emits [of "replication_start ''b.1'' \<lparr>ch_sent = [], ch_room = None\<rparr>" sample_floats sample_stream]
    by (simp add: run_replication_def replication_start_def sample_stream_def event_output_def next_file_def
        next_gtid_def Let_def)
  define x where "x = projr (canal_event_to_entry (const_prost undefined undefined) ?e)"
  let ?pb = "const_prost x (entry_row_change ?e 0)"
  have e: "ev_entry_type ?e = EtDdl" "event_filled ?e"
    by (simp_all add: ddl_event_def event_filled_def)
  have x: "canal_event_to_entry ?pb ?e = Inr x" "en_store_value x \<noteq> []"
    by (simp_all add: x_def canal_event_to_entry_def const_prost_def Let_def e(1) proto_event_code_def)
  have rc: "entry_row_change ?e code = entry_row_change ?e 0" for code
    by (simp add: entry_row_change_def ddl_event_def)
  have "\<forall>code. proto_event_code (ev_entry_type ?e) = Inr code \<longrightarrow>
      dec_proto_row_change ?pb (enc_proto_row_change ?pb (entry_row_change ?e code))
        = Inr (entry_row_change ?e code)"
    by (simp add: const_prost_def) (metis rc)
  moreover have "dec_entry ?pb (enc_entry ?pb x) = Inr x" "enc_entry ?pb x = [1]"
    by (simp_all add: const_prost_def)
  ultimately have "entry_bytes_to_event ?pb [1] = Inr (?e\<lparr>ev_raw_bytes := en_store_value x\<rparr>)"
    using replication_well_typed [OF sent, of ?pb, THEN conjunct2, unfolded x(1) sum.case] x(2) e(2)
    by simp
  then show ?thesis
    using replication_well_typed [OF sent, of ?pb, THEN conjunct1] by simp blast
qed

subsection \<open>Streams without empty rows\<close>

definition cells_present :: "binlog_event \<Rightarrow> bool" where
  "cells_present event \<longleftrightarrow>
     (case event of
        WriteRowsEvent _ rows \<Rightarrow> list_all (\<lambda>r. r \<noteq> []) rows
      | DeleteRowsEvent _ rows \<Rightarrow> list_all (\<lambda>r. r \<noteq> []) rows
      | UpdateRowsEvent _ rows \<Rightarrow> list_all (\<lambda>row. fst row \<noteq> [] \<and> snd row \<noteq> []) rows
      | MySqlGtidEvent g \<Rightarrow> g \<noteq> []
      | MariaDbGtidEvent g \<Rightarrow> g \<noteq> []
      | _ \<Rightarrow> True)"

lemma extract_nonempty [simp]: "extract_column_values fd cells infos = [] \<longleftrightarrow> cells = []"
  by (cases cells) (simp_all add: extract_column_values_def)

lemma row_change_filled:
  "handle_row_event conv i ty cols = Inr change \<Longrightarrow> cols \<noteq> [] \<Longrightarrow>
    image_filled (rc_before change) \<and> image_filled (rc_after change)"
  "handle_update_row_event conv i before after = Inr change \<Longrightarrow> before \<noteq> [] \<Longrightarrow> after \<noteq> [] \<Longrightarrow>
    image_filled (rc_before change) \<and> image_filled (rc_after change)"
proof -
  show "handle_row_event conv i ty cols = Inr change \<Longrightarrow> cols \<noteq> [] \<Longrightarrow>
      image_filled (rc_before change) \<and> image_filled (rc_after change)"
    by (auto simp: handle_row_event_def image_filled_def split: option.splits event_type.splits)
  have "mark_updated 0 before after = [] \<longleftrightarrow> after = []"
    by (metis length_0_conv length_mark_updated)
  then show "handle_update_row_event conv i before after = Inr change \<Longrightarrow> before \<noteq> [] \<Longrightarrow> after \<noteq> [] \<Longrightarrow>
      image_filled (rc_before change) \<and> image_filled (rc_after change)"
    by (auto simp: handle_update_row_event_def image_filled_def split: option.splits)
qed

lemma event_output_filled:
  assumes "Inr e \<in> set (event_output fd hdr event conv jf gtid)" and "cells_present event" and "gtid \<noteq> Some []"
  shows "event_filled e"
  using assms
  by (cases event) (auto simp: event_output_def cells_present_def row_output_def event_filled_def row_event_def
      ddl_event_def list_all_iff Let_def dest!: row_change_filled split: sum.splits, force+)

lemma emitted_filled:
  assumes "list_all (\<lambda>(hdr, event). cells_present event) items" and "gtid \<noteq> Some []"
    and "Inr e \<in> set (emitted fd items conv jf gtid)"
  shows "event_filled e"
  using assms
proof (induction fd items conv jf gtid rule: emitted.induct)
  case (2 fd hdr event items conv jf gtid)
  have "next_gtid event gtid \<noteq> Some []"
    using "2.prems"(1,2) by (cases event) (simp_all add: next_gtid_def cells_present_def)
  moreover have "cells_present event"
    using "2.prems"(1) by simp
  ultimately show ?case
    using "2.IH" "2.prems" event_output_filled [of e fd hdr event conv "next_file event jf" "next_gtid event gtid"]
    by auto
qed simp

end
