(* ===== verification/Canal_Codec.thy ===== *)
theory Canal_Codec
  imports Canal_Proto
begin

text \<open>
  The framing of the wire protocol, \<open>codec.rs\<close> of \<open>canal-server\<close>: a four byte big-endian
  length and the payload. \<open>codec_decode\<close> and \<open>codec_encode\<close> are the two operations;
  \<open>decode_stream\<close> is how \<open>Framed\<close> drives the decoder as bytes arrive. The lemmas show the
  round trip for every payload within the limit, that the fragmentation of the byte stream does
  not matter, and that a rejected header is rejected before its payload is waited for.
\<close>

definition max_packet_size :: nat where
  "max_packet_size = 8 * 1024 * 1024"

text \<open>
  \<open>decode\<close>: the result, and what it leaves of the source buffer. \<open>Inr None\<close> is \<open>Ok(None)\<close>,
  more bytes are needed. A \<open>u32\<close> length is a \<open>usize\<close> without truncation, and
  \<open>4 + len\<close> does not overflow one. The speculative \<open>reserve\<close> changes no content; how much
  it asks for is \<open>codec_reserve\<close>.
\<close>

definition codec_decode :: "bytes \<Rightarrow> bytes option canal_result \<times> bytes" where
  "codec_decode src =
     (if length src < 4 then (Inr None, src)
      else
        (let len = unat (u32_from_be_bytes (take 4 src))
         in if len = 0 then (Inr (Some []), drop 4 src)
            else if max_packet_size < len
            then (Inl (Protocol (''packet too large: '' @ nat_str len @ '' bytes'')), src)
            else if length src < 4 + len then (Inr None, src)
            else (let src1 = drop 4 src; payload = take len src1
                  in (Inr (Some payload), drop len src1))))"

definition codec_reserve :: "bytes \<Rightarrow> nat" where
  "codec_reserve src =
     (if length src < 4 then 0
      else
        (let len = unat (u32_from_be_bytes (take 4 src))
         in if len = 0 \<or> max_packet_size < len \<or> 4 + len \<le> length src then 0
            else min (4 + len - length src) (64 * 1024)))"

definition codec_encode :: "bytes \<Rightarrow> bytes \<Rightarrow> unit canal_result \<times> bytes" where
  "codec_encode item dst =
     (let len = (of_nat (length item) :: u32) in (Inr (), (dst @ u32_to_be_bytes len) @ item))"

definition codec_frame :: "bytes \<Rightarrow> bytes" where
  "codec_frame item = snd (codec_encode item [])"

lemma codec_frame_eq: "codec_frame item = u32_to_be_bytes (of_nat (length item)) @ item"
  by (simp add: codec_frame_def codec_encode_def Let_def)

lemma codec_encode_eq: "codec_encode item dst = (Inr (), dst @ codec_frame item)"
  by (simp add: codec_frame_eq codec_encode_def Let_def)

lemma length_codec_frame [simp]: "length (codec_frame item) = 4 + length item"
  by (simp add: codec_frame_eq)

lemma unat_frame_length:
  "length item \<le> max_packet_size \<Longrightarrow> unat (of_nat (length item) :: u32) = length item"
  by (simp add: unat_of_nat max_packet_size_def)

lemma codec_decode_frame [simp]:
  assumes "length item \<le> max_packet_size"
  shows "codec_decode (codec_frame item @ rest) = (Inr (Some item), rest)"
  using unat_frame_length [OF assms] assms
  by (auto simp: codec_decode_def codec_frame_eq Let_def)

text \<open>Framing round trip. Encoding a payload of at most 8 MB never fails and appends a frame
  that the decoder reads back exactly, leaving what follows it untouched.\<close>

theorem codec_roundtrip:
  assumes "length item \<le> max_packet_size"
  shows "\<exists>f. codec_encode item dst = (Inr (), dst @ f)
    \<and> codec_decode (f @ rest) = (Inr (Some item), rest)"
  using assms by (simp add: codec_encode_eq)

lemma codec_roundtrip_witness:
  "\<exists>f. codec_encode [1, 2, 3] [7] = (Inr (), [7] @ f)
    \<and> codec_decode (f @ [9]) = (Inr (Some [1, 2, 3]), [9])"
  by (rule codec_roundtrip) (simp add: max_packet_size_def)

subsection \<open>Driving the decoder\<close>

lemma codec_decode_progress:
  "codec_decode src = (Inr (Some item), rest) \<Longrightarrow> length rest < length src"
  unfolding codec_decode_def by (auto simp: Let_def split: if_splits)

lemma codec_decode_append_None:
  "codec_decode src = (Inr None, r) \<Longrightarrow> r = src"
  unfolding codec_decode_def by (auto simp: Let_def split: if_splits)

text \<open>A decision once made is not changed by bytes that arrive later.\<close>

lemma codec_decode_append_Some:
  assumes "codec_decode src = (Inr (Some item), rest)"
  shows "codec_decode (src @ ext) = (Inr (Some item), rest @ ext)"
proof -
  have "\<not> length src < 4"
    using assms by (auto simp: codec_decode_def)
  then have "take 4 (src @ ext) = take 4 src" "drop 4 (src @ ext) = drop 4 src @ ext"
    "\<not> length (src @ ext) < 4"
    by simp_all
  then show ?thesis
    using assms unfolding codec_decode_def by (auto simp: Let_def split: if_splits)
qed

lemma codec_decode_append_Inl:
  assumes "codec_decode src = (Inl e, rest)"
  shows "codec_decode (src @ ext) = (Inl e, rest @ ext)"
proof -
  have "\<not> length src < 4"
    using assms by (auto simp: codec_decode_def)
  then have "take 4 (src @ ext) = take 4 src" "\<not> length (src @ ext) < 4"
    by simp_all
  then show ?thesis
    using assms unfolding codec_decode_def by (auto simp: Let_def split: if_splits)
qed

text \<open>
  The items decoded from a buffer until more bytes are needed, an error if there is one, and what
  is left.
\<close>

function decode_all :: "bytes \<Rightarrow> bytes list \<times> canal_error option \<times> bytes" where
  "decode_all src =
     (case codec_decode src of
        (Inl e, rest) \<Rightarrow> ([], Some e, rest)
      | (Inr None, rest) \<Rightarrow> ([], None, rest)
      | (Inr (Some item), rest) \<Rightarrow>
          (let (items, err, rest') = decode_all rest in (item # items, err, rest')))"
  by pat_completeness auto
termination
  by (relation "measure length") (auto dest: codec_decode_progress [OF sym])

declare decode_all.simps [simp del]

text \<open>The chunks of the stream as they arrive; reading stops at the first error.\<close>

fun decode_stream :: "bytes \<Rightarrow> bytes list \<Rightarrow> bytes list \<times> canal_error option \<times> bytes" where
  "decode_stream buf [] = decode_all buf"
| "decode_stream buf (c # cs) =
     (case decode_all buf of
        (items, Some e, rest) \<Rightarrow> (items, Some e, rest @ concat (c # cs))
      | (items, None, rest) \<Rightarrow>
          (let (items', err, rest') = decode_stream (rest @ c) cs in (items @ items', err, rest')))"

lemma decode_all_append:
  "decode_all (src @ ext) =
     (case decode_all src of
        (items, Some e, rest) \<Rightarrow> (items, Some e, rest @ ext)
      | (items, None, rest) \<Rightarrow>
          (let (items', err, rest') = decode_all (rest @ ext) in (items @ items', err, rest')))"
proof (induction src rule: decode_all.induct)
  case (1 src)
  obtain r rest where d: "codec_decode src = (r, rest)"
    by fastforce
  show ?case
  proof (cases r)
    case (Inl e)
    with d codec_decode_append_Inl [of src e rest ext] show ?thesis
      by (simp add: decode_all.simps [of src] decode_all.simps [of "src @ ext"])
  next
    case (Inr o')
    show ?thesis
    proof (cases o')
      case None
      with d Inr have "codec_decode src = (Inr None, rest)" by simp
      moreover from this have "rest = src" by (rule codec_decode_append_None)
      ultimately show ?thesis
        by (simp add: decode_all.simps [of src] Let_def split_def)
    next
      case (Some item)
      with d Inr have s: "codec_decode src = (Inr (Some item), rest)" by simp
      have "decode_all src = (let (items, err, rest') = decode_all rest in (item # items, err, rest'))"
        by (simp add: decode_all.simps [of src] s)
      moreover have "decode_all (src @ ext)
          = (let (items, err, rest') = decode_all (rest @ ext) in (item # items, err, rest'))"
        by (simp add: decode_all.simps [of "src @ ext"] codec_decode_append_Some [OF s])
      ultimately show ?thesis
        using "1.IH" [OF s [symmetric] refl refl]
        by (auto simp: Let_def split_def split: option.splits)
    qed
  qed
qed

lemma decode_stream_eq:
  "decode_stream buf cs = decode_all (buf @ concat cs)"
proof (induction cs arbitrary: buf)
  case (Cons c cs)
  obtain items err rest where d: "decode_all buf = (items, err, rest)"
    by (metis prod_cases3)
  show ?case
    by (cases err) (simp_all add: d decode_all_append [of buf] Cons.IH)
qed simp

text \<open>Fragmentation is invisible. However the bytes of a connection are split into chunks, the
  frames read, the error that ends the stream if there is one, and the bytes left over are those
  of reading the whole stream at once.\<close>

theorem decode_stream_chunks:
  "decode_stream buf cs = decode_all (buf @ concat cs)"
  by (rule decode_stream_eq)

lemma decode_all_frames:
  "(\<And>item. item \<in> set items \<Longrightarrow> length item \<le> max_packet_size) \<Longrightarrow>
    decode_all (concat (map codec_frame items)) = (items, None, [])"
proof (induction items)
  case Nil
  show ?case by (simp add: decode_all.simps codec_decode_def)
next
  case (Cons item items)
  then show ?case
    by (simp add: decode_all.simps [of "codec_frame item @ _"])
qed

text \<open>C27: A stream of frames. The bytes that encoding a list of payloads, each at most 8 MB, writes
  are read back as exactly these payloads in order, in whatever chunks they arrive.\<close>

theorem codec_stream_roundtrip:
  assumes "\<forall>item \<in> set items. length item \<le> max_packet_size"
    and "concat cs = snd (fold (\<lambda>item (r, dst). codec_encode item dst) items (Inr (), []))"
  shows "decode_stream [] cs = (items, None, [])"
proof -
  have "fold (\<lambda>item (r, dst). codec_encode item dst) items (Inr (), dst)
      = (Inr (), dst @ concat (map codec_frame items))" for dst
    by (induction items arbitrary: dst) (simp_all add: codec_encode_eq)
  then have "concat cs = concat (map codec_frame items)"
    using assms(2) by simp
  moreover have "decode_stream [] cs = decode_all (concat cs)"
    using decode_stream_eq [of "[]" cs] by simp
  ultimately show ?thesis
    using assms(1) by (simp add: decode_all_frames)
qed

lemma codec_stream_roundtrip_witness:
  "decode_stream [] [[0, 0], [0, 1, 5, 0, 0, 0], [0]] = ([[5], []], None, [])"
  by (rule codec_stream_roundtrip)
    (simp_all add: max_packet_size_def codec_encode_eq codec_frame_eq u32_to_be_bytes_def)

text \<open>The limit is the decoder's alone. Encoding never fails, also for a payload over the
  8 MB limit; what it then writes makes the receiving decoder fail on its header, before any
  of the payload is read, so such a packet ends the connection that it was sent on.\<close>

theorem codec_oversized:
  assumes "max_packet_size < length item" and "length item < 2 ^ 32"
  shows "fst (codec_encode item dst) = Inr ()
    \<and> (\<exists>e. codec_decode (take (4 + n) (codec_frame item)) = (Inl e, take (4 + n) (codec_frame item)))"
proof -
  have len: "unat (of_nat (length item) :: u32) = length item"
    using assms(2) by (simp add: unat_of_nat)
  have "take 4 (take (4 + n) (codec_frame item)) = u32_to_be_bytes (of_nat (length item))"
    by (simp add: codec_frame_eq)
  moreover have "\<not> length (take (4 + n) (codec_frame item)) < 4"
    by simp
  ultimately show ?thesis
    using len assms(1) by (auto simp: codec_decode_def codec_encode_eq Let_def)
qed

lemma codec_oversized_witness:
  "\<exists>e. codec_decode (take (4 + 0) (codec_frame (replicate 8388609 0)))
      = (Inl e, take (4 + 0) (codec_frame (replicate 8388609 0)))"
  using codec_oversized [of "replicate 8388609 0" "[]" 0]
  by (simp add: max_packet_size_def del: replicate.simps)

text \<open>Speculative reservation. Whatever length a header claims, a call of the decoder
  reserves at most 64 KB, and nothing for a frame that is complete, empty or over the limit.\<close>

theorem codec_reserve_bounded:
  "codec_reserve src \<le> 64 * 1024
    \<and> (0 < codec_reserve src \<longleftrightarrow> fst (codec_decode src) = Inr None \<and> 4 \<le> length src)"
  by (auto simp: codec_reserve_def codec_decode_def Let_def min_def)

end
