(* ===== verification/Canal_Client.thy ===== *)
theory Canal_Client
  imports Canal_Codec Canal_Conversion
begin

text \<open>
  The client library, \<open>lib.rs\<close> of \<open>canal-client\<close>: packets on the socket, the connection
  handshake, the subscription and the background loop that polls the server, forwards events to
  the consumer and acknowledges every batch. (The decoding of one entry is in
  \<open>Canal_Conversion\<close>.) The lemmas show that the client's framing is the server codec's, what the
  handshake accepts, and that the loop forwards every entry of every batch once and in order, and
  acknowledges exactly the batches it forwarded.
\<close>

subsection \<open>The socket\<close>

text \<open>
  The bytes that the peer sends until it closes, the bytes written to it, and the number of writes
  that succeed (all of them if \<open>None\<close>).
\<close>

record tcp_stream =
  tcp_in :: bytes
  tcp_out :: bytes
  tcp_writes :: "nat option"

definition read_exact :: "nat \<Rightarrow> tcp_stream \<Rightarrow> bytes canal_result \<times> tcp_stream" where
  "read_exact n s =
     (if length (tcp_in s) < n then (Inl (Io ''early eof''), s\<lparr>tcp_in := []\<rparr>)
      else (Inr (take n (tcp_in s)), s\<lparr>tcp_in := drop n (tcp_in s)\<rparr>))"

definition write_all :: "bytes \<Rightarrow> tcp_stream \<Rightarrow> unit canal_result \<times> tcp_stream" where
  "write_all b s =
     (if tcp_writes s = Some 0 then (Inl (Io ''broken pipe''), s)
      else (Inr (), s\<lparr>tcp_out := tcp_out s @ b, tcp_writes := map_option (\<lambda>n. n - 1) (tcp_writes s)\<rparr>))"

definition send_packet :: "prost \<Rightarrow> packet \<Rightarrow> tcp_stream \<Rightarrow> unit canal_result \<times> tcp_stream" where
  "send_packet pb packet s =
     (let body = enc_packet pb packet;
          len = (of_nat (length body) :: u32);
          buf = u32_to_be_bytes len @ body
      in write_all buf s)"

definition read_packet :: "prost \<Rightarrow> tcp_stream \<Rightarrow> packet canal_result \<times> tcp_stream" where
  "read_packet pb s =
     (case read_exact 4 s of
        (Inl e, s1) \<Rightarrow> (Inl e, s1)
      | (Inr hdr, s1) \<Rightarrow>
          (let len = unat (u32_from_be_bytes hdr)
           in if len = 0 then (Inl (Protocol ''received zero-length packet''), s1)
              else if 8 * 1024 * 1024 < len
              then (Inl (Protocol (''packet too large: '' @ nat_str len @ '' bytes (max 8MB)'')), s1)
              else
                (case read_exact len s1 of
                   (Inl e, s2) \<Rightarrow> (Inl e, s2)
                 | (Inr body, s2) \<Rightarrow>
                     (case dec_packet pb body of
                        Inl e \<Rightarrow> (Inl (Protocol (''decode Packet: '' @ e)), s2)
                      | Inr p \<Rightarrow> (Inr p, s2)))))"

subsection \<open>The client\<close>

record canal_client =
  cli_host :: string
  cli_port :: u16
  cli_client_id :: u64
  cli_destination :: string
  cli_filter :: filter_pattern
  cli_stream :: "tcp_stream option"

text \<open>\<open>new\<close> takes the next id of a process-wide counter that starts at 1001.\<close>

definition next_id_init :: u64 where
  "next_id_init = 1001"

definition canal_client_new :: "string \<Rightarrow> u16 \<Rightarrow> u64 \<Rightarrow> canal_client \<times> u64" where
  "canal_client_new host port next_id =
     (\<lparr>cli_host = host, cli_port = port, cli_client_id = next_id, cli_destination = ''example'',
       cli_filter = filter_pattern_default, cli_stream = None\<rparr>, next_id + 1)"

definition with_destination :: "string \<Rightarrow> canal_client \<Rightarrow> canal_client" where
  "with_destination dest c = c\<lparr>cli_destination := dest\<rparr>"

definition with_filter :: "filter_pattern \<Rightarrow> canal_client \<Rightarrow> canal_client" where
  "with_filter flt c = c\<lparr>cli_filter := flt\<rparr>"

definition id_string :: "canal_client \<Rightarrow> string" where
  "id_string c = nat_str (unat (cli_client_id c))"

definition auth_packet :: "prost \<Rightarrow> canal_client \<Rightarrow> packet" where
  "auth_packet pb c =
     (let auth = client_auth_default
            \<lparr>ca_username := '''', ca_password := [], ca_destination := cli_destination c,
             ca_client_id := id_string c, ca_filter := fp_pattern (cli_filter c)\<rparr>
      in packet_default\<lparr>pk_type := packet_type_i32 PtClientauthentication, pk_body := enc_client_auth pb auth\<rparr>)"

text \<open>\<open>connect\<close>: the outcome of the TCP connection, the error's text or the new stream, is given.\<close>

definition connect_handshake :: "prost \<Rightarrow> canal_client \<Rightarrow> tcp_stream \<Rightarrow> unit canal_result \<times> canal_client" where
  "connect_handshake pb c s =
     (case send_packet pb (auth_packet pb c) s of
        (Inl e, _) \<Rightarrow> (Inl e, c)
      | (Inr _, s1) \<Rightarrow>
          (case read_packet pb s1 of
             (Inl e, _) \<Rightarrow> (Inl e, c)
           | (Inr ack_packet, s2) \<Rightarrow>
               (if pk_type ack_packet \<noteq> packet_type_i32 PtAck
                then (Inl (Protocol ''expected Ack after ClientAuth''), c)
                else
                  (case dec_ack pb (pk_body ack_packet) of
                     Inl e \<Rightarrow> (Inl (Protocol (''decode Ack: '' @ e)), c)
                   | Inr ack \<Rightarrow>
                       (if ak_error_message ack \<noteq> [] then (Inl (AuthFailed (ak_error_message ack)), c)
                        else (Inr (), c\<lparr>cli_stream := Some s2\<rparr>))))))"

definition client_connect ::
    "prost \<Rightarrow> (string, tcp_stream) rust_result \<Rightarrow> canal_client \<Rightarrow> unit canal_result \<times> canal_client" where
  "client_connect pb tcp c =
     (let addr = cli_host c @ '':'' @ nat_str (unat (cli_port c))
      in (case tcp of
            Inl e \<Rightarrow> (Inl (BinlogConnection (''TCP connect to '' @ addr @ '': '' @ e)), c)
          | Inr s \<Rightarrow> connect_handshake pb c s))"

subsection \<open>Subscription and the poll loop\<close>

definition sub_packet :: "prost \<Rightarrow> canal_client \<Rightarrow> packet" where
  "sub_packet pb c =
     (let sub = \<lparr>sb_destination = cli_destination c, sb_client_id = id_string c,
                 sb_filter = fp_pattern (cli_filter c)\<rparr>
      in packet_default\<lparr>pk_type := packet_type_i32 PtSubscription, pk_body := enc_sub pb sub\<rparr>)"

definition get_packet :: "prost \<Rightarrow> string \<Rightarrow> string \<Rightarrow> packet" where
  "get_packet pb destination cid =
     (let get = get_request_default\<lparr>gt_destination := destination, gt_client_id := cid, gt_fetch_size := 100\<rparr>
      in packet_default\<lparr>pk_type := packet_type_i32 PtGet, pk_body := enc_get_request pb get\<rparr>)"

definition ack_packet :: "prost \<Rightarrow> string \<Rightarrow> string \<Rightarrow> i64 \<Rightarrow> packet" where
  "ack_packet pb destination cid batch_id =
     packet_default\<lparr>pk_type := packet_type_i32 PtClientack,
       pk_body := enc_client_ack pb
         \<lparr>cl_destination = destination, cl_client_id = cid, cl_batch_id = batch_id\<rparr>\<rparr>"

text \<open>
  The background task: its socket, what it has handed to the consumer, how many more items the
  consumer takes before it is dropped (all of them if \<open>None\<close>), and the delays it slept.
\<close>

record poll_task =
  po_stream :: tcp_stream
  po_idle_count :: u32
  po_out :: "canal_event canal_result list"
  po_consumer :: "nat option"
  po_delays :: "u64 list"

definition tx_send :: "canal_event canal_result \<Rightarrow> poll_task \<Rightarrow> bool \<times> poll_task" where
  "tx_send x t =
     (if po_consumer t = Some 0 then (False, t)
      else (True, t\<lparr>po_out := po_out t @ [x], po_consumer := map_option (\<lambda>n. n - 1) (po_consumer t)\<rparr>))"

text \<open>Forward the entries of a batch; \<open>False\<close> when the consumer is gone.\<close>

fun forward :: "prost \<Rightarrow> bytes list \<Rightarrow> poll_task \<Rightarrow> bool \<times> poll_task" where
  "forward pb [] t = (True, t)"
| "forward pb (entry_bytes # rest) t =
     (case tx_send (entry_bytes_to_event pb entry_bytes) t of
        (False, t') \<Rightarrow> (False, t')
      | (True, t') \<Rightarrow> forward pb rest t')"

definition backoff_delay :: "u32 \<Rightarrow> u64" where
  "backoff_delay idle_count =
     saturating_mul_u64 100 (saturating_pow_u64 2 (unat (min idle_count 6)))"

definition poll_backoff :: "poll_task \<Rightarrow> poll_task" where
  "poll_backoff t =
     (let n = saturating_add_u32 (po_idle_count t) 1
      in t\<lparr>po_idle_count := n, po_delays := po_delays t @ [backoff_delay n]\<rparr>)"

text \<open>One round of the loop; \<open>False\<close> when it ends the task.\<close>

definition poll_round :: "prost \<Rightarrow> string \<Rightarrow> string \<Rightarrow> poll_task \<Rightarrow> bool \<times> poll_task" where
  "poll_round pb destination cid t =
     (case send_packet pb (get_packet pb destination cid) (po_stream t) of
        (Inl e, s1) \<Rightarrow> (False, t\<lparr>po_stream := s1\<rparr>)
      | (Inr _, s1) \<Rightarrow>
          (case read_packet pb s1 of
             (Inl e, s2) \<Rightarrow> (False, t\<lparr>po_stream := s2\<rparr>)
           | (Inr resp, s2) \<Rightarrow>
               (let t2 = t\<lparr>po_stream := s2\<rparr>
                in (case packet_type_try_from (pk_type resp) of
                      Some PtMessages \<Rightarrow>
                        (case dec_messages pb (pk_body resp) of
                           Inl e \<Rightarrow> (False, t2)
                         | Inr msgs \<Rightarrow>
                             (case forward pb (mg_messages msgs) t2 of
                                (False, t3) \<Rightarrow> (False, t3)
                              | (True, t3) \<Rightarrow>
                                  (case send_packet pb (ack_packet pb destination cid (mg_batch_id msgs))
                                          (po_stream t3) of
                                     (Inl e, s4) \<Rightarrow> (False, t3\<lparr>po_idle_count := 0, po_stream := s4\<rparr>)
                                   | (Inr _, s4) \<Rightarrow> (True, t3\<lparr>po_idle_count := 0, po_stream := s4\<rparr>))))
                    | Some PtAck \<Rightarrow> (False, t2)
                    | _ \<Rightarrow> (True, poll_backoff t2)))))"

text \<open>The loop ends because every round that goes on has read a packet.\<close>

lemma forward_stream [simp]: "po_stream (snd (forward pb es t)) = po_stream t"
  by (induction pb es t rule: forward.induct) (auto simp: tx_send_def split: prod.splits bool.splits)

lemma write_all_in [simp]: "tcp_in (snd (write_all b s)) = tcp_in s"
  by (simp add: write_all_def)

lemma read_packet_shorter:
  "read_packet pb s = (Inr p, s') \<Longrightarrow> length (tcp_in s') < length (tcp_in s)"
  by (auto simp: read_packet_def read_exact_def Let_def split: if_splits sum.splits)

lemma poll_round_shorter:
  assumes "poll_round pb d cid t = (True, t')"
  shows "length (tcp_in (po_stream t')) < length (tcp_in (po_stream t))"
proof -
  obtain r1 s1 where w: "send_packet pb (get_packet pb d cid) (po_stream t) = (r1, s1)"
    by fastforce
  have in1: "tcp_in s1 = tcp_in (po_stream t)"
    using w by (metis send_packet_def snd_conv write_all_in)
  obtain r2 s2 where r: "read_packet pb s1 = (r2, s2)"
    by fastforce
  obtain p where p: "r2 = Inr p"
    using assms w r by (cases r1; cases r2) (auto simp: poll_round_def)
  have less: "length (tcp_in s2) < length (tcp_in (po_stream t))"
    using read_packet_shorter [of pb s1 p s2] r p in1 by simp
  have fw: "po_stream t3 = s2" if "forward pb es (t\<lparr>po_stream := s2\<rparr>) = (b, t3)" for es b t3
    using forward_stream [of pb es "t\<lparr>po_stream := s2\<rparr>"] that by simp
  have "tcp_in (po_stream t') = tcp_in s2"
    using assms w r p fw write_all_in
    by (auto simp: poll_round_def poll_backoff_def Let_def send_packet_def
        split: sum.splits prod.splits option.splits packet_type.splits bool.splits)
      (metis snd_conv write_all_in)+
  with less show ?thesis by simp
qed

function poll_loop :: "prost \<Rightarrow> string \<Rightarrow> string \<Rightarrow> poll_task \<Rightarrow> poll_task" where
  "poll_loop pb destination cid t =
     (case poll_round pb destination cid t of
        (False, t') \<Rightarrow> t'
      | (True, t') \<Rightarrow> poll_loop pb destination cid t')"
  by pat_completeness auto
termination
  by (relation "measure (\<lambda>(pb, d, cid, t). length (tcp_in (po_stream t)))")
    (auto dest: poll_round_shorter [OF sym])

declare poll_loop.simps [simp del]

text \<open>
  \<open>subscribe\<close> takes the stream out of the client and starts the task. Its position argument is
  not used.
\<close>

definition client_subscribe ::
    "prost \<Rightarrow> nat option \<Rightarrow> log_position option \<Rightarrow> canal_client \<Rightarrow> poll_task canal_result \<times> canal_client" where
  "client_subscribe pb consumer position c =
     (case cli_stream c of
        None \<Rightarrow> (Inl (Internal ''not connected''), c)
      | Some s \<Rightarrow>
          (let c' = c\<lparr>cli_stream := None\<rparr>
           in (case send_packet pb (sub_packet pb c) s of
                 (Inl e, _) \<Rightarrow> (Inl e, c')
               | (Inr _, s1) \<Rightarrow>
                   (case read_packet pb s1 of
                      (Inl e, _) \<Rightarrow> (Inl e, c')
                    | (Inr ackp, s2) \<Rightarrow>
                        (if pk_type ackp \<noteq> packet_type_i32 PtAck
                         then (Inl (Protocol ''expected Ack after Sub''), c')
                         else (Inr \<lparr>po_stream = s2, po_idle_count = 0, po_out = [],
                                    po_consumer = consumer, po_delays = []\<rparr>, c'))))))"

text \<open>
  \<open>CanalEventStream\<close>, the consumer's end: what the task has put on the channel and the consumer
  not taken yet, and whether the task, with the sending end, is still there. \<open>next_event\<close> that has
  to wait is \<open>None\<close>; the end of the stream is \<open>Some None\<close>.
\<close>

record event_stream =
  est_rx :: "canal_event canal_result list"
  est_running :: bool

definition next_event :: "event_stream \<Rightarrow> canal_event canal_result option option \<times> event_stream" where
  "next_event s =
     (case est_rx s of
        x # rest \<Rightarrow> (Some (Some x), s\<lparr>est_rx := rest\<rparr>)
      | [] \<Rightarrow> (if est_running s then None else Some None, s))"

definition event_stream_drop :: "event_stream \<Rightarrow> event_stream" where
  "event_stream_drop s = s\<lparr>est_running := False\<rparr>"

text \<open>\<open>while let Some(x) = stream.next_event().await\<close>; the stream's items when it ends.\<close>

fun take_events :: "nat \<Rightarrow> event_stream \<Rightarrow> canal_event canal_result list" where
  "take_events 0 s = []"
| "take_events (Suc n) s =
     (case next_event s of (Some (Some x), s') \<Rightarrow> x # take_events n s' | _ \<Rightarrow> [])"

lemma take_events_all: "length (est_rx s) \<le> n \<Longrightarrow> take_events n s = est_rx s"
  by (induction n s rule: take_events.induct) (auto simp: next_event_def split: list.splits)

lemma next_event_ends:
  "fst (next_event s) = Some None \<longleftrightarrow> est_rx s = [] \<and> \<not> est_running s"
  by (auto simp: next_event_def split: list.splits)

subsection \<open>Framing\<close>

lemma send_packet_frame:
  "send_packet pb p s = write_all (codec_frame (enc_packet pb p)) s"
  by (simp add: send_packet_def codec_frame_eq Let_def)

text \<open>C29: Client and server agree on the framing. On every byte stream, the client reads a packet
  exactly where the server's codec decodes a frame: the same payload and the same rest for a
  non-empty frame, an error where the codec reports one or would wait for bytes that the peer never
  sends. The one difference is the empty frame, which the codec passes on and the client refuses.\<close>

theorem client_framing_agrees:
  "case codec_decode (tcp_in s) of
     (Inr (Some b), rest) \<Rightarrow>
       if b = [] then fst (read_packet pb s) = Inl (Protocol ''received zero-length packet'')
       else snd (read_packet pb s) = s\<lparr>tcp_in := rest\<rparr>
         \<and> (case dec_packet pb b of
              Inr p \<Rightarrow> fst (read_packet pb s) = Inr p
            | Inl e \<Rightarrow> fst (read_packet pb s) = Inl (Protocol (''decode Packet: '' @ e)))
   | (Inr None, _) \<Rightarrow> fst (read_packet pb s) = Inl (Io ''early eof'')
   | (Inl _, _) \<Rightarrow> \<exists>m. fst (read_packet pb s) = Inl (Protocol m)"
proof (cases "length (tcp_in s) < 4")
  case True
  then show ?thesis by (simp add: codec_decode_def read_packet_def read_exact_def)
next
  case False
  define len where "len = unat (u32_from_be_bytes (take 4 (tcp_in s)))"
  have rd: "read_exact 4 s = (Inr (take 4 (tcp_in s)), s\<lparr>tcp_in := drop 4 (tcp_in s)\<rparr>)"
    using False by (simp add: read_exact_def)
  consider "len = 0" | "8388608 < len" | "0 < len" "len \<le> 8388608" "length (tcp_in s) < 4 + len"
    | "0 < len" "len \<le> 8388608" "4 + len \<le> length (tcp_in s)"
    by linarith
  then show ?thesis
  proof cases
    case 4
    then have "take len (drop 4 (tcp_in s)) \<noteq> []"
      using False by auto
    with 4 False show ?thesis
      by (auto simp: codec_decode_def read_packet_def rd Let_def max_packet_size_def
          len_def [symmetric] read_exact_def split: sum.splits)
  qed (use False in \<open>auto simp: codec_decode_def read_packet_def rd Let_def max_packet_size_def
      len_def [symmetric] read_exact_def\<close>)
qed

lemma read_packet_frame:
  assumes "tcp_in s = codec_frame b @ rest" and "b \<noteq> []" and "length b \<le> max_packet_size"
    and "dec_packet pb b = Inr p"
  shows "read_packet pb s = (Inr p, s\<lparr>tcp_in := rest\<rparr>)"
proof -
  have "unat (of_nat (length b) :: u32) = length b" "0 < length b" "length b \<le> 8388608"
    using unat_frame_length [OF assms(3)] assms(2,3) by (simp_all add: max_packet_size_def)
  then show ?thesis
    using assms(1,4) by (simp add: read_packet_def read_exact_def codec_frame_eq Let_def)
qed

subsection \<open>Forwarding\<close>

definition get_frame :: "prost \<Rightarrow> string \<Rightarrow> string \<Rightarrow> bytes" where
  "get_frame pb d cid = codec_frame (enc_packet pb (get_packet pb d cid))"

definition ack_frame :: "prost \<Rightarrow> string \<Rightarrow> string \<Rightarrow> i64 \<Rightarrow> bytes" where
  "ack_frame pb d cid i = codec_frame (enc_packet pb (ack_packet pb d cid i))"

text \<open>A frame \<open>b\<close> that carries the batch \<open>m\<close>.\<close>

definition carries :: "prost \<Rightarrow> bytes \<Rightarrow> messages \<Rightarrow> bool" where
  "carries pb b m \<longleftrightarrow> b \<noteq> [] \<and> length b \<le> max_packet_size
     \<and> (\<exists>p. dec_packet pb b = Inr p \<and> pk_type p = packet_type_i32 PtMessages
          \<and> dec_messages pb (pk_body p) = Inr m)"

lemma forward_all:
  "po_consumer t = None \<Longrightarrow>
    forward pb es t = (True, t\<lparr>po_out := po_out t @ map (entry_bytes_to_event pb) es\<rparr>)"
  by (induction pb es t rule: forward.induct) (simp_all add: tx_send_def)

lemma forward_some:
  "po_consumer t = Some n \<Longrightarrow> n < length es \<Longrightarrow>
    \<exists>t'. forward pb es t = (False, t') \<and> po_stream t' = po_stream t
      \<and> po_out t' = po_out t @ map (entry_bytes_to_event pb) (take n es)"
proof (induction es arbitrary: t n)
  case (Cons e es)
  show ?case
  proof (cases n)
    case 0
    with Cons.prems show ?thesis by (simp add: tx_send_def)
  next
    case (Suc m)
    with Cons.prems Cons.IH [of "snd (tx_send (entry_bytes_to_event pb e) t)" m] show ?thesis
      by (auto simp: tx_send_def)
  qed
qed simp

lemma poll_round_batch:
  assumes "tcp_in (po_stream t) = codec_frame b @ rest" and "carries pb b m"
    and "tcp_writes (po_stream t) = None" and "po_consumer t = None"
  shows "poll_round pb d cid t =
    (True, t\<lparr>po_stream := (po_stream t)\<lparr>tcp_in := rest,
               tcp_out := tcp_out (po_stream t) @ get_frame pb d cid @ ack_frame pb d cid (mg_batch_id m)\<rparr>,
             po_out := po_out t @ map (entry_bytes_to_event pb) (mg_messages m), po_idle_count := 0\<rparr>)"
proof -
  obtain p where p: "dec_packet pb b = Inr p" "pk_type p = packet_type_i32 PtMessages"
    "dec_messages pb (pk_body p) = Inr m" "b \<noteq> []" "length b \<le> max_packet_size"
    using assms(2) by (auto simp: carries_def)
  let ?s1 = "(po_stream t)\<lparr>tcp_out := tcp_out (po_stream t) @ get_frame pb d cid\<rparr>"
  have "send_packet pb (get_packet pb d cid) (po_stream t) = (Inr (), ?s1)"
    using assms(3) by (simp add: send_packet_frame write_all_def get_frame_def)
  moreover have "read_packet pb ?s1 = (Inr p, ?s1\<lparr>tcp_in := rest\<rparr>)"
    using assms(1) p(1,4,5) by (intro read_packet_frame) simp_all
  ultimately show ?thesis
    using assms(3,4) p(2,3)
    by (simp add: poll_round_def Let_def forward_all send_packet_frame write_all_def ack_frame_def)
qed

lemma poll_loop_batches:
  assumes "list_all2 (carries pb) bs ms"
    and "tcp_in (po_stream t) = concat (map codec_frame bs)"
    and "tcp_writes (po_stream t) = None" and "po_consumer t = None"
  shows "po_out (poll_loop pb d cid t)
      = po_out t @ concat (map (\<lambda>m. map (entry_bytes_to_event pb) (mg_messages m)) ms)
    \<and> tcp_out (po_stream (poll_loop pb d cid t)) = tcp_out (po_stream t)
        @ concat (map (\<lambda>m. get_frame pb d cid @ ack_frame pb d cid (mg_batch_id m)) ms)
        @ get_frame pb d cid
    \<and> po_delays (poll_loop pb d cid t) = po_delays t"
  using assms
proof (induction bs ms arbitrary: t rule: list_all2_induct)
  case Nil
  then have "poll_round pb d cid t = (False, t\<lparr>po_stream := (po_stream t)
      \<lparr>tcp_out := tcp_out (po_stream t) @ get_frame pb d cid\<rparr>\<rparr>)"
    by (simp add: poll_round_def send_packet_frame write_all_def get_frame_def read_packet_def read_exact_def)
  then show ?case by (simp add: poll_loop.simps [of pb d cid t])
next
  case (Cons b bs m ms)
  have "tcp_in (po_stream t) = codec_frame b @ concat (map codec_frame bs)"
    using Cons.prems by simp
  note r = poll_round_batch [OF this Cons.hyps(1) Cons.prems(2,3), of d cid]
  show ?case
    using Cons.IH [of "snd (poll_round pb d cid t)"] Cons.prems
    by (simp add: poll_loop.simps [of pb d cid t] r)
qed

text \<open>The client forwards every batch. While the server answers with batches, the poll loop
  hands the consumer the entries of each batch, decoded or as an error, once and in order; it sends
  one \<open>Get\<close> per batch and acknowledges each batch by its id after forwarding it, without a pause;
  it ends when the server closes the stream.\<close>

theorem poll_loop_forwards:
  assumes "list_all2 (carries pb) bs ms"
    and "tcp_in (po_stream t) = concat (map codec_frame bs)"
    and "tcp_writes (po_stream t) = None" and "po_consumer t = None"
  shows "po_out (poll_loop pb d cid t)
      = po_out t @ concat (map (\<lambda>m. map (entry_bytes_to_event pb) (mg_messages m)) ms)
    \<and> tcp_out (po_stream (poll_loop pb d cid t)) = tcp_out (po_stream t)
        @ concat (map (\<lambda>m. get_frame pb d cid @ ack_frame pb d cid (mg_batch_id m)) ms)
        @ get_frame pb d cid
    \<and> po_delays (poll_loop pb d cid t) = po_delays t"
  using assms by (rule poll_loop_batches)

text \<open>A wire format in which every payload is the same packet with the same batch.\<close>

definition batch_prost :: "messages \<Rightarrow> prost" where
  "batch_prost m = null_prost
     \<lparr>dec_packet := \<lambda>_. Inr (packet_default\<lparr>pk_type := packet_type_i32 PtMessages\<rparr>),
      dec_messages := \<lambda>_. Inr m\<rparr>"

definition sample_task :: "nat option \<Rightarrow> bytes \<Rightarrow> poll_task" where
  "sample_task n inp = \<lparr>po_stream = \<lparr>tcp_in = inp, tcp_out = [], tcp_writes = None\<rparr>,
     po_idle_count = 0, po_out = [], po_consumer = n, po_delays = []\<rparr>"

lemma carries_batch_prost: "carries (batch_prost m) [1] m"
  by (simp add: carries_def batch_prost_def max_packet_size_def)

lemma poll_loop_forwards_witness:
  "po_out (poll_loop (batch_prost \<lparr>mg_batch_id = 3, mg_messages = [[5]]\<rparr>) ''d'' ''1001''
      (sample_task None (codec_frame [1] @ codec_frame [1])))
    = [Inl (Protocol ''Failed to decode Entry from 1 bytes: unreadable''),
       Inl (Protocol ''Failed to decode Entry from 1 bytes: unreadable'')]"
proof -
  let ?m = "\<lparr>mg_batch_id = 3, mg_messages = [[5]]\<rparr> :: messages"
  have "nat_str (Suc 0) = ''1''"
    by code_simp
  then have "entry_bytes_to_event (batch_prost ?m) [5]
      = Inl (Protocol ''Failed to decode Entry from 1 bytes: unreadable'')"
    by (simp add: entry_bytes_to_event_def batch_prost_def null_prost_def)
  then show ?thesis
    using poll_loop_forwards [of "batch_prost ?m" "[[1], [1]]" "[?m, ?m]"
        "sample_task None (codec_frame [1] @ codec_frame [1])" "''d''" "''1001''"]
    by (simp add: carries_batch_prost sample_task_def)
qed

text \<open>C31: No acknowledgement of an unfinished batch. When the consumer goes away in the middle of a
  batch, the entries before that point have been handed over, the task ends, and the batch is not
  acknowledged, so the server will send it again.\<close>

theorem unfinished_batch_not_acked:
  assumes "tcp_in (po_stream t) = codec_frame b @ rest" and "carries pb b m"
    and "tcp_writes (po_stream t) = None" and "po_consumer t = Some n" and "n < length (mg_messages m)"
  shows "po_out (poll_loop pb d cid t)
      = po_out t @ map (entry_bytes_to_event pb) (take n (mg_messages m))
    \<and> tcp_out (po_stream (poll_loop pb d cid t)) = tcp_out (po_stream t) @ get_frame pb d cid"
proof -
  obtain p where p: "dec_packet pb b = Inr p" "pk_type p = packet_type_i32 PtMessages"
    "dec_messages pb (pk_body p) = Inr m" "b \<noteq> []" "length b \<le> max_packet_size"
    using assms(2) by (auto simp: carries_def)
  let ?s1 = "(po_stream t)\<lparr>tcp_out := tcp_out (po_stream t) @ get_frame pb d cid\<rparr>"
  let ?t2 = "t\<lparr>po_stream := ?s1\<lparr>tcp_in := rest\<rparr>\<rparr>"
  have "send_packet pb (get_packet pb d cid) (po_stream t) = (Inr (), ?s1)"
    using assms(3) by (simp add: send_packet_frame write_all_def get_frame_def)
  moreover have "read_packet pb ?s1 = (Inr p, ?s1\<lparr>tcp_in := rest\<rparr>)"
    using assms(1) p(1,4,5) by (intro read_packet_frame) simp_all
  moreover obtain t' where "forward pb (mg_messages m) ?t2 = (False, t')" "po_stream t' = po_stream ?t2"
    "po_out t' = po_out ?t2 @ map (entry_bytes_to_event pb) (take n (mg_messages m))"
    using forward_some [of ?t2 n "mg_messages m" pb] assms(4,5) by auto
  ultimately show ?thesis
    using p(2,3) by (simp add: poll_loop.simps [of pb d cid t] poll_round_def Let_def)
qed

lemma unfinished_batch_not_acked_witness:
  "tcp_out (po_stream (poll_loop (batch_prost \<lparr>mg_batch_id = 3, mg_messages = [[5], [6]]\<rparr>) ''d'' ''1001''
      (sample_task (Some 1) (codec_frame [1]))))
    = get_frame (batch_prost \<lparr>mg_batch_id = 3, mg_messages = [[5], [6]]\<rparr>) ''d'' ''1001''"
  using unfinished_batch_not_acked [of "sample_task (Some 1) (codec_frame [1])" "[1]" "[]"
      "batch_prost \<lparr>mg_batch_id = 3, mg_messages = [[5], [6]]\<rparr>" "\<lparr>mg_batch_id = 3, mg_messages = [[5], [6]]\<rparr>"
      1 "''d''" "''1001''"]
  by (simp add: carries_batch_prost sample_task_def)

text \<open>Backoff. After \<open>n\<close> answers in a row that are not batches, the next pause is
  \<open>100 * 2 ^ n\<close> milliseconds, at most 6.4 seconds; the counter and the product never overflow.\<close>

theorem backoff_bounded:
  "unat (backoff_delay n) = 100 * 2 ^ min (unat n) 6 \<and> unat (backoff_delay n) \<le> 6400
    \<and> po_delays (poll_backoff t) = po_delays t @ [backoff_delay (po_idle_count (poll_backoff t))]
    \<and> 200 \<le> unat (backoff_delay (po_idle_count (poll_backoff t)))
    \<and> unat (po_idle_count (poll_backoff t)) = min (unat (po_idle_count t) + 1) (2 ^ 32 - 1)"
proof -
  have delay: "unat (backoff_delay n) = 100 * 2 ^ min (unat n) 6" for n :: u32
  proof -
    define k where "k = min (unat n) 6"
    have "unat (min n 6) = k"
      by (auto simp: k_def min_def word_le_nat_alt)
    moreover have "k \<in> {0, 1, 2, 3, 4, 5, 6}"
      by (auto simp: k_def)
    ultimately show ?thesis
      unfolding k_def [symmetric]
      by (auto simp: backoff_delay_def saturating_mul_u64_def saturating_pow_u64_def)
  qed
  have le: "(2 :: nat) ^ min (unat n) 6 \<le> 2 ^ 6" for n :: u32
    by (rule power_increasing) simp_all
  have idle: "unat (po_idle_count (poll_backoff t)) = min (unat (po_idle_count t) + 1) (2 ^ 32 - 1)"
  proof (cases "unat (po_idle_count t) + 1 < 2 ^ 32")
    case True
    then have "unat (po_idle_count t + 1) = unat (po_idle_count t) + 1"
      by (simp add: unat_word_ariths)
    with True show ?thesis
      by (simp add: poll_backoff_def Let_def saturating_add_u32_def)
  next
    case False
    have "unat (- 1 :: u32) = 2 ^ 32 - 1"
      by (simp add: unsigned_minus_1_eq_mask mask_eq_exp_minus_1)
    with False show ?thesis
      by (simp add: poll_backoff_def Let_def saturating_add_u32_def)
  qed
  have "(2 :: nat) ^ 1 \<le> 2 ^ min (unat (po_idle_count (poll_backoff t))) 6"
    unfolding idle by (rule power_increasing) simp_all
  then show ?thesis
    using le [of n] delay idle by (simp add: poll_backoff_def Let_def)
qed

end
