(* ===== verification/Canal_Store.thy ===== *)
theory Canal_Store
  imports Canal_Types
begin

text \<open>
  The crate \<open>canal-store\<close>: \<open>MemoryEventStore\<close> of \<open>memory.rs\<close>, the bounded buffer
  between the binlog side and the clients. The state is the record \<open>mem_store\<close>; the
  operations are \<open>put_batch\<close>, \<open>get_batch\<close> (one scan of the buffer is \<open>get_scan\<close>),
  the accessors and the lifecycle.

  The contract is stated against the log of every event ever put: \<open>store_log h s\<close> says that
  \<open>s\<close> holds an end of the log \<open>h\<close> within its capacity, and that its watermark is the position of
  the last event it dropped. \<open>put_batch\<close> appends to the log and drops no more than it has to; a read whose cursor is not below
  the watermark answers as if the whole log were there. The interface \<open>event_log\<close> is what a
  reader relies on, and polling through it delivers the log after the cursor, once and in order.
\<close>

record mem_store =
  ms_buffer :: "canal_event list"
  ms_capacity :: nat
  ms_batch_id_seq :: i64
  ms_latest_position :: "log_position option"
  ms_first_position :: "log_position option"
  ms_evicted_watermark :: "log_position option"
  ms_running :: bool

text \<open>\<open>new\<close> asserts a positive capacity; \<open>None\<close> is its panic.\<close>

definition mem_store_new :: "nat \<Rightarrow> mem_store option" where
  "mem_store_new capacity =
     (if 0 < capacity
      then Some \<lparr>ms_buffer = [], ms_capacity = capacity, ms_batch_id_seq = 0,
                 ms_latest_position = None, ms_first_position = None,
                 ms_evicted_watermark = None, ms_running = False\<rparr>
      else None)"

subsection \<open>\<open>put_batch\<close>\<close>

text \<open>\<open>if cur.is_none_or(|cur| pos > *cur) { cur = Some(pos) }\<close>, used for both watermarks.\<close>

definition raise_position :: "log_position \<Rightarrow> log_position option \<Rightarrow> log_position option" where
  "raise_position pos cur = (if is_none_or (\<lambda>c. c < pos) cur then Some pos else cur)"

text \<open>Overflow: drain the oldest buffered events, remembering the last one dropped.\<close>

definition put_evict :: "nat \<Rightarrow> nat \<Rightarrow> canal_event list \<Rightarrow> canal_event list \<times> log_position option" where
  "put_evict capacity n_new buffer =
     (let total = length buffer + n_new
      in if capacity < total
         then (let drain_count = min (total - capacity) (length buffer)
               in (drop drain_count buffer,
                   if 0 < drain_count then Some (ev_log_position (buffer ! (drain_count - 1)))
                   else None))
         else (buffer, None))"

text \<open>A batch larger than the whole buffer keeps only its tail.\<close>

definition put_truncate ::
    "nat \<Rightarrow> canal_event list \<Rightarrow> log_position option \<Rightarrow> canal_event list \<times> log_position option" where
  "put_truncate capacity evs evicted =
     (if capacity < length evs
      then (let skip = length evs - capacity
            in (drop skip evs, raise_position (ev_log_position (evs ! (skip - 1))) evicted))
      else (evs, evicted))"

definition bump_watermark :: "log_position option \<Rightarrow> log_position option \<Rightarrow> log_position option" where
  "bump_watermark evicted watermark =
     (case evicted of None \<Rightarrow> watermark | Some pos \<Rightarrow> raise_position pos watermark)"

text \<open>The \<open>debug_assert!\<close> on the feed order, evaluated only in builds with debug assertions.\<close>

definition feed_in_order :: "canal_event list \<Rightarrow> canal_event list \<Rightarrow> bool" where
  "feed_in_order buffer evs \<longleftrightarrow> buffer = [] \<or> ev_key (last buffer) \<le> ev_key (hd evs)"

text \<open>
  The whole operation. The result \<open>Some id\<close> is \<open>Ok(id)\<close>; \<open>None\<close> is the panic of the
  assertion, which leaves the sequence number, the drained buffer and the watermark changed
  (a poisoned lock is recovered from, so later calls see that state).
\<close>

definition put_batch :: "bool \<Rightarrow> canal_event list \<Rightarrow> mem_store \<Rightarrow> i64 option \<times> mem_store" where
  "put_batch debug evs s =
     (if evs = [] then (Some 0, s)
      else
        (let batch_id = ms_batch_id_seq s;
             (buffer, evicted) = put_evict (ms_capacity s) (length evs) (ms_buffer s);
             (evs', evicted') = put_truncate (ms_capacity s) evs evicted;
             s1 = s\<lparr>ms_batch_id_seq := batch_id + 1, ms_buffer := buffer,
                    ms_evicted_watermark := bump_watermark evicted' (ms_evicted_watermark s)\<rparr>
         in if debug \<and> \<not> feed_in_order buffer evs' then (None, s1)
            else (Some batch_id,
                  s1\<lparr>ms_first_position :=
                       Some (case buffer of front # _ \<Rightarrow> ev_log_position front
                             | [] \<Rightarrow> ev_log_position (hd evs')),
                     ms_latest_position := Some (ev_log_position (last evs')),
                     ms_buffer := buffer @ evs'\<rparr>)))"

subsection \<open>\<open>get_batch\<close>\<close>

text \<open>
  Where a read starts: the first event at or after a timestamp cursor's time, otherwise the first
  event strictly after the position.
\<close>

definition get_start_idx :: "log_position \<Rightarrow> canal_event list \<Rightarrow> nat" where
  "get_start_idx start sl =
     (case lp_timestamp start of
        Some ts \<Rightarrow> length (takeWhile (\<lambda>e. \<not> ts <=s ev_execute_time e) sl)
      | None \<Rightarrow> partition_point (\<lambda>e. ev_key e \<le> lp_key start) sl)"

text \<open>One pass over the buffer under the lock.\<close>

definition get_scan :: "log_position \<Rightarrow> nat \<Rightarrow> mem_store \<Rightarrow> events option \<times> mem_store" where
  "get_scan start batch_size s =
     (let sl = ms_buffer s; start_idx = get_start_idx start sl
      in if start_idx < length sl
         then
           (let batch_id = ms_batch_id_seq s;
                base_end = min (start_idx + max batch_size 1) (length sl);
                last_key = ev_key (sl ! (base_end - 1));
                end_idx = length (takeWhile (\<lambda>e. ev_key e = last_key) (drop base_end sl)) + base_end;
                evs = drop start_idx (take end_idx sl)
            in (if evs \<noteq> [] then Some (events_with_events evs batch_id) else None,
                s\<lparr>ms_batch_id_seq := batch_id + 1\<rparr>))
         else (None, s))"

text \<open>
  The waiting loop. What happens while a reader waits is the environment's: a notification, with
  what the other tasks did to the store meanwhile, or the 5 second timeout. With no further wake-up
  in the schedule the reader is still waiting, the result \<open>None\<close>.
\<close>

datatype wake = Notified "mem_store \<Rightarrow> mem_store" | TimedOut

fun get_batch :: "log_position \<Rightarrow> nat \<Rightarrow> wake list \<Rightarrow> mem_store \<Rightarrow> events option \<times> mem_store" where
  "get_batch start n [] s = get_scan start n s"
| "get_batch start n (w # ws) s =
     (case get_scan start n s of
        (Some es, s') \<Rightarrow> (Some es, s')
      | (None, s') \<Rightarrow>
          (case w of
             TimedOut \<Rightarrow> (Some (events_new 0), s')
           | Notified env \<Rightarrow> get_batch start n ws (env s')))"

subsection \<open>Lifecycle\<close>

definition mem_store_start :: "mem_store \<Rightarrow> mem_store" where
  "mem_store_start s = s\<lparr>ms_running := True\<rparr>"

definition mem_store_stop :: "mem_store \<Rightarrow> mem_store" where
  "mem_store_stop s = s\<lparr>ms_running := False\<rparr>"

interpretation store_life: lifecycle mem_store_start mem_store_stop ms_running
  by unfold_locales (auto simp: mem_store_start_def mem_store_stop_def)

subsection \<open>The log a store stands for\<close>

text \<open>\<open>w\<close> is the position of the last event of \<open>d\<close>, or nothing when \<open>d\<close> is empty.\<close>

fun tracks :: "log_position option \<Rightarrow> canal_event list \<Rightarrow> bool" where
  "tracks None d \<longleftrightarrow> d = []"
| "tracks (Some w) d \<longleftrightarrow> d \<noteq> [] \<and> lp_key w = ev_key (last d)"

definition store_wf :: "mem_store \<Rightarrow> bool" where
  "store_wf s \<longleftrightarrow>
     0 < ms_capacity s \<and> length (ms_buffer s) \<le> ms_capacity s
     \<and> (ms_buffer s \<noteq> [] \<longrightarrow>
          ms_first_position s = Some (ev_log_position (hd (ms_buffer s)))
          \<and> ms_latest_position s = Some (ev_log_position (last (ms_buffer s))))"

text \<open>The events of the log \<open>h\<close> that the store no longer has.\<close>

definition dropped :: "canal_event list \<Rightarrow> mem_store \<Rightarrow> canal_event list" where
  "dropped h s = take (length h - length (ms_buffer s)) h"

text \<open>The store stands for the log \<open>h\<close>: what it holds is some end of \<open>h\<close>, and the watermark is at the
  last event before that.\<close>

definition store_log :: "canal_event list \<Rightarrow> mem_store \<Rightarrow> bool" where
  "store_log h s \<longleftrightarrow>
     store_wf s \<and> sorted (map ev_key h) \<and> h = dropped h s @ ms_buffer s
     \<and> tracks (ms_evicted_watermark s) (dropped h s)"

lemma store_logI:
  assumes "store_wf s" and "sorted (map ev_key (d @ ms_buffer s))"
    and "tracks (ms_evicted_watermark s) d" and "h = d @ ms_buffer s"
  shows "store_log h s"
  using assms by (simp add: store_log_def dropped_def)

lemma store_logE:
  assumes "store_log h s"
  obtains d where "h = d @ ms_buffer s" "dropped h s = d" "store_wf s" "sorted (map ev_key h)"
    "tracks (ms_evicted_watermark s) d"
  using assms unfolding store_log_def by blast

lemma mem_store_new_log:
  "mem_store_new c = Some s \<Longrightarrow> store_log [] s"
  by (rule store_logI [where d = "[]"])
    (auto simp: mem_store_new_def store_wf_def split: if_splits)

lemma raise_position_tracks:
  assumes "tracks cur d" and "x \<noteq> []" and "lp_key pos = ev_key (last x)"
    and "sorted (map ev_key (d @ x))"
  shows "tracks (raise_position pos cur) (d @ x)"
proof (cases cur)
  case None
  with assms show ?thesis by (simp add: raise_position_def)
next
  case (Some c)
  with assms(1) have d: "d \<noteq> []" "lp_key c = ev_key (last d)" by simp_all
  have "ev_key (last d) \<le> ev_key (last x)"
    using assms(2,4) d(1) by (simp add: sorted_append)
  with Some d assms(2,3) show ?thesis
    by (auto simp: raise_position_def lp_less_iff)
qed

lemma put_evict_eq:
  "put_evict c n b = (drop (length b + n - c) b, snd (put_evict c n b))"
  by (auto simp: put_evict_def Let_def min_def)

lemma put_evict_tracks:
  "tracks (snd (put_evict c n b)) (take (length b + n - c) b)"
proof (cases "c < length b + n \<and> b \<noteq> []")
  case False
  then show ?thesis by (auto simp: put_evict_def Let_def)
next
  case True
  define k where "k = min (length b + n - c) (length b)"
  have k: "0 < k" "k \<le> length b"
    using True by (auto simp: k_def)
  have "take (length b + n - c) b = take k b"
    by (simp add: k_def min_def)
  moreover have "snd (put_evict c n b) = Some (ev_log_position (b ! (k - 1)))"
    using True k by (simp add: put_evict_def Let_def k_def)
  moreover have "last (take k b) = b ! (k - 1)"
    using k by (subst last_conv_nth) auto
  ultimately show ?thesis using True k by simp
qed

lemma put_truncate_eq:
  "put_truncate c evs w = (drop (length evs - c) evs, snd (put_truncate c evs w))"
  by (auto simp: put_truncate_def Let_def)

lemma put_truncate_tracks:
  assumes "tracks w d" and "sorted (map ev_key (d @ evs))"
  shows "tracks (snd (put_truncate c evs w)) (d @ take (length evs - c) evs)"
proof (cases "c < length evs")
  case False
  with assms(1) show ?thesis by (simp add: put_truncate_def)
next
  case True
  define k where "k = length evs - c"
  have k: "0 < k" "k \<le> length evs"
    using True by (auto simp: k_def)
  have "last (take k evs) = evs ! (k - 1)"
    using k by (subst last_conv_nth) auto
  moreover have "take k evs \<noteq> []"
    using k by auto
  moreover have "sorted (map ev_key (d @ take k evs))"
    using assms(2) unfolding sorted_map_append by (blast intro: sorted_map_take dest: in_set_takeD)
  ultimately show ?thesis
    using True assms(1)
    by (auto simp: put_truncate_def Let_def k_def [symmetric] intro!: raise_position_tracks)
qed

lemma bump_watermark_tracks:
  assumes "tracks watermark d" and "tracks evicted x" and "sorted (map ev_key (d @ x))"
  shows "tracks (bump_watermark evicted watermark) (d @ x)"
  using assms by (cases evicted) (auto simp: bump_watermark_def intro: raise_position_tracks)


subsection \<open>\<open>put_batch\<close> appends to the log\<close>

lemma put_batch_nonempty [store_simps]:
  assumes "evs \<noteq> []"
  shows "put_batch debug evs s =
    (let k = length (ms_buffer s) + length evs - ms_capacity s;
         j = length evs - ms_capacity s;
         buffer = drop k (ms_buffer s);
         evs' = drop j evs;
         w = bump_watermark
               (snd (put_truncate (ms_capacity s) evs
                       (snd (put_evict (ms_capacity s) (length evs) (ms_buffer s)))))
               (ms_evicted_watermark s);
         s1 = s\<lparr>ms_batch_id_seq := ms_batch_id_seq s + 1, ms_buffer := buffer,
                ms_evicted_watermark := w\<rparr>
     in if debug \<and> \<not> feed_in_order buffer evs' then (None, s1)
        else (Some (ms_batch_id_seq s),
              s1\<lparr>ms_first_position :=
                   Some (case buffer of front # _ \<Rightarrow> ev_log_position front
                         | [] \<Rightarrow> ev_log_position (hd evs')),
                 ms_latest_position := Some (ev_log_position (last evs')),
                 ms_buffer := buffer @ evs'\<rparr>))"
proof -
  define w1 where "w1 = snd (put_evict (ms_capacity s) (length evs) (ms_buffer s))"
  define w2 where "w2 = snd (put_truncate (ms_capacity s) evs w1)"
  have "put_evict (ms_capacity s) (length evs) (ms_buffer s)
      = (drop (length (ms_buffer s) + length evs - ms_capacity s) (ms_buffer s), w1)"
    unfolding w1_def by (rule put_evict_eq)
  moreover have "put_truncate (ms_capacity s) evs w1 = (drop (length evs - ms_capacity s) evs, w2)"
    unfolding w2_def by (rule put_truncate_eq)
  ultimately show ?thesis
    using assms by (simp add: put_batch_def Let_def flip: w1_def w2_def)
qed

text \<open>What is dropped by one call, and that the watermark follows it.\<close>

lemma put_batch_watermark:
  assumes "tracks w d" and "sorted (map ev_key (d @ b @ evs))" and "evs \<noteq> []"
  shows "tracks (bump_watermark (snd (put_truncate c evs (snd (put_evict c (length evs) b)))) w)
    (d @ take (length b + length evs - c) b @ take (length evs - c) evs)"
proof -
  let ?tb = "take (length b + length evs - c) b"
  have sb: "sorted (map ev_key (?tb @ evs))" "sorted (map ev_key (d @ ?tb @ take (length evs - c) evs))"
    using assms(2) unfolding sorted_map_append set_append
    by (blast intro: sorted_map_take dest: in_set_takeD)+
  have "tracks (snd (put_truncate c evs (snd (put_evict c (length evs) b))))
      (?tb @ take (length evs - c) evs)"
    by (rule put_truncate_tracks [OF put_evict_tracks sb(1)])
  then show ?thesis
    by (rule bump_watermark_tracks [OF assms(1) _ sb(2)])
qed

lemma put_batch_log_nonempty:
  assumes "store_log h s" and "sorted (map ev_key (h @ evs))" and "evs \<noteq> []"
  shows "\<exists>s'. put_batch debug evs s = (Some (ms_batch_id_seq s), s') \<and> store_log (h @ evs) s'"
proof -
  from assms(1) obtain d where h: "h = d @ ms_buffer s" and wf: "store_wf s"
    and tr: "tracks (ms_evicted_watermark s) d"
    by (rule store_logE)
  define b c k j where "b = ms_buffer s" and "c = ms_capacity s"
    and "k = length b + length evs - c" and "j = length evs - c"
  have cap: "0 < c" "length b \<le> c"
    using wf by (auto simp: store_wf_def b_def c_def)
  have j: "j < length evs" "0 < j \<longrightarrow> length b \<le> k"
    using cap assms(3) by (auto simp: j_def k_def)
  have ne: "drop j evs \<noteq> []"
    using j by simp
  have srt: "sorted (map ev_key (d @ b @ evs))"
    using assms(2) h by (simp add: b_def)
  have split: "h @ evs = (d @ take k b @ take j evs) @ drop k b @ drop j evs"
    using j(2) by (cases "j = 0") (simp_all add: h b_def)
  have "feed_in_order (drop k b) (drop j evs)"
    unfolding feed_in_order_def
    using srt ne unfolding sorted_map_append
    by (metis in_set_dropD last_in_set list.set_sel(1) set_append UnCI)
  then obtain s' where put: "put_batch debug evs s = (Some (ms_batch_id_seq s), s')"
    and buf: "ms_buffer s' = drop k b @ drop j evs" and cap': "ms_capacity s' = c"
    and first: "ms_first_position s' = Some (case drop k b of front # _ \<Rightarrow> ev_log_position front
                         | [] \<Rightarrow> ev_log_position (hd (drop j evs)))"
    and latest: "ms_latest_position s' = Some (ev_log_position (last (drop j evs)))"
    and w: "ms_evicted_watermark s' =
       bump_watermark (snd (put_truncate c evs (snd (put_evict c (length evs) b))))
         (ms_evicted_watermark s)"
    using assms(3) unfolding b_def c_def k_def j_def by (simp add: put_batch_nonempty Let_def)
  have "store_wf s'"
    using cap ne by (auto simp: store_wf_def buf cap' first latest k_def j_def hd_append
        split: list.splits)
  moreover have "tracks (ms_evicted_watermark s') (d @ take k b @ take j evs)"
    unfolding w k_def j_def by (rule put_batch_watermark [OF tr srt assms(3)])
  moreover have "sorted (map ev_key ((d @ take k b @ take j evs) @ ms_buffer s'))"
    using assms(2) split buf by simp
  ultimately have "store_log (h @ evs) s'"
    using split buf by (intro store_logI) simp_all
  with put show ?thesis by blast
qed

text \<open>What an accepted put leaves, exactly.\<close>

lemma put_batch_ok_exact:
  assumes "evs \<noteq> []" and "put_batch debug evs s = (Some i, s')"
  shows "ms_buffer s' = drop (length (ms_buffer s) + length evs - ms_capacity s) (ms_buffer s @ evs)"
    and "ms_capacity s' = ms_capacity s"
    and "0 < ms_capacity s \<Longrightarrow> ms_latest_position s' = Some (ev_log_position (last evs))"
    and "ms_batch_id_seq s' = ms_batch_id_seq s + 1"
    and "length (ms_buffer s) + length evs \<le> ms_capacity s \<Longrightarrow>
      ms_evicted_watermark s' = ms_evicted_watermark s"
  using assms by (auto simp: put_batch_nonempty Let_def put_evict_def put_truncate_def
      bump_watermark_def split: if_splits)

subsection \<open>Reading the log\<close>

text \<open>
  The specification of a read on a list of events: at least one and at most \<open>n\<close> events, then
  the rest of the group that has the last one's position.
\<close>

definition next_group :: "nat \<Rightarrow> canal_event list \<Rightarrow> canal_event list" where
  "next_group n xs =
     (let b = take (max n 1) xs
      in b @ takeWhile (\<lambda>e. ev_key e = ev_key (last b)) (drop (max n 1) xs))"

definition after :: "log_position \<Rightarrow> canal_event list \<Rightarrow> canal_event list" where
  "after start xs = filter (\<lambda>e. lp_key start < ev_key e) xs"

lemma next_group_nonempty [simp]: "next_group n xs = [] \<longleftrightarrow> xs = []"
  by (auto simp: next_group_def Let_def)

lemma next_group_prefix: "xs = next_group n xs @ drop (length (next_group n xs)) xs"
proof -
  let ?k = "max n 1" and ?P = "\<lambda>e. ev_key e = ev_key (last (take (max n 1) xs))"
  have "xs = take ?k xs @ takeWhile ?P (drop ?k xs) @ dropWhile ?P (drop ?k xs)"
    by simp
  then obtain r where "xs = next_group n xs @ r"
    unfolding next_group_def Let_def by (metis append_assoc)
  then show ?thesis by (metis append_eq_conv_conj)
qed

lemma last_next_group:
  assumes "xs \<noteq> []"
  shows "ev_key (last (next_group n xs)) = ev_key (last (take (max n 1) xs))"
proof (cases "takeWhile (\<lambda>e. ev_key e = ev_key (last (take (max n 1) xs))) (drop (max n 1) xs) = []")
  case False
  then show ?thesis
    using set_takeWhileD [OF last_in_set [OF False]] by (simp add: next_group_def Let_def)
qed (simp add: next_group_def Let_def)

lemma last_next_group_in:
  assumes "xs \<noteq> []"
  shows "last (next_group n xs) \<in> set xs"
  using assms next_group_prefix [of xs n] last_in_set [of "next_group n xs"]
  by (metis UnCI next_group_nonempty set_append)

text \<open>On an ordered log the group is exactly what is at or before its last position.\<close>

lemma after_next_group:
  assumes "sorted (map ev_key xs)" and "xs \<noteq> []"
  shows "xs = next_group n xs @ filter (\<lambda>e. ev_key (last (next_group n xs)) < ev_key e) xs"
proof -
  let ?k = "max n 1"
  let ?t = "ev_key (last (take ?k xs))"
  have srt: "sorted (map ev_key (take ?k xs))" "sorted (map ev_key (drop ?k xs))"
    using assms(1) by (simp_all add: sorted_wrt_take sorted_wrt_drop flip: take_map drop_map)
  have le: "ev_key e \<le> ?t" if "e \<in> set (take ?k xs)" for e
    by (rule sorted_map_last [OF srt(1) that])
  have ge: "?t \<le> ev_key e" if "e \<in> set (drop ?k xs)" for e
  proof -
    have "last (take ?k xs) \<in> set (take ?k xs)"
      using assms(2) by (intro last_in_set) simp
    moreover have "sorted (map ev_key (take ?k xs @ drop ?k xs))"
      using assms(1) by simp
    ultimately show ?thesis
      using that unfolding map_append sorted_append by force
  qed
  have tw: "takeWhile (\<lambda>e. ev_key e = ?t) (drop ?k xs) = takeWhile (\<lambda>e. ev_key e \<le> ?t) (drop ?k xs)"
    using ge by (intro takeWhile_cong) (auto dest: order_antisym)
  have "filter (\<lambda>e. ?t < ev_key e) xs
      = filter (\<lambda>e. ?t < ev_key e) (take ?k xs) @ filter (\<lambda>e. ?t < ev_key e) (drop ?k xs)"
    by (metis append_take_drop_id filter_append)
  also have "filter (\<lambda>e. ?t < ev_key e) (take ?k xs) = []"
    by (simp add: filter_empty_conv not_less le del: One_nat_def)
  also have "filter (\<lambda>e. ?t < ev_key e) (drop ?k xs) = dropWhile (\<lambda>e. ev_key e \<le> ?t) (drop ?k xs)"
    by (rule dropWhile_le_sorted [OF srt(2), symmetric])
  finally have f: "filter (\<lambda>e. ?t < ev_key e) xs = dropWhile (\<lambda>e. ev_key e \<le> ?t) (drop ?k xs)"
    by simp
  have g: "next_group n xs = take ?k xs @ takeWhile (\<lambda>e. ev_key e \<le> ?t) (drop ?k xs)"
    unfolding next_group_def Let_def tw by (rule refl)
  have "filter (\<lambda>e. ev_key (last (next_group n xs)) < ev_key e) xs
      = dropWhile (\<lambda>e. ev_key e \<le> ?t) (drop ?k xs)"
    by (simp only: last_next_group [OF assms(2)] f)
  then show ?thesis
    by (simp only: g append_assoc takeWhile_dropWhile_id append_take_drop_id)
qed

text \<open>Whatever the cursor, a read returns the next group of the events from its start index on.\<close>

lemma get_scan_group:
  "get_scan start n s =
    (let r = drop (get_start_idx start (ms_buffer s)) (ms_buffer s)
     in if r = [] then (None, s)
        else (Some (events_with_events (next_group n r) (ms_batch_id_seq s)),
              s\<lparr>ms_batch_id_seq := ms_batch_id_seq s + 1\<rparr>))"
proof -
  let ?b = "ms_buffer s" and ?i = "get_start_idx start (ms_buffer s)"
  let ?r = "drop ?i ?b"
  have iff: "?i < length ?b \<longleftrightarrow> ?r \<noteq> []"
    by (simp add: not_le)
  show ?thesis
  proof (cases "?r = []")
    case True
    then show ?thesis using iff by (simp add: get_scan_def Let_def)
  next
    case False
    let ?m = "max n 1"
    define e where "e = min (?i + ?m) (length ?b)"
    have e: "?i < e" "e \<le> length ?b"
      using False iff by (auto simp: e_def)
    have "length ?r = length ?b - ?i"
      by (rule length_drop)
    then have tk: "take (e - ?i) ?r = take ?m ?r"
      using e by (auto simp: e_def min_def)
    have dr: "drop e ?b = drop ?m ?r"
    proof -
      have "drop e ?b = drop (e - ?i) ?r"
        using e by simp
      also have "\<dots> = drop ?m ?r"
        using \<open>length ?r = _\<close> e by (auto simp: e_def min_def add.commute)
      finally show ?thesis .
    qed
    have lst: "?b ! (e - 1) = last (take ?m ?r)"
    proof -
      have "take ?m ?r \<noteq> []" "length (take ?m ?r) = e - ?i"
        using False tk e \<open>length ?r = _\<close> by (auto simp: e_def min_def)
      then have "last (take ?m ?r) = take (e - ?i) ?r ! (e - ?i - 1)"
        using tk by (simp add: last_conv_nth)
      also have "\<dots> = ?r ! (e - ?i - 1)"
        using e by (intro nth_take) simp
      also have "\<dots> = ?b ! (e - 1)"
        using e by simp
      finally show ?thesis by simp
    qed
    define g where "g = takeWhile (\<lambda>x. ev_key x = ev_key (?b ! (e - 1))) (drop e ?b)"
    have group: "drop ?i (take (length g + e) ?b) = next_group n ?r"
    proof -
      have "take (length g + e) ?b = take e ?b @ take (length g) (drop e ?b)"
        by (simp add: take_add add.commute [of "length g"])
      also have "take (length g) (drop e ?b) = g"
        unfolding g_def by (rule takeWhile_eq_take [symmetric])
      finally have "drop ?i (take (length g + e) ?b) = take (e - ?i) (drop ?i ?b) @ g"
        using e by (simp add: drop_take)
      then show ?thesis
        by (simp only: next_group_def Let_def g_def lst dr tk)
    qed
    have "get_scan start n s =
        (if ?i < length ?b
         then (if drop ?i (take (length g + e) ?b) \<noteq> []
               then Some (events_with_events (drop ?i (take (length g + e) ?b)) (ms_batch_id_seq s))
               else None, s\<lparr>ms_batch_id_seq := ms_batch_id_seq s + 1\<rparr>)
         else (None, s))"
      by (simp only: get_scan_def Let_def g_def e_def)
    then show ?thesis
      unfolding group using False iff by (simp add: Let_def)
  qed
qed


lemma get_scan_after:
  assumes "sorted (map ev_key (ms_buffer s))" and "lp_timestamp start = None"
  shows "get_scan start n s =
    (if after start (ms_buffer s) = [] then (None, s)
     else (Some (events_with_events (next_group n (after start (ms_buffer s))) (ms_batch_id_seq s)),
           s\<lparr>ms_batch_id_seq := ms_batch_id_seq s + 1\<rparr>))"
proof -
  let ?b = "ms_buffer s"
  have "get_start_idx start ?b = length (takeWhile (\<lambda>e. ev_key e \<le> lp_key start) ?b)"
    using assms by (simp add: get_start_idx_def partition_point_eq_takeWhile partitioned_le_sorted)
  then have "drop (get_start_idx start ?b) ?b = after start ?b"
    using assms(1) by (simp add: drop_length_takeWhile dropWhile_le_sorted after_def)
  then show ?thesis
    by (simp add: get_scan_group Let_def)
qed

lemma get_scan_nonempty:
  assumes "get_start_idx start (ms_buffer s) < length (ms_buffer s)"
  shows "\<exists>es. get_scan start n s = (Some es, s\<lparr>ms_batch_id_seq := ms_batch_id_seq s + 1\<rparr>)
    \<and> es_batch_id es = ms_batch_id_seq s \<and> es_events es \<noteq> []"
  using assms by (simp add: get_scan_group Let_def)

lemma get_scan_empty:
  "\<not> get_start_idx start (ms_buffer s) < length (ms_buffer s) \<Longrightarrow> get_scan start n s = (None, s)"
  by (simp add: get_scan_def Let_def)

lemma get_scan_cases:
  obtains "get_scan start n s = (None, s)"
  | es where "get_scan start n s = (Some es, s\<lparr>ms_batch_id_seq := ms_batch_id_seq s + 1\<rparr>)"
      "es_batch_id es = ms_batch_id_seq s" "es_events es \<noteq> []"
  using get_scan_nonempty get_scan_empty by metis

lemma store_log_seq [simp]: "store_log h (s\<lparr>ms_batch_id_seq := i\<rparr>) = store_log h s"
  by (simp add: store_log_def store_wf_def dropped_def)

lemma get_scan_log: "store_log h s \<Longrightarrow> store_log h (snd (get_scan start n s))"
  by (rule get_scan_cases [of start n s]) auto

lemma get_scan_watermark [simp]:
  "ms_evicted_watermark (snd (get_scan start n s)) = ms_evicted_watermark s"
  by (rule get_scan_cases [of start n s]) auto

subsection \<open>The watermark test\<close>

text \<open>The test \<open>start < watermark\<close> a caller makes before it reads.\<close>

definition cursor_lost :: "mem_store \<Rightarrow> log_position \<Rightarrow> bool" where
  "cursor_lost s p = is_some_and (\<lambda>w. p < w) (ms_evicted_watermark s)"

lemma cursor_lost_dropped:
  assumes "store_log h s"
  shows "cursor_lost s p \<longleftrightarrow> (\<exists>e \<in> set (dropped h s). lp_key p < ev_key e)"
proof -
  from assms obtain d where d: "dropped h s = d" "sorted (map ev_key d)"
    and tr: "tracks (ms_evicted_watermark s) d"
    by (metis map_append sorted_append store_logE)
  show ?thesis
  proof (cases "ms_evicted_watermark s")
    case None
    with tr d show ?thesis by (simp add: cursor_lost_def)
  next
    case (Some w)
    with tr have w: "d \<noteq> []" "lp_key w = ev_key (last d)" by simp_all
    have "ev_key e \<le> ev_key (last d)" if "e \<in> set d" for e
      using d(2) that by (rule sorted_map_last)
    then show ?thesis
      using Some w d(1) last_in_set [of d]
      by (auto simp: cursor_lost_def lp_less_iff intro: less_le_trans)
  qed
qed

lemma after_append [simp]: "after p (xs @ ys) = after p xs @ after p ys"
  by (simp add: after_def)

lemma after_not_lost:
  assumes "store_log h s" and "\<not> cursor_lost s p"
  shows "after p (ms_buffer s) = after p h"
proof -
  have "after p (dropped h s) = []"
    using assms(2) cursor_lost_dropped [OF assms(1)] by (auto simp: after_def filter_empty_conv)
  moreover have "h = dropped h s @ ms_buffer s"
    using assms(1) by (simp add: store_log_def)
  ultimately show ?thesis by (metis after_append append_Nil)
qed

lemma store_log_sorted: "store_log h s \<Longrightarrow> sorted (map ev_key h)"
  by (simp add: store_log_def)

lemma store_log_buffer_sorted: "store_log h s \<Longrightarrow> sorted (map ev_key (ms_buffer s))"
  by (metis map_append sorted_append store_logE)

lemma get_scan_log_read:
  assumes "store_log h s" and "lp_timestamp p = None" and "\<not> cursor_lost s p"
  shows "get_scan p n s =
    (if after p h = [] then (None, s)
     else (Some (events_with_events (next_group n (after p h)) (ms_batch_id_seq s)),
           s\<lparr>ms_batch_id_seq := ms_batch_id_seq s + 1\<rparr>))"
  using get_scan_after [OF store_log_buffer_sorted [OF assms(1)] assms(2)]
    after_not_lost [OF assms(1,3)] by simp

subsection \<open>What a reader relies on\<close>

text \<open>
  Polling: read, move the cursor to the end of the batch, read again, until a read finds nothing.
\<close>

fun poll :: "(log_position \<Rightarrow> nat \<Rightarrow> 's \<Rightarrow> events option \<times> 's) \<Rightarrow> nat \<Rightarrow> log_position \<Rightarrow> nat \<Rightarrow> 's
    \<Rightarrow> canal_event list \<times> 's" where
  "poll fetch 0 p n s = ([], s)"
| "poll fetch (Suc k) p n s =
     (case fetch p n s of
        (None, s') \<Rightarrow> ([], s')
      | (Some es, s') \<Rightarrow>
          (let (evs, s'') = poll fetch k (pr_end (es_position_range es)) n s'
           in (es_events es @ evs, s'')))"

locale event_log =
  fixes is_log :: "canal_event list \<Rightarrow> 's \<Rightarrow> bool"
    and lost :: "'s \<Rightarrow> log_position \<Rightarrow> bool"
    and fetch :: "log_position \<Rightarrow> nat \<Rightarrow> 's \<Rightarrow> events option \<times> 's"
  assumes log_sorted: "is_log h s \<Longrightarrow> sorted (map ev_key h)"
    and fetch_log: "is_log h s \<Longrightarrow> is_log h (snd (fetch p n s))"
    and fetch_lost: "lost (snd (fetch p n s)) q \<longleftrightarrow> lost s q"
    and lost_mono: "\<not> lost s p \<Longrightarrow> lp_key p \<le> lp_key q \<Longrightarrow> \<not> lost s q"
    and fetch_none: "is_log h s \<Longrightarrow> lp_timestamp p = None \<Longrightarrow> \<not> lost s p \<Longrightarrow> after p h = [] \<Longrightarrow>
      fst (fetch p n s) = None"
    and fetch_some: "is_log h s \<Longrightarrow> lp_timestamp p = None \<Longrightarrow> \<not> lost s p \<Longrightarrow> after p h \<noteq> [] \<Longrightarrow>
      \<exists>i. fst (fetch p n s) = Some (events_with_events (next_group n (after p h)) i)"
begin

lemma after_step:
  assumes "is_log h s" and "after p h \<noteq> []"
  shows "after p h = next_group n (after p h)
      @ after (ev_log_position (last (next_group n (after p h)))) h"
    and "lp_key p < ev_key (last (next_group n (after p h)))"
proof -
  let ?g = "next_group n (after p h)"
  have srt: "sorted (map ev_key (after p h))"
    unfolding after_def by (rule sorted_filter [OF log_sorted [OF assms(1)]])
  have "last ?g \<in> set (after p h)"
    by (rule last_next_group_in [OF assms(2)])
  then show less: "lp_key p < ev_key (last ?g)"
    by (simp add: after_def)
  have "after (ev_log_position (last ?g)) h = filter (\<lambda>e. ev_key (last ?g) < ev_key e) (after p h)"
    using less by (auto simp: after_def intro!: filter_cong dest: less_trans)
  with after_next_group [OF srt assms(2), of n]
  show "after p h = ?g @ after (ev_log_position (last ?g)) h"
    by simp
qed

lemma poll_delivers:
  assumes "is_log h s" and "lp_timestamp p = None" and "\<not> lost s p"
    and "length (after p h) \<le> k"
  shows "fst (poll fetch k p n s) = after p h"
  using assms
proof (induction k arbitrary: p s)
  case 0
  then show ?case by simp
next
  case (Suc k)
  show ?case
  proof (cases "after p h = []")
    case True
    obtain s' where "fetch p n s = (None, s')"
      using fetch_none [OF Suc.prems(1-3) True, of n] by (metis prod.collapse)
    with True show ?thesis
      by simp
  next
    case False
    let ?g = "next_group n (after p h)"
    let ?q = "ev_log_position (last ?g)"
    obtain i s' where f: "fetch p n s = (Some (events_with_events ?g i), s')"
      using fetch_some [OF Suc.prems(1-3) False, of n] by (metis prod.collapse)
    have s': "is_log h s'" "\<not> lost s' ?q"
      using fetch_log [OF Suc.prems(1), of p n] fetch_lost [of p n s ?q] f
        lost_mono [OF Suc.prems(3), of ?q] after_step(2) [OF Suc.prems(1) False, of n]
      by auto
    have "length (after p h) = length ?g + length (after ?q h)"
      by (subst after_step(1) [OF Suc.prems(1) False, of n]) (rule length_append)
    moreover have "0 < length ?g"
      using False by simp
    ultimately have len: "length (after ?q h) \<le> k"
      using Suc.prems(4) by linarith
    have "fst (poll fetch k ?q n s') = after ?q h"
      by (rule Suc.IH [OF s'(1) _ s'(2) len]) simp
    then obtain s'' where "poll fetch k ?q n s' = (after ?q h, s'')"
      by (metis prod.collapse)
    then have "fst (poll fetch (Suc k) p n s) = ?g @ after ?q h"
      using False by (simp add: f events_with_events_range)
    then show ?thesis
      using after_step(1) [OF Suc.prems(1) False, of n] by simp
  qed
qed

end

interpretation mem_log: event_log store_log cursor_lost get_scan
proof
  fix h s p q and n :: nat
  show "store_log h s \<Longrightarrow> sorted (map ev_key h)"
    by (rule store_log_sorted)
  show "store_log h s \<Longrightarrow> store_log h (snd (get_scan p n s))"
    by (rule get_scan_log)
  show "cursor_lost (snd (get_scan p n s)) q \<longleftrightarrow> cursor_lost s q"
    by (simp add: cursor_lost_def)
  show "\<not> cursor_lost s p \<Longrightarrow> lp_key p \<le> lp_key q \<Longrightarrow> \<not> cursor_lost s q"
    by (auto simp: cursor_lost_def is_some_and_iff lp_less_iff)
  show "store_log h s \<Longrightarrow> lp_timestamp p = None \<Longrightarrow> \<not> cursor_lost s p \<Longrightarrow> after p h = [] \<Longrightarrow>
      fst (get_scan p n s) = None"
    by (simp add: get_scan_log_read)
  show "store_log h s \<Longrightarrow> lp_timestamp p = None \<Longrightarrow> \<not> cursor_lost s p \<Longrightarrow> after p h \<noteq> [] \<Longrightarrow>
      \<exists>i. fst (get_scan p n s) = Some (events_with_events (next_group n (after p h)) i)"
    using get_scan_log_read [of h s p n] by auto
qed


subsection \<open>The properties of the store\<close>

text \<open>A store of capacity 2 that has seen three events at positions 1, 2 and 3 of one file.\<close>

definition sample_store :: mem_store where
  "sample_store =
     \<lparr>ms_buffer = [sample_event ''b.1'' 2, sample_event ''b.1'' 3], ms_capacity = 2,
      ms_batch_id_seq = 7,
      ms_latest_position = Some (log_position_new ''b.1'' 3),
      ms_first_position = Some (log_position_new ''b.1'' 2),
      ms_evicted_watermark = Some (log_position_new ''b.1'' 1), ms_running = True\<rparr>"

definition sample_log :: "canal_event list" where
  "sample_log = map (sample_event ''b.1'') [1, 2, 3]"

lemma ev_log_position_sample [simp]: "ev_log_position (sample_event j p) = log_position_new j p"
  by (simp add: ev_log_position_def sample_event_def)

lemma sample_store_log: "store_log sample_log sample_store"
  by (rule store_logI [where d = "[sample_event ''b.1'' 1]"])
    (simp_all add: store_wf_def sample_store_def sample_log_def lp_key_new)

lemma sample_store_simps [simp]:
  "ms_batch_id_seq sample_store = 7"
  "ms_capacity sample_store = 2"
  "ms_buffer sample_store = [sample_event ''b.1'' 2, sample_event ''b.1'' 3]"
  "ms_evicted_watermark sample_store = Some (log_position_new ''b.1'' 1)"
  by (simp_all add: sample_store_def)

lemma sample_log_sorted:
  "3 \<le> p \<Longrightarrow> sorted (map ev_key (sample_log @ [sample_event ''b.1'' p]))"
  by (auto simp: sample_log_def intro: order_trans [rotated])

lemma sample_cursor [simp]:
  "lp_timestamp (log_position_new j p) = None"
  "cursor_lost sample_store (log_position_new ''b.1'' p) \<longleftrightarrow> p < 1"
  "after (log_position_new ''b.1'' p) sample_log
     = map (sample_event ''b.1'') (filter (\<lambda>q. p < q) [1, 2, 3])"
  by (simp_all add: log_position_new_def cursor_lost_def lp_less_iff lp_key_def after_def
      sample_log_def)

lemma put_batch_nil [simp]: "put_batch debug [] s = (Some 0, s)"
  by (simp add: put_batch_def)

text \<open>C14: Refinement of the append-only log. On a store that stands for the log \<open>h\<close>, feeding
  events that continue \<open>h\<close> in position order never panics, with or without debug assertions;
  afterwards the store stands for \<open>h @ evs\<close>. Nothing is evicted that would have fitted: the new
  buffer is the old one followed by \<open>evs\<close> without exactly as many of the oldest events as exceed
  the capacity, so it is the longest suffix that fits, and the capacity stays. When events were
  fed, the first and latest positions are those of the buffer's ends and the next batch id is one
  higher; when everything fitted, the watermark stays; otherwise it is at the position of the last
  event the store no longer has.\<close>

theorem put_batch_refines_append:
  assumes "store_log h s" and "sorted (map ev_key (h @ evs))"
  shows "\<exists>s'. put_batch debug evs s = (Some (if evs = [] then 0 else ms_batch_id_seq s), s')
    \<and> store_log (h @ evs) s'
    \<and> ms_capacity s' = ms_capacity s
    \<and> ms_buffer s' = drop (length (ms_buffer s) + length evs - ms_capacity s) (ms_buffer s @ evs)
    \<and> (evs \<noteq> [] \<longrightarrow>
          ms_first_position s' = Some (ev_log_position (hd (ms_buffer s')))
          \<and> ms_latest_position s' = Some (ev_log_position (last evs))
          \<and> ms_batch_id_seq s' = ms_batch_id_seq s + 1)
    \<and> (if length (ms_buffer s) + length evs \<le> ms_capacity s
       then ms_evicted_watermark s' = ms_evicted_watermark s
       else \<exists>w. ms_evicted_watermark s' = Some w
          \<and> lp_key w = ev_key (last (take (length (h @ evs) - length (ms_buffer s')) (h @ evs))))"
proof (cases "evs = []")
  case True
  then show ?thesis
    using assms(1) by (simp add: store_log_def store_wf_def)
next
  case False
  obtain s' where put: "put_batch debug evs s = (Some (ms_batch_id_seq s), s')"
    and log: "store_log (h @ evs) s'"
    using put_batch_log_nonempty [OF assms False] by blast
  note exact = put_batch_ok_exact [OF False put]
  have cap: "0 < length evs" "0 < ms_capacity s"
    using False assms(1) by (simp_all add: store_log_def store_wf_def)
  from cap have buf: "ms_buffer s' \<noteq> []"
    unfolding exact(1) drop_eq_Nil length_append by linarith
  have w: "\<exists>w. ms_evicted_watermark s' = Some w
      \<and> lp_key w = ev_key (last (take (length (h @ evs) - length (ms_buffer s')) (h @ evs)))"
    if "\<not> length (ms_buffer s) + length evs \<le> ms_capacity s"
  proof -
    have "length (ms_buffer s) \<le> length h"
      using assms(1) by (metis store_logE length_append le_add2)
    then have "dropped (h @ evs) s' \<noteq> []"
      using that False by (auto simp: dropped_def exact(1))
    moreover have "tracks (ms_evicted_watermark s') (dropped (h @ evs) s')"
      using log by (simp add: store_log_def)
    ultimately obtain w where "ms_evicted_watermark s' = Some w"
      and "lp_key w = ev_key (last (dropped (h @ evs) s'))"
      by (cases "ms_evicted_watermark s'") simp_all
    then show ?thesis
      unfolding dropped_def by blast
  qed
  have "ms_first_position s' = Some (ev_log_position (hd (ms_buffer s')))"
    using log buf by (simp add: store_log_def store_wf_def)
  then show ?thesis
    using put log exact(1,2,4,5) exact(3) [OF cap(2)] w False by simp
qed

lemma put_batch_refines_append_witness:
  "\<exists>s'. put_batch True [sample_event ''b.1'' 4] sample_store = (Some 7, s')
    \<and> store_log (sample_log @ [sample_event ''b.1'' 4]) s'
    \<and> ms_buffer s' = [sample_event ''b.1'' 3, sample_event ''b.1'' 4]"
  using put_batch_refines_append [OF sample_store_log sample_log_sorted [of 4], of True]
  by auto

text \<open>C16: Exactness of the watermark. The test a caller makes before it reads, cursor below the
  evicted watermark, holds exactly when some event after the cursor has been dropped.\<close>

theorem watermark_exact:
  assumes "store_log h s"
  shows "cursor_lost s p \<longleftrightarrow> after p h \<noteq> after p (ms_buffer s)"
proof
  assume "cursor_lost s p"
  then have "after p (dropped h s) \<noteq> []"
    using cursor_lost_dropped [OF assms] by (auto simp: after_def filter_empty_conv)
  moreover have "after p h = after p (dropped h s) @ after p (ms_buffer s)"
    by (metis after_append assms store_log_def)
  ultimately show "after p h \<noteq> after p (ms_buffer s)"
    by simp
qed (metis after_not_lost assms)

lemma watermark_exact_witness:
  "cursor_lost sample_store (log_position_new ''b.1'' 0)
    \<longleftrightarrow> after (log_position_new ''b.1'' 0) sample_log
        \<noteq> after (log_position_new ''b.1'' 0) (ms_buffer sample_store)"
  by (rule watermark_exact [OF sample_store_log])

text \<open>C15: A read answers as if the whole log were there. With a position cursor that is not below
  the watermark, one pass finds nothing exactly when the log has nothing after the cursor;
  otherwise it returns, under the next batch id, exactly the next \<open>batch_size\<close> events after the
  cursor (at least one, or all that are left) followed by the events directly after them that have
  the position of the last one, and nothing more; the range spans the returned events, so that
  what is left for the next read is what lies strictly after its end.\<close>

theorem get_scan_reads_log:
  assumes "store_log h s" and "lp_timestamp p = None" and "\<not> cursor_lost s p"
  shows "if after p h = [] then get_scan p n s = (None, s)
    else \<exists>es. get_scan p n s = (Some es, s\<lparr>ms_batch_id_seq := ms_batch_id_seq s + 1\<rparr>)
      \<and> es_batch_id es = ms_batch_id_seq s
      \<and> es_events es = take (max n 1) (after p h)
          @ takeWhile (\<lambda>e. ev_key e = ev_key (last (take (max n 1) (after p h))))
              (drop (max n 1) (after p h))
      \<and> pr_start (es_position_range es) = ev_log_position (hd (es_events es))
      \<and> pr_end (es_position_range es) = ev_log_position (last (es_events es))
      \<and> min n (length (after p h)) \<le> length (es_events es) \<and> es_events es \<noteq> []
      \<and> after p h = es_events es @ after (pr_end (es_position_range es)) h"
proof (cases "after p h = []")
  case True
  then show ?thesis using get_scan_log_read [OF assms] by simp
next
  case False
  have "min n (length (after p h)) \<le> length (next_group n (after p h))"
    by (auto simp: next_group_def Let_def min_def max_def)
  moreover have "pr_start (es_position_range (events_with_events (next_group n (after p h)) i))
      = ev_log_position (hd (next_group n (after p h)))" for i
    using False by (cases "next_group n (after p h)") (simp_all add: events_with_events_def Let_def)
  ultimately show ?thesis
    using get_scan_log_read [OF assms, of n] False
      mem_log.after_step(1) [OF assms(1) False, of n] next_group_def [of n "after p h"]
    by (simp add: events_with_events_range Let_def)
qed

lemma get_scan_reads_log_witness:
  "\<exists>es. get_scan (log_position_new ''b.1'' 1) 1 sample_store
      = (Some es, sample_store\<lparr>ms_batch_id_seq := ms_batch_id_seq sample_store + 1\<rparr>)
    \<and> es_events es = [sample_event ''b.1'' 2]"
proof -
  let ?p = "log_position_new ''b.1'' 1"
  have p: "lp_timestamp ?p = None" "\<not> cursor_lost sample_store ?p"
    "(after ?p sample_log = []) = False"
    by simp_all
  have g: "take (max 1 1) (after ?p sample_log)
      @ takeWhile (\<lambda>e. ev_key e = ev_key (last (take (max 1 1) (after ?p sample_log))))
          (drop (max 1 1) (after ?p sample_log)) = [sample_event ''b.1'' 2]"
    by simp
  show ?thesis
    using get_scan_reads_log [OF sample_store_log p(1,2), of 1] unfolding p(3) if_False g by blast
qed

text \<open>Exactly-once, in-order delivery. A reader that starts at a position not below the
  watermark and polls, moving its cursor to the end of each batch, receives exactly the events of
  the log after its cursor, each once and in order, whatever batch size it asks for.\<close>

theorem polling_delivers:
  assumes "store_log h s" and "lp_timestamp p = None" and "\<not> cursor_lost s p"
    and "length (after p h) \<le> k"
  shows "fst (poll get_scan k p n s) = after p h"
  using assms by (rule mem_log.poll_delivers)

lemma polling_delivers_witness:
  "fst (poll get_scan 5 (log_position_new ''b.1'' 1) 1 sample_store)
    = after (log_position_new ''b.1'' 1) sample_log"
  using sample_store_log by (rule polling_delivers) simp_all


subsection \<open>Timestamp cursors\<close>

lemma not_lost_buffered:
  assumes "store_log h s" and "e \<in> set (ms_buffer s)"
  shows "\<not> cursor_lost s (ev_log_position e)"
proof -
  have "sorted (map ev_key (dropped h s @ ms_buffer s))"
    using assms(1) by (metis store_log_def)
  then show ?thesis
    using cursor_lost_dropped [OF assms(1)] assms(2) unfolding sorted_map_append by force
qed

lemma drop_after_next_group:
  assumes "sorted (map ev_key b)" and "drop i b \<noteq> []"
  shows "drop i b = next_group n (drop i b) @ after (ev_log_position (last (next_group n (drop i b)))) b"
proof -
  let ?g = "next_group n (drop i b)"
  have last: "last ?g \<in> set (drop i b)"
    by (rule last_next_group_in [OF assms(2)])
  have "sorted (map ev_key (take i b @ drop i b))"
    using assms(1) by simp
  then have "ev_key e \<le> ev_key (last ?g)" if "e \<in> set (take i b)" for e
    using that last unfolding sorted_map_append by blast
  then have "after (ev_log_position (last ?g)) (take i b) = []"
    by (auto simp: after_def filter_empty_conv not_less)
  then have "after (ev_log_position (last ?g)) b = after (ev_log_position (last ?g)) (drop i b)"
    by (metis after_append append_Nil append_take_drop_id)
  then show ?thesis
    using after_next_group [OF sorted_map_drop [OF assms(1)] assms(2), of n]
    by (simp add: after_def)
qed

text \<open>Timestamp cursors. Polling from a cursor with a start timestamp delivers exactly the
  buffered events from the first one executed at or after that time on, whatever the position the
  cursor carries: the first batch is selected by time, the following ones by the position it ends
  at.\<close>

theorem timestamp_polling:
  assumes "store_log h s" and "lp_timestamp p = Some ts" and "length (ms_buffer s) \<le> k"
  shows "fst (poll get_scan (Suc k) p n s)
    = dropWhile (\<lambda>e. \<not> ts <=s ev_execute_time e) (ms_buffer s)"
proof -
  let ?b = "ms_buffer s" and ?i = "get_start_idx p (ms_buffer s)"
  let ?q = "ev_log_position (last (next_group n (drop ?i ?b)))"
  have i: "drop ?i ?b = dropWhile (\<lambda>e. \<not> ts <=s ev_execute_time e) ?b"
    using assms(2) by (simp add: get_start_idx_def drop_length_takeWhile)
  show ?thesis
  proof (cases "drop ?i ?b = []")
    case True
    then show ?thesis by (simp add: get_scan_group flip: i)
  next
    case False
    note g = drop_after_next_group [OF store_log_buffer_sorted [OF assms(1)] False, of n]
    let ?s = "s\<lparr>ms_batch_id_seq := ms_batch_id_seq s + 1\<rparr>"
    have log: "store_log h ?s"
      using assms(1) by simp
    have "\<not> cursor_lost ?s ?q"
      by (rule not_lost_buffered [OF log]) (use last_next_group_in [OF False, of n] in
          \<open>auto dest: in_set_dropD\<close>)
    moreover from this have "after ?q h = after ?q ?b"
      using after_not_lost [OF log] by simp
    moreover have "length (after ?q ?b) \<le> k"
      using assms(3) by (auto simp: after_def intro: le_trans [OF length_filter_le])
    ultimately have "fst (poll get_scan k ?q n ?s) = after ?q ?b"
      using mem_log.poll_delivers [OF log, of ?q k n] by simp
    then obtain s' where "poll get_scan k ?q n ?s = (after ?q ?b, s')"
      by (metis prod.collapse)
    then have "fst (poll get_scan (Suc k) p n s) = drop ?i ?b"
      using False g by (simp add: get_scan_group Let_def events_with_events_range)
    then show ?thesis by (simp only: i)
  qed
qed

lemma timestamp_polling_witness:
  "fst (poll get_scan 3 (log_position_new '''' 0\<lparr>lp_timestamp := Some 0\<rparr>) 1 sample_store)
    = dropWhile (\<lambda>e. \<not> 0 <=s ev_execute_time e) (ms_buffer sample_store)"
proof -
  have "fst (poll get_scan (Suc 2) (log_position_new '''' 0\<lparr>lp_timestamp := Some 0\<rparr>) 1 sample_store)
    = dropWhile (\<lambda>e. \<not> 0 <=s ev_execute_time e) (ms_buffer sample_store)"
    using sample_store_log by (rule timestamp_polling) simp_all
  then show ?thesis by (simp only: numeral_3_eq_3 numeral_2_eq_2)
qed


subsection \<open>Waiting readers, capacity and batch ids\<close>

lemma put_batch_ok_buffer:
  assumes "evs \<noteq> []" and "put_batch debug evs s = (Some i, s')"
  shows "ms_buffer s' = drop (length (ms_buffer s) + length evs - ms_capacity s) (ms_buffer s)
      @ drop (length evs - ms_capacity s) evs"
  using assms by (auto simp: put_batch_nonempty Let_def split: if_splits)

text \<open>Every wait ends. A call of \<open>get_batch\<close> whose schedule of wake-ups ends with the
  timeout returns, whatever the other tasks do to the store in between: a non-empty batch, or
  the empty batch with id 0.\<close>

theorem get_batch_returns:
  "\<exists>es. fst (get_batch p n (ws @ [TimedOut]) s) = Some es
    \<and> (events_is_empty es \<longleftrightarrow> es = events_new 0)"
proof (induction ws arbitrary: s)
  case Nil
  show ?case by (rule get_scan_cases [of p n s]) (auto simp: events_is_empty_def events_new_def)
next
  case (Cons w ws)
  show ?case
    by (rule get_scan_cases [of p n s])
      (use Cons.IH in \<open>auto simp: events_is_empty_def events_new_def split: wake.splits\<close>)
qed

text \<open>A waiting reader sees new events, and may be handed a gap. When a reader waits at the end
  of the log and \<open>evs\<close> arrive, it is served the next group of what the store keeps of them.
  The watermark was tested before the wait and is not looked at again, so when \<open>evs\<close> do not
  fit, the reader gets the remainder as an ordinary batch.\<close>

theorem get_batch_wakes:
  assumes "store_log h s" and "lp_timestamp p = None" and "evs \<noteq> []"
    and "sorted (map ev_key (h @ evs))" and "\<forall>e \<in> set h. ev_key e \<le> lp_key p"
    and "\<forall>e \<in> set evs. lp_key p < ev_key e"
  shows "\<exists>i s'. get_batch p n (Notified (\<lambda>s. snd (put_batch debug evs s)) # ws) s
    = (Some (events_with_events (next_group n (drop (length evs - ms_capacity s) evs)) i), s')"
proof -
  obtain s' where put: "put_batch debug evs s = (Some (ms_batch_id_seq s), s')"
    and log: "store_log (h @ evs) s'"
    using put_batch_log_nonempty [OF assms(1,4,3)] by blast
  have sub: "set (ms_buffer s) \<subseteq> set h"
    using assms(1) by (metis store_logE set_append Un_upper2)
  then have "after p (ms_buffer s) = []" "after p (drop m (ms_buffer s)) = []" for m
    using assms(5) by (auto simp: after_def filter_empty_conv not_less dest!: in_set_dropD)
  moreover have "after p (drop m evs) = drop m evs" for m
    using assms(6) by (auto simp: after_def filter_id_conv dest: in_set_dropD)
  ultimately have a: "get_scan p n s = (None, s)"
    "after p (ms_buffer s') = drop (length evs - ms_capacity s) evs"
    using get_scan_after [OF store_log_buffer_sorted [OF assms(1)] assms(2)]
    by (simp_all add: put_batch_ok_buffer [OF assms(3) put])
  moreover have "length evs - ms_capacity s < length evs"
    using assms(1,3) by (auto simp: store_log_def store_wf_def)
  ultimately show ?thesis
    using get_scan_after [OF store_log_buffer_sorted [OF log] assms(2), of n] put
    by (cases ws) auto
qed

lemma get_batch_wakes_witness:
  "\<exists>i s'. get_batch (log_position_new ''b.1'' 3) 1
      [Notified (\<lambda>s. snd (put_batch True (map (sample_event ''b.1'') [4, 5, 6]) s))] sample_store
    = (Some (events_with_events (next_group 1 (map (sample_event ''b.1'') [5, 6])) i), s')"
  using get_batch_wakes [OF sample_store_log, of "log_position_new ''b.1'' 3"
      "map (sample_event ''b.1'') [4, 5, 6]" 1 True "[]"]
  by (simp add: sample_log_def lp_key_new)

text \<open>C30: The second half of a split position group is lost. When the rows of one binlog position
  are fed in two calls and a reader is served between them, its cursor is that position, and the
  rows of the second call are neither returned to it by any later read nor reported as lost.\<close>

theorem split_group_skipped:
  assumes "store_log h s" and "evs1 \<noteq> []" and "evs2 \<noteq> []"
    and "sorted (map ev_key (h @ evs1 @ evs2))"
    and "\<forall>e \<in> set (evs1 @ evs2). ev_key e = ev_key (hd evs1)"
  shows "\<exists>s1 s2. put_batch debug evs1 s = (Some (ms_batch_id_seq s), s1)
    \<and> put_batch debug evs2 s1 = (Some (ms_batch_id_seq s1), s2)
    \<and> \<not> cursor_lost s2 (ev_log_position (hd evs1))
    \<and> get_scan (ev_log_position (hd evs1)) n s2 = (None, s2)"
proof -
  let ?p = "ev_log_position (hd evs1)"
  have "sorted (map ev_key (h @ evs1))"
    using assms(4) unfolding sorted_map_append set_append by blast
  then obtain s1 where 1: "put_batch debug evs1 s = (Some (ms_batch_id_seq s), s1)"
    "store_log (h @ evs1) s1"
    using put_batch_log_nonempty [OF assms(1) _ assms(2)] by blast
  obtain s2 where 2: "put_batch debug evs2 s1 = (Some (ms_batch_id_seq s1), s2)"
    "store_log ((h @ evs1) @ evs2) s2"
    using put_batch_log_nonempty [OF 1(2) _ assms(3)] assms(4) by auto
  have "hd evs1 \<in> set evs1"
    using assms(2) by simp
  then have le: "ev_key e \<le> ev_key (hd evs1)" if "e \<in> set (h @ evs1 @ evs2)" for e
    using that assms(4,5) unfolding sorted_map_append set_append by (metis UnE UnI1 order_refl)
  then have "after ?p (h @ evs1 @ evs2) = []"
    by (force simp: after_def filter_empty_conv not_less)
  moreover have "\<not> cursor_lost s2 ?p"
    using cursor_lost_dropped [OF 2(2), of ?p] le
    by (auto simp: dropped_def not_less simp del: append_assoc dest!: in_set_takeD)
  ultimately show ?thesis
    using get_scan_log_read [OF 2(2), of ?p n] 1(1) 2(1) by auto
qed

lemma split_group_skipped_witness:
  "\<exists>s1 s2. put_batch True [sample_event ''b.1'' 4] sample_store = (Some 7, s1)
    \<and> put_batch True [sample_event ''b.1'' 4] s1 = (Some (ms_batch_id_seq s1), s2)
    \<and> \<not> cursor_lost s2 (log_position_new ''b.1'' 4)
    \<and> get_scan (log_position_new ''b.1'' 4) 10 s2 = (None, s2)"
  using split_group_skipped [OF sample_store_log, of "[sample_event ''b.1'' 4]"
      "[sample_event ''b.1'' 4]" True 10]
  by (simp add: sample_log_def)


text \<open>
  Every operation, in any order, by any number of tasks: each takes the buffer's lock once, so a
  history of the store is a sequence of steps. A step logs the batch id it took from the sequence.
\<close>

datatype store_op = OpPut "canal_event list" | OpScan log_position nat | OpStart | OpStop

definition store_step :: "bool \<Rightarrow> store_op \<Rightarrow> mem_store \<Rightarrow> i64 list \<times> mem_store" where
  "store_step debug op s =
     (let s' = (case op of
                  OpPut evs \<Rightarrow> snd (put_batch debug evs s)
                | OpScan p n \<Rightarrow> snd (get_scan p n s)
                | OpStart \<Rightarrow> mem_store_start s
                | OpStop \<Rightarrow> mem_store_stop s)
      in (if ms_batch_id_seq s' = ms_batch_id_seq s then [] else [ms_batch_id_seq s], s'))"

fun store_run :: "bool \<Rightarrow> store_op list \<Rightarrow> mem_store \<Rightarrow> i64 list \<times> mem_store" where
  "store_run debug [] s = ([], s)"
| "store_run debug (op # ops) s =
     (let (ids, s') = store_step debug op s; (ids', s'') = store_run debug ops s'
      in (ids @ ids', s''))"

lemma store_run_Cons [simp]:
  "fst (store_run debug (op # ops) s) =
     fst (store_step debug op s) @ fst (store_run debug ops (snd (store_step debug op s)))"
  "snd (store_run debug (op # ops) s) = snd (store_run debug ops (snd (store_step debug op s)))"
  by (simp_all add: split_def Let_def)

declare store_run.simps(2) [simp del]

lemma put_batch_bound:
  assumes "length (ms_buffer s) \<le> ms_capacity s"
  shows "ms_capacity (snd (put_batch debug evs s)) = ms_capacity s"
    and "length (ms_buffer (snd (put_batch debug evs s))) \<le> ms_capacity s"
  using assms by (cases "evs = []"; auto simp: put_batch_nonempty Let_def)+

lemma store_step_bound:
  assumes "length (ms_buffer s) \<le> ms_capacity s"
  shows "ms_capacity (snd (store_step debug op s)) = ms_capacity s
    \<and> length (ms_buffer (snd (store_step debug op s))) \<le> ms_capacity s"
proof (cases op)
  case (OpScan p n)
  then show ?thesis
    using assms by (auto simp: store_step_def intro: get_scan_cases [of p n s])
qed (use assms put_batch_bound [OF assms] in
    \<open>auto simp: store_step_def Let_def mem_store_start_def mem_store_stop_def\<close>)

lemma store_step_ids:
  "(fst (store_step debug op s) = []
      \<and> ms_batch_id_seq (snd (store_step debug op s)) = ms_batch_id_seq s)
   \<or> (fst (store_step debug op s) = [ms_batch_id_seq s]
      \<and> ms_batch_id_seq (snd (store_step debug op s)) = ms_batch_id_seq s + 1)"
proof (cases op)
  case (OpPut evs)
  then show ?thesis
    by (cases "evs = []") (auto simp: store_step_def put_batch_nonempty Let_def)
next
  case (OpScan p n)
  then show ?thesis
    by (cases rule: get_scan_cases [of p n s]) (auto simp: store_step_def Let_def)
qed (auto simp: store_step_def Let_def mem_store_start_def mem_store_stop_def)

text \<open>C40: The buffer is bounded. After any sequence of operations on a new store, panics of the
  feed-order assertion included, the store holds at most its capacity of events.\<close>

theorem store_bounded:
  assumes "mem_store_new c = Some s"
  shows "length (ms_buffer (snd (store_run debug ops s))) \<le> c"
proof -
  have "ms_capacity (snd (store_run debug ops s)) = ms_capacity s
      \<and> length (ms_buffer (snd (store_run debug ops s))) \<le> ms_capacity s"
    if "length (ms_buffer s) \<le> ms_capacity s" for s
    using that
  proof (induction ops arbitrary: s)
    case (Cons op ops)
    from store_step_bound [OF Cons.prems, of debug op] Cons.IH [of "snd (store_step debug op s)"]
    show ?case by simp
  qed simp
  moreover have "ms_buffer s = []" "ms_capacity s = c"
    using assms by (auto simp: mem_store_new_def split: if_splits)
  ultimately show ?thesis by fastforce
qed

lemma store_bounded_witness:
  "\<exists>s. mem_store_new 1 = Some s
    \<and> length (ms_buffer (snd (store_run True [OpPut [sample_event ''b'' 2], OpPut [sample_event ''b'' 1]] s))) \<le> 1"
proof -
  obtain s where s: "mem_store_new 1 = Some s"
    by (simp add: mem_store_new_def)
  show ?thesis
    by (rule exI [of _ s], rule conjI [OF s], rule store_bounded [OF s])
qed

text \<open>Batch ids are consecutive. The ids that the operations of any history take from the
  sequence, those of batches put and of batches read, are the numbers from the initial value of
  the sequence on, in order, so no two batches of a run of fewer than \<open>2 ^ 64\<close> share an
  id.\<close>

theorem batch_ids_consecutive:
  "fst (store_run debug ops s)
    = map (\<lambda>k. ms_batch_id_seq s + of_nat k) [0 ..< length (fst (store_run debug ops s))]"
proof (induction ops arbitrary: s)
  case (Cons op ops)
  let ?s = "snd (store_step debug op s)"
  from store_step_ids [of debug op s] show ?case
  proof
    assume "fst (store_step debug op s) = [] \<and> ms_batch_id_seq ?s = ms_batch_id_seq s"
    with Cons.IH [of ?s] show ?thesis by simp
  next
    assume "fst (store_step debug op s) = [ms_batch_id_seq s]
      \<and> ms_batch_id_seq ?s = ms_batch_id_seq s + 1"
    with Cons.IH [of ?s] show ?thesis
      by (simp add: upt_conv_Cons map_Suc_upt [symmetric] comp_def add.assoc
          del: upt_Suc map_Suc_upt)
  qed
qed simp

end
