(* ===== verification/Canal_Filter.thy ===== *)
theory Canal_Filter
  imports Canal_Types
begin

text \<open>
  The crate \<open>canal-filter\<close>: \<open>EventFilter\<close> of \<open>lib.rs\<close>, an include and an optional
  exclude regex on the event's \<open>schema.table\<close> name, both bounded in length and in compiled
  size. The lemmas say when construction succeeds and what a constructed filter lets through.
\<close>

definition max_filter_len :: nat where
  "max_filter_len = 256"

definition max_regex_size :: nat where
  "max_regex_size = 1024 * 1024"

record event_filter =
  ef_include :: regex
  ef_exclude :: "regex option"

definition too_long_error :: "string \<Rightarrow> nat \<Rightarrow> string" where
  "too_long_error what n = what @ '' too long: '' @ nat_str n @ '' exceeds max '' @ nat_str max_filter_len"

definition event_filter_new :: "regex_engine \<Rightarrow> string \<Rightarrow> (string, event_filter) rust_result" where
  "event_filter_new rx pattern =
     (if max_filter_len < length pattern then Inl (too_long_error ''pattern'' (length pattern))
      else
        (case rx (Some max_regex_size) pattern of
           Inl e \<Rightarrow> Inl e
         | Inr include \<Rightarrow> Inr \<lparr>ef_include = include, ef_exclude = None\<rparr>))"

definition event_filter_with_blacklist ::
    "regex_engine \<Rightarrow> string \<Rightarrow> string \<Rightarrow> (string, event_filter) rust_result" where
  "event_filter_with_blacklist rx pattern black_list =
     (if max_filter_len < length pattern then Inl (too_long_error ''pattern'' (length pattern))
      else
        (case rx (Some max_regex_size) pattern of
           Inl e \<Rightarrow> Inl e
         | Inr include \<Rightarrow>
             (if black_list = [] then Inr \<lparr>ef_include = include, ef_exclude = None\<rparr>
              else if max_filter_len < length black_list
                   then Inl (too_long_error ''blacklist'' (length black_list))
                   else
                     (case rx (Some max_regex_size) black_list of
                        Inl e \<Rightarrow> Inl e
                      | Inr exclude \<Rightarrow>
                          Inr \<lparr>ef_include = include, ef_exclude = Some exclude\<rparr>))))"

text \<open>
  \<open>matches\<close> builds the name in a thread-local buffer that it clears first; the buffer's
  earlier content is the first argument, its content afterwards the second result.
\<close>

definition event_filter_matches :: "string \<Rightarrow> event_filter \<Rightarrow> canal_event \<Rightarrow> bool \<times> string" where
  "event_filter_matches buf f event =
     (let buf0 = [];
          full_name = ((buf0 @ ev_schema_name event) @ ''.'') @ ev_table_name event
      in if is_some_and (\<lambda>exclude. exclude full_name) (ef_exclude f) then (False, full_name)
         else (ef_include f full_name, full_name))"

definition filter_passes :: "event_filter \<Rightarrow> canal_event \<Rightarrow> bool" where
  "filter_passes f event = fst (event_filter_matches [] f event)"

lemma event_filter_matches_iff:
  "fst (event_filter_matches buf f event) \<longleftrightarrow>
     ef_include f (ev_full_name event)
     \<and> \<not> is_some_and (\<lambda>exclude. exclude (ev_full_name event)) (ef_exclude f)"
  by (simp add: event_filter_matches_def ev_full_name_def Let_def)

lemma event_filter_matches_buffer: "fst (event_filter_matches buf f e) = filter_passes f e"
  by (simp add: filter_passes_def event_filter_matches_iff)

lemma max_regex_size_eq: "max_regex_size = filter_size_limit"
  by (simp add: max_regex_size_def filter_size_limit_def)

lemma with_blacklist_empty: "event_filter_with_blacklist rx p [] = event_filter_new rx p"
  by (simp add: event_filter_with_blacklist_def event_filter_new_def split: sum.splits)

lemma with_blacklist_Inr:
  assumes "event_filter_with_blacklist rx p b = Inr f"
  shows "rx (Some filter_size_limit) p = Inr (ef_include f)"
    and "b = [] \<and> ef_exclude f = None
      \<or> b \<noteq> [] \<and> (\<exists>m. rx (Some filter_size_limit) b = Inr m \<and> ef_exclude f = Some m)"
    and "length p \<le> max_filter_len" and "length b \<le> max_filter_len"
  using assms unfolding event_filter_with_blacklist_def max_regex_size_eq
  by (auto split: if_splits sum.splits)

text \<open>What a filter with a blacklist lets through. Construction succeeds exactly when both
  patterns are within the length limit and build within the size limit (an empty blacklist is not
  compiled); the filter then passes exactly the events whose \<open>schema.table\<close> name the include
  pattern matches and the blacklist does not, whatever an earlier call left in the buffer.\<close>

theorem with_blacklist_correct:
  "(case event_filter_with_blacklist rx p b of
      Inl _ \<Rightarrow> \<not> (length p \<le> 256 \<and> length b \<le> 256 \<and> filter_pattern_validate rx
                 \<lparr>fp_pattern = p, fp_black_list = b\<rparr> = Inr ())
    | Inr f \<Rightarrow> length p \<le> 256 \<and> length b \<le> 256
        \<and> filter_pattern_validate rx \<lparr>fp_pattern = p, fp_black_list = b\<rparr> = Inr ()
        \<and> fst (event_filter_matches buf f e)
            = (projr (rx (Some filter_size_limit) p) (ev_full_name e)
               \<and> \<not> (b \<noteq> [] \<and> projr (rx (Some filter_size_limit) b) (ev_full_name e))))"
proof (cases "event_filter_with_blacklist rx p b")
  case (Inl e)
  then show ?thesis
    unfolding event_filter_with_blacklist_def max_regex_size_eq
    by (auto simp: filter_pattern_validate_ok_iff max_filter_len_def split: if_splits sum.splits)
next
  case (Inr f)
  from with_blacklist_Inr [OF Inr] Inr show ?thesis
    by (auto simp: filter_pattern_validate_ok_iff max_filter_len_def event_filter_matches_iff)
qed

end
