(* ===== verification/Canal_Session.thy ===== *)
theory Canal_Session
  imports Canal_Filter
begin

text \<open>
  The server's session table, \<open>session.rs\<close> of \<open>canal-server\<close>: one \<open>ClientSession\<close> per
  client id, with the subscription filter and its compiled regexes. The interface
  \<open>session_table\<close> is what the handlers rely on; the lemmas show that operations on other
  client ids do not touch a session, and relate the session's filter to \<open>EventFilter\<close>.
\<close>

type_synonym timestamp = int

record client_session =
  cs_client_id :: string
  cs_destination :: string
  cs_filter :: filter_pattern
  cs_last_ack_position :: "log_position option"
  cs_connected_at :: timestamp
  cs_last_heartbeat :: timestamp
  cs_compiled_pattern :: "regex option"
  cs_compiled_black_list :: "regex option"

text \<open>\<open>Result::ok\<close>.\<close>

definition result_ok :: "('e, 'a) rust_result \<Rightarrow> 'a option" where
  "result_ok r = (case r of Inl _ \<Rightarrow> None | Inr x \<Rightarrow> Some x)"

definition client_session_new ::
    "regex_engine \<Rightarrow> timestamp \<Rightarrow> string \<Rightarrow> string \<Rightarrow> filter_pattern \<Rightarrow> client_session" where
  "client_session_new rx now client_id destination flt =
     \<lparr>cs_client_id = client_id, cs_destination = destination, cs_filter = flt,
      cs_last_ack_position = None, cs_connected_at = now, cs_last_heartbeat = now,
      cs_compiled_pattern = result_ok (rx None (fp_pattern flt)),
      cs_compiled_black_list =
        (if fp_black_list flt = [] then None else result_ok (rx None (fp_black_list flt)))\<rparr>"

type_synonym session_manager = "string \<rightharpoonup> client_session"

definition session_manager_new :: session_manager where
  "session_manager_new = Map.empty"

definition sessions_register ::
    "regex_engine \<Rightarrow> timestamp \<Rightarrow> string \<Rightarrow> string \<Rightarrow> filter_pattern \<Rightarrow> session_manager \<Rightarrow> session_manager" where
  "sessions_register rx now client_id destination flt m =
     m(client_id \<mapsto> client_session_new rx now client_id destination flt)"

definition sessions_unregister :: "string \<Rightarrow> session_manager \<Rightarrow> session_manager" where
  "sessions_unregister client_id m = m(client_id := None)"

definition sessions_get :: "session_manager \<Rightarrow> string \<Rightarrow> client_session option" where
  "sessions_get m client_id = m client_id"

definition sessions_update_ack :: "string \<Rightarrow> log_position \<Rightarrow> session_manager \<Rightarrow> session_manager" where
  "sessions_update_ack client_id pos m =
     (case m client_id of
        None \<Rightarrow> m
      | Some s \<Rightarrow> m(client_id \<mapsto> s\<lparr>cs_last_ack_position := Some pos\<rparr>))"

definition sessions_heartbeat :: "timestamp \<Rightarrow> string \<Rightarrow> session_manager \<Rightarrow> session_manager" where
  "sessions_heartbeat now client_id m =
     (case m client_id of
        None \<Rightarrow> m
      | Some s \<Rightarrow> m(client_id \<mapsto> s\<lparr>cs_last_heartbeat := now\<rparr>))"

subsection \<open>The session table's contract\<close>

locale session_table =
  fixes look :: "'m \<Rightarrow> string \<Rightarrow> client_session option"
    and empty_table :: 'm
    and register :: "regex_engine \<Rightarrow> timestamp \<Rightarrow> string \<Rightarrow> string \<Rightarrow> filter_pattern \<Rightarrow> 'm \<Rightarrow> 'm"
    and unregister :: "string \<Rightarrow> 'm \<Rightarrow> 'm"
    and update_ack :: "string \<Rightarrow> log_position \<Rightarrow> 'm \<Rightarrow> 'm"
    and heartbeat :: "timestamp \<Rightarrow> string \<Rightarrow> 'm \<Rightarrow> 'm"
  assumes look_empty: "look empty_table c = None"
    and look_register: "look (register rx t c d f m) c' =
      (if c' = c then Some (client_session_new rx t c d f) else look m c')"
    and look_unregister: "look (unregister c m) c' = (if c' = c then None else look m c')"
    and look_update_ack: "look (update_ack c p m) c' =
      (if c' = c then map_option (\<lambda>s. s\<lparr>cs_last_ack_position := Some p\<rparr>) (look m c) else look m c')"
    and look_heartbeat: "look (heartbeat t c m) c' =
      (if c' = c then map_option (\<lambda>s. s\<lparr>cs_last_heartbeat := t\<rparr>) (look m c) else look m c')"
begin

text \<open>The cursor a session has acknowledged.\<close>

definition acked :: "'m \<Rightarrow> string \<Rightarrow> log_position option" where
  "acked m c = Option.bind (look m c) cs_last_ack_position"

lemma acked_simps:
  "acked (register rx t c d f m) c = None"
  "acked (unregister c m) c = None"
  "acked (update_ack c p m) c = (if look m c = None then None else Some p)"
  "acked (heartbeat t c m) c = acked m c"
  by (cases "look m c"; simp add: acked_def look_register look_unregister look_update_ack
      look_heartbeat client_session_new_def)+

lemma other_sessions:
  assumes "c' \<noteq> c"
  shows "look (register rx t c d f m) c' = look m c'"
    and "look (unregister c m) c' = look m c'"
    and "look (update_ack c p m) c' = look m c'"
    and "look (heartbeat t c m) c' = look m c'"
  using assms by (simp_all add: look_register look_unregister look_update_ack look_heartbeat)

text \<open>Each session is filed under its own client id, and stays so.\<close>

definition filed :: "'m \<Rightarrow> bool" where
  "filed m \<longleftrightarrow> (\<forall>c s. look m c = Some s \<longrightarrow> cs_client_id s = c)"

lemma filed_empty: "filed empty_table"
  by (simp add: filed_def look_empty)

lemma filed_step:
  assumes "filed m"
  shows "filed (register rx t c d f m)" and "filed (unregister c m)"
    and "filed (update_ack c p m)" and "filed (heartbeat t c m)"
  using assms by (auto simp: filed_def look_register look_unregister look_update_ack
      look_heartbeat client_session_new_def split: if_splits)

end

interpretation sess: session_table sessions_get session_manager_new sessions_register
  sessions_unregister sessions_update_ack sessions_heartbeat
  by unfold_locales
    (auto simp: sessions_get_def session_manager_new_def sessions_register_def
      sessions_unregister_def sessions_update_ack_def sessions_heartbeat_def
      split: option.splits)

lemmas session_simps [server_simps] =
  sess.look_register sess.look_unregister sess.look_update_ack sess.look_heartbeat

subsection \<open>The per-client filter\<close>

text \<open>
  \<open>handle_get\<close>'s test on an event. An absent session, or a pattern that did not compile,
  lets every event through.
\<close>

definition session_passes :: "client_session option \<Rightarrow> canal_event \<Rightarrow> bool" where
  "session_passes session event =
     (let tab = ev_full_name event;
          pattern_re = Option.bind session cs_compiled_pattern;
          black_re = Option.bind session cs_compiled_black_list;
          matched = is_none_or (\<lambda>re. re tab) pattern_re;
          blocked = is_some_and (\<lambda>re. re tab) black_re
      in matched \<and> \<not> blocked)"

text \<open>C35: The server's per-session filter is the library's filter. For a pattern and blacklist that
  \<open>EventFilter\<close> accepts, the test that the server applies with the regexes cached in a session
  registered with them passes the same events.\<close>

theorem session_filter_equivalent:
  assumes "regex_limit_sound rx" and "event_filter_with_blacklist rx p b = Inr f"
  shows "session_passes (sessions_get (sessions_register rx now cid dest
      \<lparr>fp_pattern = p, fp_black_list = b\<rparr> m) cid) e \<longleftrightarrow> filter_passes f e"
proof -
  have p: "rx None p = Inr (ef_include f)"
    using assms(1) with_blacklist_Inr(1) [OF assms(2)] by (auto simp: regex_limit_sound_def)
  have b: "b = [] \<and> ef_exclude f = None
      \<or> b \<noteq> [] \<and> (\<exists>m. rx None b = Inr m \<and> ef_exclude f = Some m)"
    using assms(1) with_blacklist_Inr(2) [OF assms(2)] by (auto simp: regex_limit_sound_def)
  show ?thesis
    using p b by (auto simp: server_simps client_session_new_def session_passes_def
        result_ok_def filter_passes_def event_filter_matches_iff Let_def)
qed

text \<open>An engine that takes a pattern literally, for the concrete instances.\<close>

definition literal_engine :: regex_engine where
  "literal_engine limit p = Inr (\<lambda>s. s = p)"

lemma literal_engine_sound [simp]: "regex_limit_sound literal_engine"
  by (simp add: regex_limit_sound_def literal_engine_def)

lemma session_filter_equivalent_witness:
  "session_passes (sessions_get (sessions_register literal_engine 0 ''c'' ''d''
      \<lparr>fp_pattern = ''db.t'', fp_black_list = ''db.u''\<rparr> session_manager_new) ''c'')
      (sample_event ''b.1'' 4)
    \<longleftrightarrow> filter_passes \<lparr>ef_include = (\<lambda>s. s = ''db.t''), ef_exclude = Some (\<lambda>s. s = ''db.u'')\<rparr>
          (sample_event ''b.1'' 4)"
  by (rule session_filter_equivalent)
    (simp_all add: event_filter_with_blacklist_def max_filter_len_def literal_engine_def)

end
