(* ===== verification/Canal_Server.thy ===== *)
theory Canal_Server
  imports Canal_Store Canal_Session Canal_Codec Canal_Conversion
begin

text \<open>
  The TCP server, \<open>server.rs\<close> of \<open>canal-server\<close>. One connection is the record \<open>ctx\<close>: the
  socket's sending half, the connection's own \<open>ClientState\<close>, and the session table and event
  store that it shares with the other tasks. Every handler is a function on \<open>ctx\<close> that also
  returns the handler's \<open>Result\<close>; \<open>client_step\<close> is one round of the loop of
  \<open>handle_client\<close>, and \<open>serve_step\<close> the accept loop.

  The other tasks run at the same time. What they do to the shared state at the points where a
  handler can observe it is the argument \<open>interference\<close>: before the packet is handled, between
  the watermark test and the first read, at each wake-up of a waiting read, and on the session
  table while the read waits. The clock is an argument.
\<close>

subsection \<open>The connection\<close>

text \<open>
  The sending half: the frames written, how many more writes succeed (for ever if \<open>None\<close>), and
  the error of a failed write.
\<close>

record transport =
  tr_sent :: "bytes list"
  tr_budget :: "nat option"
  tr_error :: canal_error

definition transport_send :: "bytes \<Rightarrow> transport \<Rightarrow> unit canal_result \<times> transport" where
  "transport_send b t =
     (if tr_budget t = Some 0 then (Inl (tr_error t), t)
      else (Inr (), t\<lparr>tr_sent := tr_sent t @ [b], tr_budget := map_option (\<lambda>n. n - 1) (tr_budget t)\<rparr>))"

record client_state =
  st_client_id :: "string option"
  st_current_pos :: "log_position option"
  st_last_ack_pos :: "log_position option"
  st_last_get_batch_id :: i64
  st_last_get_end_pos :: "log_position option"
  st_authenticated :: bool
  st_auth_error_count :: u32
  st_unknown_packet_count :: u32

definition client_state_default :: client_state where
  "client_state_default =
     \<lparr>st_client_id = None, st_current_pos = None, st_last_ack_pos = None,
      st_last_get_batch_id = 0, st_last_get_end_pos = None, st_authenticated = False,
      st_auth_error_count = 0, st_unknown_packet_count = 0\<rparr>"

record ctx =
  cx_transport :: transport
  cx_state :: client_state
  cx_sessions :: session_manager
  cx_store :: mem_store

record interference =
  if_before :: "mem_store \<times> session_manager \<Rightarrow> mem_store \<times> session_manager"
  if_store :: "mem_store \<Rightarrow> mem_store"
  if_wakes :: "(mem_store \<Rightarrow> mem_store) list"
  if_sessions :: "session_manager \<Rightarrow> session_manager"

definition no_interference :: interference where
  "no_interference = \<lparr>if_before = (\<lambda>x. x), if_store = (\<lambda>x. x), if_wakes = [], if_sessions = (\<lambda>x. x)\<rparr>"

definition ctx_send :: "bytes \<Rightarrow> ctx \<Rightarrow> unit canal_result \<times> ctx" where
  "ctx_send b c = (let (r, t) = transport_send b (cx_transport c) in (r, c\<lparr>cx_transport := t\<rparr>))"

subsection \<open>Acknowledgements\<close>

definition packet_frame :: "prost \<Rightarrow> packet_type \<Rightarrow> bytes \<Rightarrow> bytes" where
  "packet_frame pb ty body =
     enc_packet pb (packet_default\<lparr>pk_type := packet_type_i32 ty, pk_body := body\<rparr>)"

definition ack_ok_frame :: "prost \<Rightarrow> bytes" where
  "ack_ok_frame pb = packet_frame pb PtAck (enc_ack pb ack_default)"

definition ack_err_frame :: "prost \<Rightarrow> string \<Rightarrow> bytes" where
  "ack_err_frame pb message =
     packet_frame pb PtAck
       (enc_ack pb \<lparr>ak_error_message = message, ak_error_code_present = Some (ErrorCode 1)\<rparr>)"

definition send_ack_ok :: "prost \<Rightarrow> ctx \<Rightarrow> unit canal_result \<times> ctx" where
  "send_ack_ok pb c = ctx_send (ack_ok_frame pb) c"

definition send_ack_err :: "prost \<Rightarrow> string \<Rightarrow> ctx \<Rightarrow> unit canal_result \<times> ctx" where
  "send_ack_err pb message c = ctx_send (ack_err_frame pb message) c"

subsection \<open>Authentication\<close>

definition max_filter_pattern_len :: nat where
  "max_filter_pattern_len = 256"

definition bad_password :: "bytes \<Rightarrow> string \<Rightarrow> bool" where
  "bad_password password token \<longleftrightarrow>
     length password \<noteq> length (as_bytes token) \<or> xor_fold password (as_bytes token) \<noteq> 0"

definition filter_too_long :: "nat \<Rightarrow> string" where
  "filter_too_long n =
     ''filter pattern too long: '' @ nat_str n @ '' > '' @ nat_str max_filter_pattern_len"

text \<open>The filter of a \<open>ClientAuth\<close>, or the message it is rejected with.\<close>

definition auth_filter :: "regex_engine \<Rightarrow> string \<Rightarrow> (string, filter_pattern) rust_result" where
  "auth_filter rx flt =
     (if flt = [] then Inr filter_pattern_default
      else if max_filter_pattern_len < length flt then Inl (filter_too_long (length flt))
      else (let fp = \<lparr>fp_pattern = flt, fp_black_list = ''''\<rparr>
            in (case filter_pattern_validate rx fp of
                  Inl e \<Rightarrow> Inl (''invalid filter pattern: '' @ e)
                | Inr _ \<Rightarrow> Inr fp)))"

definition auth_accept ::
    "prost \<Rightarrow> regex_engine \<Rightarrow> timestamp \<Rightarrow> client_auth \<Rightarrow> ctx \<Rightarrow> unit canal_result \<times> ctx" where
  "auth_accept pb rx now auth c =
     (let cid = (if ca_client_id auth = [] then ''anonymous'' else ca_client_id auth)
      in (case auth_filter rx (ca_filter auth) of
            Inl msg \<Rightarrow> send_ack_err pb msg c
          | Inr flt \<Rightarrow>
              (let st1 = (cx_state c)\<lparr>st_authenticated := True, st_client_id := Some cid\<rparr>;
                   st2 = (if 0 <s ca_start_timestamp auth
                          then st1\<lparr>st_current_pos :=
                                 Some \<lparr>lp_journal_name = '''', lp_position = 0,
                                       lp_timestamp = Some (ca_start_timestamp auth),
                                       lp_server_id = None, lp_gtid = None\<rparr>\<rparr>
                          else st1)
               in send_ack_ok pb
                    (c\<lparr>cx_sessions := sessions_register rx now cid (ca_destination auth) flt (cx_sessions c),
                       cx_state := st2\<rparr>))))"

definition auth_reject :: "prost \<Rightarrow> ctx \<Rightarrow> unit canal_result \<times> ctx" where
  "auth_reject pb c =
     (let st = (cx_state c)\<lparr>st_auth_error_count := st_auth_error_count (cx_state c) + 1\<rparr>
      in (case send_ack_err pb ''authentication failed'' (c\<lparr>cx_state := st\<rparr>) of
            (Inl e, c') \<Rightarrow> (Inl e, c')
          | (Inr _, c') \<Rightarrow>
              (if 3 \<le> st_auth_error_count st then (Inl (AuthFailed ''too many failures''), c')
               else (Inr (), c'))))"

definition handle_auth ::
    "prost \<Rightarrow> regex_engine \<Rightarrow> string option \<Rightarrow> timestamp \<Rightarrow> packet \<Rightarrow> ctx \<Rightarrow> unit canal_result \<times> ctx" where
  "handle_auth pb rx auth_token now packet c =
     (case dec_client_auth pb (pk_body packet) of
        Inl e \<Rightarrow> (Inl (Protocol (''failed to decode ClientAuth: '' @ e)), c)
      | Inr auth \<Rightarrow>
          (if st_authenticated (cx_state c) then send_ack_err pb ''already authenticated'' c
           else if is_some_and (bad_password (ca_password auth)) auth_token then auth_reject pb c
           else auth_accept pb rx now auth c))"

subsection \<open>Subscription\<close>

definition client_id_mismatch :: "string \<Rightarrow> string \<Rightarrow> string" where
  "client_id_mismatch got expected =
     ''client_id mismatch: sub has '' @ [CHR 0x27] @ got @ [CHR 0x27] @ '' but authenticated as ''
       @ [CHR 0x27] @ expected @ [CHR 0x27]"

definition handle_sub ::
    "prost \<Rightarrow> regex_engine \<Rightarrow> timestamp \<Rightarrow> packet \<Rightarrow> ctx \<Rightarrow> unit canal_result \<times> ctx" where
  "handle_sub pb rx now packet c =
     (case dec_sub pb (pk_body packet) of
        Inl e \<Rightarrow> (Inl (Protocol (''failed to decode Sub: '' @ e)), c)
      | Inr sub \<Rightarrow>
          (if is_some_and (\<lambda>auth_cid. sb_client_id sub \<noteq> auth_cid) (st_client_id (cx_state c))
           then send_ack_err pb
                  (case st_client_id (cx_state c) of
                     Some auth_cid \<Rightarrow> client_id_mismatch (sb_client_id sub) auth_cid
                   | None \<Rightarrow> '''') c
           else if max_filter_pattern_len < length (sb_filter sub)
           then send_ack_err pb (filter_too_long (length (sb_filter sub))) c
           else
             (let black_list =
                    unwrap_or (map_option (\<lambda>s. fp_black_list (cs_filter s))
                                 (sessions_get (cx_sessions c) (sb_client_id sub))) '''';
                  fp = \<lparr>fp_pattern = sb_filter sub, fp_black_list = black_list\<rparr>
              in (case filter_pattern_validate rx fp of
                    Inl e \<Rightarrow> send_ack_err pb (''invalid filter pattern: '' @ e) c
                  | Inr _ \<Rightarrow>
                      send_ack_ok pb
                        (c\<lparr>cx_sessions := sessions_register rx now (sb_client_id sub)
                              (sb_destination sub) fp (cx_sessions c),
                           cx_state := (cx_state c)\<lparr>st_client_id := Some (sb_client_id sub)\<rparr>\<rparr>)))))"

subsection \<open>Serving a batch\<close>

definition max_fetch_size :: nat where
  "max_fetch_size = 10000"

text \<open>\<open>usize::try_from(fetch_size).unwrap_or(100).clamp(1, MAX_FETCH_SIZE)\<close>.\<close>

definition get_batch_size :: "i32 \<Rightarrow> nat" where
  "get_batch_size fetch_size =
     (let v = (if fetch_size <s 0 then 100 else unat fetch_size)
      in if v < 1 then 1 else if max_fetch_size < v then max_fetch_size else v)"

definition default_start :: log_position where
  "default_start = log_position_new ''mysql-bin.000001'' 4"

definition session_ack :: "session_manager \<Rightarrow> string \<Rightarrow> log_position option" where
  "session_ack m cid = Option.bind (sessions_get m cid) cs_last_ack_position"

definition get_start :: "log_position option \<Rightarrow> log_position option \<Rightarrow> log_position" where
  "get_start current_pos ack = unwrap_or (opt_or current_pos ack) default_start"

text \<open>The watermark the cursor is below, for a client that carries its own position cursor.\<close>

definition get_lost ::
    "log_position option \<Rightarrow> log_position option \<Rightarrow> mem_store \<Rightarrow> log_position option" where
  "get_lost current_pos ack store =
     (let has_own_cursor = current_pos \<noteq> None \<or> ack \<noteq> None; start = get_start current_pos ack
      in if has_own_cursor \<and> lp_timestamp start = None
         then (case ms_evicted_watermark store of
                 Some watermark \<Rightarrow> if start < watermark then Some watermark else None
               | None \<Rightarrow> None)
         else None)"

definition cursor_lost_error :: "log_position \<Rightarrow> log_position \<Rightarrow> string" where
  "cursor_lost_error start watermark =
     ''cursor '' @ log_position_display start @ '' is below the eviction watermark ''
       @ log_position_display watermark @ '' '' @ em_dash
       @ '' events were dropped, reset the subscription''"

text \<open>
  A read that returns: \<open>get_batch\<close> with the wake-ups that come before its timeout.
\<close>

fun get_batch_wait ::
    "log_position \<Rightarrow> nat \<Rightarrow> (mem_store \<Rightarrow> mem_store) list \<Rightarrow> mem_store \<Rightarrow> events \<times> mem_store" where
  "get_batch_wait start n [] s =
     (case get_scan start n s of (Some es, s') \<Rightarrow> (es, s') | (None, s') \<Rightarrow> (events_new 0, s'))"
| "get_batch_wait start n (env # envs) s =
     (case get_scan start n s of
        (Some es, s') \<Rightarrow> (es, s')
      | (None, s') \<Rightarrow> get_batch_wait start n envs (env s'))"

lemma get_batch_wait:
  "get_batch start n (map Notified envs @ [TimedOut]) s =
     (let (es, s') = get_batch_wait start n envs s in (Some es, s'))"
  by (induction envs arbitrary: s) (auto split: prod.splits option.splits)

text \<open>The entries of a batch; the first event that cannot be serialised is the error.\<close>

fun encode_entries :: "prost \<Rightarrow> canal_event list \<Rightarrow> bytes list \<Rightarrow> bytes list canal_result" where
  "encode_entries pb [] acc = Inr acc"
| "encode_entries pb (event # evs) acc =
     (case canal_event_to_entry pb event of
        Inl e \<Rightarrow> Inl e
      | Inr entry \<Rightarrow> encode_entries pb evs (acc @ [enc_entry pb entry]))"

definition messages_frame :: "prost \<Rightarrow> i64 \<Rightarrow> bytes list \<Rightarrow> bytes" where
  "messages_frame pb batch_id entries =
     packet_frame pb PtMessages
       (enc_messages pb \<lparr>mg_batch_id = batch_id, mg_messages = entries\<rparr>)"

definition serve_batch :: "prost \<Rightarrow> string \<Rightarrow> events \<Rightarrow> ctx \<Rightarrow> unit canal_result \<times> ctx" where
  "serve_batch pb cid es c =
     (if \<not> events_is_empty es
      then
        (let end_pos = pr_end (es_position_range es);
             c1 = c\<lparr>cx_state := (cx_state c)\<lparr>st_current_pos := Some end_pos,
                       st_last_get_batch_id := es_batch_id es,
                       st_last_get_end_pos := Some end_pos\<rparr>\<rparr>;
             session = sessions_get (cx_sessions c1) cid;
             to_send = filter (session_passes session) (es_events es)
         in if to_send = [] then ctx_send (messages_frame pb (es_batch_id es) []) c1
            else
              (case encode_entries pb to_send [] of
                 Inl e \<Rightarrow> (Inl e, c1)
               | Inr entries \<Rightarrow> ctx_send (messages_frame pb (es_batch_id es) entries) c1))
      else ctx_send (messages_frame pb 0 []) c)"

definition handle_get :: "prost \<Rightarrow> interference \<Rightarrow> packet \<Rightarrow> ctx \<Rightarrow> unit canal_result \<times> ctx" where
  "handle_get pb env packet c =
     (case dec_get_request pb (pk_body packet) of
        Inl e \<Rightarrow> (Inl (Protocol (''failed to decode Get: '' @ e)), c)
      | Inr get \<Rightarrow>
          (let batch_size = get_batch_size (gt_fetch_size get)
           in (case st_client_id (cx_state c) of
                 None \<Rightarrow> (Inl (Protocol (''not authenticated '' @ em_dash @ '' client_id missing'')), c)
               | Some cid \<Rightarrow>
                   (let ack = session_ack (cx_sessions c) cid;
                        start = get_start (st_current_pos (cx_state c)) ack
                    in (case get_lost (st_current_pos (cx_state c)) ack (cx_store c) of
                          Some watermark \<Rightarrow> send_ack_err pb (cursor_lost_error start watermark) c
                        | None \<Rightarrow>
                            (let (es, store) =
                                   get_batch_wait start batch_size (if_wakes env) (if_store env (cx_store c))
                             in serve_batch pb cid es
                                  (c\<lparr>cx_store := store,
                                     cx_sessions := if_sessions env (cx_sessions c)\<rparr>)))))))"

subsection \<open>Acknowledgement, rollback, heartbeat\<close>

definition handle_client_ack :: "prost \<Rightarrow> packet \<Rightarrow> ctx \<Rightarrow> ctx" where
  "handle_client_ack pb packet c =
     (case dec_client_ack pb (pk_body packet) of
        Inl _ \<Rightarrow> c
      | Inr ack \<Rightarrow>
          (case (st_client_id (cx_state c), st_last_get_end_pos (cx_state c)) of
             (Some cid, Some pos) \<Rightarrow>
               (if cl_batch_id ack \<noteq> st_last_get_batch_id (cx_state c) then c
                else c\<lparr>cx_state := (cx_state c)\<lparr>st_last_ack_pos := Some pos\<rparr>,
                       cx_sessions := sessions_update_ack cid pos (cx_sessions c)\<rparr>)
           | _ \<Rightarrow> c))"

definition handle_client_rollback :: "prost \<Rightarrow> packet \<Rightarrow> ctx \<Rightarrow> ctx" where
  "handle_client_rollback pb packet c =
     (case dec_client_rollback pb (pk_body packet) of
        Inl _ \<Rightarrow> c
      | Inr _ \<Rightarrow>
          (case st_last_ack_pos (cx_state c) of
             Some ack_pos \<Rightarrow> c\<lparr>cx_state := (cx_state c)\<lparr>st_current_pos := Some ack_pos\<rparr>\<rparr>
           | None \<Rightarrow> c\<lparr>cx_state := (cx_state c)\<lparr>st_current_pos := None\<rparr>\<rparr>))"

definition handle_heartbeat :: "prost \<Rightarrow> timestamp \<Rightarrow> ctx \<Rightarrow> unit canal_result \<times> ctx" where
  "handle_heartbeat pb now c =
     send_ack_ok pb
       (case st_client_id (cx_state c) of
          Some cid \<Rightarrow> c\<lparr>cx_sessions := sessions_heartbeat now cid (cx_sessions c)\<rparr>
        | None \<Rightarrow> c)"

subsection \<open>The connection's loop\<close>

datatype incoming = Frame bytes | FrameErr canal_error | StreamEnd | IdleTimeout

datatype control = Continue | Break | Return canal_error

definition control_of :: "unit canal_result \<times> ctx \<Rightarrow> control \<times> ctx" where
  "control_of rc = (case rc of (Inl e, c) \<Rightarrow> (Return e, c) | (Inr _, c) \<Rightarrow> (Continue, c))"

definition reset_unknown :: "ctx \<Rightarrow> ctx" where
  "reset_unknown c = c\<lparr>cx_state := (cx_state c)\<lparr>st_unknown_packet_count := 0\<rparr>\<rparr>"

definition handle_unknown :: "ctx \<Rightarrow> control \<times> ctx" where
  "handle_unknown c =
     (let n = st_unknown_packet_count (cx_state c) + 1;
          c' = c\<lparr>cx_state := (cx_state c)\<lparr>st_unknown_packet_count := n\<rparr>\<rparr>
      in if 10 \<le> n then (Return (Protocol ''too many unknown packets''), c') else (Continue, c'))"

definition dispatch ::
    "prost \<Rightarrow> regex_engine \<Rightarrow> string option \<Rightarrow> timestamp \<Rightarrow> interference \<Rightarrow> packet \<Rightarrow> ctx \<Rightarrow> control \<times> ctx"
  where
  "dispatch pb rx auth_token now env packet c =
     (let ptype = pk_type packet
      in if ptype = packet_type_i32 PtClientauthentication
         then control_of (handle_auth pb rx auth_token now packet c)
         else if \<not> st_authenticated (cx_state c)
         then control_of (send_ack_err pb ''not authenticated'' c)
         else if ptype = packet_type_i32 PtSubscription
         then control_of (handle_sub pb rx now packet (reset_unknown c))
         else if ptype = packet_type_i32 PtGet
         then control_of (handle_get pb env packet (reset_unknown c))
         else if ptype = packet_type_i32 PtClientack
         then (Continue, handle_client_ack pb packet (reset_unknown c))
         else if ptype = packet_type_i32 PtClientrollback
         then (Continue, handle_client_rollback pb packet (reset_unknown c))
         else if ptype = packet_type_i32 PtHeartbeat
         then control_of (handle_heartbeat pb now (reset_unknown c))
         else handle_unknown c)"

definition interfere :: "interference \<Rightarrow> ctx \<Rightarrow> ctx" where
  "interfere env c =
     (let (store, sessions) = if_before env (cx_store c, cx_sessions c)
      in c\<lparr>cx_store := store, cx_sessions := sessions\<rparr>)"

definition client_step ::
    "prost \<Rightarrow> regex_engine \<Rightarrow> string option \<Rightarrow> timestamp \<Rightarrow> interference \<Rightarrow> incoming \<Rightarrow> ctx \<Rightarrow> control \<times> ctx"
  where
  "client_step pb rx auth_token now env inp c0 =
     (let c = interfere env c0
      in (case inp of
            StreamEnd \<Rightarrow> (Break, c)
          | IdleTimeout \<Rightarrow> (Break, c)
          | FrameErr e \<Rightarrow> (Return e, c)
          | Frame frame_bytes \<Rightarrow>
              (if frame_bytes = [] then (Continue, c)
               else
                 (case dec_packet pb frame_bytes of
                    Inl e \<Rightarrow> (Return (Protocol (''failed to decode Packet: '' @ e)), c)
                  | Inr packet \<Rightarrow> dispatch pb rx auth_token now env packet c))))"

definition client_exit :: "ctx \<Rightarrow> ctx" where
  "client_exit c =
     (case st_client_id (cx_state c) of
        Some cid \<Rightarrow> c\<lparr>cx_sessions := sessions_unregister cid (cx_sessions c)\<rparr>
      | None \<Rightarrow> c)"

text \<open>
  The loop over what arrives. \<open>None\<close>: the connection is still open when the inputs are used up.
\<close>

fun client_loop ::
    "prost \<Rightarrow> regex_engine \<Rightarrow> string option \<Rightarrow> (timestamp \<times> interference \<times> incoming) list \<Rightarrow> ctx
      \<Rightarrow> unit canal_result option \<times> ctx" where
  "client_loop pb rx auth_token [] c = (None, c)"
| "client_loop pb rx auth_token ((now, env, inp) # inputs) c =
     (case client_step pb rx auth_token now env inp c of
        (Continue, c') \<Rightarrow> client_loop pb rx auth_token inputs c'
      | (Break, c') \<Rightarrow> (Some (Inr ()), client_exit c')
      | (Return e, c') \<Rightarrow> (Some (Inl e), c'))"

definition handle_client ::
    "prost \<Rightarrow> regex_engine \<Rightarrow> string option \<Rightarrow> (timestamp \<times> interference \<times> incoming) list
      \<Rightarrow> transport \<Rightarrow> mem_store \<Rightarrow> session_manager \<Rightarrow> unit canal_result option \<times> ctx" where
  "handle_client pb rx auth_token inputs t store sessions =
     client_loop pb rx auth_token inputs
       \<lparr>cx_transport = t, cx_state = client_state_default, cx_sessions = sessions, cx_store = store\<rparr>"

subsection \<open>Accepting connections\<close>

record canal_server =
  sr_store :: mem_store
  sr_sessions :: session_manager
  sr_bind_addr :: string
  sr_cancelled :: bool
  sr_client_tasks :: "nat list"
  sr_auth_token :: "string option"
  sr_idle_timeout_secs :: u64

definition canal_server_new :: "string \<Rightarrow> mem_store \<Rightarrow> canal_server" where
  "canal_server_new bind_addr store =
     \<lparr>sr_store = store, sr_sessions = session_manager_new, sr_bind_addr = bind_addr,
      sr_cancelled = False, sr_client_tasks = [], sr_auth_token = None,
      sr_idle_timeout_secs = 600\<rparr>"

definition with_auth :: "string \<Rightarrow> canal_server \<Rightarrow> canal_server" where
  "with_auth token s =
     (if trim_is_empty token then s\<lparr>sr_auth_token := None\<rparr> else s\<lparr>sr_auth_token := Some token\<rparr>)"

definition with_idle_timeout :: "u64 \<Rightarrow> canal_server \<Rightarrow> canal_server" where
  "with_idle_timeout secs s = s\<lparr>sr_idle_timeout_secs := secs\<rparr>"

definition max_connections :: nat where
  "max_connections = 1024"

text \<open>
  \<open>serve\<close>: the listener's bind and the store's start, then the accept loop. A client task holds
  a permit of the semaphore from its spawn until it ends; the running tasks are
  \<open>sr_client_tasks\<close>. After a cancellation the server waits up to 30 seconds for them, and returns
  \<open>Ok\<close> in any case.
\<close>

datatype serve_status = Serving | Draining | Served "unit canal_result"

datatype serve_event =
  Accepted nat | AcceptFailed canal_error | ShutdownCancelled | TaskEnded nat | DrainOver

definition serve_start :: "(canal_error option) \<Rightarrow> canal_server \<Rightarrow> serve_status \<times> canal_server" where
  "serve_start bind_result s =
     (case bind_result of
        Some e \<Rightarrow> (Served (Inl e), s)
      | None \<Rightarrow> (Serving, s\<lparr>sr_store := mem_store_start (sr_store s)\<rparr>))"

definition serve_step :: "serve_event \<Rightarrow> serve_status \<times> canal_server \<Rightarrow> serve_status \<times> canal_server" where
  "serve_step ev ss =
     (let (status, s) = ss
      in (case ev of
            TaskEnded k \<Rightarrow>
              (let tasks = remove1 k (sr_client_tasks s)
               in (if status = Draining \<and> tasks = [] then Served (Inr ()) else status,
                   s\<lparr>sr_client_tasks := tasks\<rparr>))
          | Accepted k \<Rightarrow>
              (if status \<noteq> Serving then (status, s)
               else if max_connections \<le> length (sr_client_tasks s) then (status, s)
               else (status, s\<lparr>sr_client_tasks := sr_client_tasks s @ [k]\<rparr>))
          | AcceptFailed e \<Rightarrow> (if status = Serving then (Served (Inl e), s) else (status, s))
          | ShutdownCancelled \<Rightarrow>
              (if status = Serving
               then (if sr_client_tasks s = [] then Served (Inr ()) else Draining,
                     s\<lparr>sr_cancelled := True\<rparr>)
               else (status, s\<lparr>sr_cancelled := True\<rparr>))
          | DrainOver \<Rightarrow> (if status = Draining then (Served (Inr ()), s) else (status, s))))"

end
