(* ===== verification/Canal_Server_Auth.thy ===== *)
theory Canal_Server_Auth
  imports Canal_Server
begin

text \<open>
  What a connection of the server can and cannot do: who is authenticated and what happens before,
  the invariant of a connection's state, the identity of a connection, what is left of it when it
  ends, and the connection limit.
\<close>

lemma ctx_send_simps [simp, server_simps]:
  "cx_state (snd (ctx_send b c)) = cx_state c"
  "cx_sessions (snd (ctx_send b c)) = cx_sessions c"
  "cx_store (snd (ctx_send b c)) = cx_store c"
  by (simp_all add: ctx_send_def split_def Let_def)

lemma send_ack_simps [simp, server_simps]:
  "cx_state (snd (send_ack_ok pb c)) = cx_state c"
  "cx_sessions (snd (send_ack_ok pb c)) = cx_sessions c"
  "cx_store (snd (send_ack_ok pb c)) = cx_store c"
  "cx_state (snd (send_ack_err pb m c)) = cx_state c"
  "cx_sessions (snd (send_ack_err pb m c)) = cx_sessions c"
  "cx_store (snd (send_ack_err pb m c)) = cx_store c"
  by (simp_all add: send_ack_ok_def send_ack_err_def)

text \<open>Frames written by a connection: a send appends its frame or, failing, nothing.\<close>

abbreviation sent :: "ctx \<Rightarrow> bytes list" where
  "sent c \<equiv> tr_sent (cx_transport c)"

lemma sent_ctx_send: "sent (snd (ctx_send b c)) = sent c \<or> sent (snd (ctx_send b c)) = sent c @ [b]"
  by (simp add: ctx_send_def transport_send_def split_def Let_def)

lemma send_ack_ok_transport:
  "cx_transport (snd (send_ack_ok pb (c\<lparr>cx_sessions := ss, cx_state := st\<rparr>)))
    = cx_transport (snd (send_ack_ok pb c))"
  by (simp add: send_ack_ok_def ctx_send_def split_def Let_def)

lemma interfere_simps [simp, server_simps]:
  "cx_state (interfere env c) = cx_state c"
  "cx_transport (interfere env c) = cx_transport c"
  by (simp_all add: interfere_def split_def Let_def)

lemma interfere_none [simp]: "interfere no_interference c = c"
  by (simp add: interfere_def no_interference_def)

lemma snd_control_of [simp]: "snd (control_of rc) = snd rc"
  by (cases rc) (auto simp: control_of_def split: sum.splits)

lemma fst_control_of_Continue [simp]: "fst (control_of rc) = Continue \<longleftrightarrow> (\<exists>u. fst rc = Inr u)"
  by (cases rc) (auto simp: control_of_def split: sum.splits)

lemma bad_password_iff: "bad_password pw tok \<longleftrightarrow> pw \<noteq> as_bytes tok"
  by (auto simp: bad_password_def xor_fold_eq_0_iff)

lemma auth_reject_simps [simp, server_simps]:
  "cx_state (snd (auth_reject pb c)) =
     (cx_state c)\<lparr>st_auth_error_count := st_auth_error_count (cx_state c) + 1\<rparr>"
  "cx_sessions (snd (auth_reject pb c)) = cx_sessions c"
  "cx_store (snd (auth_reject pb c)) = cx_store c"
  "cx_transport (snd (auth_reject pb c))
    = cx_transport (snd (send_ack_err pb ''authentication failed'' c))"
  by (auto simp: auth_reject_def Let_def send_ack_err_def ctx_send_def split: prod.splits sum.splits)

subsection \<open>Authentication\<close>

lemma auth_filter_ok_iff:
  "auth_filter rx f = Inr fp \<longleftrightarrow>
     (if f = [] then fp = filter_pattern_default
      else length f \<le> 256 \<and> (\<exists>m. rx (Some (2 ^ 20)) f = Inr m)
        \<and> fp = \<lparr>fp_pattern = f, fp_black_list = ''''\<rparr>)"
  by (auto simp: auth_filter_def max_filter_pattern_len_def filter_pattern_validate_def
      filter_size_limit_def Let_def split: sum.splits)

text \<open>C19: Who gets authenticated, and what that changes. On a connection that is not authenticated
  yet, a decoded \<open>ClientAuth\<close> is accepted exactly when the server has no token or the password is
  the token's bytes, and the filter is empty, or at most 256 bytes long and compilable within the
  size limit of one MiB. Acceptance registers a session with the destination and this filter (the
  pattern that matches every table for an empty one) under the client id, \<open>anonymous\<close> for an
  empty one, and makes that id the connection's identity; a positive start timestamp becomes the
  connection's cursor, and nothing else of the state changes; the client gets an \<open>Ack\<close> without
  error. A rejected filter leaves the state and the session table as they are, and a wrong password
  only counts the failure; both are answered with an error.\<close>

theorem handle_auth_grants:
  assumes "dec_client_auth pb (pk_body packet) = Inr auth" and "\<not> st_authenticated (cx_state c)"
    and "c' = snd (handle_auth pb rx tok now packet c)"
    and "cid = (if ca_client_id auth = [] then ''anonymous'' else ca_client_id auth)"
    and "flt = (if ca_filter auth = [] then filter_pattern_default
                else \<lparr>fp_pattern = ca_filter auth, fp_black_list = ''''\<rparr>)"
  shows "if is_none_or (\<lambda>t. ca_password auth = as_bytes t) tok
      then (if ca_filter auth = [] \<or> length (ca_filter auth) \<le> 256
                \<and> (\<exists>m. rx (Some (2 ^ 20)) (ca_filter auth) = Inr m)
            then st_authenticated (cx_state c') \<and> st_client_id (cx_state c') = Some cid
              \<and> cx_state c' = (cx_state c)
                  \<lparr>st_authenticated := True, st_client_id := Some cid,
                   st_current_pos := if 0 <s ca_start_timestamp auth
                     then Some \<lparr>lp_journal_name = '''', lp_position = 0,
                            lp_timestamp = Some (ca_start_timestamp auth),
                            lp_server_id = None, lp_gtid = None\<rparr>
                     else st_current_pos (cx_state c)\<rparr>
              \<and> cx_sessions c' = sessions_register rx now cid (ca_destination auth) flt (cx_sessions c)
              \<and> cx_transport c' = cx_transport (snd (send_ack_ok pb c))
            else cx_state c' = cx_state c \<and> cx_sessions c' = cx_sessions c
              \<and> (\<exists>msg. cx_transport c' = cx_transport (snd (send_ack_err pb msg c))))
      else \<not> st_authenticated (cx_state c') \<and> cx_sessions c' = cx_sessions c
        \<and> cx_state c' = (cx_state c)\<lparr>st_auth_error_count := st_auth_error_count (cx_state c) + 1\<rparr>
        \<and> cx_transport c' = cx_transport (snd (send_ack_err pb ''authentication failed'' c))"
proof -
  have bad: "is_some_and (bad_password (ca_password auth)) tok
      \<longleftrightarrow> \<not> is_none_or (\<lambda>t. ca_password auth = as_bytes t) tok"
    by (cases tok) (simp_all add: bad_password_iff)
  show ?thesis
  proof (cases "auth_filter rx (ca_filter auth)")
    case (Inl msg)
    moreover from this have "auth_filter rx (ca_filter auth) \<noteq> Inr flt" by simp
    ultimately have "\<not> (ca_filter auth = [] \<or> length (ca_filter auth) \<le> 256
        \<and> (\<exists>m. rx (Some (2 ^ 20)) (ca_filter auth) = Inr m))"
      unfolding auth_filter_ok_iff assms(5) by (simp split: if_splits)
    with Inl show ?thesis
      using assms(1-3) by (auto simp: handle_auth_def bad auth_accept_def Let_def server_simps)
  next
    case (Inr fp)
    then have "ca_filter auth = [] \<or> length (ca_filter auth) \<le> 256
        \<and> (\<exists>m. rx (Some (2 ^ 20)) (ca_filter auth) = Inr m)" "fp = flt"
      using auth_filter_ok_iff [of rx "ca_filter auth" fp] assms(5) by (auto split: if_splits)
    with Inr show ?thesis
      using assms(1-4)
      by (simp add: handle_auth_def bad auth_accept_def Let_def server_simps send_ack_ok_transport)
  qed
qed

text \<open>An authentication request and the wire format that carries it, for the concrete instances.\<close>

definition sample_auth :: client_auth where
  "sample_auth = client_auth_default\<lparr>ca_client_id := ''c1'', ca_password := as_bytes ''secret''\<rparr>"

definition sample_transport :: transport where
  "sample_transport = \<lparr>tr_sent = [], tr_budget = None, tr_error = Io ''broken pipe''\<rparr>"

definition sample_ctx :: ctx where
  "sample_ctx = \<lparr>cx_transport = sample_transport, cx_state = client_state_default,
     cx_sessions = session_manager_new, cx_store = sample_store\<rparr>"

lemma handle_auth_grants_witness:
  "st_authenticated (cx_state (snd (handle_auth
      (null_prost\<lparr>dec_client_auth := \<lambda>_. Inr (sample_auth\<lparr>ca_start_timestamp := 5\<rparr>)\<rparr>) literal_engine
      (Some ''secret'') 0 packet_default sample_ctx)))
    \<and> map_option lp_timestamp (st_current_pos (cx_state (snd (handle_auth
      (null_prost\<lparr>dec_client_auth := \<lambda>_. Inr (sample_auth\<lparr>ca_start_timestamp := 5\<rparr>)\<rparr>) literal_engine
      (Some ''secret'') 0 packet_default sample_ctx)))) = Some (Some 5)"
  using handle_auth_grants [of
      "null_prost\<lparr>dec_client_auth := \<lambda>_. Inr (sample_auth\<lparr>ca_start_timestamp := 5\<rparr>)\<rparr>"
      packet_default "sample_auth\<lparr>ca_start_timestamp := 5\<rparr>" sample_ctx _ literal_engine
      "Some ''secret''" 0, OF _ _ refl refl refl]
  by (simp add: sample_ctx_def client_state_default_def sample_auth_def client_auth_default_def
      word_sless_alt)

text \<open>The answers an unauthenticated client can get.\<close>

definition refusals :: "prost \<Rightarrow> bytes set" where
  "refusals pb = range (ack_err_frame pb)"

text \<open>Inputs that contain no valid credentials for the token.\<close>

definition no_credentials :: "prost \<Rightarrow> string \<Rightarrow> incoming \<Rightarrow> bool" where
  "no_credentials pb token inp \<longleftrightarrow>
     (\<forall>b packet auth. inp = Frame b \<longrightarrow> dec_packet pb b = Inr packet \<longrightarrow>
        dec_client_auth pb (pk_body packet) = Inr auth \<longrightarrow> ca_password auth \<noteq> as_bytes token)"

lemma send_ack_err_sent: "set (sent (snd (send_ack_err pb m c))) \<subseteq> set (sent c) \<union> refusals pb"
  using sent_ctx_send [of "ack_err_frame pb m" c]
  by (auto simp: send_ack_err_def refusals_def)

text \<open>A packet on a connection without credentials is not handled, or refused with an error.\<close>

lemma unauth_dispatch:
  assumes "\<not> st_authenticated (cx_state c)" and "dec_packet pb b = Inr packet" and "b \<noteq> []"
    and "no_credentials pb token (Frame b)"
    and "dispatch pb rx (Some token) now env packet c = (ctl, c')"
  shows "c' = c \<or> c' = snd (send_ack_err pb ''not authenticated'' c) \<or> c' = snd (auth_reject pb c)"
proof (cases "pk_type packet = packet_type_i32 PtClientauthentication")
  case False
  then have "(ctl, c') = control_of (send_ack_err pb ''not authenticated'' c)"
    using assms(1,5) by (simp add: dispatch_def Let_def)
  then show ?thesis by (metis snd_conv snd_control_of)
next
  case True
  then have "(ctl, c') = control_of (handle_auth pb rx (Some token) now packet c)"
    using assms(5) by (simp add: dispatch_def)
  then have c': "c' = snd (handle_auth pb rx (Some token) now packet c)"
    by (metis snd_control_of snd_conv)
  show ?thesis
  proof (cases "dec_client_auth pb (pk_body packet)")
    case (Inl e)
    then show ?thesis using c' by (simp add: handle_auth_def)
  next
    case (Inr auth)
    then have "bad_password (ca_password auth) token"
      using assms(2,4) by (auto simp: no_credentials_def bad_password_iff)
    then show ?thesis
      using c' Inr assms(1) by (simp add: handle_auth_def)
  qed
qed

lemma unauth_step:
  assumes "\<not> st_authenticated (cx_state c)" and "no_credentials pb token inp"
    and "client_step pb rx (Some token) now env inp c = (ctl, c')"
  shows "\<not> st_authenticated (cx_state c') \<and> st_client_id (cx_state c') = st_client_id (cx_state c)
    \<and> cx_store c' = fst (if_before env (cx_store c, cx_sessions c))
    \<and> cx_sessions c' = snd (if_before env (cx_store c, cx_sessions c))
    \<and> set (sent c') \<subseteq> set (sent c) \<union> refusals pb"
proof -
  let ?c = "interfere env c"
  have c: "cx_store ?c = fst (if_before env (cx_store c, cx_sessions c))"
    "cx_sessions ?c = snd (if_before env (cx_store c, cx_sessions c))"
    by (simp_all add: interfere_def split_def Let_def)
  have stop: ?thesis if "c' = ?c"
    using that assms(1) c by simp
  have err: ?thesis if "c' = snd (send_ack_err pb m ?c)" for m
    using that assms(1) c send_ack_err_sent [of pb m ?c] by simp
  show ?thesis
  proof (cases inp)
    case (Frame b)
    show ?thesis
    proof (cases "b = [] \<or> (\<exists>e. dec_packet pb b = Inl e)")
      case True
      then have "c' = ?c"
        using assms(3) Frame by (auto simp: client_step_def Let_def split: if_splits)
      then show ?thesis by (rule stop)
    next
      case False
      then obtain packet where dec: "dec_packet pb b = Inr packet" and b: "b \<noteq> []"
        by (cases "dec_packet pb b") auto
      have step: "(ctl, c') = dispatch pb rx (Some token) now env packet ?c"
        using assms(3) Frame dec b by (simp add: client_step_def Let_def)
      from unauth_dispatch [OF _ dec b _ step [symmetric]] assms(1,2) Frame
      consider "c' = ?c" | "c' = snd (send_ack_err pb ''not authenticated'' ?c)" | "c' = snd (auth_reject pb ?c)"
        by auto
      then show ?thesis
      proof cases
        case 1
        then show ?thesis by (rule stop)
      next
        case 2
        then show ?thesis by (rule err)
      next
        case 3
        then show ?thesis
          using assms(1) c send_ack_err_sent [of pb "''authentication failed''" ?c] by simp
      qed
    qed
  qed (use assms(3) stop in \<open>auto simp: client_step_def Let_def\<close>)
qed

lemma unauth_loop:
  assumes "\<not> st_authenticated (cx_state c)" and "st_client_id (cx_state c) = None"
    and "client_loop pb rx (Some token) inputs c = (r, c')"
    and "\<forall>(now, env, inp) \<in> set inputs. no_credentials pb token inp"
  shows "\<not> st_authenticated (cx_state c') \<and> set (sent c') \<subseteq> set (sent c) \<union> refusals pb
    \<and> (\<exists>k \<le> length inputs. (cx_store c', cx_sessions c')
        = fold (\<lambda>(now, env, inp). if_before env) (take k inputs) (cx_store c, cx_sessions c))"
  using assms
proof (induction inputs arbitrary: c)
  case Nil
  then show ?case by auto
next
  case (Cons x xs)
  obtain now env inp where x: "x = (now, env, inp)"
    by (metis prod_cases3)
  obtain ctl d where step: "client_step pb rx (Some token) now env inp c = (ctl, d)"
    by fastforce
  have nc: "no_credentials pb token inp"
    using Cons.prems(4) x by simp
  note d = unauth_step [OF Cons.prems(1) nc step]
  have pair: "(cx_store d, cx_sessions d) = if_before env (cx_store c, cx_sessions c)"
    using d by (metis prod.collapse)
  show ?case
  proof (cases ctl)
    case Continue
    then have "client_loop pb rx (Some token) xs d = (r, c')"
      using Cons.prems(3) by (simp add: x step)
    then have ih: "\<not> st_authenticated (cx_state c')" "set (sent c') \<subseteq> set (sent d) \<union> refusals pb"
      "\<exists>k \<le> length xs. (cx_store c', cx_sessions c')
      = fold (\<lambda>(now, env, inp). if_before env) (take k xs) (cx_store d, cx_sessions d)"
      using Cons.IH [of d] d Cons.prems(2,4) by auto
    then obtain k where "k \<le> length xs" "(cx_store c', cx_sessions c')
      = fold (\<lambda>(now, env, inp). if_before env) (take (Suc k) (x # xs)) (cx_store c, cx_sessions c)"
      using pair by (auto simp: x)
    then have "\<exists>k \<le> length (x # xs). (cx_store c', cx_sessions c')
      = fold (\<lambda>(now, env, inp). if_before env) (take k (x # xs)) (cx_store c, cx_sessions c)"
      by (intro exI [of _ "Suc k"]) simp
    then show ?thesis using ih(1,2) d by blast
  next
    case Break
    then have c': "c' = d"
      using Cons.prems(2,3) d by (simp add: x step client_exit_def)
    show ?thesis
      using d pair unfolding c' by (auto simp: x intro!: exI [of _ 1])
  next
    case (Return e)
    then have c': "c' = d"
      using Cons.prems(3) by (simp add: x step)
    show ?thesis
      using d pair unfolding c' by (auto simp: x intro!: exI [of _ 1])
  qed
qed

text \<open>No data without the token. On a server with a token, a connection over which no valid
  credentials arrive is only ever answered with error acknowledgements, whatever it sends and
  whatever the other tasks do; it never becomes authenticated, and its own steps leave the store
  and the session table to the other tasks, also when it ends.\<close>

theorem no_data_without_token:
  assumes "\<forall>(now, env, inp) \<in> set inputs. no_credentials pb token inp"
    and "handle_client pb rx (Some token) inputs t store sessions = (r, c)"
  shows "\<not> st_authenticated (cx_state c) \<and> set (sent c) \<subseteq> set (tr_sent t) \<union> refusals pb
    \<and> (cx_store c, cx_sessions c) \<in> (\<lambda>k. fold (\<lambda>(now, env, inp). if_before env) (take k inputs)
        (store, sessions)) ` {0..length inputs}"
  using unauth_loop [OF _ _ assms(2) [unfolded handle_client_def] assms(1)]
  by (auto simp: client_state_default_def)

lemma no_data_without_token_witness:
  "\<exists>r c. handle_client (null_prost\<lparr>dec_packet := \<lambda>_. Inr packet_default\<rparr>) literal_engine
      (Some ''secret'') [(0, no_interference, Frame [1])] sample_transport sample_store Map.empty
      = (r, c) \<and> \<not> st_authenticated (cx_state c)"
proof -
  let ?pb = "null_prost\<lparr>dec_packet := \<lambda>_. Inr packet_default\<rparr>"
  obtain r c where h: "handle_client ?pb literal_engine (Some ''secret'')
      [(0, no_interference, Frame [1])] sample_transport sample_store Map.empty = (r, c)"
    by fastforce
  have "\<not> st_authenticated (cx_state c)"
    using no_data_without_token [OF _ h]
    by (simp add: no_credentials_def null_prost_def)
  with h show ?thesis by blast
qed

subsection \<open>The connection's state machine\<close>

text \<open>One packet that keeps the connection open, and what can be reached from a new connection.\<close>

inductive conn_step :: "prost \<Rightarrow> regex_engine \<Rightarrow> string option \<Rightarrow> ctx \<Rightarrow> ctx \<Rightarrow> bool"
  for pb rx tok where
  step: "client_step pb rx tok now env inp c = (Continue, c') \<Longrightarrow> conn_step pb rx tok c c'"

inductive conn_reach :: "prost \<Rightarrow> regex_engine \<Rightarrow> string option \<Rightarrow> ctx \<Rightarrow> bool" for pb rx tok where
  start: "cx_state c = client_state_default \<Longrightarrow> conn_reach pb rx tok c"
| step: "conn_reach pb rx tok c \<Longrightarrow> conn_step pb rx tok c c' \<Longrightarrow> conn_reach pb rx tok c'"

inductive_cases conn_stepE: "conn_step pb rx tok c c'"

definition is_position :: "log_position option \<Rightarrow> bool" where
  "is_position p \<longleftrightarrow> is_some_and (\<lambda>q. lp_timestamp q = None) p"

definition conn_inv :: "client_state \<Rightarrow> bool" where
  "conn_inv st \<longleftrightarrow>
     (st_authenticated st \<longleftrightarrow> st_client_id st \<noteq> None)
     \<and> (\<not> st_authenticated st \<longrightarrow> st_current_pos st = None \<and> st_last_ack_pos st = None
          \<and> st_last_get_end_pos st = None \<and> st_unknown_packet_count st = 0)
     \<and> st_auth_error_count st < 3 \<and> st_unknown_packet_count st < 10
     \<and> (st_last_get_end_pos st = None \<or> is_position (st_last_get_end_pos st))
     \<and> (st_last_ack_pos st = None \<or> is_position (st_last_ack_pos st) \<and> st_last_get_end_pos st \<noteq> None)"

lemma get_batch_wait_result:
  "fst (get_batch_wait p n envs s) = events_new 0
    \<or> (\<exists>evs i. evs \<noteq> [] \<and> fst (get_batch_wait p n envs s) = events_with_events evs i)"
proof (induction envs arbitrary: s)
  case Nil
  show ?case by (simp add: get_scan_group Let_def) (metis next_group_nonempty drop_eq_Nil not_le)
next
  case (Cons env envs)
  then show ?case
    by (simp add: get_scan_group Let_def) (metis next_group_nonempty drop_eq_Nil not_le)
qed

lemma get_batch_wait_end:
  assumes "\<not> events_is_empty (fst (get_batch_wait p n envs s))"
  shows "lp_timestamp (pr_end (es_position_range (fst (get_batch_wait p n envs s)))) = None"
  using get_batch_wait_result [of p n envs s] assms by (auto simp: events_with_events_range)

lemma serve_batch_state:
  "cx_state (snd (serve_batch pb cid es c)) =
     (if events_is_empty es then cx_state c
      else (cx_state c)\<lparr>st_current_pos := Some (pr_end (es_position_range es)),
                        st_last_get_batch_id := es_batch_id es,
                        st_last_get_end_pos := Some (pr_end (es_position_range es))\<rparr>)"
  "cx_sessions (snd (serve_batch pb cid es c)) = cx_sessions c"
  "cx_store (snd (serve_batch pb cid es c)) = cx_store c"
  by (auto simp: serve_batch_def Let_def split: sum.splits)

lemma handle_sub_state:
  assumes "st_client_id (cx_state c) \<noteq> None"
  shows "cx_state (snd (handle_sub pb rx now packet c)) = cx_state c"
proof -
  have "(cx_state c)\<lparr>st_client_id := st_client_id (cx_state c)\<rparr> = cx_state c"
    by simp
  then show ?thesis
    using assms by (auto simp: handle_sub_def Let_def split: sum.splits)
qed

lemma handle_get_state:
  obtains "cx_state (snd (handle_get pb env packet c)) = cx_state c"
  | p i where "lp_timestamp p = None"
      "cx_state (snd (handle_get pb env packet c)) =
         (cx_state c)\<lparr>st_current_pos := Some p, st_last_get_batch_id := i, st_last_get_end_pos := Some p\<rparr>"
proof (cases "\<exists>get cid. dec_get_request pb (pk_body packet) = Inr get \<and> st_client_id (cx_state c) = Some cid
    \<and> get_lost (st_current_pos (cx_state c)) (session_ack (cx_sessions c) cid) (cx_store c) = None")
  case False
  then have "cx_state (snd (handle_get pb env packet c)) = cx_state c"
    by (auto simp: handle_get_def Let_def split: sum.splits option.splits)
  then show ?thesis by (rule that(1))
next
  case True
  then obtain get cid where g: "dec_get_request pb (pk_body packet) = Inr get"
    "st_client_id (cx_state c) = Some cid"
    "get_lost (st_current_pos (cx_state c)) (session_ack (cx_sessions c) cid) (cx_store c) = None"
    by blast
  define w where "w = get_batch_wait
    (get_start (st_current_pos (cx_state c)) (session_ack (cx_sessions c) cid))
    (get_batch_size (gt_fetch_size get)) (if_wakes env) (if_store env (cx_store c))"
  have s: "cx_state (snd (handle_get pb env packet c)) =
     (if events_is_empty (fst w) then cx_state c
      else (cx_state c)\<lparr>st_current_pos := Some (pr_end (es_position_range (fst w))),
                        st_last_get_batch_id := es_batch_id (fst w),
                        st_last_get_end_pos := Some (pr_end (es_position_range (fst w)))\<rparr>)"
    by (simp add: handle_get_def g Let_def split_def serve_batch_state w_def [symmetric])
  show ?thesis
  proof (cases "events_is_empty (fst w)")
    case True
    with s show ?thesis by (intro that(1)) simp
  next
    case False
    then have "lp_timestamp (pr_end (es_position_range (fst w))) = None"
      unfolding w_def by (rule get_batch_wait_end)
    with s False show ?thesis by (intro that(2)) simp_all
  qed
qed

lemma handle_auth_inv:
  assumes "conn_inv (cx_state c)" and "fst (handle_auth pb rx tok now packet c) = Inr u"
  shows "conn_inv (cx_state (snd (handle_auth pb rx tok now packet c)))
    \<and> (st_authenticated (cx_state c) \<longrightarrow>
        cx_state (snd (handle_auth pb rx tok now packet c)) = cx_state c)"
proof -
  have rej: "st_auth_error_count (cx_state c) + 1 < 3"
    if "fst (auth_reject pb c) = Inr u" for u
    using that by (auto simp: auth_reject_def Let_def not_le split: prod.splits sum.splits if_splits)
  show ?thesis
    using assms rej
    by (auto simp: handle_auth_def auth_accept_def Let_def conn_inv_def server_simps
        split: sum.splits)
qed

lemma conn_inv_unknown:
  assumes "conn_inv (cx_state c)" and "st_authenticated (cx_state c)"
  shows "conn_inv (cx_state (reset_unknown c))"
    and "fst (handle_unknown c) = Continue \<Longrightarrow> conn_inv (cx_state (snd (handle_unknown c)))"
  using assms by (auto simp: conn_inv_def reset_unknown_def handle_unknown_def Let_def split: if_splits)

lemma dispatch_authenticated_inv:
  assumes "conn_inv (cx_state c)" and "st_authenticated (cx_state c)"
    and "dispatch pb rx tok now env packet c = (Continue, c')"
    and "pk_type packet \<noteq> packet_type_i32 PtClientauthentication"
  shows "conn_inv (cx_state c') \<and> st_authenticated (cx_state c')
    \<and> st_client_id (cx_state c') = st_client_id (cx_state c)"
proof -
  let ?r = "reset_unknown c"
  have r: "conn_inv (cx_state ?r)" "st_client_id (cx_state ?r) \<noteq> None"
    "st_authenticated (cx_state ?r)" "st_client_id (cx_state ?r) = st_client_id (cx_state c)"
    using conn_inv_unknown(1) [OF assms(1,2)] assms(1,2)
    by (auto simp: reset_unknown_def conn_inv_def)
  have same: ?thesis if "cx_state c' = cx_state ?r"
    using that r by simp
  consider (sub) "control_of (handle_sub pb rx now packet ?r) = (Continue, c')"
    | (get) "control_of (handle_get pb env packet ?r) = (Continue, c')"
    | (ack) "(Continue, handle_client_ack pb packet ?r) = (Continue, c')"
    | (rollback) "(Continue, handle_client_rollback pb packet ?r) = (Continue, c')"
    | (heartbeat) "control_of (handle_heartbeat pb now ?r) = (Continue, c')"
    | (unknown) "handle_unknown c = (Continue, c')"
    using assms(2-4) unfolding dispatch_def Let_def
    by (simp only: if_False if_True not_True_eq_False split: if_split_asm)
  then show ?thesis
  proof cases
    case sub
    then have "c' = snd (handle_sub pb rx now packet ?r)"
      by (metis snd_control_of snd_conv)
    then show ?thesis using handle_sub_state [OF r(2)] by (intro same) simp
  next
    case get
    then have c': "c' = snd (handle_get pb env packet ?r)"
      by (metis snd_control_of snd_conv)
    show ?thesis
    proof (cases rule: handle_get_state [of pb env packet ?r])
      case 1
      then show ?thesis using c' by (intro same) simp
    next
      case (2 p i)
      then show ?thesis using r by (auto simp: c' conn_inv_def is_position_def)
    qed
  next
    case ack
    then show ?thesis
      using r by (auto simp: handle_client_ack_def conn_inv_def
          split: sum.splits option.splits if_splits)
  next
    case rollback
    then show ?thesis
      using r by (auto simp: handle_client_rollback_def conn_inv_def split: sum.splits option.splits)
  next
    case heartbeat
    then have "c' = snd (handle_heartbeat pb now ?r)"
      by (metis snd_control_of snd_conv)
    then show ?thesis
      by (intro same) (simp add: handle_heartbeat_def split: option.splits)
  next
    case unknown
    then show ?thesis
      using conn_inv_unknown(2) [OF assms(1,2)] assms(2) by (auto simp: handle_unknown_def Let_def
          split: if_splits)
  qed
qed

lemma dispatch_inv:
  assumes "conn_inv (cx_state c)" and "dispatch pb rx tok now env packet c = (Continue, c')"
  shows "conn_inv (cx_state c')
    \<and> (st_authenticated (cx_state c) \<longrightarrow>
        st_authenticated (cx_state c') \<and> st_client_id (cx_state c') = st_client_id (cx_state c))"
proof (cases "pk_type packet = packet_type_i32 PtClientauthentication")
  case True
  then have "control_of (handle_auth pb rx tok now packet c) = (Continue, c')"
    using assms(2) by (simp add: dispatch_def)
  then obtain u where "handle_auth pb rx tok now packet c = (Inr u, c')"
    by (auto simp: control_of_def split: prod.splits sum.splits)
  then show ?thesis
    using handle_auth_inv [OF assms(1), of pb rx tok now packet u] by auto
next
  case not_auth: False
  show ?thesis
  proof (cases "st_authenticated (cx_state c)")
    case False
    then have "control_of (send_ack_err pb ''not authenticated'' c) = (Continue, c')"
      using assms(2) not_auth by (simp add: dispatch_def)
    then have "c' = snd (send_ack_err pb ''not authenticated'' c)"
      by (metis snd_control_of snd_conv)
    with assms(1) False show ?thesis by simp
  next
    case True
    with not_auth assms show ?thesis
      using dispatch_authenticated_inv by blast
  qed
qed

lemma conn_step_inv:
  assumes "conn_step pb rx tok c c'" and "conn_inv (cx_state c)"
  shows "conn_inv (cx_state c')
    \<and> (st_authenticated (cx_state c) \<longrightarrow>
        st_authenticated (cx_state c') \<and> st_client_id (cx_state c') = st_client_id (cx_state c))"
proof -
  obtain now env inp where step: "client_step pb rx tok now env inp c = (Continue, c')"
    using assms(1) by (rule conn_stepE)
  have inv: "conn_inv (cx_state (interfere env c))"
    using assms(2) by simp
  show ?thesis
    using step assms(2) dispatch_inv [OF inv]
    by (auto simp: client_step_def Let_def split: incoming.splits if_splits sum.splits)
qed

text \<open>C21: The connection's state machine. In every state that a connection can reach, by any
  packets and whatever the other tasks do: it is authenticated exactly when it has an identity; a
  connection that is not has no cursor, no delivered batch and no acknowledgement; it has seen
  fewer than three wrong passwords and fewer than ten unknown packets in a row; the end of the last
  batch and the last acknowledgement are true positions and there is no acknowledgement without a
  batch. Once authenticated, it keeps its identity.\<close>

theorem connection_invariant:
  assumes "conn_reach pb rx tok c"
  shows "conn_inv (cx_state c) \<and> (\<forall>c'. conn_step pb rx tok c c' \<longrightarrow> st_authenticated (cx_state c) \<longrightarrow>
    st_authenticated (cx_state c') \<and> st_client_id (cx_state c') = st_client_id (cx_state c))"
proof -
  have "conn_inv (cx_state c)"
    using assms
  proof (induction rule: conn_reach.induct)
    case (start c)
    then show ?case by (simp add: client_state_default_def conn_inv_def)
  next
    case (step c c')
    then show ?case using conn_step_inv by blast
  qed
  then show ?thesis using conn_step_inv by blast
qed

lemma connection_invariant_witness:
  "conn_inv (cx_state sample_ctx)"
proof -
  have "conn_reach null_prost literal_engine None sample_ctx"
    by (rule conn_reach.start) (simp add: sample_ctx_def)
  from connection_invariant [OF this] show ?thesis by blast
qed

subsection \<open>Leaving, and sharing a client id\<close>

lemma handle_get_sessions:
  "cx_sessions (snd (handle_get pb env packet c)) = cx_sessions c
    \<or> cx_sessions (snd (handle_get pb env packet c)) = if_sessions env (cx_sessions c)"
  by (auto simp: handle_get_def Let_def split_def serve_batch_state split: sum.splits option.splits)

lemma dispatch_keeps_session:
  assumes "sessions_get (cx_sessions c) cid \<noteq> None"
    and "\<And>m. sessions_get m cid \<noteq> None \<Longrightarrow> sessions_get (if_sessions env m) cid \<noteq> None"
  shows "sessions_get (cx_sessions (snd (dispatch pb rx tok now env packet c))) cid \<noteq> None"
proof -
  have reset: "cx_sessions (reset_unknown c) = cx_sessions c"
    by (simp add: reset_unknown_def)
  have "sessions_get (cx_sessions (snd (handle_auth pb rx tok now packet c))) cid \<noteq> None"
    using assms(1) by (auto simp: handle_auth_def auth_accept_def Let_def server_simps split: sum.splits)
  moreover have "sessions_get (cx_sessions (snd (handle_sub pb rx now packet (reset_unknown c)))) cid \<noteq> None"
    using assms(1) reset by (auto simp: handle_sub_def Let_def server_simps split: sum.splits)
  moreover have "sessions_get (cx_sessions (snd (handle_get pb env packet (reset_unknown c)))) cid \<noteq> None"
    using handle_get_sessions [of pb env packet "reset_unknown c"] assms reset by metis
  moreover have "sessions_get (cx_sessions (handle_client_ack pb packet (reset_unknown c))) cid \<noteq> None"
    using assms(1) reset by (auto simp: handle_client_ack_def server_simps
        split: sum.splits option.splits)
  moreover have "cx_sessions (handle_client_rollback pb packet (reset_unknown c)) = cx_sessions c"
    using reset by (auto simp: handle_client_rollback_def split: sum.splits option.splits)
  moreover have "sessions_get (cx_sessions (snd (handle_heartbeat pb now (reset_unknown c)))) cid \<noteq> None"
    using assms(1) reset by (auto simp: handle_heartbeat_def server_simps split: option.splits)
  moreover have "cx_sessions (snd (handle_unknown c)) = cx_sessions c"
    by (simp add: handle_unknown_def Let_def)
  ultimately show ?thesis
    using assms(1) by (simp add: dispatch_def Let_def)
qed

lemma client_step_keeps_session:
  assumes "sessions_get (snd (if_before env (cx_store c, cx_sessions c))) cid \<noteq> None"
    and "\<And>m. sessions_get m cid \<noteq> None \<Longrightarrow> sessions_get (if_sessions env m) cid \<noteq> None"
  shows "sessions_get (cx_sessions (snd (client_step pb rx tok now env inp c))) cid \<noteq> None"
proof -
  have "sessions_get (cx_sessions (interfere env c)) cid \<noteq> None"
    using assms(1) by (simp add: interfere_def split_def Let_def)
  with dispatch_keeps_session [OF this assms(2)] show ?thesis
    by (simp add: client_step_def Let_def split: incoming.splits sum.splits)
qed

text \<open>What a connection leaves behind. A connection whose stream ends or that times out
  removes its session. One that ends with an error, such as an unreadable frame, the tenth unknown
  packet or a failed send, does not: unless another task removes it, its session stays in the table
  for good.\<close>

theorem session_left_on_error:
  assumes "st_client_id (cx_state c) = Some cid"
    and "sessions_get (snd (if_before env (cx_store c, cx_sessions c))) cid \<noteq> None"
    and "\<And>m. sessions_get m cid \<noteq> None \<Longrightarrow> sessions_get (if_sessions env m) cid \<noteq> None"
    and "client_loop pb rx tok [(now, env, inp)] c = (Some r, d)"
  shows "case r of
      Inr _ \<Rightarrow> (inp = StreamEnd \<or> inp = IdleTimeout) \<and> sessions_get (cx_sessions d) cid = None
    | Inl e \<Rightarrow> sessions_get (cx_sessions d) cid \<noteq> None"
proof -
  obtain ctl c' where step: "client_step pb rx tok now env inp c = (ctl, c')"
    by fastforce
  show ?thesis
  proof (cases ctl)
    case Continue
    then show ?thesis using assms(4) step by simp
  next
    case Break
    have inp: "inp = StreamEnd \<or> inp = IdleTimeout"
    proof (cases inp)
      case (Frame b)
      have "fst (dispatch pb rx tok now env packet x) \<noteq> Break" for packet x
        by (auto simp: dispatch_def Let_def control_of_def handle_unknown_def
            split: prod.splits sum.splits)
      then show ?thesis
        using step Frame Break
        by (auto simp: client_step_def Let_def split: if_splits sum.splits) (metis fst_conv)
    qed (use step Break in \<open>auto simp: client_step_def Let_def\<close>)
    then have "c' = interfere env c"
      using step by (auto simp: client_step_def Let_def)
    then have "r = Inr () \<and> sessions_get (cx_sessions d) cid = None"
      using assms(1,4) step Break by (auto simp: client_exit_def server_simps)
    with inp show ?thesis by simp
  next
    case (Return e)
    then have "r = Inl e" "d = snd (client_step pb rx tok now env inp c)"
      using assms(4) step by simp_all
    with client_step_keeps_session [OF assms(2,3), of pb rx tok now inp] show ?thesis by simp
  qed
qed

lemma session_left_on_error_witness:
  "\<exists>d. client_loop null_prost literal_engine None
      [(0, no_interference, FrameErr (Io ''reset''))]
      (sample_ctx\<lparr>cx_state := client_state_default\<lparr>st_authenticated := True, st_client_id := Some ''c1''\<rparr>,
        cx_sessions := sessions_register literal_engine 0 ''c1'' ''d'' filter_pattern_default Map.empty\<rparr>)
      = (Some (Inl (Io ''reset'')), d) \<and> sessions_get (cx_sessions d) ''c1'' \<noteq> None"
proof -
  let ?c = "sample_ctx\<lparr>cx_state := client_state_default\<lparr>st_authenticated := True, st_client_id := Some ''c1''\<rparr>,
        cx_sessions := sessions_register literal_engine 0 ''c1'' ''d'' filter_pattern_default Map.empty\<rparr>"
  have cid: "st_client_id (cx_state ?c) = Some ''c1''"
    by simp
  have sess: "sessions_get (snd (if_before no_interference (cx_store ?c, cx_sessions ?c))) ''c1'' \<noteq> None"
    by (simp add: no_interference_def server_simps)
  have keep: "sessions_get m ''c1'' \<noteq> None \<Longrightarrow> sessions_get (if_sessions no_interference m) ''c1'' \<noteq> None" for m
    by (simp add: no_interference_def)
  have loop: "client_loop null_prost literal_engine None [(0, no_interference, FrameErr (Io ''reset''))] ?c
      = (Some (Inl (Io ''reset'')), ?c)"
    by (simp add: client_step_def Let_def)
  show ?thesis
    using session_left_on_error [OF cid sess keep loop] loop by auto
qed

text \<open>C25: One client id on two connections. Sessions are shared by client id, and every client
  that sends no id is \<open>anonymous\<close>: when one of two connections with the same id ends, the
  other has no session any more; its filter is gone, so every event passes, and its
  acknowledgements are not recorded.\<close>

theorem shared_client_id_fails_open:
  assumes "st_client_id (cx_state c1) = Some cid" and "st_client_id (cx_state c2) = Some cid"
    and "cx_sessions c2 = cx_sessions (client_exit c1)"
  shows "session_passes (sessions_get (cx_sessions c2) cid) e
    \<and> session_ack (cx_sessions (handle_client_ack pb packet c2)) cid = None"
proof -
  have none: "sessions_get (cx_sessions c2) cid = None"
    using assms(1,3) by (simp add: client_exit_def server_simps)
  then have "session_ack (cx_sessions (handle_client_ack pb packet c2)) cid = None"
    using assms(2) by (auto simp: handle_client_ack_def session_ack_def server_simps
        split: sum.splits option.splits)
  with none show ?thesis by (simp add: session_passes_def Let_def)
qed

lemma shared_client_id_fails_open_witness:
  "session_passes (sessions_get (cx_sessions (client_exit
      (sample_ctx\<lparr>cx_state := client_state_default\<lparr>st_client_id := Some ''anonymous''\<rparr>\<rparr>))) ''anonymous'')
    (sample_event ''b.1'' 4)"
  using shared_client_id_fails_open [of
      "sample_ctx\<lparr>cx_state := client_state_default\<lparr>st_client_id := Some ''anonymous''\<rparr>\<rparr>" "''anonymous''"
      "client_exit (sample_ctx\<lparr>cx_state := client_state_default\<lparr>st_client_id := Some ''anonymous''\<rparr>\<rparr>)"]
  by (simp add: client_exit_def)

subsection \<open>The accept loop\<close>

text \<open>The accept loop. From the bound listener on, whatever connections arrive and end and in
  whatever order, the store is running while the server serves, there are never more than 1024
  client tasks, and a server that has returned stays returned.\<close>

theorem serve_bounded:
  assumes "sr_client_tasks s = []"
    and "fold serve_step evs (serve_start None s) = (status, s')"
  shows "length (sr_client_tasks s') \<le> max_connections \<and> ms_running (sr_store s')
    \<and> (\<forall>r ev. status = Served r \<longrightarrow> fst (serve_step ev (status, s')) = Served r)"
proof -
  have step: "length (sr_client_tasks (snd (serve_step ev ss))) \<le> max_connections
      \<and> ms_running (sr_store (snd (serve_step ev ss)))"
    if "length (sr_client_tasks (snd ss)) \<le> max_connections \<and> ms_running (sr_store (snd ss))" for ev ss
    using that by (auto simp: serve_step_def Let_def length_remove1 split: serve_event.splits prod.splits)
  have "length (sr_client_tasks (snd (fold serve_step evs ss))) \<le> max_connections
      \<and> ms_running (sr_store (snd (fold serve_step evs ss)))"
    if "length (sr_client_tasks (snd ss)) \<le> max_connections \<and> ms_running (sr_store (snd ss))" for ss
    using that step by (induction evs arbitrary: ss) simp_all
  from this [of "serve_start None s"] have "length (sr_client_tasks s') \<le> max_connections"
    "ms_running (sr_store s')"
    using assms by (simp_all add: serve_start_def mem_store_start_def)
  moreover have "fst (serve_step ev (Served r, s')) = Served r" for r ev
    by (cases ev) (simp_all add: serve_step_def Let_def)
  ultimately show ?thesis by simp
qed

lemma serve_bounded_witness:
  "length (sr_client_tasks (snd (fold serve_step [Accepted 1, Accepted 2, TaskEnded 1]
      (serve_start None (canal_server_new ''127.0.0.1:11111'' sample_store))))) \<le> max_connections"
  using serve_bounded [of "canal_server_new ''127.0.0.1:11111'' sample_store"
      "[Accepted 1, Accepted 2, TaskEnded 1]", OF _ prod.collapse [symmetric]]
  by (simp add: canal_server_new_def)

text \<open>A blank token is no token. A token of white space only leaves the server without
  authentication, so every password is accepted; any other token is compared as it was given, with
  its white space.\<close>

theorem with_auth_blank:
  "sr_auth_token (with_auth token s) = (if trim_is_empty token then None else Some token)
    \<and> (is_some_and (bad_password pw) (sr_auth_token (with_auth token s))
        \<longleftrightarrow> \<not> trim_is_empty token \<and> pw \<noteq> as_bytes token)"
  by (simp add: with_auth_def bad_password_iff)

end
