(* ===== verification/Canal_Server_Get.thy ===== *)
theory Canal_Server_Get
  imports Canal_Server_Auth
begin

text \<open>
  What a subscribed connection is served. A \<open>Get\<close> answers from the log that the store stands for
  (\<open>Canal_Store\<close>), filtered by the session; acknowledgements and rollbacks move the cursor. The
  last theorem is the contract of a whole subscription: rounds of \<open>Get\<close> and \<open>ClientAck\<close> hand
  out the log after the client's cursor, in order and once.
\<close>

definition encodable :: "canal_event \<Rightarrow> bool" where
  "encodable e \<longleftrightarrow> (case ev_entry_type e of EtUnknown v \<Rightarrow> False | _ \<Rightarrow> True)"

text \<open>The encoded entry of an event, where there is one.\<close>

definition entry_bytes :: "prost \<Rightarrow> canal_event \<Rightarrow> bytes" where
  "entry_bytes pb e = (case canal_event_to_entry pb e of Inr x \<Rightarrow> enc_entry pb x | Inl _ \<Rightarrow> [])"

lemma encode_entries_ok:
  "(\<And>e. e \<in> set evs \<Longrightarrow> encodable e) \<Longrightarrow>
    encode_entries pb evs acc = Inr (acc @ map (entry_bytes pb) evs)"
proof (induction evs arbitrary: acc)
  case (Cons e evs)
  then have "encodable e" by simp
  then obtain x where "canal_event_to_entry pb e = Inr x"
    by (cases "ev_entry_type e")
      (auto simp: encodable_def canal_event_to_entry_def proto_event_code_def Let_def)
  with Cons show ?case by (simp add: entry_bytes_def)
qed simp

text \<open>The frame that carries the filtered events of a batch.\<close>

definition batch_frame :: "prost \<Rightarrow> (canal_event \<Rightarrow> bool) \<Rightarrow> i64 \<Rightarrow> canal_event list \<Rightarrow> bytes" where
  "batch_frame pb passes i evs = messages_frame pb i (map (entry_bytes pb) (filter passes evs))"

lemma serve_batch_nonempty:
  assumes "evs \<noteq> []" and "\<And>e. e \<in> set evs \<Longrightarrow> encodable e"
  shows "serve_batch pb cid (events_with_events evs i) c =
    ctx_send (batch_frame pb (session_passes (sessions_get (cx_sessions c) cid)) i evs)
      (c\<lparr>cx_state := (cx_state c)\<lparr>st_current_pos := Some (ev_log_position (last evs)),
          st_last_get_batch_id := i, st_last_get_end_pos := Some (ev_log_position (last evs))\<rparr>\<rparr>)"
proof -
  have "encode_entries pb (filter P evs) [] = Inr (map (entry_bytes pb) (filter P evs))" for P
    using encode_entries_ok [of "filter P evs" pb "[]"] assms(2) by simp
  then show ?thesis
    using assms(1) by (auto simp: serve_batch_def Let_def events_with_events_range batch_frame_def)
qed

lemma get_lost_iff:
  assumes "cur \<noteq> None \<or> ack \<noteq> None" and "lp_timestamp (get_start cur ack) = None"
  shows "get_lost cur ack s = (if cursor_lost s (get_start cur ack) then ms_evicted_watermark s else None)"
  using assms by (auto simp: get_lost_def Let_def cursor_lost_def split: option.splits)

lemma ctx_updates [simp]:
  "c\<lparr>cx_store := cx_store c, cx_sessions := cx_sessions c\<rparr> = (c :: ctx)"
  by simp

lemma lost_iff_dropped:
  assumes "store_log h s" and "lp_timestamp p = None"
  shows "cursor_lost s p \<longleftrightarrow> after p h \<noteq> after p (ms_buffer s)"
  by (metis after_not_lost assms(1) after_append append_self_conv2 cursor_lost_dropped
      after_def filter_empty_conv store_log_def)

text \<open>A \<open>Get\<close> from the client's own cursor reports a loss, or reads.\<close>

lemma handle_get_cases:
  assumes "st_client_id (cx_state c) = Some cid" and "dec_get_request pb (pk_body packet) = Inr get"
    and "st_current_pos (cx_state c) \<noteq> None \<or> session_ack (cx_sessions c) cid \<noteq> None"
    and "p = get_start (st_current_pos (cx_state c)) (session_ack (cx_sessions c) cid)"
    and "lp_timestamp p = None"
  shows "if cursor_lost (cx_store c) p
    then \<exists>w. handle_get pb no_interference packet c = send_ack_err pb (cursor_lost_error p w) c
    else handle_get pb no_interference packet c =
        (let (es, store) = get_batch_wait p (get_batch_size (gt_fetch_size get)) [] (cx_store c)
         in serve_batch pb cid es (c\<lparr>cx_store := store\<rparr>))"
proof -
  have lost: "get_lost (st_current_pos (cx_state c)) (session_ack (cx_sessions c) cid) (cx_store c)
      = (if cursor_lost (cx_store c) p then ms_evicted_watermark (cx_store c) else None)"
    using assms(3,4,5) get_lost_iff by simp
  show ?thesis
  proof (cases "cursor_lost (cx_store c) p")
    case True
    then obtain w where "ms_evicted_watermark (cx_store c) = Some w"
      by (auto simp: cursor_lost_def is_some_and_iff)
    then have "handle_get pb no_interference packet c = send_ack_err pb (cursor_lost_error p w) c"
      using True assms(1,2,4) lost by (simp add: handle_get_def Let_def)
    with True show ?thesis by auto
  qed (use assms(1,2,4) lost in \<open>simp add: handle_get_def Let_def no_interference_def\<close>)
qed

lemma handle_get_log:
  assumes "store_log h (cx_store c)" and "st_client_id (cx_state c) = Some cid"
    and "dec_get_request pb (pk_body packet) = Inr get"
    and "st_current_pos (cx_state c) \<noteq> None \<or> session_ack (cx_sessions c) cid \<noteq> None"
    and "p = get_start (st_current_pos (cx_state c)) (session_ack (cx_sessions c) cid)"
    and "lp_timestamp p = None" and "\<And>e. e \<in> set h \<Longrightarrow> encodable e"
    and "g = next_group (get_batch_size (gt_fetch_size get)) (after p h)"
  shows "if after p h \<noteq> after p (ms_buffer (cx_store c))
      then \<exists>w. handle_get pb no_interference packet c = send_ack_err pb (cursor_lost_error p w) c
      else if after p h = []
      then handle_get pb no_interference packet c = ctx_send (messages_frame pb 0 []) c
      else handle_get pb no_interference packet c =
        ctx_send (batch_frame pb (session_passes (sessions_get (cx_sessions c) cid))
              (ms_batch_id_seq (cx_store c)) g)
          (c\<lparr>cx_store := (cx_store c)\<lparr>ms_batch_id_seq := ms_batch_id_seq (cx_store c) + 1\<rparr>,
             cx_state := (cx_state c)\<lparr>st_current_pos := Some (ev_log_position (last g)),
                st_last_get_batch_id := ms_batch_id_seq (cx_store c),
                st_last_get_end_pos := Some (ev_log_position (last g))\<rparr>\<rparr>)"
proof -
  let ?s = "cx_store c"
  note iff = lost_iff_dropped [OF assms(1,6)] and cases = handle_get_cases [OF assms(2-6)]
  show ?thesis
  proof (cases "cursor_lost ?s p")
    case True
    with iff cases show ?thesis by auto
  next
    case False
    note scan = get_scan_log_read [OF assms(1,6) False]
    have hg: "handle_get pb no_interference packet c =
        (let (es, store) = get_batch_wait p (get_batch_size (gt_fetch_size get)) [] ?s
         in serve_batch pb cid es (c\<lparr>cx_store := store\<rparr>))"
      using False cases by simp
    show ?thesis
    proof (cases "after p h = []")
      case True
      have "handle_get pb no_interference packet c = ctx_send (messages_frame pb 0 []) c"
        by (simp add: hg scan True serve_batch_def)
      with iff False True show ?thesis by simp
    next
      case ne: False
      have "set g \<subseteq> set h"
        using next_group_prefix [of "after p h" "get_batch_size (gt_fetch_size get)"]
        by (metis Un_upper1 after_def assms(8) filter_is_subset order_trans set_append)
      then have "\<And>e. e \<in> set g \<Longrightarrow> encodable e"
        using assms(7) by blast
      moreover have "g \<noteq> []"
        using ne assms(8) by simp
      ultimately have "handle_get pb no_interference packet c =
        ctx_send (batch_frame pb (session_passes (sessions_get (cx_sessions c) cid))
              (ms_batch_id_seq ?s) g)
          (c\<lparr>cx_store := ?s\<lparr>ms_batch_id_seq := ms_batch_id_seq ?s + 1\<rparr>,
             cx_state := (cx_state c)\<lparr>st_current_pos := Some (ev_log_position (last g)),
                st_last_get_batch_id := ms_batch_id_seq ?s,
                st_last_get_end_pos := Some (ev_log_position (last g))\<rparr>\<rparr>)"
        using ne by (simp add: hg scan assms(8) [symmetric] serve_batch_nonempty)
      moreover have "(after p h \<noteq> after p (ms_buffer ?s)) = False" "(after p h = []) = False"
        using iff False ne by simp_all
      ultimately show ?thesis by (simp only: if_False)
    qed
  qed
qed

text \<open>C18: A \<open>Get\<close> answers from the log. For a client with a position cursor \<open>p\<close> of its own:
  when some event of the log after \<open>p\<close> has been dropped, the client is told so and nothing else
  changes; otherwise it gets the next events of the log after \<open>p\<close>, up to the clamped fetch size
  and to the end of a position group, filtered by its session, and its cursor moves to the end of
  that group; at the end of the log it gets an empty batch.\<close>

theorem get_serves_log:
  assumes "store_log h (cx_store c)" and "st_client_id (cx_state c) = Some cid"
    and "dec_get_request pb (pk_body packet) = Inr get"
    and "st_current_pos (cx_state c) \<noteq> None \<or> session_ack (cx_sessions c) cid \<noteq> None"
    and "p = get_start (st_current_pos (cx_state c)) (session_ack (cx_sessions c) cid)"
    and "lp_timestamp p = None" and "\<And>e. e \<in> set h \<Longrightarrow> encodable e"
    and "g = next_group (get_batch_size (gt_fetch_size get)) (after p h)"
  shows "if after p h \<noteq> after p (ms_buffer (cx_store c))
      then \<exists>w. handle_get pb no_interference packet c = send_ack_err pb (cursor_lost_error p w) c
      else if after p h = []
      then handle_get pb no_interference packet c = ctx_send (messages_frame pb 0 []) c
      else handle_get pb no_interference packet c =
        ctx_send (batch_frame pb (session_passes (sessions_get (cx_sessions c) cid))
              (ms_batch_id_seq (cx_store c)) g)
          (c\<lparr>cx_store := (cx_store c)\<lparr>ms_batch_id_seq := ms_batch_id_seq (cx_store c) + 1\<rparr>,
             cx_state := (cx_state c)\<lparr>st_current_pos := Some (ev_log_position (last g)),
                st_last_get_batch_id := ms_batch_id_seq (cx_store c),
                st_last_get_end_pos := Some (ev_log_position (last g))\<rparr>\<rparr>)"
  using assms by (rule handle_get_log)

text \<open>A subscribed connection whose cursor is at position 1 of the sample log.\<close>

definition sub_ctx :: ctx where
  "sub_ctx = sample_ctx
     \<lparr>cx_state := client_state_default\<lparr>st_authenticated := True, st_client_id := Some ''c1'',
        st_current_pos := Some (log_position_new ''b.1'' 1)\<rparr>,
      cx_sessions := sessions_register literal_engine 0 ''c1'' ''d'' \<lparr>fp_pattern = ''db.t'', fp_black_list = ''''\<rparr>
        Map.empty\<rparr>"

lemma sub_ctx_simps [simp]:
  "cx_store sub_ctx = sample_store" "st_client_id (cx_state sub_ctx) = Some ''c1''"
  "st_current_pos (cx_state sub_ctx) = Some (log_position_new ''b.1'' 1)"
  "session_ack (cx_sessions sub_ctx) ''c1'' = None"
  "sessions_get (cx_sessions sub_ctx) ''c1'' \<noteq> None"
  "tr_budget (cx_transport sub_ctx) = None"
  by (simp_all add: sub_ctx_def sample_ctx_def session_ack_def server_simps client_session_new_def
      sample_transport_def)

lemma sample_log_encodable: "e \<in> set sample_log \<Longrightarrow> encodable e"
  by (auto simp: sample_log_def encodable_def sample_event_def)

text \<open>A wire format whose \<open>Get\<close> is the default with a fetch size, and whose acknowledgement of
  batch \<open>i\<close> is \<open>i\<close> bytes long.\<close>

definition get_prost :: "i32 \<Rightarrow> prost" where
  "get_prost n = null_prost
     \<lparr>dec_get_request := \<lambda>_. Inr (get_request_default\<lparr>gt_fetch_size := n\<rparr>),
      dec_client_ack := \<lambda>b. Inr (client_ack_default\<lparr>cl_batch_id := of_nat (length b)\<rparr>)\<rparr>"

lemma get_serves_log_witness:
  "\<exists>c'. handle_get (get_prost 1) no_interference packet_default sub_ctx =
    ctx_send (batch_frame (get_prost 1) (session_passes (sessions_get (cx_sessions sub_ctx) ''c1'')) 7
        (next_group (get_batch_size 1) (map (sample_event ''b.1'') [2, 3]))) c'"
proof -
  let ?p = "log_position_new ''b.1'' 1"
  have dec: "dec_get_request (get_prost 1) (pk_body packet_default)
      = Inr (get_request_default\<lparr>gt_fetch_size := 1\<rparr>)"
    by (simp add: get_prost_def)
  have a: "(after ?p sample_log \<noteq> after ?p (ms_buffer sample_store)) = False"
    "(after ?p sample_log = []) = False"
    by (simp_all add: after_def lp_key_new sample_log_def)
  show ?thesis
    using get_serves_log [of sample_log sub_ctx "''c1''", OF _ _ dec _ refl _ sample_log_encodable refl]
      a sample_store_log
    by (auto simp: get_start_def)
qed

subsection \<open>The watermark test and the wait\<close>

text \<open>Feeding more events than fit: what the store stands for afterwards, and what a reader whose
  cursor was not lost before gets of it.\<close>

lemma overfeed:
  assumes "store_log h s" and "sorted (map ev_key (h @ evs))" and "ms_capacity s < length evs"
    and "\<forall>e \<in> set evs. lp_key p < ev_key e" and "lp_timestamp p = None"
    and "g = next_group n (drop (length evs - ms_capacity s) evs)"
  shows "\<exists>s' i. put_batch debug evs s = (Some i, s') \<and> g \<noteq> [] \<and> set g \<subseteq> set evs \<and> cursor_lost s' p
    \<and> \<not> cursor_lost s' (ev_log_position (last g))
    \<and> get_scan p n s'
      = (Some (events_with_events g (ms_batch_id_seq s')), s'\<lparr>ms_batch_id_seq := ms_batch_id_seq s' + 1\<rparr>)"
proof -
  let ?k = "length evs - ms_capacity s"
  have cap: "0 < ms_capacity s" "length (ms_buffer s) \<le> ms_capacity s"
    using assms(1) by (simp_all add: store_log_def store_wf_def)
  have ne: "evs \<noteq> []" "0 < ?k" "?k < length evs"
    using assms(3) cap by auto
  obtain s' where put: "put_batch debug evs s = (Some (ms_batch_id_seq s), s')"
    and log: "store_log (h @ evs) s'"
    using put_batch_log_nonempty [OF assms(1,2) ne(1)] by blast
  have buf: "ms_buffer s' = drop ?k evs"
    using put_batch_ok_buffer [OF ne(1) put] assms(3) by simp
  have all: "after p (drop ?k evs) = drop ?k evs"
    using assms(4) by (auto simp: after_def filter_id_conv dest: in_set_dropD)
  have "evs ! 0 \<in> set (take ?k evs)"
    using ne by (metis gr_implies_not0 length_greater_0_conv length_take min.absorb4 nth_mem nth_take)
  moreover have "take ?k evs \<noteq> [] \<and> dropped (h @ evs) s' = h @ take ?k evs"
    using log ne by (auto simp: store_log_def buf dropped_def)
  ultimately have lost: "cursor_lost s' p"
    using cursor_lost_dropped [OF log, of p] assms(4) by (metis UnI2 in_set_takeD set_append)
  have g: "g \<noteq> []" "\<And>e. e \<in> set g \<Longrightarrow> e \<in> set (drop ?k evs)"
    using ne next_group_prefix [of "drop ?k evs" n] unfolding assms(6) by (simp, metis UnI1 set_append)
  have "\<not> cursor_lost s' (ev_log_position (last g))"
    by (rule not_lost_buffered [OF log]) (use g buf in simp)
  moreover have "get_scan p n s'
      = (Some (events_with_events g (ms_batch_id_seq s')), s'\<lparr>ms_batch_id_seq := ms_batch_id_seq s' + 1\<rparr>)"
    using get_scan_after [OF store_log_buffer_sorted [OF log] assms(5)] ne
    by (simp add: buf all assms(6))
  ultimately show ?thesis
    using put lost g by (meson in_set_dropD subsetI)
qed

text \<open>C17: Events can be lost without a report. The watermark is tested before the read. When
  another task feeds more events than the store can hold between the test and the read, the client
  is served the end of them as an ordinary batch, although its cursor is below the watermark by
  then; its cursor moves past the gap, so no later test reports it either.\<close>

theorem get_gap_race:
  assumes "store_log h (cx_store c)" and "st_client_id (cx_state c) = Some cid"
    and "dec_get_request pb (pk_body packet) = Inr get"
    and "st_current_pos (cx_state c) = Some p" and "lp_timestamp p = None"
    and "\<not> cursor_lost (cx_store c) p" and "sorted (map ev_key (h @ evs))"
    and "ms_capacity (cx_store c) < length evs"
    and "\<forall>e \<in> set evs. lp_key p < ev_key e \<and> encodable e"
    and "g = next_group (get_batch_size (gt_fetch_size get)) (drop (length evs - ms_capacity (cx_store c)) evs)"
  shows "\<exists>i c'. handle_get pb (no_interference\<lparr>if_store := \<lambda>s. snd (put_batch debug evs s)\<rparr>) packet c
      = ctx_send (batch_frame pb (session_passes (sessions_get (cx_sessions c) cid)) i g) c'
    \<and> cursor_lost (cx_store c') p \<and> st_current_pos (cx_state c') = Some (ev_log_position (last g))
    \<and> \<not> cursor_lost (cx_store c') (ev_log_position (last g))"
proof -
  let ?s = "cx_store c" and ?n = "get_batch_size (gt_fetch_size get)"
  obtain s' i where put: "put_batch debug evs ?s = (Some i, s')" and g: "g \<noteq> []" "set g \<subseteq> set evs"
    and lost: "cursor_lost s' p" "\<not> cursor_lost s' (ev_log_position (last g))"
    and scan: "get_scan p ?n s'
      = (Some (events_with_events g (ms_batch_id_seq s')), s'\<lparr>ms_batch_id_seq := ms_batch_id_seq s' + 1\<rparr>)"
    using overfeed [OF assms(1,7,8) _ assms(5,10), of debug] assms(9) by blast
  have enc: "\<And>e. e \<in> set g \<Longrightarrow> encodable e"
    using g(2) assms(9) by blast
  have lost0: "get_lost (Some p) (session_ack (cx_sessions c) cid) ?s = None"
    using get_lost_iff [of "Some p" "session_ack (cx_sessions c) cid" ?s] assms(5,6)
    by (simp add: get_start_def)
  have "handle_get pb (no_interference\<lparr>if_store := \<lambda>s. snd (put_batch debug evs s)\<rparr>) packet c
      = serve_batch pb cid (events_with_events g (ms_batch_id_seq s'))
          (c\<lparr>cx_store := s'\<lparr>ms_batch_id_seq := ms_batch_id_seq s' + 1\<rparr>\<rparr>)"
    using assms(2,3,4) lost0 put scan
    by (simp add: handle_get_def Let_def no_interference_def get_start_def)
  then show ?thesis
    using g(1) enc lost
    by (auto simp: serve_batch_nonempty cursor_lost_def intro!: exI)
qed

lemma get_gap_race_witness:
  "\<exists>i c' g. handle_get (get_prost 1)
      (no_interference\<lparr>if_store := \<lambda>s. snd (put_batch True (map (sample_event ''b.1'') [4, 5, 6]) s)\<rparr>)
      packet_default sub_ctx
    = ctx_send (batch_frame (get_prost 1) (session_passes (sessions_get (cx_sessions sub_ctx) ''c1'')) i g) c'
    \<and> cursor_lost (cx_store c') (log_position_new ''b.1'' 1)"
proof -
  have dec: "dec_get_request (get_prost 1) (pk_body packet_default)
      = Inr (get_request_default\<lparr>gt_fetch_size := 1\<rparr>)"
    by (simp add: get_prost_def)
  show ?thesis
    using get_gap_race [of sample_log sub_ctx "''c1''", OF _ _ dec, of "log_position_new ''b.1'' 1"
        "map (sample_event ''b.1'') [4, 5, 6]" _ True] sample_store_log
    by (auto simp: sample_log_def encodable_def sample_event_def ev_key_def lp_key_new)
qed

subsection \<open>Acknowledgement and rollback\<close>

text \<open>Only the last batch can be acknowledged. A \<open>ClientAck\<close> moves the acknowledged
  cursor, of the connection and of its session, to the end of the batch that the client was last
  sent, and only when it names that batch; any other acknowledgement changes nothing.\<close>

theorem ack_exact:
  assumes "dec_client_ack pb (pk_body packet) = Inr ack" and "st_client_id (cx_state c) = Some cid"
    and "sessions_get (cx_sessions c) cid \<noteq> None"
  shows "if st_last_get_end_pos (cx_state c) \<noteq> None \<and> cl_batch_id ack = st_last_get_batch_id (cx_state c)
    then st_last_ack_pos (cx_state (handle_client_ack pb packet c)) = st_last_get_end_pos (cx_state c)
      \<and> session_ack (cx_sessions (handle_client_ack pb packet c)) cid = st_last_get_end_pos (cx_state c)
      \<and> st_current_pos (cx_state (handle_client_ack pb packet c)) = st_current_pos (cx_state c)
    else handle_client_ack pb packet c = c"
  using assms by (auto simp: handle_client_ack_def session_ack_def server_simps split: option.splits)

lemma ack_exact_witness:
  "handle_client_ack (get_prost 1) (packet_default\<lparr>pk_body := [1]\<rparr>) sub_ctx = sub_ctx"
proof -
  have dec: "dec_client_ack (get_prost 1) (pk_body (packet_default\<lparr>pk_body := [1]\<rparr>))
      = Inr (client_ack_default\<lparr>cl_batch_id := 1\<rparr>)"
    by (simp add: get_prost_def)
  show ?thesis
    using ack_exact [OF dec, of sub_ctx "''c1''"]
    by (simp add: sub_ctx_def sample_ctx_def client_state_default_def server_simps)
qed

text \<open>A \<open>Get\<close> that reports no loss reads what the buffer has after its start.\<close>

lemma handle_get_buffer:
  assumes "store_log h (cx_store c)" and "st_client_id (cx_state c) = Some cid"
    and "dec_get_request pb (pk_body packet) = Inr get"
    and "p = get_start (st_current_pos (cx_state c)) (session_ack (cx_sessions c) cid)"
    and "get_lost (st_current_pos (cx_state c)) (session_ack (cx_sessions c) cid) (cx_store c) = None"
    and "lp_timestamp p = None" and "\<And>e. e \<in> set h \<Longrightarrow> encodable e"
    and "g = next_group (get_batch_size (gt_fetch_size get)) (after p (ms_buffer (cx_store c)))"
  shows "handle_get pb no_interference packet c =
     (if after p (ms_buffer (cx_store c)) = [] then ctx_send (messages_frame pb 0 []) c
      else ctx_send (batch_frame pb (session_passes (sessions_get (cx_sessions c) cid))
              (ms_batch_id_seq (cx_store c)) g)
          (c\<lparr>cx_store := (cx_store c)\<lparr>ms_batch_id_seq := ms_batch_id_seq (cx_store c) + 1\<rparr>,
             cx_state := (cx_state c)\<lparr>st_current_pos := Some (ev_log_position (last g)),
                st_last_get_batch_id := ms_batch_id_seq (cx_store c),
                st_last_get_end_pos := Some (ev_log_position (last g))\<rparr>\<rparr>))"
proof -
  let ?s = "cx_store c"
  note scan = get_scan_after [OF store_log_buffer_sorted [OF assms(1)] assms(6)]
  have hg: "handle_get pb no_interference packet c =
      (let (es, store) = get_batch_wait p (get_batch_size (gt_fetch_size get)) [] ?s
       in serve_batch pb cid es (c\<lparr>cx_store := store\<rparr>))"
    using assms(2-5) by (simp add: handle_get_def Let_def no_interference_def)
  show ?thesis
  proof (cases "after p (ms_buffer ?s) = []")
    case True
    then show ?thesis by (simp add: hg scan serve_batch_def)
  next
    case False
    have "set g \<subseteq> set (ms_buffer ?s)"
      using next_group_prefix [of "after p (ms_buffer ?s)" "get_batch_size (gt_fetch_size get)"]
      by (metis Un_upper1 after_def assms(8) filter_is_subset order_trans set_append)
    moreover have "set (ms_buffer ?s) \<subseteq> set h"
      using assms(1) by (metis store_logE set_append Un_upper2)
    ultimately have "\<And>e. e \<in> set g \<Longrightarrow> encodable e"
      using assms(7) by blast
    moreover have "g \<noteq> []"
      using False assms(8) by simp
    ultimately show ?thesis
      using False by (simp add: hg scan assms(8) [symmetric] serve_batch_nonempty)
  qed
qed

text \<open>C23: Rollback redelivers. A rollback only resets the connection's cursor to its last
  acknowledged position (forgetting it, the one its start timestamp set included, before the first
  acknowledgement). So the next \<open>Get\<close> is answered as if nothing had been sent since: with the
  last acknowledgement \<open>p\<close>, of the connection or else of its session, it reports a loss when an
  event of the log after \<open>p\<close> has been dropped, and otherwise serves the next group of the log
  after \<open>p\<close>, filtered by the session, or an empty batch at the log's end. Without any
  acknowledgement it starts at the default position, and then serves what the buffer has after it
  without any loss report.\<close>

theorem rollback_cursor:
  assumes "store_log h (cx_store c)" and "st_client_id (cx_state c) = Some cid"
    and "dec_client_rollback pb (pk_body packet) = Inr rb"
    and "dec_get_request pb (pk_body gp) = Inr get" and "\<And>e. e \<in> set h \<Longrightarrow> encodable e"
    and "c' = handle_client_rollback pb packet c"
    and "acked = opt_or (st_last_ack_pos (cx_state c)) (session_ack (cx_sessions c) cid)"
    and "p = unwrap_or acked default_start" and "lp_timestamp p = None"
    and "g = next_group (get_batch_size (gt_fetch_size get)) (after p (ms_buffer (cx_store c)))"
  shows "c' = c\<lparr>cx_state := (cx_state c)\<lparr>st_current_pos := st_last_ack_pos (cx_state c)\<rparr>\<rparr>
    \<and> (if acked \<noteq> None \<and> after p h \<noteq> after p (ms_buffer (cx_store c))
       then \<exists>w. handle_get pb no_interference gp c' = send_ack_err pb (cursor_lost_error p w) c'
       else if after p (ms_buffer (cx_store c)) = []
       then handle_get pb no_interference gp c' = ctx_send (messages_frame pb 0 []) c'
       else handle_get pb no_interference gp c' =
         ctx_send (batch_frame pb (session_passes (sessions_get (cx_sessions c) cid))
               (ms_batch_id_seq (cx_store c)) g)
           (c\<lparr>cx_store := (cx_store c)\<lparr>ms_batch_id_seq := ms_batch_id_seq (cx_store c) + 1\<rparr>,
              cx_state := (cx_state c)\<lparr>st_current_pos := Some (ev_log_position (last g)),
                 st_last_get_batch_id := ms_batch_id_seq (cx_store c),
                 st_last_get_end_pos := Some (ev_log_position (last g))\<rparr>\<rparr>))"
proof -
  have c': "c' = c\<lparr>cx_state := (cx_state c)\<lparr>st_current_pos := st_last_ack_pos (cx_state c)\<rparr>\<rparr>"
    using assms(3,6) by (simp add: handle_client_rollback_def split: option.splits)
  have start: "get_start (st_current_pos (cx_state c')) (session_ack (cx_sessions c') cid) = p"
    by (simp add: c' get_start_def assms(7,8))
  have own: "(st_current_pos (cx_state c') \<noteq> None \<or> session_ack (cx_sessions c') cid \<noteq> None)
      \<longleftrightarrow> acked \<noteq> None"
    by (cases "st_last_ack_pos (cx_state c)") (simp_all add: c' assms(7))
  have keep: "cx_store c' = cx_store c" "cx_sessions c' = cx_sessions c"
    "st_client_id (cx_state c') = Some cid"
    using assms(2) by (simp_all add: c')
  note lost = lost_iff_dropped [OF assms(1,9)]
  show ?thesis
  proof (cases "acked \<noteq> None \<and> cursor_lost (cx_store c) p")
    case True
    then show ?thesis
      using handle_get_cases [OF keep(3) assms(4) _ start [symmetric] assms(9)] own lost c'
      by (simp add: keep)
  next
    case False
    then have "get_lost (st_current_pos (cx_state c')) (session_ack (cx_sessions c') cid) (cx_store c')
        = None"
      using get_lost_iff [of "st_current_pos (cx_state c')" "session_ack (cx_sessions c') cid"
          "cx_store c'"] own start assms(9)
      by (cases "acked = None") (simp_all add: keep, simp add: get_lost_def)
    note served = handle_get_buffer [OF _ keep(3) assms(4) start [symmetric] this assms(9,5),
        unfolded keep, OF assms(1) _ assms(10)]
    show ?thesis
      using served False lost c' by auto
  qed
qed

text \<open>The sample connection after it was sent everything and has acknowledged up to position 2: the
  event at position 3 is sent again.\<close>

definition acked_ctx :: ctx where
  "acked_ctx = sub_ctx\<lparr>cx_state := (cx_state sub_ctx)
     \<lparr>st_current_pos := Some (log_position_new ''b.1'' 3),
      st_last_ack_pos := Some (log_position_new ''b.1'' 2)\<rparr>\<rparr>"

lemma rollback_cursor_witness:
  "\<exists>c'. handle_get ((get_prost 1)\<lparr>dec_client_rollback := \<lambda>_. Inr client_rollback_default\<rparr>) no_interference
      packet_default
      (handle_client_rollback ((get_prost 1)\<lparr>dec_client_rollback := \<lambda>_. Inr client_rollback_default\<rparr>)
        packet_default acked_ctx)
    = ctx_send (batch_frame ((get_prost 1)\<lparr>dec_client_rollback := \<lambda>_. Inr client_rollback_default\<rparr>)
        (session_passes (sessions_get (cx_sessions sub_ctx) ''c1'')) 7
        (next_group (get_batch_size 1) [sample_event ''b.1'' 3])) c'"
proof -
  let ?pb = "(get_prost 1)\<lparr>dec_client_rollback := \<lambda>_. Inr client_rollback_default\<rparr>"
  have dec: "dec_client_rollback ?pb (pk_body packet_default) = Inr client_rollback_default"
    "dec_get_request ?pb (pk_body packet_default) = Inr (get_request_default\<lparr>gt_fetch_size := 1\<rparr>)"
    by (simp_all add: get_prost_def)
  have s: "cx_store acked_ctx = sample_store" "st_client_id (cx_state acked_ctx) = Some ''c1''"
    "st_last_ack_pos (cx_state acked_ctx) = Some (log_position_new ''b.1'' 2)"
    "cx_sessions acked_ctx = cx_sessions sub_ctx"
    by (simp_all add: acked_ctx_def)
  have a: "(after (log_position_new ''b.1'' 2) sample_log
      \<noteq> after (log_position_new ''b.1'' 2) (ms_buffer sample_store)) = False"
    "after (log_position_new ''b.1'' 2) (ms_buffer sample_store) = [sample_event ''b.1'' 3]"
    by (simp_all add: after_def lp_key_new sample_log_def)
  show ?thesis
    using rollback_cursor [of sample_log acked_ctx "''c1''" ?pb packet_default client_rollback_default
        packet_default "get_request_default\<lparr>gt_fetch_size := 1\<rparr>"
        "handle_client_rollback ?pb packet_default acked_ctx" "Some (log_position_new ''b.1'' 2)"
        "log_position_new ''b.1'' 2" "next_group (get_batch_size 1) [sample_event ''b.1'' 3]",
        OF _ s(2) dec sample_log_encodable refl] sample_store_log
    unfolding s a by auto
qed

subsection \<open>A whole subscription\<close>

text \<open>One round of a client: a \<open>Get\<close>, then the acknowledgement of the batch it was last sent.\<close>

definition get_round :: "prost \<Rightarrow> packet \<Rightarrow> (i64 \<Rightarrow> packet) \<Rightarrow> ctx \<Rightarrow> ctx" where
  "get_round pb get_packet ack_packet c =
     (let c1 = snd (handle_get pb no_interference get_packet c)
      in handle_client_ack pb (ack_packet (st_last_get_batch_id (cx_state c1))) c1)"

fun get_rounds :: "nat \<Rightarrow> prost \<Rightarrow> packet \<Rightarrow> (i64 \<Rightarrow> packet) \<Rightarrow> ctx \<Rightarrow> ctx" where
  "get_rounds 0 pb gp ap c = c"
| "get_rounds (Suc k) pb gp ap c = get_rounds k pb gp ap (get_round pb gp ap c)"

text \<open>The batches of a log, as the rounds hand them out.\<close>

function groups :: "nat \<Rightarrow> canal_event list \<Rightarrow> canal_event list list" where
  "groups n xs = (if xs = [] then [] else next_group n xs # groups n (drop (length (next_group n xs)) xs))"
  by pat_completeness auto
termination
  by (relation "measure (\<lambda>(n, xs). length xs)") auto

declare groups.simps [simp del]

lemma concat_groups: "concat (groups n xs) = xs"
proof (induction n xs rule: groups.induct)
  case (1 n xs)
  then show ?case
    by (cases "xs = []")
      (simp_all add: groups.simps [of n "[]"] groups.simps [of n xs] next_group_prefix [symmetric])
qed

lemma session_passes_acked:
  "session_passes (map_option (\<lambda>s. s\<lparr>cs_last_ack_position := p\<rparr>) s) = session_passes s"
  by (rule ext, cases s) (simp_all add: session_passes_def)

lemma sent_unlimited:
  "tr_budget (cx_transport c) = None \<Longrightarrow> sent (snd (ctx_send b c)) = sent c @ [b]
    \<and> tr_budget (cx_transport (snd (ctx_send b c))) = None"
  by (simp add: ctx_send_def transport_send_def)

text \<open>A subscribed connection with cursor \<open>p\<close> that has lost nothing of the log.\<close>

definition subscribed ::
    "canal_event list \<Rightarrow> string \<Rightarrow> (canal_event \<Rightarrow> bool) \<Rightarrow> log_position \<Rightarrow> ctx \<Rightarrow> bool" where
  "subscribed h cid passes p c \<longleftrightarrow>
     store_log h (cx_store c) \<and> st_client_id (cx_state c) = Some cid
     \<and> st_current_pos (cx_state c) = Some p \<and> lp_timestamp p = None \<and> \<not> cursor_lost (cx_store c) p
     \<and> sessions_get (cx_sessions c) cid \<noteq> None
     \<and> session_passes (sessions_get (cx_sessions c) cid) = passes
     \<and> tr_budget (cx_transport c) = None"

lemma handle_client_ack_keeps:
  assumes "dec_client_ack pb (pk_body packet) = Inr ack"
    and "cl_batch_id ack = st_last_get_batch_id (cx_state c)" and "st_client_id (cx_state c) = Some cid"
  shows "cx_store (handle_client_ack pb packet c) = cx_store c"
    and "cx_transport (handle_client_ack pb packet c) = cx_transport c"
    and "st_client_id (cx_state (handle_client_ack pb packet c)) = Some cid"
    and "st_current_pos (cx_state (handle_client_ack pb packet c)) = st_current_pos (cx_state c)"
    and "session_passes (sessions_get (cx_sessions (handle_client_ack pb packet c)) cid)
      = session_passes (sessions_get (cx_sessions c) cid)"
    and "sessions_get (cx_sessions (handle_client_ack pb packet c)) cid = None
      \<longleftrightarrow> sessions_get (cx_sessions c) cid = None"
  using assms by (auto simp: handle_client_ack_def server_simps session_passes_acked split: option.splits)

lemma get_round_step:
  assumes "subscribed h cid passes p c" and "dec_get_request pb (pk_body gp) = Inr get"
    and "\<And>i. \<exists>a. dec_client_ack pb (pk_body (ap i)) = Inr a \<and> cl_batch_id a = i"
    and "\<And>e. e \<in> set h \<Longrightarrow> encodable e"
    and "g = next_group (get_batch_size (gt_fetch_size get)) (after p h)"
  shows "if after p h = []
    then subscribed h cid passes p (get_round pb gp ap c)
      \<and> sent (get_round pb gp ap c) = sent c @ [messages_frame pb 0 []]
    else subscribed h cid passes (ev_log_position (last g)) (get_round pb gp ap c)
      \<and> sent (get_round pb gp ap c) = sent c @ [batch_frame pb passes (ms_batch_id_seq (cx_store c)) g]
      \<and> ms_batch_id_seq (cx_store (get_round pb gp ap c)) = ms_batch_id_seq (cx_store c) + 1"
proof -
  define d where "d = snd (handle_get pb no_interference gp c)"
  have sub: "store_log h (cx_store c)" "st_client_id (cx_state c) = Some cid"
    "st_current_pos (cx_state c) = Some p" "lp_timestamp p = None" "\<not> cursor_lost (cx_store c) p"
    "sessions_get (cx_sessions c) cid \<noteq> None"
    "session_passes (sessions_get (cx_sessions c) cid) = passes" "tr_budget (cx_transport c) = None"
    using assms(1) by (simp_all add: subscribed_def)
  have nl: "(after p h \<noteq> after p (ms_buffer (cx_store c))) = False"
    using after_not_lost [OF sub(1,5)] by simp
  have own: "st_current_pos (cx_state c) \<noteq> None \<or> session_ack (cx_sessions c) cid \<noteq> None"
    and p: "p = get_start (st_current_pos (cx_state c)) (session_ack (cx_sessions c) cid)"
    using sub(3) by (simp_all add: get_start_def)
  note get = handle_get_log [OF sub(1,2) assms(2) own p sub(4) assms(4,5), unfolded nl if_False sub(7)]
  obtain a where ack: "dec_client_ack pb (pk_body (ap (st_last_get_batch_id (cx_state d)))) = Inr a"
    "cl_batch_id a = st_last_get_batch_id (cx_state d)"
    using assms(3) by blast
  have round: "get_round pb gp ap c = handle_client_ack pb (ap (st_last_get_batch_id (cx_state d))) d"
    by (simp add: get_round_def Let_def d_def)
  show ?thesis
  proof (cases "after p h = []")
    case True
    then have "d = snd (ctx_send (messages_frame pb 0 []) c)"
      using get by (simp add: d_def)
    then have d: "cx_state d = cx_state c" "cx_store d = cx_store c" "cx_sessions d = cx_sessions c"
      "sent d = sent c @ [messages_frame pb 0 []]" "tr_budget (cx_transport d) = None"
      using sent_unlimited [OF sub(8), of "messages_frame pb 0 []"] by simp_all
    have cid: "st_client_id (cx_state d) = Some cid"
      by (simp add: d sub(2))
    show ?thesis
      using True sub handle_client_ack_keeps [OF ack cid] d by (simp add: round subscribed_def)
  next
    case False
    let ?i = "ms_batch_id_seq (cx_store c)" and ?q = "ev_log_position (last g)"
    have d: "st_client_id (cx_state d) = Some cid" "st_current_pos (cx_state d) = Some ?q"
      "cx_store d = (cx_store c)\<lparr>ms_batch_id_seq := ?i + 1\<rparr>" "cx_sessions d = cx_sessions c"
      "sent d = sent c @ [batch_frame pb passes ?i g]" "tr_budget (cx_transport d) = None"
      using get False sub sent_unlimited [of _ "batch_frame pb passes ?i g"]
      by (simp_all add: d_def)
    have "lp_key p < ev_key (last g)"
      unfolding assms(5) by (rule mem_log.after_step(2) [OF sub(1) False])
    then have "\<not> cursor_lost (cx_store c) ?q"
      using sub(5) by (auto simp: cursor_lost_def is_some_and_iff lp_less_iff)
    then have "\<not> cursor_lost (cx_store d) ?q"
      by (simp add: d cursor_lost_def)
    then show ?thesis
      using False sub handle_client_ack_keeps [OF ack d(1)] d by (simp add: round subscribed_def)
  qed
qed

text \<open>The frames of a list of batches under consecutive ids.\<close>

fun batch_frames ::
    "prost \<Rightarrow> (canal_event \<Rightarrow> bool) \<Rightarrow> i64 \<Rightarrow> canal_event list list \<Rightarrow> bytes list" where
  "batch_frames pb passes i [] = []"
| "batch_frames pb passes i (g # gs) = batch_frame pb passes i g # batch_frames pb passes (i + 1) gs"

lemma get_rounds_frames:
  assumes "subscribed h cid passes p c" and "dec_get_request pb (pk_body gp) = Inr get"
    and "\<And>i. \<exists>a. dec_client_ack pb (pk_body (ap i)) = Inr a \<and> cl_batch_id a = i"
    and "\<And>e. e \<in> set h \<Longrightarrow> encodable e"
    and "length (after p h) \<le> k" and "gs = groups (get_batch_size (gt_fetch_size get)) (after p h)"
  shows "length gs \<le> k \<and> sent (get_rounds k pb gp ap c) = sent c
      @ batch_frames pb passes (ms_batch_id_seq (cx_store c)) gs
      @ replicate (k - length gs) (messages_frame pb 0 [])"
proof -
  let ?n = "get_batch_size (gt_fetch_size get)"
  have "length (groups ?n (after p h)) \<le> k \<and>
    sent (get_rounds k pb gp ap c) = sent c
      @ batch_frames pb passes (ms_batch_id_seq (cx_store c)) (groups ?n (after p h))
      @ replicate (k - length (groups ?n (after p h))) (messages_frame pb 0 [])"
    using assms(1,5)
  proof (induction k arbitrary: c p)
    case 0
    then show ?case by (simp add: groups.simps [of _ "[]"])
  next
    case (Suc k)
    let ?c = "get_round pb gp ap c" and ?g = "next_group ?n (after p h)"
    note step = get_round_step [OF Suc.prems(1) assms(2,3,4) refl]
    have log: "store_log h (cx_store c)"
      using Suc.prems(1) by (simp add: subscribed_def)
    show ?case
    proof (cases "after p h = []")
      case True
      then have "subscribed h cid passes p ?c" "sent ?c = sent c @ [messages_frame pb 0 []]"
        using step by simp_all
      with True Suc.IH [of p ?c] show ?thesis
        by (simp add: groups.simps [of _ "[]"])
    next
      case False
      let ?q = "ev_log_position (last ?g)"
      have s: "subscribed h cid passes ?q ?c"
        "sent ?c = sent c @ [batch_frame pb passes (ms_batch_id_seq (cx_store c)) ?g]"
        "ms_batch_id_seq (cx_store ?c) = ms_batch_id_seq (cx_store c) + 1"
        using step False by simp_all
      have split: "after p h = ?g @ after ?q h"
        by (rule mem_log.after_step(1) [OF log False])
      then have "drop (length ?g) (after p h) = after ?q h"
        by (metis append_eq_conv_conj)
      then have gs: "groups ?n (after p h) = ?g # groups ?n (after ?q h)"
        using False by (simp add: groups.simps [of ?n "after p h"])
      have "length (after p h) = length ?g + length (after ?q h)"
        by (subst split) (rule length_append)
      moreover have "0 < length ?g"
        using False by simp
      ultimately have "length (after ?q h) \<le> k"
        using Suc.prems(2) by linarith
      with Suc.IH [OF s(1)] show ?thesis
        by (simp add: gs s)
    qed
  qed
  then show ?thesis by (simp only: assms(6))
qed

text \<open>A subscription delivers the log. A subscribed client that keeps asking and
  acknowledging is sent the events of the log after its cursor, in batches of whole position groups
  under consecutive ids, each event that its session's filter passes once and in order and no
  other; after at most as many rounds as there are events, only empty batches follow.\<close>

theorem subscription_delivers:
  assumes "subscribed h cid passes p c" and "dec_get_request pb (pk_body gp) = Inr get"
    and "\<And>i. \<exists>a. dec_client_ack pb (pk_body (ap i)) = Inr a \<and> cl_batch_id a = i"
    and "\<And>e. e \<in> set h \<Longrightarrow> encodable e"
    and "length (after p h) \<le> k"
  shows "\<exists>gs. concat gs = after p h \<and> length gs \<le> k \<and>
    sent (get_rounds k pb gp ap c) = sent c @ batch_frames pb passes (ms_batch_id_seq (cx_store c)) gs
      @ replicate (k - length gs) (messages_frame pb 0 [])"
  using get_rounds_frames [OF assms refl] concat_groups by blast

lemma subscription_delivers_witness:
  "\<exists>gs. concat gs = map (sample_event ''b.1'') [2, 3] \<and>
    sent (get_rounds 2 (get_prost 1) packet_default
        (\<lambda>i. packet_default\<lparr>pk_body := replicate (unat i) 0\<rparr>) sub_ctx)
      = batch_frames (get_prost 1) (session_passes (sessions_get (cx_sessions sub_ctx) ''c1'')) 7 gs
        @ replicate (2 - length gs) (messages_frame (get_prost 1) 0 [])"
proof -
  let ?p = "log_position_new ''b.1'' 1"
  have a: "after ?p sample_log = map (sample_event ''b.1'') [2, 3]"
    by (simp add: after_def lp_key_new sample_log_def)
  have s: "subscribed sample_log ''c1'' (session_passes (sessions_get (cx_sessions sub_ctx) ''c1'')) ?p sub_ctx"
    using sub_ctx_simps(5) by (simp add: subscribed_def sample_store_log)
  have dec: "dec_get_request (get_prost 1) (pk_body packet_default)
      = Inr (get_request_default\<lparr>gt_fetch_size := 1\<rparr>)"
    by (simp add: get_prost_def)
  have ack: "\<exists>x. dec_client_ack (get_prost 1) (pk_body ((\<lambda>i. packet_default\<lparr>pk_body := replicate (unat i) 0\<rparr>) i))
      = Inr x \<and> cl_batch_id x = i" for i :: i64
    by (simp add: get_prost_def)
  have sent0: "sent sub_ctx = []"
    by (simp add: sub_ctx_def sample_ctx_def sample_transport_def)
  show ?thesis
    using subscription_delivers [OF s dec ack sample_log_encodable, of 2] a sent0 by auto
qed

end
