(* ===== verification/Canal_Server_Live.thy ===== *)
theory Canal_Server_Live
  imports Canal_Server_Get
begin

text \<open>
  A subscription while the system is running: between the requests of one client the binlog task
  feeds the store and other clients read it, in any interleaving. Whatever happens, what the client
  has been sent and what is still ahead of its cursor make up the log after the cursor it started
  with; and a gap, once there, is reported to the client from then on.
\<close>

subsection \<open>Schedules and answers\<close>

text \<open>A step of the running system, as one connection sees it: the store is fed, another client
  reads from the store, or the connection itself is asked and its last batch acknowledged.\<close>

datatype live_event = Fed "canal_event list" | OtherRead log_position nat | Asked

fun live_step :: "bool \<Rightarrow> prost \<Rightarrow> packet \<Rightarrow> (i64 \<Rightarrow> packet) \<Rightarrow> live_event \<Rightarrow> ctx \<Rightarrow> ctx" where
  "live_step debug pb gp ap (Fed evs) c = c\<lparr>cx_store := snd (put_batch debug evs (cx_store c))\<rparr>"
| "live_step debug pb gp ap (OtherRead q n) c = c\<lparr>cx_store := snd (get_scan q n (cx_store c))\<rparr>"
| "live_step debug pb gp ap Asked c = get_round pb gp ap c"

fun fed :: "live_event list \<Rightarrow> canal_event list" where
  "fed [] = []"
| "fed (Fed evs # ss) = evs @ fed ss"
| "fed (_ # ss) = fed ss"

fun asked :: "live_event list \<Rightarrow> nat" where
  "asked [] = 0"
| "asked (Asked # ss) = Suc (asked ss)"
| "asked (_ # ss) = asked ss"

text \<open>The feeds continue the log in position order and split no position group.\<close>

fun feeds_whole_groups :: "canal_event list \<Rightarrow> live_event list \<Rightarrow> bool" where
  "feeds_whole_groups h [] = True"
| "feeds_whole_groups h (Fed evs # ss) =
     (sorted (map ev_key evs) \<and> (\<forall>e \<in> set h. \<forall>e' \<in> set evs. ev_key e < ev_key e')
      \<and> feeds_whole_groups (h @ evs) ss)"
| "feeds_whole_groups h (_ # ss) = feeds_whole_groups h ss"

text \<open>What a \<open>Get\<close> is answered with: a batch, the empty batch at the end of the log, or the report
  that events after the cursor have been dropped.\<close>

datatype answer = Batch i64 "canal_event list" | AtEnd | Lost log_position log_position

fun answer_frame :: "prost \<Rightarrow> (canal_event \<Rightarrow> bool) \<Rightarrow> answer \<Rightarrow> bytes" where
  "answer_frame pb passes (Batch i g) = batch_frame pb passes i g"
| "answer_frame pb passes AtEnd = messages_frame pb 0 []"
| "answer_frame pb passes (Lost p w) = ack_err_frame pb (cursor_lost_error p w)"

fun served :: "answer list \<Rightarrow> canal_event list" where
  "served [] = []"
| "served (Batch i g # as) = g @ served as"
| "served (_ # as) = served as"

fun reports_loss :: "answer \<Rightarrow> bool" where
  "reports_loss (Lost _ _) = True"
| "reports_loss _ = False"

lemma served_append [simp]: "served (as @ bs) = served as @ served bs"
  by (induction as rule: served.induct) simp_all

subsection \<open>The invariant\<close>

text \<open>The connection's part of the state, with cursor \<open>p\<close>, whether it has lost anything or not.\<close>

definition attached ::
    "canal_event list \<Rightarrow> string \<Rightarrow> (canal_event \<Rightarrow> bool) \<Rightarrow> log_position \<Rightarrow> ctx \<Rightarrow> bool" where
  "attached h cid passes p c \<longleftrightarrow>
     store_log h (cx_store c) \<and> st_client_id (cx_state c) = Some cid
     \<and> st_current_pos (cx_state c) = Some p \<and> lp_timestamp p = None
     \<and> sessions_get (cx_sessions c) cid \<noteq> None
     \<and> session_passes (sessions_get (cx_sessions c) cid) = passes
     \<and> tr_budget (cx_transport c) = None"

lemma subscribed_attached:
  "subscribed h cid passes p c \<longleftrightarrow> attached h cid passes p c \<and> \<not> cursor_lost (cx_store c) p"
  by (auto simp: subscribed_def attached_def)

text \<open>The cursor is where it was, or at an event of the log.\<close>

definition cursor_in :: "canal_event list \<Rightarrow> log_position \<Rightarrow> log_position \<Rightarrow> bool" where
  "cursor_in h p0 p \<longleftrightarrow> p = p0 \<or> lp_key p0 \<le> lp_key p \<and> (\<exists>e \<in> set h. lp_key p = ev_key e)"

lemma put_batch_keeps_lost:
  assumes "store_log h s" and "store_log (h @ evs) (snd (put_batch debug evs s))"
    and "cursor_lost s p"
  shows "cursor_lost (snd (put_batch debug evs s)) p"
proof -
  let ?s' = "snd (put_batch debug evs s)"
  have "length (ms_buffer ?s') \<le> length (ms_buffer s) + length evs"
    by (cases "evs = []") (auto simp: put_batch_nonempty Let_def)
  then have le: "length h - length (ms_buffer s) \<le> length (h @ evs) - length (ms_buffer ?s')"
    by simp
  have "dropped h s = take (length h - length (ms_buffer s)) (h @ evs)"
    by (simp add: dropped_def)
  then have "set (dropped h s) \<subseteq> set (dropped (h @ evs) ?s')"
    unfolding dropped_def using le by (metis set_take_subset_set_take)
  with assms show ?thesis
    by (auto simp: cursor_lost_dropped [OF assms(1)] cursor_lost_dropped [OF assms(2)])
qed

lemma after_fed:
  assumes "cursor_in h p0 p" and "\<forall>e \<in> set h. \<forall>e' \<in> set evs. ev_key e < ev_key e'"
    and "xs @ after p h = after p0 h"
  shows "xs @ after p (h @ evs) = after p0 (h @ evs)"
proof (cases "p = p0")
  case True
  with assms(3) show ?thesis by (simp flip: append_assoc)
next
  case False
  then obtain e where e: "lp_key p0 \<le> lp_key p" "e \<in> set h" "lp_key p = ev_key e"
    using assms(1) by (auto simp: cursor_in_def)
  then have "lp_key p < ev_key e'" "lp_key p0 < ev_key e'" if "e' \<in> set evs" for e'
    using assms(2) that by (metis, metis order.strict_trans1)
  then have "after p evs = evs" "after p0 evs = evs"
    by (simp_all add: after_def)
  with assms(3) show ?thesis by (simp flip: append_assoc)
qed

text \<open>A request of a connection that has lost events is answered with the report and changes nothing.\<close>

lemma asked_lost:
  assumes "attached h cid passes p c" and "dec_get_request pb (pk_body gp) = Inr get"
    and "\<And>i. \<exists>a. dec_client_ack pb (pk_body (ap i)) = Inr a \<and> cl_batch_id a = i"
    and "\<And>e. e \<in> set h \<Longrightarrow> encodable e" and "cursor_lost (cx_store c) p"
  shows "\<exists>w. attached h cid passes p (get_round pb gp ap c)
    \<and> sent (get_round pb gp ap c) = sent c @ [answer_frame pb passes (Lost p w)]
    \<and> cx_store (get_round pb gp ap c) = cx_store c"
proof -
  have c: "store_log h (cx_store c)" "st_client_id (cx_state c) = Some cid"
    "st_current_pos (cx_state c) = Some p" "lp_timestamp p = None"
    "tr_budget (cx_transport c) = None"
    using assms(1) by (simp_all add: attached_def)
  have own: "st_current_pos (cx_state c) \<noteq> None \<or> session_ack (cx_sessions c) cid \<noteq> None"
    and p: "p = get_start (st_current_pos (cx_state c)) (session_ack (cx_sessions c) cid)"
    using c(3) by (simp_all add: get_start_def)
  have "after p h \<noteq> after p (ms_buffer (cx_store c))"
    using assms(5) c(1) by (metis after_append append_self_conv2 cursor_lost_dropped after_def
        filter_empty_conv store_log_def)
  then obtain w where w: "handle_get pb no_interference gp c = send_ack_err pb (cursor_lost_error p w) c"
    using handle_get_log [OF c(1,2) assms(2) own p c(4) assms(4) refl] by auto
  define d where "d = snd (send_ack_err pb (cursor_lost_error p w) c)"
  have d: "cx_state d = cx_state c" "cx_store d = cx_store c" "cx_sessions d = cx_sessions c"
    "sent d = sent c @ [ack_err_frame pb (cursor_lost_error p w)]" "tr_budget (cx_transport d) = None"
    using sent_unlimited [OF c(5), of "ack_err_frame pb (cursor_lost_error p w)"]
    by (simp_all add: d_def send_ack_err_def)
  obtain a where ack: "dec_client_ack pb (pk_body (ap (st_last_get_batch_id (cx_state d)))) = Inr a"
    "cl_batch_id a = st_last_get_batch_id (cx_state d)"
    using assms(3) by blast
  have round: "get_round pb gp ap c = handle_client_ack pb (ap (st_last_get_batch_id (cx_state d))) d"
    by (simp add: get_round_def w Let_def d_def)
  have cid: "st_client_id (cx_state d) = Some cid"
    by (simp add: d c(2))
  show ?thesis
    using assms(1) d handle_client_ack_keeps [OF ack cid]
    by (intro exI [of _ w]) (simp add: round attached_def)
qed

text \<open>One request of an attached connection.\<close>

lemma asked_step:
  assumes "attached h cid passes p c" and "dec_get_request pb (pk_body gp) = Inr get"
    and "\<And>i. \<exists>a. dec_client_ack pb (pk_body (ap i)) = Inr a \<and> cl_batch_id a = i"
    and "\<And>e. e \<in> set h \<Longrightarrow> encodable e" and "cursor_in h p0 p"
  shows "\<exists>a q. attached h cid passes q (get_round pb gp ap c) \<and> cursor_in h p0 q
    \<and> sent (get_round pb gp ap c) = sent c @ [answer_frame pb passes a]
    \<and> served [a] @ after q h = after p h
    \<and> (if reports_loss a then q = p \<and> cursor_lost (cx_store (get_round pb gp ap c)) q
       else \<not> cursor_lost (cx_store c) p)"
proof (cases "cursor_lost (cx_store c) p")
  case False
  then have sub: "subscribed h cid passes p c"
    using assms(1) by (simp add: subscribed_attached)
  have log: "store_log h (cx_store c)"
    using assms(1) by (simp add: attached_def)
  note step = get_round_step [OF sub assms(2,3,4) refl]
  show ?thesis
  proof (cases "after p h = []")
    case True
    with step False assms(5) show ?thesis
      by (intro exI [of _ AtEnd] exI [of _ p]) (simp add: subscribed_attached)
  next
    case ne: False
    let ?g = "next_group (get_batch_size (gt_fetch_size get)) (after p h)"
    have "last ?g \<in> set h" "lp_key p < ev_key (last ?g)"
      using last_next_group_in [OF ne, of "get_batch_size (gt_fetch_size get)"]
      by (simp_all add: after_def)
    moreover have "lp_key p0 \<le> lp_key p"
      using assms(5) by (auto simp: cursor_in_def)
    ultimately have "cursor_in h p0 (ev_log_position (last ?g))"
      by (auto simp: cursor_in_def)
    with step ne False mem_log.after_step(1) [OF log ne, of "get_batch_size (gt_fetch_size get)"]
    show ?thesis
      by (intro exI [of _ "Batch (ms_batch_id_seq (cx_store c)) ?g"] exI [of _ "ev_log_position (last ?g)"])
        (simp add: subscribed_attached)
  qed
next
  case True
  then obtain w where "attached h cid passes p (get_round pb gp ap c)"
    "sent (get_round pb gp ap c) = sent c @ [answer_frame pb passes (Lost p w)]"
    "cx_store (get_round pb gp ap c) = cx_store c"
    using asked_lost [OF assms(1-4)] by blast
  with True assms(5) show ?thesis
    by (intro exI [of _ "Lost p w"] exI [of _ p]) simp
qed

text \<open>A feed leaves the client where it is.\<close>

lemma attached_fed:
  assumes "attached h cid passes p c" and "cursor_in h p0 p" and "served as0 @ after p h = after p0 h"
    and "(\<exists>a \<in> set as0. reports_loss a) \<longrightarrow> cursor_lost (cx_store c) p"
    and "feeds_whole_groups h [Fed evs]" and "d = live_step debug pb gp ap (Fed evs) c"
  shows "attached (h @ evs) cid passes p d" and "cursor_in (h @ evs) p0 p"
    and "served as0 @ after p (h @ evs) = after p0 (h @ evs)"
    and "(\<exists>a \<in> set as0. reports_loss a) \<longrightarrow> cursor_lost (cx_store d) p"
proof -
  have log: "store_log h (cx_store c)"
    using assms(1) by (simp add: attached_def)
  have "sorted (map ev_key (h @ evs))"
    using assms(5) store_log_sorted [OF log] by (fastforce simp: sorted_append)
  then have log': "store_log (h @ evs) (snd (put_batch debug evs (cx_store c)))"
    using put_batch_log_nonempty [OF log, of evs debug] log by (cases "evs = []") auto
  then show "attached (h @ evs) cid passes p d"
    using assms(1) by (simp add: attached_def assms(6))
  show "cursor_in (h @ evs) p0 p"
    using assms(2) by (auto simp: cursor_in_def)
  show "served as0 @ after p (h @ evs) = after p0 (h @ evs)"
    using assms(5) by (intro after_fed [OF assms(2) _ assms(3)]) simp
  show "(\<exists>a \<in> set as0. reports_loss a) \<longrightarrow> cursor_lost (cx_store d) p"
    using assms(4) put_batch_keeps_lost [OF log log'] by (simp add: assms(6))
qed

lemma live_run:
  assumes "attached h cid passes p c" and "cursor_in h p0 p"
    and "served as0 @ after p h = after p0 h"
    and "(\<exists>a \<in> set as0. reports_loss a) \<longrightarrow> cursor_lost (cx_store c) p"
    and "dec_get_request pb (pk_body gp) = Inr get"
    and "\<And>i. \<exists>a. dec_client_ack pb (pk_body (ap i)) = Inr a \<and> cl_batch_id a = i"
    and "\<And>e. e \<in> set (h @ fed steps) \<Longrightarrow> encodable e" and "feeds_whole_groups h steps"
  shows "\<exists>as q. attached (h @ fed steps) cid passes q (fold (live_step debug pb gp ap) steps c)
    \<and> sent (fold (live_step debug pb gp ap) steps c) = sent c @ map (answer_frame pb passes) as
    \<and> length as = asked steps
    \<and> served (as0 @ as) @ after q (h @ fed steps) = after p0 (h @ fed steps)
    \<and> ((\<exists>a \<in> set (as0 @ as). reports_loss a) \<longrightarrow>
        cursor_lost (cx_store (fold (live_step debug pb gp ap) steps c)) q)"
  using assms(1-4,7,8)
proof (induction steps arbitrary: h p c as0)
  case Nil
  then show ?case by (intro exI [of _ "[]"] exI [of _ p]) simp
next
  case (Cons s steps)
  show ?case
  proof (cases s)
    case (Fed evs)
    have "feeds_whole_groups h [Fed evs]"
      using Cons.prems(6) by (simp add: Fed)
    from Cons.IH [OF attached_fed [OF Cons.prems(1-4) this refl]] Cons.prems(5,6) show ?thesis
      by (simp add: Fed)
  next
    case (OtherRead q n)
    let ?c = "live_step debug pb gp ap s c"
    have "attached h cid passes p ?c"
      using Cons.prems(1) get_scan_log by (simp add: attached_def OtherRead)
    moreover have "(\<exists>a \<in> set as0. reports_loss a) \<longrightarrow> cursor_lost (cx_store ?c) p"
      using Cons.prems(4) by (simp add: OtherRead mem_log.fetch_lost)
    ultimately show ?thesis
      using Cons.IH [of h p ?c as0] Cons.prems(2,3,5,6) by (simp add: OtherRead)
  next
    case Asked
    let ?c = "get_round pb gp ap c"
    have enc: "e \<in> set h \<Longrightarrow> encodable e" for e
      using Cons.prems(5) by simp
    obtain a q where a: "attached h cid passes q ?c" "cursor_in h p0 q"
      "sent ?c = sent c @ [answer_frame pb passes a]" "served [a] @ after q h = after p h"
      "if reports_loss a then q = p \<and> cursor_lost (cx_store ?c) q else \<not> cursor_lost (cx_store c) p"
      using asked_step [OF Cons.prems(1) assms(5,6) enc Cons.prems(2)] by metis
    have "served (as0 @ [a]) @ after q h = after p0 h"
      using Cons.prems(3) a(4) by (metis append_assoc served_append)
    moreover have "(\<exists>x \<in> set (as0 @ [a]). reports_loss x) \<longrightarrow> cursor_lost (cx_store ?c) q"
      using Cons.prems(4) a(5) by (auto split: if_splits)
    ultimately obtain as q' where "attached (h @ fed steps) cid passes q' (fold (live_step debug pb gp ap) steps ?c)"
      "sent (fold (live_step debug pb gp ap) steps ?c) = sent ?c @ map (answer_frame pb passes) as"
      "length as = asked steps"
      "served ((as0 @ [a]) @ as) @ after q' (h @ fed steps) = after p0 (h @ fed steps)"
      "(\<exists>x \<in> set ((as0 @ [a]) @ as). reports_loss x) \<longrightarrow>
        cursor_lost (cx_store (fold (live_step debug pb gp ap) steps ?c)) q'"
      using Cons.IH [OF a(1,2), of "as0 @ [a]"] Cons.prems(5,6) Asked by auto
    with a(3) show ?thesis
      by (intro exI [of _ "a # as"] exI [of _ q']) (simp add: Asked)
  qed
qed

text \<open>No silent gap. While the binlog task feeds the store, whole position groups at a time, and
  other clients read it, in any interleaving with the requests of a subscribed client: each request
  is answered with a batch, with the empty batch, or with the report of a loss; the batches, in the
  order sent, followed by what the log has after the client's cursor, are exactly the log after the
  cursor it started with, so no event is skipped, repeated or out of order; and when the cursor has
  not fallen behind the watermark, no loss was ever reported.\<close>

theorem live_subscription:
  assumes "subscribed h cid passes p c" and "dec_get_request pb (pk_body gp) = Inr get"
    and "\<And>i. \<exists>a. dec_client_ack pb (pk_body (ap i)) = Inr a \<and> cl_batch_id a = i"
    and "\<And>e. e \<in> set (h @ fed steps) \<Longrightarrow> encodable e" and "feeds_whole_groups h steps"
    and "c' = fold (live_step debug pb gp ap) steps c"
  shows "\<exists>as q. sent c' = sent c @ map (answer_frame pb passes) as \<and> length as = asked steps
    \<and> st_current_pos (cx_state c') = Some q
    \<and> served as @ after q (h @ fed steps) = after p (h @ fed steps)
    \<and> (cursor_lost (cx_store c') q \<or> (\<forall>a \<in> set as. \<not> reports_loss a))"
proof -
  have "attached h cid passes p c" "cursor_in h p p"
    using assms(1) by (simp_all add: subscribed_attached cursor_in_def)
  from live_run [OF this, of "[]", OF _ _ assms(2,3,4,5), of debug] obtain as q where
    "attached (h @ fed steps) cid passes q c'" "sent c' = sent c @ map (answer_frame pb passes) as"
    "length as = asked steps" "served as @ after q (h @ fed steps) = after p (h @ fed steps)"
    "(\<exists>a \<in> set as. reports_loss a) \<longrightarrow> cursor_lost (cx_store c') q"
    unfolding assms(6) by auto
  then show ?thesis
    by (intro exI [of _ as] exI [of _ q]) (auto simp: attached_def)
qed

text \<open>A client of the sample log is asked once, overtaken by a feed, and asked again.\<close>

lemma live_subscription_witness:
  "\<exists>as q. sent (fold (live_step True (get_prost 1) packet_default
        (\<lambda>i. packet_default\<lparr>pk_body := replicate (unat i) 0\<rparr>))
        [Asked, Fed [sample_event ''b.1'' 4, sample_event ''b.1'' 5], OtherRead (log_position_new ''b.1'' 4) 1, Asked]
        sub_ctx)
      = map (answer_frame (get_prost 1) (session_passes (sessions_get (cx_sessions sub_ctx) ''c1''))) as
    \<and> length as = 2
    \<and> served as @ after q (sample_log @ map (sample_event ''b.1'') [4, 5]) = map (sample_event ''b.1'') [2, 3, 4, 5]"
proof -
  let ?p = "log_position_new ''b.1'' 1"
  let ?steps = "[Asked, Fed [sample_event ''b.1'' 4, sample_event ''b.1'' 5], OtherRead (log_position_new ''b.1'' 4) 1, Asked]"
  have s: "subscribed sample_log ''c1'' (session_passes (sessions_get (cx_sessions sub_ctx) ''c1'')) ?p sub_ctx"
    using sub_ctx_simps(5) by (simp add: subscribed_def sample_store_log)
  have dec: "dec_get_request (get_prost 1) (pk_body packet_default)
      = Inr (get_request_default\<lparr>gt_fetch_size := 1\<rparr>)"
    by (simp add: get_prost_def)
  have ack: "\<exists>x. dec_client_ack (get_prost 1) (pk_body ((\<lambda>i. packet_default\<lparr>pk_body := replicate (unat i) 0\<rparr>) i))
      = Inr x \<and> cl_batch_id x = i" for i :: i64
    by (simp add: get_prost_def)
  have enc: "e \<in> set (sample_log @ fed ?steps) \<Longrightarrow> encodable e" for e
    using sample_log_encodable by (auto simp: encodable_def sample_event_def)
  have whole: "feeds_whole_groups sample_log ?steps"
    by (simp add: sample_log_def)
  have sent0: "sent sub_ctx = []"
    by (simp add: sub_ctx_def sample_ctx_def sample_transport_def)
  have log: "after ?p (sample_log @ fed ?steps) = map (sample_event ''b.1'') [2, 3, 4, 5]"
    "fed ?steps = map (sample_event ''b.1'') [4, 5]" "asked ?steps = 2"
    by (simp_all add: after_def lp_key_new sample_log_def)
  obtain as q where as: "sent (fold (live_step True (get_prost 1) packet_default
        (\<lambda>i. packet_default\<lparr>pk_body := replicate (unat i) 0\<rparr>)) ?steps sub_ctx)
      = map (answer_frame (get_prost 1) (session_passes (sessions_get (cx_sessions sub_ctx) ''c1''))) as"
    "length as = 2" "served as @ after q (sample_log @ fed ?steps) = after ?p (sample_log @ fed ?steps)"
    using live_subscription [OF s dec ack enc whole refl, of True] unfolding sent0 log(3) append_Nil by blast
  show ?thesis
    using as(1,2) as(3) [unfolded log(1), unfolded log(2)] by blast
qed

end
