(* ===== verification/Canal_System.thy ===== *)
theory Canal_System
  imports Canal_Server_Live "HOL-Library.Sublist"
begin

text \<open>
  The server with all of its connections, \<open>serve\<close> and the tasks it spawns (\<open>server.rs\<close> of
  \<open>canal-server\<close>). The store and the session table are shared; every connection is a task with a
  transport, a \<open>ClientState\<close> and a place in \<open>handle_client\<close>. A \<open>Get\<close> does not run through: it
  tests the watermark, then scans the store, once and again at every wake-up, until there is
  something to serve or the time is over, and the other tasks run in between. The theorems show
  that each connection still is a run of \<open>handle_client\<close>, that connections with distinct client
  ids do not disturb each other, and what a client is served while all of this goes on.
\<close>

subsection \<open>The tasks and their steps\<close>

text \<open>
  Where a task is: at the top of its loop; inside \<open>get_batch\<close> for this client id, start and batch
  size, having scanned at least once or not; or at its end.
\<close>

datatype phase = Listening | Fetching string log_position nat bool | Ended "unit canal_result"

record connection =
  cn_transport :: transport
  cn_state :: client_state
  cn_phase :: phase

record server_system =
  ss_server :: canal_server
  ss_status :: serve_status
  ss_conns :: "connection list"

definition system_start :: "canal_server \<Rightarrow> server_system" where
  "system_start s =
     (let (status, s') = serve_start None s in \<lparr>ss_server = s', ss_status = status, ss_conns = []\<rparr>)"

text \<open>A connection together with the shared state.\<close>

definition conn_ctx :: "server_system \<Rightarrow> nat \<Rightarrow> ctx" where
  "conn_ctx sys k =
     \<lparr>cx_transport = cn_transport (ss_conns sys ! k), cx_state = cn_state (ss_conns sys ! k),
      cx_sessions = sr_sessions (ss_server sys), cx_store = sr_store (ss_server sys)\<rparr>"

definition put_ctx :: "nat \<Rightarrow> phase \<Rightarrow> ctx \<Rightarrow> server_system \<Rightarrow> server_system" where
  "put_ctx k ph c sys =
     sys\<lparr>ss_server := (ss_server sys)\<lparr>sr_store := cx_store c, sr_sessions := cx_sessions c\<rparr>,
         ss_conns := (ss_conns sys)
           [k := \<lparr>cn_transport = cx_transport c, cn_state = cx_state c, cn_phase = ph\<rparr>]\<rparr>"

definition serve_turn :: "serve_event \<Rightarrow> server_system \<Rightarrow> server_system" where
  "serve_turn ev sys =
     (let (status, s) = serve_step ev (ss_status sys, ss_server sys)
      in sys\<lparr>ss_status := status, ss_server := s\<rparr>)"

text \<open>What becomes of a task after a turn of its loop.\<close>

definition settle :: "nat \<Rightarrow> control \<times> ctx \<Rightarrow> server_system \<Rightarrow> server_system" where
  "settle k cc sys =
     (case cc of
        (Continue, c) \<Rightarrow> put_ctx k Listening c sys
      | (Break, c) \<Rightarrow> serve_turn (TaskEnded k) (put_ctx k (Ended (Inr ())) (client_exit c) sys)
      | (Return e, c) \<Rightarrow> serve_turn (TaskEnded k) (put_ctx k (Ended (Inl e)) c sys))"

text \<open>
  \<open>handle_get\<close> up to the call of \<open>get_batch\<close>: the handler's result when it returns before, or
  the client id and the arguments of the call.
\<close>

definition begin_get ::
    "prost \<Rightarrow> packet \<Rightarrow> ctx \<Rightarrow> (unit canal_result \<times> ctx) + (string \<times> log_position \<times> nat)" where
  "begin_get pb packet c =
     (case dec_get_request pb (pk_body packet) of
        Inl e \<Rightarrow> Inl (Inl (Protocol (''failed to decode Get: '' @ e)), c)
      | Inr get \<Rightarrow>
          (case st_client_id (cx_state c) of
             None \<Rightarrow> Inl (Inl (Protocol (''not authenticated '' @ em_dash @ '' client_id missing'')), c)
           | Some cid \<Rightarrow>
               (let ack = session_ack (cx_sessions c) cid;
                    start = get_start (st_current_pos (cx_state c)) ack
                in (case get_lost (st_current_pos (cx_state c)) ack (cx_store c) of
                      Some watermark \<Rightarrow> Inl (send_ack_err pb (cursor_lost_error start watermark) c)
                    | None \<Rightarrow> Inr (cid, start, get_batch_size (gt_fetch_size get))))))"

lemma handle_get_begin:
  "handle_get pb env packet c =
     (case begin_get pb packet c of
        Inl rc \<Rightarrow> rc
      | Inr (cid, start, n) \<Rightarrow>
          (let (es, store) = get_batch_wait start n (if_wakes env) (if_store env (cx_store c))
           in serve_batch pb cid es
                (c\<lparr>cx_store := store, cx_sessions := if_sessions env (cx_sessions c)\<rparr>)))"
  by (auto simp: handle_get_def begin_get_def Let_def split: sum.splits option.splits prod.splits)

text \<open>The \<open>Get\<close> among the inputs of an authenticated connection.\<close>

definition arriving_get :: "prost \<Rightarrow> incoming \<Rightarrow> client_state \<Rightarrow> packet option" where
  "arriving_get pb inp st =
     (case inp of
        Frame b \<Rightarrow>
          (if b = [] then None
           else (case dec_packet pb b of
                   Inl _ \<Rightarrow> None
                 | Inr packet \<Rightarrow>
                     (if st_authenticated st \<and> pk_type packet = packet_type_i32 PtGet
                      then Some packet else None)))
      | _ \<Rightarrow> None)"

definition arrive ::
    "prost \<Rightarrow> regex_engine \<Rightarrow> nat \<Rightarrow> timestamp \<Rightarrow> incoming \<Rightarrow> server_system \<Rightarrow> server_system" where
  "arrive pb rx k now inp sys =
     (let c = conn_ctx sys k
      in (case arriving_get pb inp (cx_state c) of
            None \<Rightarrow>
              settle k (client_step pb rx (sr_auth_token (ss_server sys)) now no_interference inp c) sys
          | Some packet \<Rightarrow>
              (case begin_get pb packet (reset_unknown c) of
                 Inl rc \<Rightarrow> settle k (control_of rc) sys
               | Inr (cid, start, n) \<Rightarrow>
                   put_ctx k (Fetching cid start n False) (reset_unknown c) sys)))"

definition scan_turn :: "prost \<Rightarrow> nat \<Rightarrow> string \<Rightarrow> log_position \<Rightarrow> nat \<Rightarrow> server_system \<Rightarrow> server_system" where
  "scan_turn pb k cid start n sys =
     (let c = conn_ctx sys k
      in (case get_scan start n (cx_store c) of
            (Some es, s) \<Rightarrow> settle k (control_of (serve_batch pb cid es (c\<lparr>cx_store := s\<rparr>))) sys
          | (None, s) \<Rightarrow> put_ctx k (Fetching cid start n True) (c\<lparr>cx_store := s\<rparr>) sys))"

definition expire_turn :: "prost \<Rightarrow> nat \<Rightarrow> string \<Rightarrow> server_system \<Rightarrow> server_system" where
  "expire_turn pb k cid sys = settle k (control_of (serve_batch pb cid (events_new 0) (conn_ctx sys k))) sys"

text \<open>
  What can happen next: the binlog task feeds the store; the listener accepts a connection, or
  fails, or is shut down, or the time to wait for the tasks is over; something arrives at a
  connection, or its idle time is over; a waiting read scans, or runs out of time.
\<close>

datatype system_event =
  Feeds "canal_event list"
  | Accepts transport
  | AcceptFails canal_error
  | Cancelled
  | DrainTimeout
  | Arrives nat timestamp incoming
  | Scans nat
  | Expires nat

definition system_step ::
    "bool \<Rightarrow> prost \<Rightarrow> regex_engine \<Rightarrow> system_event \<Rightarrow> server_system \<Rightarrow> server_system" where
  "system_step debug pb rx ev sys =
     (case ev of
        Feeds evs \<Rightarrow> sys\<lparr>ss_server := (ss_server sys)
          \<lparr>sr_store := snd (put_batch debug evs (sr_store (ss_server sys)))\<rparr>\<rparr>
      | Accepts t \<Rightarrow>
          (let k = length (ss_conns sys); sys' = serve_turn (Accepted k) sys
           in if sr_client_tasks (ss_server sys') = sr_client_tasks (ss_server sys) then sys'
              else sys'\<lparr>ss_conns := ss_conns sys
                @ [\<lparr>cn_transport = t, cn_state = client_state_default, cn_phase = Listening\<rparr>]\<rparr>)
      | AcceptFails e \<Rightarrow> serve_turn (AcceptFailed e) sys
      | Cancelled \<Rightarrow> serve_turn ShutdownCancelled sys
      | DrainTimeout \<Rightarrow> serve_turn DrainOver sys
      | Arrives k now inp \<Rightarrow>
          (if k < length (ss_conns sys) \<and> cn_phase (ss_conns sys ! k) = Listening
           then arrive pb rx k now inp sys else sys)
      | Scans k \<Rightarrow>
          (if k < length (ss_conns sys)
           then (case cn_phase (ss_conns sys ! k) of
                   Fetching cid start n _ \<Rightarrow> scan_turn pb k cid start n sys
                 | _ \<Rightarrow> sys)
           else sys)
      | Expires k \<Rightarrow>
          (if k < length (ss_conns sys)
           then (case cn_phase (ss_conns sys ! k) of
                   Fetching cid start n tried \<Rightarrow> (if tried then expire_turn pb k cid sys else sys)
                 | _ \<Rightarrow> sys)
           else sys))"

abbreviation system_run ::
    "bool \<Rightarrow> prost \<Rightarrow> regex_engine \<Rightarrow> system_event list \<Rightarrow> server_system \<Rightarrow> server_system" where
  "system_run debug pb rx evs sys \<equiv> fold (system_step debug pb rx) evs sys"


lemma put_ctx_simps [simp]:
  "length (ss_conns (put_ctx k ph c sys)) = length (ss_conns sys)"
  "j \<noteq> k \<Longrightarrow> ss_conns (put_ctx k ph c sys) ! j = ss_conns sys ! j"
  "k < length (ss_conns sys) \<Longrightarrow> ss_conns (put_ctx k ph c sys) ! k
    = \<lparr>cn_transport = cx_transport c, cn_state = cx_state c, cn_phase = ph\<rparr>"
  "sr_auth_token (ss_server (put_ctx k ph c sys)) = sr_auth_token (ss_server sys)"
  "sr_store (ss_server (put_ctx k ph c sys)) = cx_store c"
  "sr_sessions (ss_server (put_ctx k ph c sys)) = cx_sessions c"
  by (simp_all add: put_ctx_def)

lemma serve_turn_simps [simp]:
  "ss_conns (serve_turn ev sys) = ss_conns sys"
  "sr_auth_token (ss_server (serve_turn ev sys)) = sr_auth_token (ss_server sys)"
  "sr_store (ss_server (serve_turn ev sys)) = sr_store (ss_server sys)"
  "sr_sessions (ss_server (serve_turn ev sys)) = sr_sessions (ss_server sys)"
  by (cases ev; simp add: serve_turn_def serve_step_def Let_def split: prod.splits)+

definition settled_phase :: "control \<Rightarrow> phase" where
  "settled_phase ctl = (case ctl of Continue \<Rightarrow> Listening | Break \<Rightarrow> Ended (Inr ()) | Return e \<Rightarrow> Ended (Inl e))"

lemma settled_phase_simps [simp]:
  "settled_phase Continue = Listening" "settled_phase Break = Ended (Inr ())"
  "settled_phase (Return e) = Ended (Inl e)"
  by (simp_all add: settled_phase_def)

lemma client_exit_simps [simp]:
  "cx_transport (client_exit c) = cx_transport c" "cx_state (client_exit c) = cx_state c"
  "cx_store (client_exit c) = cx_store c"
  by (simp_all add: client_exit_def split: option.splits)

lemma settle_simps [simp]:
  "length (ss_conns (settle k (ctl, c) sys)) = length (ss_conns sys)"
  "j \<noteq> k \<Longrightarrow> ss_conns (settle k (ctl, c) sys) ! j = ss_conns sys ! j"
  "k < length (ss_conns sys) \<Longrightarrow> ss_conns (settle k (ctl, c) sys) ! k
    = \<lparr>cn_transport = cx_transport c, cn_state = cx_state c, cn_phase = settled_phase ctl\<rparr>"
  "sr_auth_token (ss_server (settle k (ctl, c) sys)) = sr_auth_token (ss_server sys)"
  "sr_store (ss_server (settle k (ctl, c) sys)) = cx_store c"
  "sr_sessions (ss_server (settle k (ctl, c) sys))
    = cx_sessions (if ctl = Break then client_exit c else c)"
  by (cases ctl; simp add: settle_def settled_phase_def)+

lemma conn_ctx_put [simp]: "k < length (ss_conns sys) \<Longrightarrow> conn_ctx (put_ctx k ph d sys) k = d"
  by (cases d) (simp add: conn_ctx_def put_ctx_def)

lemma settle_Continue [simp]: "settle k (Continue, d) sys = put_ctx k Listening d sys"
  by (simp add: settle_def)

lemma control_sent [simp]:
  "tr_budget (cx_transport c) = None \<Longrightarrow> control_of (ctx_send b c) = (Continue, snd (ctx_send b c))"
  by (simp add: control_of_def ctx_send_def transport_send_def)

subsection \<open>Each connection is a run of the connection's loop\<close>

lemma client_loop_snoc:
  assumes "client_loop pb rx tok xs c0 = (None, c)"
    and "client_step pb rx tok now env inp c = (ctl, d)"
  shows "client_loop pb rx tok (xs @ [(now, env, inp)]) c0 =
    (case settled_phase ctl of
       Ended r \<Rightarrow> (Some r, if ctl = Break then client_exit d else d) | _ \<Rightarrow> (None, d))"
  using assms
proof (induction xs arbitrary: c0)
  case Nil
  then show ?case by (cases ctl) (simp_all add: settled_phase_def)
next
  case (Cons x xs)
  then show ?case
    by (cases x rule: prod_cases3) (auto split: prod.splits control.splits)
qed

text \<open>The interference that replaces the shared state by what it is in the system.\<close>

definition shared_is :: "mem_store \<times> session_manager \<Rightarrow> interference" where
  "shared_is sh = no_interference\<lparr>if_before := \<lambda>_. sh\<rparr>"

lemma interfere_shared:
  "if_before env = (\<lambda>_. (m, ss)) \<Longrightarrow> interfere env c = c\<lparr>cx_store := m, cx_sessions := ss\<rparr>"
  by (simp add: interfere_def)

lemma client_step_not_get:
  assumes "arriving_get pb inp (cx_state c) = None"
  shows "client_step pb rx tok now env inp c = client_step pb rx tok now no_interference inp (interfere env c)"
  using assms
  by (cases inp) (auto simp: client_step_def arriving_get_def dispatch_def Let_def split: sum.splits if_splits)

lemma client_step_get:
  assumes "arriving_get pb inp (cx_state c) = Some packet"
  shows "client_step pb rx tok now env inp c
    = control_of (handle_get pb env packet (reset_unknown (interfere env c)))"
  using assms
  by (cases inp) (auto simp: client_step_def arriving_get_def dispatch_def Let_def split: sum.splits if_splits)

lemma serve_batch_store:
  "serve_batch pb cid es (c\<lparr>cx_store := s\<rparr>) =
    (fst (serve_batch pb cid es c), (snd (serve_batch pb cid es c))\<lparr>cx_store := s\<rparr>)"
  by (auto simp: serve_batch_def ctx_send_def Let_def split: sum.splits prod.splits)

lemma ctx_swap: "c\<lparr>cx_store := m, cx_sessions := ss\<rparr> = c\<lparr>cx_sessions := ss, cx_store := m\<rparr>"
  for c :: ctx
  by simp

text \<open>A connection that waits in \<open>get_batch\<close>, as a pending input of its loop.\<close>

definition pending :: "prost \<Rightarrow> ctx \<Rightarrow> incoming \<Rightarrow> string \<Rightarrow> log_position \<Rightarrow> nat \<Rightarrow> bool \<Rightarrow> bool" where
  "pending pb c inp cid start n tried \<longleftrightarrow>
     (\<exists>packet m ss ws. arriving_get pb inp (cx_state c) = Some packet
       \<and> begin_get pb packet (reset_unknown (c\<lparr>cx_store := m, cx_sessions := ss\<rparr>)) = Inr (cid, start, n)
       \<and> (\<forall>w \<in> set ws. fst (get_scan start n w) = None) \<and> (tried \<longrightarrow> ws \<noteq> []))"

lemma get_batch_wait_scans:
  assumes "\<forall>w \<in> set ws. fst (get_scan start n w) = None"
  shows "get_batch_wait start n (map (\<lambda>w _. w) (tl (ws @ [s]))) (hd (ws @ [s])) =
    (case get_scan start n s of (Some es, s') \<Rightarrow> (es, s') | (None, s') \<Rightarrow> (events_new 0, s'))"
  using assms
proof (induction ws)
  case (Cons w ws)
  then obtain w' where "get_scan start n w = (None, w')"
    by (metis list.set_intros(1) prod.collapse)
  with Cons show ?case by (cases ws) auto
qed simp

lemma pending_step:
  assumes "pending pb c inp cid start n tried"
    and "(case r of Some es \<Rightarrow> get_scan start n s = (r, s') | None \<Rightarrow> tried)"
  shows "\<exists>env s''. client_step pb rx tok now env inp c =
    control_of (serve_batch pb cid (case r of Some es \<Rightarrow> es | None \<Rightarrow> events_new 0)
      ((reset_unknown c)\<lparr>cx_store := s'', cx_sessions := ss'\<rparr>))"
proof -
  obtain packet m ss ws where p: "arriving_get pb inp (cx_state c) = Some packet"
    "begin_get pb packet (reset_unknown (c\<lparr>cx_store := m, cx_sessions := ss\<rparr>)) = Inr (cid, start, n)"
    and ws: "\<forall>w \<in> set ws. fst (get_scan start n w) = None" "tried \<longrightarrow> ws \<noteq> []"
    using assms(1) by (auto simp: pending_def)
  define vs where "vs = (case r of Some _ \<Rightarrow> ws @ [s] | None \<Rightarrow> ws)"
  define env where "env = \<lparr>if_before = (\<lambda>_. (m, ss)), if_store = (\<lambda>_. hd vs),
    if_wakes = map (\<lambda>w _. w) (tl vs), if_sessions = (\<lambda>_. ss')\<rparr>"
  have "\<exists>s''. get_batch_wait start n (if_wakes env) (if_store env x)
      = (case r of Some es \<Rightarrow> es | None \<Rightarrow> events_new 0, s'')" for x
  proof (cases r)
    case (Some es)
    then show ?thesis
      using assms(2) get_batch_wait_scans [OF ws(1), of s] by (simp add: env_def vs_def)
  next
    case None
    then have "ws \<noteq> []"
      using assms(2) ws(2) by simp
    then obtain us u where u: "ws = us @ [u]"
      by (metis rev_exhaust)
    then have "\<forall>w \<in> set us. fst (get_scan start n w) = None" "fst (get_scan start n u) = None"
      using ws(1) by simp_all
    then show ?thesis
      using get_batch_wait_scans [of us start n u] None
      by (cases "get_scan start n u") (simp add: env_def vs_def u)
  qed
  then obtain s'' where wait: "get_batch_wait start n (if_wakes env)
      (if_store env (cx_store (reset_unknown (interfere env c))))
      = (case r of Some es \<Rightarrow> es | None \<Rightarrow> events_new 0, s'')"
    by blast
  have c: "interfere env c = c\<lparr>cx_store := m, cx_sessions := ss\<rparr>"
    by (rule interfere_shared) (simp add: env_def)
  have "client_step pb rx tok now env inp c =
    control_of (serve_batch pb cid (case r of Some es \<Rightarrow> es | None \<Rightarrow> events_new 0)
      ((reset_unknown (interfere env c))\<lparr>cx_store := s'', cx_sessions := ss'\<rparr>))"
    using wait p(2) unfolding client_step_get [OF p(1)] handle_get_begin c
    by (simp add: env_def)
  then show ?thesis
    by (intro exI [of _ env] exI [of _ s'']) (simp add: c reset_unknown_def)
qed


text \<open>What has arrived at the connection, and what a run of its loop has heard.\<close>

fun arrivals :: "nat \<Rightarrow> system_event list \<Rightarrow> (timestamp \<times> incoming) list" where
  "arrivals k [] = []"
| "arrivals k (Arrives j now inp # evs) = (if j = k then [(now, inp)] else []) @ arrivals k evs"
| "arrivals k (_ # evs) = arrivals k evs"

definition heard :: "(timestamp \<times> interference \<times> incoming) list \<Rightarrow> (timestamp \<times> incoming) list" where
  "heard inputs = map (\<lambda>(now, env, inp). (now, inp)) inputs"

lemma arrivals_append: "arrivals k (xs @ ys) = arrivals k xs @ arrivals k ys"
  by (induction xs rule: arrivals.induct) simp_all

text \<open>
  The loop of \<open>handle_client\<close>, fed some of what arrived, has brought the connection where it is,
  with one more input pending when it waits in \<open>get_batch\<close>.
\<close>

definition explained ::
    "prost \<Rightarrow> regex_engine \<Rightarrow> string option \<Rightarrow> (timestamp \<times> incoming) list \<Rightarrow> transport \<Rightarrow> connection \<Rightarrow> bool" where
  "explained pb rx tok log t cn \<longleftrightarrow>
     (\<exists>inputs m ss r c. handle_client pb rx tok inputs t m ss = (r, c) \<and> cx_transport c = cn_transport cn
       \<and> (case cn_phase cn of
            Listening \<Rightarrow> r = None \<and> cx_state c = cn_state cn \<and> subseq (heard inputs) log
          | Ended res \<Rightarrow> r = Some res \<and> cx_state c = cn_state cn \<and> subseq (heard inputs) log
          | Fetching cid start n tried \<Rightarrow> r = None \<and> cx_state (reset_unknown c) = cn_state cn
              \<and> (\<exists>now inp. pending pb c inp cid start n tried
                   \<and> subseq (heard (inputs @ [(now, no_interference, inp)])) log)))"

lemma subseq_appendD: "subseq (xs @ ys) zs \<Longrightarrow> subseq xs zs"
  by (meson prefixI prefix_imp_subseq subseq_order.order_trans)

lemma explained_more:
  assumes "explained pb rx tok log t cn"
  shows "explained pb rx tok (log @ log') t cn"
proof -
  have "subseq xs log \<Longrightarrow> subseq xs (log @ log')" for xs
    by (meson list_emb_append2 subseq_order.order_refl subseq_order.order_trans subseq_rev_drop_many
        list_emb_prefix)
  then show ?thesis
    using assms unfolding explained_def by (cases "cn_phase cn") (simp_all, blast+)
qed

lemma explained_run:
  assumes "explained pb rx tok log t cn"
  obtains inputs m ss r c where "handle_client pb rx tok inputs t m ss = (r, c)"
    and "subseq (heard inputs) log" and "cx_transport c = cn_transport cn"
    and "cn_state cn = cx_state c \<or> cn_state cn = cx_state (reset_unknown c)"
proof (cases "cn_phase cn")
  case (Fetching cid start n tried)
  then obtain inputs m ss c now inp where "handle_client pb rx tok inputs t m ss = (None, c)"
    "subseq (heard (inputs @ [(now, no_interference, inp)])) log" "cx_transport c = cn_transport cn"
    "cx_state (reset_unknown c) = cn_state cn"
    using assms by (auto simp: explained_def)
  moreover from this(2) have "subseq (heard inputs) log"
    by (auto simp: heard_def dest: subseq_appendD)
  ultimately show ?thesis
    using that by metis
qed (use assms that in \<open>auto simp: explained_def\<close>)

lemma explained_turn:
  assumes "handle_client pb rx tok inputs t m ss = (None, c)"
    and "client_step pb rx tok now env inp c = (ctl, d)"
    and "subseq (heard inputs @ [(now, inp)]) log"
    and "cx_transport d = cx_transport d'" and "cx_state d = cx_state d'"
  shows "explained pb rx tok log t
    \<lparr>cn_transport = cx_transport d', cn_state = cx_state d', cn_phase = settled_phase ctl\<rparr>"
proof -
  define d'' where "d'' = (if ctl = Break then client_exit d else d)"
  define r where "r = (case settled_phase ctl of Ended r \<Rightarrow> Some r | _ \<Rightarrow> None)"
  have "handle_client pb rx tok (inputs @ [(now, env, inp)]) t m ss = (r, d'')"
    using client_loop_snoc [OF assms(1) [unfolded handle_client_def] assms(2)]
    unfolding handle_client_def d''_def r_def by (cases ctl) (simp_all add: settled_phase_def)
  moreover have "cx_transport d'' = cx_transport d'" "cx_state d'' = cx_state d'"
    using assms(4,5) by (simp_all add: d''_def)
  moreover have "subseq (heard (inputs @ [(now, env, inp)])) log"
    using assms(3) by (simp add: heard_def)
  ultimately show ?thesis
    unfolding explained_def
    by (intro exI [of _ "inputs @ [(now, env, inp)]"] exI [of _ m] exI [of _ ss] exI [of _ r] exI [of _ d''])
      (cases ctl; simp add: settled_phase_def r_def)
qed

lemma explained_ctx:
  assumes "explained pb rx tok log t (ss_conns sys ! k)" and "cn_phase (ss_conns sys ! k) = Listening"
  obtains inputs m ss c where "handle_client pb rx tok inputs t m ss = (None, c)"
    and "subseq (heard inputs) log"
    and "conn_ctx sys k = c\<lparr>cx_store := sr_store (ss_server sys), cx_sessions := sr_sessions (ss_server sys)\<rparr>"
proof -
  obtain inputs m ss c where "handle_client pb rx tok inputs t m ss = (None, c)"
    "subseq (heard inputs) log" "cx_transport c = cn_transport (ss_conns sys ! k)"
    "cx_state c = cn_state (ss_conns sys ! k)"
    using assms by (auto simp: explained_def)
  moreover from this(3,4) have "conn_ctx sys k
      = c\<lparr>cx_store := sr_store (ss_server sys), cx_sessions := sr_sessions (ss_server sys)\<rparr>"
    by (cases c) (simp add: conn_ctx_def)
  ultimately show ?thesis
    by (intro that)
qed

lemma explained_waiting:
  assumes "handle_client pb rx tok inputs t m ss = (None, c)" and "pending pb c inp cid start n tried"
    and "subseq (heard inputs @ [(now, inp)]) log"
    and "cx_transport d = cx_transport c" and "cx_state d = cx_state (reset_unknown c)"
  shows "explained pb rx tok log t
    \<lparr>cn_transport = cx_transport d, cn_state = cx_state d, cn_phase = Fetching cid start n tried\<rparr>"
  using assms unfolding explained_def
  by (intro exI [of _ inputs] exI [of _ m] exI [of _ ss] exI [of _ None] exI [of _ c])
    (auto simp: heard_def)

lemma explained_arrive:
  assumes "explained pb rx tok log t (ss_conns sys ! k)" and "cn_phase (ss_conns sys ! k) = Listening"
    and "k < length (ss_conns sys)" and "sr_auth_token (ss_server sys) = tok"
  shows "explained pb rx tok (log @ [(now, inp)]) t (ss_conns (arrive pb rx k now inp sys) ! k)"
proof -
  let ?d = "conn_ctx sys k"
  obtain inputs m ss c where c: "handle_client pb rx tok inputs t m ss = (None, c)"
    "subseq (heard inputs) log"
    "?d = c\<lparr>cx_store := sr_store (ss_server sys), cx_sessions := sr_sessions (ss_server sys)\<rparr>"
    using explained_ctx [OF assms(1,2)] by metis
  define env where "env = shared_is (sr_store (ss_server sys), sr_sessions (ss_server sys))"
  have d: "interfere env c = ?d"
    unfolding c(3) by (rule interfere_shared) (simp add: env_def shared_is_def)
  have sub: "subseq (heard inputs @ [(now, inp)]) (log @ [(now, inp)])"
    using c(2) by (simp add: list_emb_append_mono)
  have st: "cx_state ?d = cx_state c"
    by (simp add: c(3))
  show ?thesis
  proof (cases "arriving_get pb inp (cx_state c)")
    case None
    obtain ctl e where step: "client_step pb rx tok now no_interference inp ?d = (ctl, e)"
      by fastforce
    then have "client_step pb rx tok now env inp c = (ctl, e)"
      using client_step_not_get [OF None] d by simp
    from explained_turn [OF c(1) this sub refl refl] show ?thesis
      using assms(3,4) None step st by (simp add: arrive_def Let_def)
  next
    case (Some packet)
    show ?thesis
    proof (cases "begin_get pb packet (reset_unknown ?d)")
      case (Inl rc)
      obtain ctl e where step: "control_of rc = (ctl, e)"
        by fastforce
      then have "client_step pb rx tok now env inp c = (ctl, e)"
        using client_step_get [OF Some] d Inl by (simp add: handle_get_begin)
      from explained_turn [OF c(1) this sub refl refl] show ?thesis
        using assms(3) Some Inl step st by (simp add: arrive_def Let_def)
    next
      case (Inr x)
      obtain cid start n where x: "x = (cid, start, n)"
        by (metis prod_cases3)
      have "pending pb c inp cid start n False"
        using Some Inr x unfolding pending_def c(3)
        by (intro exI [of _ packet] exI [of _ "sr_store (ss_server sys)"]
            exI [of _ "sr_sessions (ss_server sys)"] exI [of _ "[]"]) simp
      from explained_waiting [OF c(1) this sub, of "reset_unknown ?d"] show ?thesis
        using assms(3) Some Inr x st by (simp add: arrive_def Let_def c(3) reset_unknown_def)
    qed
  qed
qed


text \<open>A connection that waits in \<open>get_batch\<close>, resumed with a batch or, at the time-out, without.\<close>

lemma explained_fetching:
  assumes "explained pb rx tok log t (ss_conns sys ! k)"
    and "cn_phase (ss_conns sys ! k) = Fetching cid start n tried"
  obtains inputs m ss c now inp where "handle_client pb rx tok inputs t m ss = (None, c)"
    and "pending pb c inp cid start n tried" and "subseq (heard inputs @ [(now, inp)]) log"
    and "conn_ctx sys k = (reset_unknown c)
      \<lparr>cx_store := sr_store (ss_server sys), cx_sessions := sr_sessions (ss_server sys)\<rparr>"
proof -
  obtain inputs m ss c now inp where "handle_client pb rx tok inputs t m ss = (None, c)"
    "pending pb c inp cid start n tried" "subseq (heard inputs @ [(now, inp)]) log"
    and c: "cx_transport c = cn_transport (ss_conns sys ! k)"
      "cx_state (reset_unknown c) = cn_state (ss_conns sys ! k)"
    using assms by (auto simp: explained_def heard_def)
  moreover have "conn_ctx sys k = (reset_unknown c)
      \<lparr>cx_store := sr_store (ss_server sys), cx_sessions := sr_sessions (ss_server sys)\<rparr>"
    using c by (cases c) (simp add: conn_ctx_def reset_unknown_def)
  ultimately show ?thesis by (intro that)
qed

lemma explained_serve:
  assumes "explained pb rx tok log t (ss_conns sys ! k)"
    and "cn_phase (ss_conns sys ! k) = Fetching cid start n tried" and "k < length (ss_conns sys)"
    and "case r of Some es \<Rightarrow> get_scan start n (sr_store (ss_server sys)) = (r, s) | None \<Rightarrow> tried"
  shows "explained pb rx tok log t (ss_conns (settle k (control_of (serve_batch pb cid
      (case r of Some es \<Rightarrow> es | None \<Rightarrow> events_new 0) ((conn_ctx sys k)\<lparr>cx_store := s\<rparr>))) sys) ! k)"
proof -
  let ?es = "case r of Some es \<Rightarrow> es | None \<Rightarrow> events_new 0" and ?ss = "sr_sessions (ss_server sys)"
  obtain inputs m ss c now inp where c: "handle_client pb rx tok inputs t m ss = (None, c)"
    "pending pb c inp cid start n tried" "subseq (heard inputs @ [(now, inp)]) log"
    "conn_ctx sys k = (reset_unknown c)\<lparr>cx_store := sr_store (ss_server sys), cx_sessions := ?ss\<rparr>"
    using explained_fetching [OF assms(1,2)] by metis
  obtain env s'' where env: "client_step pb rx tok now env inp c =
      control_of (serve_batch pb cid ?es ((reset_unknown c)\<lparr>cx_store := s'', cx_sessions := ?ss\<rparr>))"
    using pending_step [OF c(2) assms(4)] by metis
  define base where "base = (reset_unknown c)\<lparr>cx_sessions := ?ss\<rparr>"
  obtain res d where base: "serve_batch pb cid ?es base = (res, d)"
    by fastforce
  have "client_step pb rx tok now env inp c = control_of (res, d\<lparr>cx_store := s''\<rparr>)"
    using env serve_batch_store [of pb cid ?es s'' base] base by (simp add: base_def ctx_swap)
  moreover have "serve_batch pb cid ?es ((conn_ctx sys k)\<lparr>cx_store := s\<rparr>) = (res, d\<lparr>cx_store := s\<rparr>)"
    using serve_batch_store [of pb cid ?es s base] base by (simp add: base_def c(4) ctx_swap)
  ultimately show ?thesis
    using explained_turn [OF c(1) _ c(3), of env _ "d\<lparr>cx_store := s''\<rparr>" "d\<lparr>cx_store := s\<rparr>"] assms(3)
    by (cases res) (simp_all add: control_of_def)
qed

lemma explained_scan:
  assumes "explained pb rx tok log t (ss_conns sys ! k)" and "k < length (ss_conns sys)"
    and "cn_phase (ss_conns sys ! k) = Fetching cid start n tried"
  shows "explained pb rx tok log t (ss_conns (scan_turn pb k cid start n sys) ! k)"
proof -
  obtain r s where scan: "get_scan start n (sr_store (ss_server sys)) = (r, s)"
    by fastforce
  have store: "cx_store (conn_ctx sys k) = sr_store (ss_server sys)"
    by (simp add: conn_ctx_def)
  show ?thesis
  proof (cases r)
    case (Some es)
    then show ?thesis
      using explained_serve [OF assms(1,3,2), of "Some es" s] scan
      by (simp add: scan_turn_def store Let_def)
  next
    case None
    obtain inputs m ss c now inp where c: "handle_client pb rx tok inputs t m ss = (None, c)"
      "pending pb c inp cid start n tried" "subseq (heard inputs @ [(now, inp)]) log"
      "conn_ctx sys k = (reset_unknown c)\<lparr>cx_store := sr_store (ss_server sys),
        cx_sessions := sr_sessions (ss_server sys)\<rparr>"
      using explained_fetching [OF assms(1,3)] by metis
    obtain packet m' ss' ws where p: "arriving_get pb inp (cx_state c) = Some packet"
      "begin_get pb packet (reset_unknown (c\<lparr>cx_store := m', cx_sessions := ss'\<rparr>)) = Inr (cid, start, n)"
      "\<forall>w \<in> set ws. fst (get_scan start n w) = None"
      using c(2) by (auto simp: pending_def)
    have "pending pb c inp cid start n True"
      using p scan None unfolding pending_def
      by (intro exI [of _ packet] exI [of _ m'] exI [of _ ss'] exI [of _ "ws @ [sr_store (ss_server sys)]"]) auto
    from explained_waiting [OF c(1) this c(3), of "(conn_ctx sys k)\<lparr>cx_store := s\<rparr>"] show ?thesis
      using scan None assms(2) by (simp add: scan_turn_def store Let_def c(4) reset_unknown_def)
  qed
qed

lemma explained_new:
  "explained pb rx tok log t \<lparr>cn_transport = t, cn_state = client_state_default, cn_phase = Listening\<rparr>"
  by (simp add: explained_def handle_client_def heard_def exI [of _ "[]"])


text \<open>The connection whose task an event is a turn of.\<close>

definition turn_of :: "system_event \<Rightarrow> nat option" where
  "turn_of ev = (case ev of Arrives k _ _ \<Rightarrow> Some k | Scans k \<Rightarrow> Some k | Expires k \<Rightarrow> Some k | _ \<Rightarrow> None)"

lemma settle_pair_simps [simp]:
  "length (ss_conns (settle k cc sys)) = length (ss_conns sys)"
  "j \<noteq> k \<Longrightarrow> ss_conns (settle k cc sys) ! j = ss_conns sys ! j"
  "sr_auth_token (ss_server (settle k cc sys)) = sr_auth_token (ss_server sys)"
  by (cases cc; simp)+

lemma task_turn_simps [simp]:
  "length (ss_conns (arrive pb rx k now inp sys)) = length (ss_conns sys)"
  "length (ss_conns (scan_turn pb k cid start n sys)) = length (ss_conns sys)"
  "length (ss_conns (expire_turn pb k cid sys)) = length (ss_conns sys)"
  "j \<noteq> k \<Longrightarrow> ss_conns (arrive pb rx k now inp sys) ! j = ss_conns sys ! j"
  "j \<noteq> k \<Longrightarrow> ss_conns (scan_turn pb k cid start n sys) ! j = ss_conns sys ! j"
  "j \<noteq> k \<Longrightarrow> ss_conns (expire_turn pb k cid sys) ! j = ss_conns sys ! j"
  "sr_auth_token (ss_server (arrive pb rx k now inp sys)) = sr_auth_token (ss_server sys)"
  "sr_auth_token (ss_server (scan_turn pb k cid start n sys)) = sr_auth_token (ss_server sys)"
  "sr_auth_token (ss_server (expire_turn pb k cid sys)) = sr_auth_token (ss_server sys)"
  by (simp_all add: arrive_def scan_turn_def expire_turn_def Let_def
      split: option.splits sum.splits prod.splits)

lemma system_step_token [simp]:
  "sr_auth_token (ss_server (system_step debug pb rx ev sys)) = sr_auth_token (ss_server sys)"
  by (simp add: system_step_def Let_def split: system_event.splits phase.splits)

lemma system_step_length:
  "length (ss_conns (system_step debug pb rx ev sys)) = length (ss_conns sys)
    \<or> (\<exists>t. ev = Accepts t \<and> ss_conns (system_step debug pb rx ev sys) = ss_conns sys
        @ [\<lparr>cn_transport = t, cn_state = client_state_default, cn_phase = Listening\<rparr>])"
  by (auto simp: system_step_def Let_def split: system_event.splits phase.splits)

lemma system_step_other:
  assumes "turn_of ev \<noteq> Some j" and "j < length (ss_conns sys)"
  shows "ss_conns (system_step debug pb rx ev sys) ! j = ss_conns sys ! j"
  using assms by (auto simp: system_step_def turn_of_def Let_def nth_append
      split: system_event.splits phase.splits)

lemma explained_step:
  assumes "explained pb rx tok log t (ss_conns sys ! k)" and "k < length (ss_conns sys)"
    and "sr_auth_token (ss_server sys) = tok"
  shows "explained pb rx tok (log @ arrivals k [ev]) t (ss_conns (system_step debug pb rx ev sys) ! k)"
proof (cases "turn_of ev = Some k")
  case False
  with assms(1,2) show ?thesis
    by (simp add: system_step_other explained_more)
next
  case True
  then consider (arrive) now inp where "ev = Arrives k now inp" | (scan) "ev = Scans k" | (expire) "ev = Expires k"
    by (cases ev) (auto simp: turn_of_def)
  then show ?thesis
  proof cases
    case arrive
    with assms explained_arrive show ?thesis
      by (auto simp: system_step_def explained_more)
  next
    case scan
    with assms explained_scan [OF assms(1,2)] show ?thesis
      by (auto simp: system_step_def split: phase.splits)
  next
    case expire
    show ?thesis
    proof (cases "\<exists>cid start n. cn_phase (ss_conns sys ! k) = Fetching cid start n True")
      case True
      then obtain cid start n where ph: "cn_phase (ss_conns sys ! k) = Fetching cid start n True"
        by blast
      have "(conn_ctx sys k)\<lparr>cx_store := cx_store (conn_ctx sys k)\<rparr> = conn_ctx sys k"
        by simp
      then show ?thesis
        using explained_serve [OF assms(1) ph assms(2), of None "cx_store (conn_ctx sys k)"] expire ph assms(2)
        by (simp add: system_step_def expire_turn_def)
    next
      case False
      with expire assms(1) show ?thesis
      by (auto simp: system_step_def split: phase.splits)
    qed
  qed
qed

lemma system_run_token [simp]:
  "sr_auth_token (ss_server (system_run debug pb rx evs sys)) = sr_auth_token (ss_server sys)"
  by (induction evs arbitrary: sys) simp_all

lemma system_start_simps [simp]:
  "ss_conns (system_start s) = []" "sr_auth_token (ss_server (system_start s)) = sr_auth_token s"
  "sr_sessions (ss_server (system_start s)) = sr_sessions s"
  by (simp_all add: system_start_def serve_start_def)

lemma system_run_explained:
  assumes "k < length (ss_conns (system_run debug pb rx evs (system_start s)))"
  shows "\<exists>t. Accepts t \<in> set evs \<and> explained pb rx (sr_auth_token s) (arrivals k evs) t
    (ss_conns (system_run debug pb rx evs (system_start s)) ! k)"
  using assms
proof (induction evs rule: rev_induct)
  case (snoc ev evs)
  let ?sys = "system_run debug pb rx evs (system_start s)"
  show ?case
  proof (cases "k < length (ss_conns ?sys)")
    case True
    with snoc.IH obtain t where t: "Accepts t \<in> set evs"
      "explained pb rx (sr_auth_token s) (arrivals k evs) t (ss_conns ?sys ! k)"
      by blast
    from explained_step [OF t(2) True] t(1) show ?thesis
      by (auto simp: arrivals_append)
  next
    case False
    with snoc.prems system_step_length [of debug pb rx ev ?sys] obtain t where t: "ev = Accepts t"
      "ss_conns (system_step debug pb rx ev ?sys) = ss_conns ?sys
        @ [\<lparr>cn_transport = t, cn_state = client_state_default, cn_phase = Listening\<rparr>]"
      by auto
    with snoc.prems False have "k = length (ss_conns ?sys)"
      by simp
    with t show ?thesis
      by (auto simp: explained_new)
  qed
qed simp

text \<open>C6: The server runs its connections side by side, and each as \<open>handle_client\<close> alone. After any
  sequence of feeds, arrivals, scans and time-outs, every connection of the server is where the loop
  of \<open>handle_client\<close> brings it from its accepted socket, on some of the frames that arrived at it
  in their order and under some interference by the others: it has sent the same frames, has the
  same state, and has ended with the same result; a connection waiting for events is inside that
  loop's \<open>get_batch\<close>.\<close>

theorem connections_are_runs:
  assumes "sys = system_run debug pb rx evs (system_start s)" and "k < length (ss_conns sys)"
  shows "\<exists>t. Accepts t \<in> set evs
    \<and> explained pb rx (sr_auth_token s) (arrivals k evs) t (ss_conns sys ! k)"
  using system_run_explained assms by blast

lemma connections_are_runs_witness:
  "explained null_prost literal_engine None [(6, StreamEnd)] sample_transport
    (ss_conns (system_run True null_prost literal_engine [Accepts sample_transport, Arrives 0 6 StreamEnd]
      (system_start (canal_server_new ''127.0.0.1:11111'' sample_store))) ! 0)"
proof -
  have "0 < length (ss_conns (system_run True null_prost literal_engine [Accepts sample_transport, Arrives 0 6 StreamEnd]
      (system_start (canal_server_new ''127.0.0.1:11111'' sample_store))))"
    by (simp add: system_step_def serve_turn_def serve_step_def system_start_def serve_start_def
        canal_server_new_def max_connections_def Let_def)
  from connections_are_runs [OF refl this] show ?thesis
    by (auto simp: canal_server_new_def)
qed

text \<open>C20: On a server with a token, no interleaving of the connections gets data to a client
  that does not present it: whatever the others do, the connection has been answered with error
  acknowledgements only and is not authenticated.\<close>

theorem server_guards_data:
  assumes "sys = system_run debug pb rx evs (system_start s)" and "k < length (ss_conns sys)"
    and "sr_auth_token s = Some token"
    and "\<forall>(now, inp) \<in> set (arrivals k evs). no_credentials pb token inp"
  shows "\<not> st_authenticated (cn_state (ss_conns sys ! k))
    \<and> (\<exists>t. Accepts t \<in> set evs
        \<and> set (tr_sent (cn_transport (ss_conns sys ! k))) \<subseteq> set (tr_sent t) \<union> refusals pb)"
proof -
  obtain t where t: "Accepts t \<in> set evs"
    "explained pb rx (Some token) (arrivals k evs) t (ss_conns sys ! k)"
    using system_run_explained assms(1-3) by metis
  then obtain inputs m ss r c where run: "handle_client pb rx (Some token) inputs t m ss = (r, c)"
    "subseq (heard inputs) (arrivals k evs)" "cx_transport c = cn_transport (ss_conns sys ! k)"
    and "cn_state (ss_conns sys ! k) = cx_state c \<or> cn_state (ss_conns sys ! k) = cx_state (reset_unknown c)"
    by (metis explained_run)
  then have st: "st_authenticated (cn_state (ss_conns sys ! k)) = st_authenticated (cx_state c)"
    by (auto simp: reset_unknown_def)
  have "\<forall>(now, env, inp) \<in> set inputs. no_credentials pb token inp"
  proof (safe)
    fix now env inp
    assume "(now, env, inp) \<in> set inputs"
    then have "(now, inp) \<in> set (heard inputs)"
      by (auto simp: heard_def intro!: image_eqI [of _ _ "(now, env, inp)"])
    then have "(now, inp) \<in> set (arrivals k evs)"
      by (rule list_emb_set [OF run(2)]) simp
    with assms(4) show "no_credentials pb token inp" by blast
  qed
  from unauth_loop [OF _ _ run(1) [unfolded handle_client_def] this] t(1) run(3) st show ?thesis
    by (auto simp: client_state_default_def)
qed


lemma server_guards_data_witness:
  "\<not> st_authenticated (cn_state (ss_conns (system_run True (null_prost\<lparr>dec_packet := \<lambda>_. Inr packet_default\<rparr>) literal_engine
      [Accepts sample_transport, Arrives 0 6 (Frame [1])]
      (system_start (with_auth ''secret'' (canal_server_new ''127.0.0.1:11111'' sample_store)))) ! 0))"
proof -
  let ?pb = "null_prost\<lparr>dec_packet := \<lambda>_. Inr packet_default\<rparr>"
  let ?s = "with_auth ''secret'' (canal_server_new ''127.0.0.1:11111'' sample_store)"
  have token: "sr_auth_token ?s = Some ''secret''"
    by (simp add: with_auth_def trim_is_empty_def all_whitespace.simps whitespace_step_def)
  have open_conn: "0 < length (ss_conns (system_run True ?pb literal_engine
      [Accepts sample_transport, Arrives 0 6 (Frame [1])] (system_start ?s)))"
    by (simp add: system_step_def serve_turn_def serve_step_def system_start_def serve_start_def
        canal_server_new_def with_auth_def max_connections_def Let_def
        del: length_greater_0_conv)
  have creds: "\<forall>(now, inp) \<in> set (arrivals 0 [Accepts sample_transport, Arrives 0 6 (Frame [1])]).
      no_credentials ?pb ''secret'' inp"
    by (simp add: no_credentials_def null_prost_def)
  from server_guards_data [OF refl open_conn token creds] show ?thesis by blast
qed

end
