(* ===== verification/Canal_System_Sessions.thy ===== *)
theory Canal_System_Sessions
  imports Canal_System
begin

text \<open>
  What the connections of one server are to each other. As long as their client ids differ, the
  turns of one connection change neither the state nor the session of another, and no connection
  loses its session while it is open.
\<close>

subsection \<open>The session of another client\<close>

lemma handle_auth_other_session:
  assumes "st_client_id (cx_state (snd (handle_auth pb rx tok now packet c))) \<noteq> Some x"
  shows "sessions_get (cx_sessions (snd (handle_auth pb rx tok now packet c))) x = sessions_get (cx_sessions c) x"
proof -
  have id: "st_client_id (if b then st\<lparr>st_current_pos := p\<rparr> else st) = st_client_id st" for b p and st :: client_state
    by simp
  show ?thesis
    using assms by (auto simp: handle_auth_def auth_accept_def Let_def id server_simps split: sum.splits)
qed

lemma handler_other_session:
  fixes x :: string
  shows "st_client_id (cx_state (snd (handle_sub pb rx now packet c))) \<noteq> Some x \<Longrightarrow>
      sessions_get (cx_sessions (snd (handle_sub pb rx now packet c))) x = sessions_get (cx_sessions c) x"
    and "st_client_id (cx_state c) \<noteq> Some x \<Longrightarrow>
      sessions_get (cx_sessions (handle_client_ack pb packet c)) x = sessions_get (cx_sessions c) x"
    and "st_client_id (cx_state c) \<noteq> Some x \<Longrightarrow>
      sessions_get (cx_sessions (snd (handle_heartbeat pb now c))) x = sessions_get (cx_sessions c) x"
    and "cx_sessions (snd (handle_get pb no_interference packet c)) = cx_sessions c"
    and "cx_sessions (handle_client_rollback pb packet c) = cx_sessions c"
    and "cx_sessions (snd (handle_unknown c)) = cx_sessions c"
    and "cx_sessions (reset_unknown c) = cx_sessions c"
    and "st_client_id (cx_state (reset_unknown c)) = st_client_id (cx_state c)"
  using handle_get_sessions [of pb no_interference packet c]
  by (auto simp: handle_sub_def handle_client_ack_def handle_heartbeat_def
      handle_client_rollback_def handle_unknown_def reset_unknown_def no_interference_def Let_def server_simps
      split: sum.splits option.splits)

lemma handler_store [simp]:
  "cx_store (snd (handle_auth pb rx tok now packet c)) = cx_store c"
  "cx_store (snd (handle_sub pb rx now packet c)) = cx_store c"
  "cx_store (handle_client_ack pb packet c) = cx_store c"
  "cx_store (snd (handle_heartbeat pb now c)) = cx_store c"
  "cx_store (handle_client_rollback pb packet c) = cx_store c"
  "cx_store (snd (handle_unknown c)) = cx_store c"
  "cx_store (reset_unknown c) = cx_store c"
  by (auto simp: handle_auth_def auth_accept_def handle_sub_def handle_client_ack_def handle_heartbeat_def
      handle_client_rollback_def handle_unknown_def reset_unknown_def Let_def
      split: sum.splits option.splits)

lemma client_step_other_session:
  assumes "client_step pb rx tok now no_interference inp c = (ctl, d)"
    and "st_client_id (cx_state c) \<noteq> Some x" and "st_client_id (cx_state d) \<noteq> Some x"
  shows "sessions_get (cx_sessions d) x = sessions_get (cx_sessions c) x"
proof -
  have d: "d = snd (client_step pb rx tok now no_interference inp c)"
    using assms(1) by simp
  show ?thesis
    using assms(2,3) handle_auth_other_session [of pb rx tok now _ c x]
      handler_other_session(1) [of pb rx now _ "reset_unknown c" x] unfolding d
    by (cases inp) (auto simp: client_step_def dispatch_def Let_def handler_other_session split: sum.splits)
qed

lemma client_step_store:
  assumes "client_step pb rx tok now no_interference inp c = (ctl, d)"
    and "arriving_get pb inp (cx_state c) = None"
  shows "cx_store d = cx_store c"
proof -
  have d: "d = snd (client_step pb rx tok now no_interference inp c)"
    using assms(1) by simp
  show ?thesis
    using assms(2) unfolding d
    by (cases inp) (auto simp: client_step_def dispatch_def arriving_get_def Let_def split: sum.splits if_splits)
qed

lemma begin_get_Inl:
  assumes "begin_get pb packet c = Inl (r, d)"
  shows "cx_store d = cx_store c" and "cx_sessions d = cx_sessions c" and "cx_state d = cx_state c"
  using assms by (auto simp: begin_get_def Let_def split: sum.splits option.splits
      dest!: arg_cong [of _ _ snd])


lemma client_exit_other_session:
  "st_client_id (cx_state c) \<noteq> Some x \<Longrightarrow>
    sessions_get (cx_sessions (client_exit c)) x = sessions_get (cx_sessions c) x"
  by (auto simp: client_exit_def server_simps split: option.splits)

subsection \<open>Turns of other connections\<close>

abbreviation conn_id :: "server_system \<Rightarrow> nat \<Rightarrow> string option" where
  "conn_id sys k \<equiv> st_client_id (cn_state (ss_conns sys ! k))"

abbreviation sys_store :: "server_system \<Rightarrow> mem_store" where
  "sys_store sys \<equiv> sr_store (ss_server sys)"

abbreviation sys_session :: "server_system \<Rightarrow> string \<Rightarrow> client_session option" where
  "sys_session sys cid \<equiv> sessions_get (sr_sessions (ss_server sys)) cid"

text \<open>The event is not a turn of another connection that has this client id, before it or after.\<close>

definition keeps_off ::
    "bool \<Rightarrow> prost \<Rightarrow> regex_engine \<Rightarrow> nat \<Rightarrow> string \<Rightarrow> system_event \<Rightarrow> server_system \<Rightarrow> bool" where
  "keeps_off debug pb rx k cid ev sys \<longleftrightarrow>
     (case turn_of ev of
        None \<Rightarrow> True
      | Some j \<Rightarrow> j = k \<or> length (ss_conns sys) \<le> j
          \<or> (conn_id sys j \<noteq> Some cid \<and> conn_id (system_step debug pb rx ev sys) j \<noteq> Some cid))"

lemma conn_ctx_simps [simp]:
  "cx_state (conn_ctx sys k) = cn_state (ss_conns sys ! k)"
  "cx_transport (conn_ctx sys k) = cn_transport (ss_conns sys ! k)"
  "cx_sessions (conn_ctx sys k) = sr_sessions (ss_server sys)"
  "cx_store (conn_ctx sys k) = sr_store (ss_server sys)"
  by (simp_all add: conn_ctx_def)

lemma settle_session:
  assumes "j < length (ss_conns sys)" and "conn_id (settle j (ctl, d) sys) j \<noteq> Some x"
  shows "sys_session (settle j (ctl, d) sys) x = sessions_get (cx_sessions d) x"
  using assms by (auto simp: client_exit_other_session)

lemma arrive_cases:
  obtains (turn) ctl d where "arriving_get pb inp (cx_state (conn_ctx sys j)) = None"
      "client_step pb rx (sr_auth_token (ss_server sys)) now no_interference inp (conn_ctx sys j) = (ctl, d)"
      "arrive pb rx j now inp sys = settle j (ctl, d) sys"
  | (refused) packet r ctl d where "begin_get pb packet (reset_unknown (conn_ctx sys j)) = Inl (r, d)"
      "arrive pb rx j now inp sys = settle j (ctl, d) sys"
  | (waits) packet cid start n where
      "begin_get pb packet (reset_unknown (conn_ctx sys j)) = Inr (cid, start, n)"
      "arrive pb rx j now inp sys = put_ctx j (Fetching cid start n False) (reset_unknown (conn_ctx sys j)) sys"
proof (cases "arriving_get pb inp (cx_state (conn_ctx sys j))")
  case None
  then show thesis
    by (cases "client_step pb rx (sr_auth_token (ss_server sys)) now no_interference inp (conn_ctx sys j)")
      (rule turn, simp_all add: arrive_def)
next
  case (Some packet)
  show thesis
  proof (cases "begin_get pb packet (reset_unknown (conn_ctx sys j))")
    case (Inl rc)
    obtain r d where rc: "rc = (r, d)" by fastforce
    then obtain ctl where "control_of rc = (ctl, d)"
      by (cases r) (simp_all add: control_of_def)
    with Some Inl rc show thesis
      by (intro refused [of packet r d ctl]) (simp_all add: arrive_def)
  next
    case (Inr y)
    then show thesis
      using Some by (cases y) (rule waits, simp_all add: arrive_def)
  qed
qed

lemma arrive_store [simp]: "sys_store (arrive pb rx j now inp sys) = sys_store sys"
  by (rule arrive_cases [of pb inp sys j rx now]) (simp_all add: client_step_store begin_get_Inl)

lemma arrive_other:
  assumes "j < length (ss_conns sys)" and "conn_id sys j \<noteq> Some x"
    and "conn_id (arrive pb rx j now inp sys) j \<noteq> Some x"
  shows "sys_session (arrive pb rx j now inp sys) x = sys_session sys x"
proof (rule arrive_cases [of pb inp sys j rx now])
  fix ctl d
  assume step: "client_step pb rx (sr_auth_token (ss_server sys)) now no_interference inp (conn_ctx sys j) = (ctl, d)"
    and a: "arrive pb rx j now inp sys = settle j (ctl, d) sys"
  then have "st_client_id (cx_state d) \<noteq> Some x"
    using assms(1,3) by simp
  with assms(1,2) settle_session [OF assms(1) assms(3) [unfolded a]] client_step_other_session [OF step, of x]
  show ?thesis by (simp add: a)
next
  fix packet r ctl d
  assume "begin_get pb packet (reset_unknown (conn_ctx sys j)) = Inl (r, d)"
    and a: "arrive pb rx j now inp sys = settle j (ctl, d) sys"
  then show ?thesis
    using settle_session [OF assms(1) assms(3) [unfolded a]]
    by (simp add: a begin_get_Inl handler_other_session)
qed (simp add: handler_other_session)

lemma control_of_not_Break [simp]: "control_of rc \<noteq> (Break, d)" "fst (control_of rc) \<noteq> Break"
  by (auto simp: control_of_def split: prod.splits sum.splits)

lemma settle_control_shared [simp]:
  "sr_sessions (ss_server (settle j (control_of rc) sys)) = cx_sessions (snd rc)"
  "sr_store (ss_server (settle j (control_of rc) sys)) = cx_store (snd rc)"
  by (cases rc; cases "fst rc"; simp add: control_of_def)+

lemma scan_turn_shared [simp]:
  "sr_sessions (ss_server (scan_turn pb j cid start n sys)) = sr_sessions (ss_server sys)"
  "sys_store (scan_turn pb j cid start n sys) = snd (get_scan start n (sys_store sys))"
  by (simp_all add: scan_turn_def Let_def serve_batch_state split: prod.splits option.splits)

lemma expire_turn_shared [simp]:
  "sr_sessions (ss_server (expire_turn pb j cid sys)) = sr_sessions (ss_server sys)"
  "sys_store (expire_turn pb j cid sys) = sys_store sys"
  by (simp_all add: expire_turn_def serve_batch_state)

text \<open>What a sequence of events feeds.\<close>

fun feeds_of :: "system_event list \<Rightarrow> canal_event list" where
  "feeds_of [] = []"
| "feeds_of (Feeds es # evs) = es @ feeds_of evs"
| "feeds_of (_ # evs) = feeds_of evs"

lemma feeds_of_Cons: "feeds_of (ev # evs) = feeds_of [ev] @ feeds_of evs"
  by (cases ev) simp_all

text \<open>Another event than a feed changes the store at most as a read of it.\<close>

lemma system_step_store:
  assumes "\<And>evs. ev \<noteq> Feeds evs"
  shows "sys_store (system_step debug pb rx ev sys) = sys_store sys
    \<or> (\<exists>q n. sys_store (system_step debug pb rx ev sys) = snd (get_scan q n (sys_store sys)))"
  using assms by (cases ev) (auto simp: system_step_def Let_def split: phase.splits)

lemma step_other:
  assumes "keeps_off debug pb rx k cid ev sys" and "turn_of ev \<noteq> Some k"
  shows "sys_session (system_step debug pb rx ev sys) cid = sys_session sys cid"
proof (cases ev)
  case (Arrives j now inp)
  then show ?thesis
    using assms arrive_other [of j sys cid pb rx now inp]
    by (auto simp: keeps_off_def turn_of_def system_step_def)
qed (auto simp: system_step_def Let_def split: phase.splits)

lemma system_run_log:
  assumes "store_log h (sys_store sys)" and "sorted (map ev_key (h @ feeds_of evs))"
  shows "store_log (h @ feeds_of evs) (sys_store (system_run debug pb rx evs sys))"
  using assms
proof (induction evs arbitrary: h sys)
  case (Cons ev evs)
  let ?sys = "system_step debug pb rx ev sys"
  have "store_log (h @ feeds_of [ev]) (sys_store ?sys)"
  proof (cases "\<exists>es. ev = Feeds es")
    case True
    then obtain es where ev: "ev = Feeds es" by blast
    then have "sorted (map ev_key (h @ es))"
      using Cons.prems(2) by (simp add: sorted_append)
    then show ?thesis
      using put_batch_log_nonempty [OF Cons.prems(1), of es debug] Cons.prems(1)
      by (cases "es = []") (auto simp: ev system_step_def)
  next
    case False
    then have "feeds_of [ev] = []"
      by (cases ev) auto
    with False Cons.prems(1) system_step_store [of ev debug pb rx sys] get_scan_log show ?thesis
      by auto
  qed
  with Cons.IH [OF this] Cons.prems(2) feeds_of_Cons [of ev evs] show ?case
    by simp
qed simp


fun kept_off ::
    "bool \<Rightarrow> prost \<Rightarrow> regex_engine \<Rightarrow> nat \<Rightarrow> string \<Rightarrow> system_event list \<Rightarrow> server_system \<Rightarrow> bool" where
  "kept_off debug pb rx k cid [] sys = True"
| "kept_off debug pb rx k cid (ev # evs) sys \<longleftrightarrow>
     keeps_off debug pb rx k cid ev sys \<and> kept_off debug pb rx k cid evs (system_step debug pb rx ev sys)"

text \<open>C9: Connections with distinct client ids are isolated. However many turns the other
  connections take, whatever arrives at them and however they end: a connection that takes no turn
  meanwhile keeps its transport and its state, and its client id keeps its session with filter and
  acknowledged position, as long as no other connection goes by that client id.\<close>

theorem connections_isolated:
  assumes "k < length (ss_conns sys)" and "kept_off debug pb rx k cid evs sys"
    and "\<forall>ev \<in> set evs. turn_of ev \<noteq> Some k"
  shows "ss_conns (system_run debug pb rx evs sys) ! k = ss_conns sys ! k
    \<and> sys_session (system_run debug pb rx evs sys) cid = sys_session sys cid"
  using assms
proof (induction evs arbitrary: sys)
  case (Cons ev evs)
  let ?sys = "system_step debug pb rx ev sys"
  have "k < length (ss_conns ?sys)"
    using system_step_length [of debug pb rx ev sys] Cons.prems(1) by auto
  with Cons.IH [of ?sys] Cons.prems step_other [of debug pb rx k cid ev sys] show ?case
    by (simp add: system_step_other)
qed simp

text \<open>A server with one connection that polls from position 2 of the sample log.\<close>

definition polling_prost :: prost where
  "polling_prost = (get_prost 1)\<lparr>dec_packet := \<lambda>_. Inr (packet_default\<lparr>pk_type := packet_type_i32 PtGet\<rparr>)\<rparr>"

definition polled_system :: server_system where
  "polled_system =
     \<lparr>ss_server = (canal_server_new ''127.0.0.1:11111'' sample_store)\<lparr>sr_sessions := cx_sessions sub_ctx\<rparr>,
      ss_status = Serving,
      ss_conns = [\<lparr>cn_transport = sample_transport,
        cn_state = (cx_state sub_ctx)\<lparr>st_current_pos := Some (log_position_new ''b.1'' 2)\<rparr>, cn_phase = Listening\<rparr>]\<rparr>"


lemma connections_isolated_witness:
  "sys_session (system_run True polling_prost literal_engine
      [Accepts sample_transport, Arrives 1 6 StreamEnd, Feeds [sample_event ''b.1'' 4]] polled_system) ''c1''
    = sys_session polled_system ''c1''"
proof -
  let ?evs = "[Accepts sample_transport, Arrives 1 6 StreamEnd, Feeds [sample_event ''b.1'' 4]]"
  have k: "0 < length (ss_conns polled_system)"
    by (simp add: polled_system_def)
  have off: "kept_off True polling_prost literal_engine 0 ''c1'' ?evs polled_system"
    by (simp add: keeps_off_def turn_of_def system_step_def polled_system_def serve_turn_def serve_step_def
        canal_server_new_def arrive_def arriving_get_def client_step_def conn_ctx_def settle_def put_ctx_def
        client_exit_def client_state_default_def max_connections_def Let_def)
  have turns: "\<forall>ev \<in> set ?evs. turn_of ev \<noteq> Some 0"
    by (simp add: turn_of_def)
  from connections_isolated [OF k off turns] show ?thesis by blast
qed


subsection \<open>No session is lost while its connection is open\<close>

definition is_open :: "connection \<Rightarrow> bool" where
  "is_open cn \<longleftrightarrow> (case cn_phase cn of Ended _ \<Rightarrow> False | _ \<Rightarrow> True)"

definition distinct_ids :: "server_system \<Rightarrow> bool" where
  "distinct_ids sys \<longleftrightarrow>
     (\<forall>i < length (ss_conns sys). \<forall>j < length (ss_conns sys). i \<noteq> j \<and> is_open (ss_conns sys ! i)
        \<and> is_open (ss_conns sys ! j) \<and> conn_id sys i = conn_id sys j \<longrightarrow> conn_id sys i = None)"

definition sessions_present :: "server_system \<Rightarrow> bool" where
  "sessions_present sys \<longleftrightarrow>
     (\<forall>k < length (ss_conns sys). is_open (ss_conns sys ! k) \<longrightarrow>
        (\<forall>cid. conn_id sys k = Some cid \<longrightarrow> sys_session sys cid \<noteq> None))"

lemma client_step_registers:
  assumes "client_step pb rx tok now no_interference inp c = (ctl, d)"
    and "st_client_id (cx_state c) \<noteq> Some x" and "st_client_id (cx_state d) = Some x"
  shows "sessions_get (cx_sessions d) x \<noteq> None"
proof -
  have d: "d = snd (client_step pb rx tok now no_interference inp c)"
    using assms(1) by simp
  have id: "st_client_id (if b then st\<lparr>st_current_pos := p\<rparr> else st) = st_client_id st" for b p and st :: client_state
    by simp
  have auth: "st_client_id (cx_state (snd (handle_auth pb rx tok now packet c))) = Some x \<Longrightarrow>
      sessions_get (cx_sessions (snd (handle_auth pb rx tok now packet c))) x \<noteq> None" for packet
    using assms(2) by (auto simp: handle_auth_def auth_accept_def Let_def id server_simps split: sum.splits if_splits)
  have sub: "st_client_id (cx_state (snd (handle_sub pb rx now packet (reset_unknown c)))) = Some x \<Longrightarrow>
      sessions_get (cx_sessions (snd (handle_sub pb rx now packet (reset_unknown c)))) x \<noteq> None" for packet
    using assms(2) by (auto simp: handle_sub_def reset_unknown_def Let_def server_simps split: sum.splits if_splits)
  have same: "st_client_id (cx_state (snd (handle_get pb env packet (reset_unknown c)))) = st_client_id (cx_state c)"
    "st_client_id (cx_state (handle_client_ack pb packet (reset_unknown c))) = st_client_id (cx_state c)"
    "st_client_id (cx_state (handle_client_rollback pb packet (reset_unknown c))) = st_client_id (cx_state c)"
    "st_client_id (cx_state (snd (handle_heartbeat pb now (reset_unknown c)))) = st_client_id (cx_state c)"
    "st_client_id (cx_state (snd (handle_unknown c))) = st_client_id (cx_state c)" for packet env
    by (cases rule: handle_get_state [of pb env packet "reset_unknown c"])
      (auto simp: handler_other_session handle_client_ack_def handle_client_rollback_def handle_heartbeat_def
        handle_unknown_def reset_unknown_def Let_def split: sum.splits option.splits)
  show ?thesis
    using assms(2,3) auth sub unfolding d
    by (cases inp) (auto simp: client_step_def dispatch_def Let_def same split: sum.splits if_splits)
qed


lemma client_step_Break:
  assumes "client_step pb rx tok now no_interference inp c = (Break, d)"
  shows "d = c"
proof -
  have "fst (dispatch pb rx tok now no_interference packet c) \<noteq> Break" for packet
    by (simp add: dispatch_def Let_def handle_unknown_def)
  with assms show ?thesis
    by (cases inp) (auto simp: client_step_def Let_def split: if_splits sum.splits dest!: arg_cong [of _ _ fst])
qed

lemma arrive_present:
  assumes "j < length (ss_conns sys)"
    and "sys_session sys x \<noteq> None \<or> conn_id sys j \<noteq> Some x \<and> conn_id (arrive pb rx j now inp sys) j = Some x"
    and "is_open (ss_conns (arrive pb rx j now inp sys) ! j) \<or> conn_id sys j \<noteq> Some x"
  shows "sys_session (arrive pb rx j now inp sys) x \<noteq> None"
proof -
  let ?c = "conn_ctx sys j"
  show ?thesis
  proof (cases "arriving_get pb inp (cx_state ?c)")
    case None
    obtain ctl d where step:
      "client_step pb rx (sr_auth_token (ss_server sys)) now no_interference inp ?c = (ctl, d)"
      by fastforce
    have a: "arrive pb rx j now inp sys = settle j (ctl, d) sys"
      using None step by (simp add: arrive_def)
    have d: "sessions_get (cx_sessions d) x \<noteq> None"
    proof (cases "sys_session sys x = None")
      case True
      with assms(1,2) have "conn_id sys j \<noteq> Some x" "st_client_id (cx_state d) = Some x"
        by (simp_all add: a)
      with client_step_registers [OF step] show ?thesis by simp
    next
      case False
      with client_step_keeps_session [of no_interference ?c x pb rx "sr_auth_token (ss_server sys)" now inp] step
      show ?thesis by (simp add: no_interference_def)
    qed
    moreover have "st_client_id (cx_state d) \<noteq> Some x" if "ctl = Break"
      using that step client_step_Break [of pb rx "sr_auth_token (ss_server sys)" now inp ?c d] assms(1,3)
      by (simp add: a is_open_def settled_phase_def)
    ultimately show ?thesis
      by (auto simp: a client_exit_other_session)
  next
    case (Some packet)
    show ?thesis
    proof (cases "begin_get pb packet (reset_unknown ?c)")
      case (Inl rc)
      obtain r d where rc: "rc = (r, d)"
        by fastforce
      have "cx_sessions d = sr_sessions (ss_server sys)" "cx_state d = cx_state (reset_unknown ?c)"
        using begin_get_Inl [of pb packet "reset_unknown ?c" r d] Inl rc by (simp_all add: handler_other_session)
      moreover obtain ctl where "control_of rc = (ctl, d)"
        by (cases r) (simp_all add: rc control_of_def)
      ultimately show ?thesis
        using assms(1,2) Some Inl rc by (auto simp: arrive_def handler_other_session)
    next
      case (Inr y)
      with assms(1,2) Some show ?thesis
        by (cases y) (auto simp: arrive_def handler_other_session)
    qed
  qed
qed


lemma settle_conn_control:
  "j < length (ss_conns sys) \<Longrightarrow> cn_state (ss_conns (settle j (control_of rc) sys) ! j) = cx_state (snd rc)"
  by (cases rc; cases "fst rc"; simp add: control_of_def)

lemma read_turn_id [simp]:
  assumes "j < length (ss_conns sys)"
  shows "conn_id (scan_turn pb j cid start n sys) j = conn_id sys j"
    and "conn_id (expire_turn pb j cid sys) j = conn_id sys j"
  using assms
  by (auto simp: scan_turn_def expire_turn_def Let_def settle_conn_control serve_batch_state
      split: prod.splits option.splits)

lemma arrive_present_all:
  assumes "sessions_present sys" and "distinct_ids sys"
    and "j < length (ss_conns sys)" and "cn_phase (ss_conns sys ! j) = Listening"
  shows "sessions_present (arrive pb rx j now inp sys)"
  unfolding sessions_present_def
proof (intro allI impI)
  fix k cid
  let ?sys = "arrive pb rx j now inp sys"
  assume k: "k < length (ss_conns ?sys)" "is_open (ss_conns ?sys ! k)" "conn_id ?sys k = Some cid"
  have j: "is_open (ss_conns sys ! j)"
    using assms(4) by (simp add: is_open_def)
  show "sys_session ?sys cid \<noteq> None"
  proof (cases "k = j")
    case True
    have "conn_id sys j = Some cid \<Longrightarrow> sys_session sys cid \<noteq> None"
      using assms(1,3) j unfolding sessions_present_def by blast
    with k True show ?thesis
      by (intro arrive_present [OF assms(3)]) auto
  next
    case False
    then have same: "k < length (ss_conns sys)" "is_open (ss_conns sys ! k)" "conn_id sys k = Some cid"
      using k by simp_all
    then have "sys_session sys cid \<noteq> None"
      using assms(1) unfolding sessions_present_def by blast
    moreover have "conn_id sys j \<noteq> Some cid"
      using assms(2,3) same j False unfolding distinct_ids_def by (metis option.distinct(1))
    ultimately show ?thesis
      by (intro arrive_present [OF assms(3)]) auto
  qed
qed

lemma read_turn_present:
  assumes "sessions_present sys" and "j < length (ss_conns sys)" and "is_open (ss_conns sys ! j)"
  shows "sessions_present (scan_turn pb j cid start n sys)"
    and "sessions_present (expire_turn pb j cid sys)"
  using assms unfolding sessions_present_def
  by (simp_all, (metis read_turn_id(1) task_turn_simps(5), metis read_turn_id(2) task_turn_simps(6)))

lemma sessions_present_step:
  assumes "sessions_present sys" and "distinct_ids sys"
  shows "sessions_present (system_step debug pb rx ev sys)"
proof (cases ev)
  case (Accepts t)
  have "ss_conns (system_step debug pb rx ev sys) = ss_conns sys \<or> ss_conns (system_step debug pb rx ev sys)
      = ss_conns sys @ [\<lparr>cn_transport = t, cn_state = client_state_default, cn_phase = Listening\<rparr>]"
    by (simp add: system_step_def Accepts Let_def)
  moreover have "sr_sessions (ss_server (system_step debug pb rx ev sys)) = sr_sessions (ss_server sys)"
    by (simp add: system_step_def Accepts Let_def)
  ultimately show ?thesis
    using assms(1) by (auto simp: sessions_present_def nth_append client_state_default_def less_Suc_eq)
next
  case (Arrives j now inp)
  with assms show ?thesis
    by (simp add: system_step_def arrive_present_all)
next
  case (Scans j)
  with assms(1) show ?thesis
    by (auto simp: system_step_def is_open_def intro!: read_turn_present split: phase.splits)
next
  case (Expires j)
  with assms(1) show ?thesis
    by (auto simp: system_step_def is_open_def intro!: read_turn_present split: phase.splits)
qed (use assms(1) in \<open>simp_all add: system_step_def sessions_present_def\<close>)

lemma sessions_present_run:
  assumes "\<forall>i \<le> length evs. distinct_ids (system_run debug pb rx (take i evs) (system_start s))"
  shows "sessions_present (system_run debug pb rx evs (system_start s))"
  using assms
proof (induction evs rule: rev_induct)
  case Nil
  then show ?case by (simp add: sessions_present_def)
next
  case (snoc ev evs)
  have "distinct_ids (system_run debug pb rx (take i evs) (system_start s))" if "i \<le> length evs" for i
    using spec [OF snoc.prems, of i] that by simp
  from snoc.IH this this [of "length evs"] have
    "sessions_present (system_run debug pb rx evs (system_start s))"
    "distinct_ids (system_run debug pb rx evs (system_start s))"
    by auto
  then show ?case
    by (simp add: sessions_present_step)
qed

text \<open>C10: The server's filters do not fail open. As long as no two open connections go by the
  same client id, every open connection that has an identity has its session in the table, at every
  moment of every interleaving of connections, disconnections, errors and reads. So no client is
  ever served with a missing filter, and no acknowledgement of its last batch is dropped.\<close>

theorem sessions_never_missing:
  assumes "\<forall>i \<le> length evs. distinct_ids (system_run debug pb rx (take i evs) (system_start s))"
    and "sys = system_run debug pb rx evs (system_start s)"
    and "k < length (ss_conns sys)" and "is_open (ss_conns sys ! k)" and "conn_id sys k = Some cid"
  shows "sys_session sys cid \<noteq> None"
  using sessions_present_run [OF assms(1)] assms(2-5) unfolding sessions_present_def by blast


text \<open>The first connection of a server, which authenticates.\<close>

lemma sessions_never_missing_witness:
  "sys_session (system_run True (null_prost\<lparr>dec_packet := \<lambda>_. Inr (packet_default
        \<lparr>pk_type := packet_type_i32 PtClientauthentication\<rparr>), dec_client_auth := \<lambda>_. Inr sample_auth\<rparr>)
      literal_engine [Accepts sample_transport, Arrives 0 6 (Frame [1])]
      (system_start (canal_server_new ''127.0.0.1:11111'' sample_store))) ''c1'' \<noteq> None"
proof -
  let ?pb = "null_prost\<lparr>dec_packet := \<lambda>_. Inr (packet_default
      \<lparr>pk_type := packet_type_i32 PtClientauthentication\<rparr>), dec_client_auth := \<lambda>_. Inr sample_auth\<rparr>"
  let ?evs = "[Accepts sample_transport, Arrives 0 6 (Frame [1])]"
  let ?start = "system_start (canal_server_new ''127.0.0.1:11111'' sample_store)"
  let ?sys = "system_run True ?pb literal_engine ?evs ?start"
  have one: "length (ss_conns (system_step True ?pb literal_engine (Arrives 0 6 (Frame [1])) sys)) = length (ss_conns sys)"
    for sys
    by (simp add: system_step_def)
  have accepted: "system_step True ?pb literal_engine (Accepts sample_transport) ?start =
      ?start\<lparr>ss_server := (ss_server ?start)\<lparr>sr_client_tasks := [0]\<rparr>,
        ss_conns := [\<lparr>cn_transport = sample_transport, cn_state = client_state_default, cn_phase = Listening\<rparr>]\<rparr>"
    by (simp add: system_step_def serve_turn_def serve_step_def system_start_def serve_start_def
        canal_server_new_def max_connections_def Let_def)
  have few: "length (ss_conns sys) \<le> 1 \<Longrightarrow> distinct_ids sys" for sys
    by (auto simp: distinct_ids_def)
  have ids: "\<forall>i \<le> length ?evs. distinct_ids (system_run True ?pb literal_engine (take i ?evs) ?start)"
  proof (intro allI impI few)
    fix i
    assume "i \<le> length ?evs"
    then have "i = 0 \<or> i = 1 \<or> i = 2" by auto
    then show "length (ss_conns (system_run True ?pb literal_engine (take i ?evs) ?start)) \<le> 1"
      by (auto simp: accepted one)
  qed
  have sys: "?sys = settle 0 (Continue, snd (send_ack_ok ?pb (sample_ctx\<lparr>cx_store := mem_store_start sample_store,
      cx_state := client_state_default\<lparr>st_authenticated := True, st_client_id := Some ''c1''\<rparr>,
      cx_sessions := sessions_register literal_engine 6 ''c1'' '''' filter_pattern_default Map.empty\<rparr>)))
      (system_step True ?pb literal_engine (Accepts sample_transport) ?start)"
    by (simp add: accepted) (simp add: system_step_def arrive_def arriving_get_def client_step_def dispatch_def
        handle_auth_def auth_accept_def auth_filter_def sample_auth_def client_auth_default_def conn_ctx_def
        client_state_default_def send_ack_ok_def sample_transport_def system_start_def serve_start_def
        canal_server_new_def session_manager_new_def sample_ctx_def Let_def)
  have "is_open (ss_conns ?sys ! 0) \<and> conn_id ?sys 0 = Some ''c1'' \<and> 0 < length (ss_conns ?sys)"
    unfolding sys by (simp add: accepted is_open_def)
  then show ?thesis
    using sessions_never_missing [OF ids refl, of 0] by blast
qed

end
