(* ===== verification/Canal_System_Live.thy ===== *)
theory Canal_System_Live
  imports Canal_System_Sessions
begin

text \<open>
  A subscription on the running server. While connections come and go and the binlog task feeds
  the store, between the requests of a client and in the middle of its reads, the client is
  served the log after its cursor, without a silent gap as long as no feed drops an event that a
  read under way had still to scan.
\<close>

subsection \<open>A subscription on the running server\<close>

text \<open>What a polling client gets: the answers to its \<open>Get\<close>s, and the replies to its heartbeats.\<close>

datatype reply = Answered answer | Alive

fun reply_bytes :: "prost \<Rightarrow> (canal_event \<Rightarrow> bool) \<Rightarrow> reply \<Rightarrow> bytes" where
  "reply_bytes pb passes (Answered a) = answer_frame pb passes a"
| "reply_bytes pb passes Alive = ack_ok_frame pb"

definition answers :: "reply list \<Rightarrow> answer list" where
  "answers rs = List.map_filter (\<lambda>r. case r of Answered a \<Rightarrow> Some a | Alive \<Rightarrow> None) rs"

lemma answers_simps [simp]:
  "answers [] = []" "answers (Answered a # rs) = a # answers rs" "answers (Alive # rs) = answers rs"
  "answers (xs @ ys) = answers xs @ answers ys"
  by (simp_all add: answers_def List.map_filter_def)

text \<open>The client sends nothing but \<open>Get\<close>s, acknowledgements of any batch, heartbeats and keep-alive
  frames, and does not leave.\<close>

definition poll_frame :: "prost \<Rightarrow> incoming \<Rightarrow> bool" where
  "poll_frame pb inp \<longleftrightarrow>
     (case inp of
        Frame b \<Rightarrow> b = [] \<or> (case dec_packet pb b of
            Inl _ \<Rightarrow> False
          | Inr packet \<Rightarrow>
              pk_type packet = packet_type_i32 PtGet
                \<and> (case dec_get_request pb (pk_body packet) of Inl _ \<Rightarrow> False | Inr _ \<Rightarrow> True)
              \<or> pk_type packet = packet_type_i32 PtClientack \<or> pk_type packet = packet_type_i32 PtHeartbeat)
      | _ \<Rightarrow> False)"

definition polls :: "prost \<Rightarrow> nat \<Rightarrow> system_event \<Rightarrow> bool" where
  "polls pb k ev \<longleftrightarrow> (case ev of Arrives j now inp \<Rightarrow> j = k \<longrightarrow> poll_frame pb inp | _ \<Rightarrow> True)"

text \<open>The feeds since a read of this connection began have not dropped an event that it had still to
  read, when it scans.\<close>

definition in_time :: "nat \<Rightarrow> system_event \<Rightarrow> server_system \<Rightarrow> bool" where
  "in_time k ev sys \<longleftrightarrow>
     (case cn_phase (ss_conns sys ! k) of
        Fetching cid start n tried \<Rightarrow> ev = Scans k \<longrightarrow> \<not> cursor_lost (sys_store sys) start
      | _ \<Rightarrow> True)"

fun undisturbed ::
    "bool \<Rightarrow> prost \<Rightarrow> regex_engine \<Rightarrow> nat \<Rightarrow> string \<Rightarrow> system_event list \<Rightarrow> server_system \<Rightarrow> bool" where
  "undisturbed debug pb rx k cid [] sys = True"
| "undisturbed debug pb rx k cid (ev # evs) sys \<longleftrightarrow>
     keeps_off debug pb rx k cid ev sys \<and> in_time k ev sys
     \<and> undisturbed debug pb rx k cid evs (system_step debug pb rx ev sys)"

text \<open>The feeds continue the log in position order and split no position group.\<close>

fun whole_feeds :: "canal_event list \<Rightarrow> system_event list \<Rightarrow> bool" where
  "whole_feeds h [] = True"
| "whole_feeds h (Feeds es # evs) =
     (sorted (map ev_key es) \<and> (\<forall>e \<in> set h. \<forall>e' \<in> set es. ev_key e < ev_key e')
      \<and> whole_feeds (h @ es) evs)"
| "whole_feeds h (_ # evs) = whole_feeds h evs"

text \<open>
  The connection polls, with cursor \<open>p\<close>; since it was at \<open>p0\<close> it was sent the replies \<open>rs\<close> after
  \<open>old\<close>, and they and what is still after its cursor make up the log after \<open>p0\<close>.
\<close>

definition polling ::
    "canal_event list \<Rightarrow> string \<Rightarrow> (canal_event \<Rightarrow> bool) \<Rightarrow> log_position \<Rightarrow> nat \<Rightarrow> server_system \<Rightarrow> bool" where
  "polling h cid passes p k sys \<longleftrightarrow>
     k < length (ss_conns sys) \<and> attached h cid passes p (conn_ctx sys k)
     \<and> st_authenticated (cn_state (ss_conns sys ! k))
     \<and> (case cn_phase (ss_conns sys ! k) of
          Listening \<Rightarrow> True
        | Fetching cid' start n tried \<Rightarrow> cid' = cid \<and> start = p
        | Ended _ \<Rightarrow> False)"

definition follows ::
    "prost \<Rightarrow> canal_event list \<Rightarrow> string \<Rightarrow> (canal_event \<Rightarrow> bool) \<Rightarrow> log_position \<Rightarrow> bytes list \<Rightarrow> reply list
      \<Rightarrow> log_position \<Rightarrow> nat \<Rightarrow> server_system \<Rightarrow> bool" where
  "follows pb h cid passes p0 old rs p k sys \<longleftrightarrow>
     polling h cid passes p k sys \<and> cursor_in h p0 p
     \<and> tr_sent (cn_transport (ss_conns sys ! k)) = old @ map (reply_bytes pb passes) rs
     \<and> served (answers rs) @ after p h = after p0 h
     \<and> ((\<exists>a \<in> set (answers rs). reports_loss a) \<longrightarrow> cursor_lost (sys_store sys) p)"

lemma attached_sent:
  assumes "attached h cid passes p c"
  shows "attached h cid passes p (snd (ctx_send b c))" and "sent (snd (ctx_send b c)) = sent c @ [b]"
    and "attached h cid passes p (reset_unknown c)" and "sent (reset_unknown c) = sent c"
  using assms sent_unlimited [of c b] by (simp_all add: attached_def reset_unknown_def)

text \<open>A turn that puts an attached context back and may have sent a reply.\<close>

lemma follows_put:
  assumes "follows pb h cid passes p0 old rs p k sys"
    and "attached h cid passes q d" and "st_authenticated (cx_state d)"
    and "case ph of Listening \<Rightarrow> True | Fetching cid' start n tried \<Rightarrow> cid' = cid \<and> start = q | Ended _ \<Rightarrow> False"
    and "cursor_in h p0 q" and "sent d = tr_sent (cn_transport (ss_conns sys ! k)) @ map (reply_bytes pb passes) rs'"
    and "served (answers rs') @ after q h = after p h"
    and "(\<exists>a \<in> set (answers rs). reports_loss a) \<Longrightarrow> cursor_lost (sys_store sys) p \<Longrightarrow> cursor_lost (cx_store d) q"
    and "\<And>a. a \<in> set (answers rs') \<Longrightarrow> reports_loss a \<Longrightarrow> cursor_lost (cx_store d) q"
  shows "follows pb h cid passes p0 old (rs @ rs') q k (put_ctx k ph d sys)"
proof -
  have k: "k < length (ss_conns sys)"
    using assms(1) by (simp add: follows_def polling_def)
  have "served (answers (rs @ rs')) @ after q h = after p0 h"
    using assms(1,7) by (simp add: follows_def)
  with assms k show ?thesis
    by (auto simp: follows_def polling_def)
qed


lemma attached_ack:
  assumes "attached h cid passes p c"
  shows "attached h cid passes p (handle_client_ack pb packet c)"
    and "cx_transport (handle_client_ack pb packet c) = cx_transport c"
    and "st_authenticated (cx_state (handle_client_ack pb packet c)) = st_authenticated (cx_state c)"
  using assms
  by (auto simp: attached_def handle_client_ack_def server_simps session_passes_acked
      split: sum.splits option.splits)

lemma session_passes_beat:
  "session_passes (map_option (\<lambda>s. s\<lparr>cs_last_heartbeat := t\<rparr>) s) = session_passes s"
  by (rule ext, cases s) (simp_all add: session_passes_def)

lemma attached_heartbeat:
  assumes "attached h cid passes p c"
  shows "\<exists>d. handle_heartbeat pb now c = ctx_send (ack_ok_frame pb) d \<and> attached h cid passes p d
    \<and> sent d = sent c \<and> cx_state d = cx_state c \<and> cx_store d = cx_store c"
proof (intro exI conjI)
  let ?d = "c\<lparr>cx_sessions := sessions_heartbeat now cid (cx_sessions c)\<rparr>"
  show "handle_heartbeat pb now c = ctx_send (ack_ok_frame pb) ?d"
    using assms by (simp add: attached_def handle_heartbeat_def send_ack_ok_def)
  show "attached h cid passes p ?d"
    using assms by (simp add: attached_def server_simps session_passes_beat)
qed simp_all

text \<open>A \<open>Get\<close> that arrives: the report of a loss, or the read begins.\<close>

lemma attached_begin_get:
  assumes "attached h cid passes p c" and "dec_get_request pb (pk_body packet) = Inr get"
  shows "if cursor_lost (cx_store c) p
    then \<exists>w. begin_get pb packet c = Inl (ctx_send (answer_frame pb passes (Lost p w)) c)
    else begin_get pb packet c = Inr (cid, p, get_batch_size (gt_fetch_size get))"
proof -
  have c: "st_client_id (cx_state c) = Some cid" "st_current_pos (cx_state c) = Some p" "lp_timestamp p = None"
    using assms(1) by (simp_all add: attached_def)
  have lost: "get_lost (Some p) (session_ack (cx_sessions c) cid) (cx_store c)
      = (if cursor_lost (cx_store c) p then ms_evicted_watermark (cx_store c) else None)"
    using get_lost_iff [of "Some p" "session_ack (cx_sessions c) cid" "cx_store c"] c(3)
    by (simp add: get_start_def)
  have "cursor_lost (cx_store c) p \<Longrightarrow> ms_evicted_watermark (cx_store c) \<noteq> None"
    by (auto simp: cursor_lost_def is_some_and_iff)
  then obtain w where "cursor_lost (cx_store c) p \<Longrightarrow> ms_evicted_watermark (cx_store c) = Some w"
    by (cases "ms_evicted_watermark (cx_store c)") auto
  with assms(2) c lost show ?thesis
    by (auto simp: begin_get_def get_start_def send_ack_err_def Let_def intro: exI [of _ w])
qed

text \<open>A frame that carries a \<open>Get\<close>, and what a connection that listens makes of the next one.\<close>

definition is_get_frame :: "prost \<Rightarrow> bytes \<Rightarrow> bool" where
  "is_get_frame pb b \<longleftrightarrow> b \<noteq> [] \<and>
     (case dec_packet pb b of
        Inl _ \<Rightarrow> False
      | Inr packet \<Rightarrow> pk_type packet = packet_type_i32 PtGet
          \<and> (case dec_get_request pb (pk_body packet) of Inl _ \<Rightarrow> False | Inr _ \<Rightarrow> True))"

lemma next_get:
  assumes "polling h cid passes q k sys" and "cn_phase (ss_conns sys ! k) = Listening"
    and "is_get_frame pb b"
    and "conn = ss_conns (system_step debug pb rx (Arrives k now (Frame b)) sys) ! k"
  shows "if cursor_lost (sys_store sys) q
    then (\<exists>w. tr_sent (cn_transport conn) = tr_sent (cn_transport (ss_conns sys ! k))
            @ [ack_err_frame pb (cursor_lost_error q w)])
      \<and> st_current_pos (cn_state conn) = Some q
    else \<exists>n. cn_phase conn = Fetching cid q n False"
proof -
  let ?c = "reset_unknown (conn_ctx sys k)"
  have k: "k < length (ss_conns sys)" and att: "attached h cid passes q ?c"
    and auth: "st_authenticated (cn_state (ss_conns sys ! k))"
    using assms(1) attached_sent(3) by (auto simp: polling_def)
  have store: "cx_store ?c = sys_store sys" and sent: "sent ?c = tr_sent (cn_transport (ss_conns sys ! k))"
    and budget: "tr_budget (cx_transport ?c) = None" and cur: "st_current_pos (cx_state ?c) = Some q"
    using att by (simp_all add: reset_unknown_def attached_def)
  obtain packet get where packet: "b \<noteq> []" "dec_packet pb b = Inr packet" "pk_type packet = packet_type_i32 PtGet"
    "dec_get_request pb (pk_body packet) = Inr get"
    using assms(3) by (auto simp: is_get_frame_def split: sum.splits)
  then have "arriving_get pb (Frame b) (cn_state (ss_conns sys ! k)) = Some packet"
    using auth by (simp add: arriving_get_def)
  then have arr: "system_step debug pb rx (Arrives k now (Frame b)) sys
      = (case begin_get pb packet ?c of Inl rc \<Rightarrow> settle k (control_of rc) sys
         | Inr (cid, start, n) \<Rightarrow> put_ctx k (Fetching cid start n False) ?c sys)"
    using k assms(2) by (simp add: system_step_def arrive_def Let_def)
  show ?thesis
  proof (cases "cursor_lost (sys_store sys) q")
    case True
    then obtain w where "begin_get pb packet ?c = Inl (ctx_send (answer_frame pb passes (Lost q w)) ?c)"
      using attached_begin_get [OF att packet(4)] store by auto
    then have "conn = ss_conns (put_ctx k Listening (snd (ctx_send (ack_err_frame pb (cursor_lost_error q w)) ?c)) sys) ! k"
      using budget by (simp add: assms(4) arr)
    with True k cur sent sent_unlimited [OF budget] show ?thesis by auto
  next
    case False
    then have "begin_get pb packet ?c = Inr (cid, q, get_batch_size (gt_fetch_size get))"
      using attached_begin_get [OF att packet(4)] store by simp
    with False k show ?thesis by (simp add: assms(4) arr)
  qed
qed

lemma follows_arrive_get:
  assumes "follows pb h cid passes p0 old rs p k sys" and "arriving_get pb inp (cn_state (ss_conns sys ! k)) = Some packet"
    and "dec_get_request pb (pk_body packet) = Inr get"
  shows "\<exists>rs'. follows pb h cid passes p0 old (rs @ rs') p k (arrive pb rx k now inp sys)"
proof -
  let ?c = "reset_unknown (conn_ctx sys k)"
  have att: "attached h cid passes p ?c" and auth: "st_authenticated (cn_state (ss_conns sys ! k))"
    and cur: "cursor_in h p0 p"
    using assms(1) attached_sent(3) by (auto simp: follows_def polling_def)
  have auth': "st_authenticated (cx_state ?c)" and sent: "sent ?c = tr_sent (cn_transport (ss_conns sys ! k))"
    and store: "cx_store ?c = sys_store sys"
    using auth by (simp_all add: reset_unknown_def)
  show ?thesis
  proof (cases "cursor_lost (cx_store ?c) p")
    case True
    obtain w where "begin_get pb packet ?c = Inl (ctx_send (answer_frame pb passes (Lost p w)) ?c)"
      using attached_begin_get [OF att assms(3)] True by auto
    moreover have "tr_budget (cx_transport ?c) = None"
      using att by (simp add: attached_def)
    ultimately have "arrive pb rx k now inp sys = put_ctx k Listening (snd (ctx_send (answer_frame pb passes (Lost p w)) ?c)) sys"
      using assms(2) by (simp add: arrive_def)
    then show ?thesis
      using follows_put [OF assms(1) attached_sent(1) [OF att], where ph = Listening and rs' = "[Answered (Lost p w)]"]
        attached_sent(2) [OF att] auth' cur sent True by auto
  next
    case False
    then have "arrive pb rx k now inp sys = put_ctx k (Fetching cid p (get_batch_size (gt_fetch_size get)) False) ?c sys"
      using attached_begin_get [OF att assms(3)] assms(2) by (simp add: arrive_def)
    then show ?thesis
      using follows_put [OF assms(1) att, where ph = "Fetching cid p (get_batch_size (gt_fetch_size get)) False" and rs' = "[]"]
        auth' cur sent store by (intro exI [of _ "[]"]) auto
  qed
qed

lemma follows_arrive:
  assumes "follows pb h cid passes p0 old rs p k sys" and "poll_frame pb inp"
  shows "\<exists>rs'. follows pb h cid passes p0 old (rs @ rs') p k (arrive pb rx k now inp sys)"
proof -
  let ?c = "conn_ctx sys k" and ?tok = "sr_auth_token (ss_server sys)"
  have att: "attached h cid passes p ?c" and auth: "st_authenticated (cx_state ?c)"
    and cur: "cursor_in h p0 p" and budget: "tr_budget (cx_transport ?c) = None"
    using assms(1) by (auto simp: follows_def polling_def attached_def)
  have put: "\<exists>rs'. follows pb h cid passes p0 old (rs @ rs') p k (put_ctx k Listening d sys)"
    if "attached h cid passes p d" "st_authenticated (cx_state d)" "cx_store d = sys_store sys"
      "sent d = sent ?c @ map (reply_bytes pb passes) rs'" "answers rs' = []" for d rs'
    using follows_put [OF assms(1) that(1,2), where ph = Listening and rs' = rs'] that(3-) cur by auto
  obtain b where b: "inp = Frame b"
    using assms(2) by (cases inp) (auto simp: poll_frame_def)
  show ?thesis
  proof (cases "b = []")
    case True
    then have "arrive pb rx k now inp sys = put_ctx k Listening ?c sys"
      by (simp add: arrive_def arriving_get_def client_step_def b)
    then show ?thesis
      using put [OF att auth, of "[]"] by simp
  next
    case ne: False
    then obtain packet where dec: "dec_packet pb b = Inr packet"
      using assms(2) by (auto simp: poll_frame_def b split: sum.splits)
    consider (get) get where "pk_type packet = packet_type_i32 PtGet" "dec_get_request pb (pk_body packet) = Inr get"
      | (ack) "pk_type packet = packet_type_i32 PtClientack"
      | (beat) "pk_type packet = packet_type_i32 PtHeartbeat"
      using assms(2) ne dec by (auto simp: poll_frame_def b split: sum.splits)
    then show ?thesis
    proof cases
      case get
      then have "arriving_get pb inp (cn_state (ss_conns sys ! k)) = Some packet"
        using ne dec auth by (simp add: arriving_get_def b)
      from follows_arrive_get [OF assms(1) this get(2)] show ?thesis .
    next
      case ack
      then have "arrive pb rx k now inp sys
          = put_ctx k Listening (handle_client_ack pb packet (reset_unknown ?c)) sys"
        using ne dec auth by (simp add: arrive_def arriving_get_def client_step_def dispatch_def b)
      moreover note attached_ack [OF attached_sent(3) [OF att], of pb packet]
      ultimately show ?thesis
        using put [of "handle_client_ack pb packet (reset_unknown ?c)" "[]"] auth
        by (simp add: reset_unknown_def)
    next
      case beat
      obtain d where d: "handle_heartbeat pb now (reset_unknown ?c) = ctx_send (ack_ok_frame pb) d"
        "attached h cid passes p d" "sent d = sent ?c" "cx_state d = cx_state (reset_unknown ?c)"
        "cx_store d = sys_store sys"
        using attached_heartbeat [OF attached_sent(3) [OF att], of pb now] attached_sent(4) [OF att] by auto
      have "tr_budget (cx_transport d) = None"
        using d(2) by (simp add: attached_def)
      then have "arrive pb rx k now inp sys = put_ctx k Listening (snd (ctx_send (ack_ok_frame pb) d)) sys"
        using ne dec auth beat d(1) by (simp add: arrive_def arriving_get_def client_step_def dispatch_def b)
      then show ?thesis
        using put [OF attached_sent(1) [OF d(2)], of "ack_ok_frame pb" "[Alive]"] attached_sent(2) [OF d(2)] d auth
        by (simp add: reset_unknown_def)
    qed
  qed
qed


lemma cursor_in_step:
  assumes "cursor_in h p0 p" and "after p h \<noteq> []"
  shows "cursor_in h p0 (ev_log_position (last (next_group n (after p h))))"
proof -
  have "last (next_group n (after p h)) \<in> set (after p h)"
    by (rule last_next_group_in [OF assms(2)])
  then have "last (next_group n (after p h)) \<in> set h" "lp_key p < ev_key (last (next_group n (after p h)))"
    by (simp_all add: after_def)
  moreover have "lp_key p0 \<le> lp_key p"
    using assms(1) by (auto simp: cursor_in_def)
  ultimately show ?thesis
    by (auto simp: cursor_in_def)
qed

text \<open>A scan in time: the next group of the log after the cursor, or nothing yet.\<close>

lemma follows_scan_to:
  assumes "follows pb h cid passes p0 old rs p k sys" and "\<not> cursor_lost (sys_store sys) p"
    and "\<And>e. e \<in> set h \<Longrightarrow> encodable e"
  shows "\<exists>rs'. follows pb h cid passes p0 old (rs @ rs')
    (if after p h = [] then p else ev_log_position (last (next_group n (after p h)))) k (scan_turn pb k cid p n sys)"
proof -
  let ?c = "conn_ctx sys k" and ?i = "ms_batch_id_seq (sys_store sys)"
  have att: "attached h cid passes p ?c" and auth: "st_authenticated (cx_state ?c)" and cur: "cursor_in h p0 p"
    and budget: "tr_budget (cx_transport ?c) = None"
    using assms(1) by (auto simp: follows_def polling_def attached_def)
  have log: "store_log h (sys_store sys)" and ts: "lp_timestamp p = None"
    using att by (simp_all add: attached_def)
  note scan = get_scan_log_read [OF log ts assms(2), of n]
  show ?thesis
  proof (cases "after p h = []")
    case True
    then have "scan_turn pb k cid p n sys = put_ctx k (Fetching cid p n True) ?c sys"
      using scan by (simp add: scan_turn_def conn_ctx_def)
    then show ?thesis
      using follows_put [OF assms(1) att auth, where ph = "Fetching cid p n True" and rs' = "[]"] cur True
      by (intro exI [of _ "[]"]) simp
  next
    case False
    define g where "g = next_group n (after p h)"
    define q where "q = ev_log_position (last g)"
    define s where "s = (sys_store sys)\<lparr>ms_batch_id_seq := ?i + 1\<rparr>"
    define d where "d = ?c\<lparr>cx_store := s, cx_state := (cx_state ?c)\<lparr>st_current_pos := Some q,
        st_last_get_batch_id := ?i, st_last_get_end_pos := Some q\<rparr>\<rparr>"
    have g: "g \<noteq> []" "\<And>e. e \<in> set g \<Longrightarrow> encodable e"
      using False assms(3) next_group_prefix [of "after p h" n] unfolding g_def
      by (simp, metis Un_iff after_def filter_is_subset set_append subsetD)
    have "get_scan p n (sys_store sys) = (Some (events_with_events g ?i), s)"
      using scan False by (simp add: g_def s_def)
    moreover have passes: "session_passes (sys_session sys cid) = passes"
      using att by (simp add: attached_def)
    moreover have bd: "tr_budget (cx_transport d) = None"
      using budget by (simp add: d_def)
    ultimately have turn: "scan_turn pb k cid p n sys = put_ctx k Listening (snd (ctx_send (batch_frame pb passes ?i g) d)) sys"
      using serve_batch_nonempty [OF g, of pb cid ?i "?c\<lparr>cx_store := s\<rparr>"]
      by (simp add: scan_turn_def d_def q_def)
    have "store_log h s"
      using get_scan_log [OF log, of p n] scan False by (simp add: s_def)
    then have att': "attached h cid passes q d"
      using att by (simp add: attached_def d_def q_def)
    have "follows pb h cid passes p0 old (rs @ [Answered (Batch ?i g)]) q k (scan_turn pb k cid p n sys)"
      unfolding turn
    proof (rule follows_put [OF assms(1) attached_sent(1) [OF att']])
      show "st_authenticated (cx_state (snd (ctx_send (batch_frame pb passes ?i g) d)))"
        using auth by (simp add: d_def)
      show "cursor_in h p0 q"
        using cursor_in_step [OF cur False] by (simp add: q_def g_def)
      show "sent (snd (ctx_send (batch_frame pb passes ?i g) d)) = tr_sent (cn_transport (ss_conns sys ! k))
          @ map (reply_bytes pb passes) [Answered (Batch ?i g)]"
        using attached_sent(2) [OF att'] by (simp add: d_def)
      show "served (answers [Answered (Batch ?i g)]) @ after q h = after p h"
        using mem_log.after_step(1) [OF log False, of n] by (simp add: q_def g_def)
    qed (use assms(2) in auto)
    then show ?thesis
      using False unfolding q_def g_def by auto
  qed
qed

lemma follows_scan:
  assumes "follows pb h cid passes p0 old rs p k sys" and "\<not> cursor_lost (sys_store sys) p"
    and "\<And>e. e \<in> set h \<Longrightarrow> encodable e"
  shows "\<exists>rs' q. follows pb h cid passes p0 old (rs @ rs') q k (scan_turn pb k cid p n sys)"
  using follows_scan_to [OF assms] by blast

lemma follows_expire:
  assumes "follows pb h cid passes p0 old rs p k sys"
  shows "\<exists>rs'. follows pb h cid passes p0 old (rs @ rs') p k (expire_turn pb k cid sys)"
proof -
  let ?c = "conn_ctx sys k"
  have att: "attached h cid passes p ?c" and auth: "st_authenticated (cx_state ?c)" and cur: "cursor_in h p0 p"
    and budget: "tr_budget (cx_transport ?c) = None"
    using assms by (auto simp: follows_def polling_def attached_def)
  have "expire_turn pb k cid sys = put_ctx k Listening (snd (ctx_send (messages_frame pb 0 []) ?c)) sys"
    using budget by (simp add: expire_turn_def serve_batch_def)
  then show ?thesis
    using follows_put [OF assms attached_sent(1) [OF att], where ph = Listening and rs' = "[Answered AtEnd]"]
      attached_sent(2) [OF att] auth cur by auto
qed

text \<open>Events that are no turn of the connection: a feed, and all others.\<close>

lemma follows_feed:
  assumes "follows pb h cid passes p0 old rs p k sys" and "sorted (map ev_key es)"
    and "\<forall>e \<in> set h. \<forall>e' \<in> set es. ev_key e < ev_key e'"
  shows "follows pb (h @ es) cid passes p0 old rs p k (system_step debug pb rx (Feeds es) sys)"
proof -
  let ?s = "sys_store sys"
  have log: "store_log h ?s" and cur: "cursor_in h p0 p"
    using assms(1) by (simp_all add: follows_def polling_def attached_def)
  have "sorted (map ev_key (h @ es))"
    using assms(2,3) store_log_sorted [OF log] by (fastforce simp: sorted_append)
  then have log': "store_log (h @ es) (snd (put_batch debug es ?s))"
    using put_batch_log_nonempty [OF log, of es debug] log by (cases "es = []") auto
  have "served (answers rs) @ after p (h @ es) = after p0 (h @ es)"
    using assms(1,3) by (intro after_fed [OF cur]) (simp_all add: follows_def)
  moreover have "cursor_in (h @ es) p0 p"
    using cur by (auto simp: cursor_in_def)
  ultimately show ?thesis
    using assms(1) log' put_batch_keeps_lost [OF log log']
    by (auto simp: follows_def polling_def attached_def conn_ctx_def system_step_def)
qed

lemma follows_other:
  assumes "follows pb h cid passes p0 old rs p k sys" and "keeps_off debug pb rx k cid ev sys"
    and "turn_of ev \<noteq> Some k" and "\<And>es. ev \<noteq> Feeds es"
  shows "follows pb h cid passes p0 old rs p k (system_step debug pb rx ev sys)"
proof -
  let ?sys = "system_step debug pb rx ev sys"
  have k: "k < length (ss_conns sys)"
    using assms(1) by (simp add: follows_def polling_def)
  then have conn: "ss_conns ?sys ! k = ss_conns sys ! k" "k < length (ss_conns ?sys)"
    using system_step_other [OF assms(3) k] system_step_length [of debug pb rx ev sys] by auto
  note shared = step_other [OF assms(2,3)] system_step_store [OF assms(4), of debug pb rx sys]
  have "store_log h (sys_store sys) \<Longrightarrow> store_log h (sys_store ?sys)"
    using shared(2) get_scan_log by auto
  moreover have "cursor_lost (sys_store sys) p \<Longrightarrow> cursor_lost (sys_store ?sys) p"
    using shared(2) mem_log.fetch_lost by auto
  ultimately show ?thesis
    using assms(1) conn shared(1) by (auto simp: follows_def polling_def attached_def)
qed


lemma follows_turn:
  assumes "follows pb h cid passes p0 old rs p k sys" and "turn_of ev = Some k"
    and "polls pb k ev" and "in_time k ev sys" and "\<And>e. e \<in> set h \<Longrightarrow> encodable e"
  shows "\<exists>rs' q. follows pb h cid passes p0 old (rs @ rs') q k (system_step debug pb rx ev sys)"
proof -
  have k: "k < length (ss_conns sys)"
    using assms(1) by (simp add: follows_def polling_def)
  have phase: "cn_phase (ss_conns sys ! k) = Fetching cid' start n tried \<Longrightarrow> cid' = cid \<and> start = p" for cid' start n tried
    using assms(1) by (simp add: follows_def polling_def)
  have stay: "\<exists>rs' q. follows pb h cid passes p0 old (rs @ rs') q k sys"
    using assms(1) by (intro exI [of _ "[]"]) auto
  consider (arrive) now inp where "ev = Arrives k now inp" | (scan) "ev = Scans k" | (expire) "ev = Expires k"
    using assms(2) by (cases ev) (auto simp: turn_of_def)
  then show ?thesis
  proof cases
    case arrive
    then show ?thesis
      using assms(3) stay k follows_arrive [OF assms(1), of inp rx now]
      by (auto simp: system_step_def polls_def)
  next
    case scan
    then show ?thesis
      using assms(4) stay k follows_scan [OF assms(1) _ assms(5)] phase
      by (auto simp: system_step_def in_time_def split: phase.splits)
  next
    case expire
    then have "system_step debug pb rx ev sys = sys \<or> system_step debug pb rx ev sys = expire_turn pb k cid sys"
      using k phase by (auto simp: system_step_def split: phase.splits)
    then show ?thesis
      using stay follows_expire [OF assms(1)] by metis
  qed
qed

lemma follows_step:
  assumes "follows pb h cid passes p0 old rs p k sys" and "keeps_off debug pb rx k cid ev sys"
    and "polls pb k ev" and "in_time k ev sys"
    and "\<And>e. e \<in> set h \<Longrightarrow> encodable e" and "whole_feeds h (ev # evs)"
  shows "\<exists>rs' q. follows pb (h @ feeds_of [ev]) cid passes p0 old (rs @ rs') q k (system_step debug pb rx ev sys)
    \<and> whole_feeds (h @ feeds_of [ev]) evs"
proof (cases "turn_of ev = Some k")
  case True
  then have "feeds_of [ev] = []" "whole_feeds h (ev # evs) = whole_feeds h evs"
    by (cases ev; simp add: turn_of_def)+
  with follows_turn [OF assms(1) True assms(3-5)] assms(6) show ?thesis by simp
next
  case False
  show ?thesis
  proof (cases "\<exists>es. ev = Feeds es")
    case True
    then obtain es where ev: "ev = Feeds es" by blast
    with follows_feed [OF assms(1), of es] assms(6) show ?thesis
      by (intro exI [of _ "[]"] exI [of _ p]) simp
  next
    case no_feed: False
    then have "feeds_of [ev] = []" "whole_feeds h (ev # evs) = whole_feeds h evs"
      by (cases ev; simp)+
    with follows_other [OF assms(1,2) False] no_feed assms(6) show ?thesis
      by (intro exI [of _ "[]"] exI [of _ p]) simp
  qed
qed

lemma follows_run:
  assumes "follows pb h cid passes p0 old rs p k sys" and "undisturbed debug pb rx k cid evs sys"
    and "\<forall>ev \<in> set evs. polls pb k ev" and "\<And>e. e \<in> set (h @ feeds_of evs) \<Longrightarrow> encodable e"
    and "whole_feeds h evs"
  shows "\<exists>rs' q. follows pb (h @ feeds_of evs) cid passes p0 old (rs @ rs') q k (system_run debug pb rx evs sys)"
  using assms
proof (induction evs arbitrary: h rs p sys)
  case Nil
  then show ?case by (intro exI [of _ "[]"] exI [of _ p]) simp
next
  case (Cons ev evs)
  have "keeps_off debug pb rx k cid ev sys" "polls pb k ev" "in_time k ev sys"
    using Cons.prems(2,3) by simp_all
  with follows_step [OF Cons.prems(1) this _ Cons.prems(5)] Cons.prems(4) obtain rs' q where
    step: "follows pb (h @ feeds_of [ev]) cid passes p0 old (rs @ rs') q k (system_step debug pb rx ev sys)"
      "whole_feeds (h @ feeds_of [ev]) evs"
    by fastforce
  have "e \<in> set ((h @ feeds_of [ev]) @ feeds_of evs) \<Longrightarrow> encodable e" for e
    using Cons.prems(4) [of e] feeds_of_Cons [of ev evs] by simp
  with Cons.IH [OF step(1) _ _ _ step(2)] Cons.prems(2,3) obtain rs'' q' where
    "follows pb ((h @ feeds_of [ev]) @ feeds_of evs) cid passes p0 old ((rs @ rs') @ rs'') q' k
      (system_run debug pb rx evs (system_step debug pb rx ev sys))"
    by auto
  then show ?case
    using feeds_of_Cons [of ev evs] by (intro exI [of _ "rs' @ rs''"] exI [of _ q']) simp
qed

text \<open>C7: A client of the running server sees no silent gap, under the conditions that it states. The
  client sends only polling traffic, under a client id that no other connection uses; around it, in
  any interleaving, connections come, authenticate, read, acknowledge, fail and go, and the binlog
  task feeds the store, also between the watermark test of the client's own \<open>Get\<close> and the scans of its
  wait; but no feed drops an event that a read of this client under way had still to scan (the race of
  \<open>get_gap_race\<close>), and no feed splits a group of events that share a position (\<open>split_group_skipped\<close>).
  Then at every moment: every frame that the client was sent is the answer to one of its \<open>Get\<close>s
  or heartbeats; the batches, in the order sent, followed by what the log has after its cursor, are
  exactly the log after the cursor it started with, so nothing was skipped; its cursor is behind the
  watermark exactly when the store no longer has some event after it; then, whenever the connection
  listens, the next \<open>Get\<close> is answered with the report of that loss and leaves the cursor where it is,
  and otherwise the next \<open>Get\<close> starts a read from the cursor; and while nothing is lost, no loss has
  ever been reported.\<close>

theorem no_silent_gap:
  assumes "polling h cid passes p k sys" and "undisturbed debug pb rx k cid evs sys"
    and "\<forall>ev \<in> set evs. polls pb k ev" and "\<And>e. e \<in> set (h @ feeds_of evs) \<Longrightarrow> encodable e"
    and "whole_feeds h evs" and "sys' = system_run debug pb rx evs sys"
  shows "\<exists>rs q. tr_sent (cn_transport (ss_conns sys' ! k))
        = tr_sent (cn_transport (ss_conns sys ! k)) @ map (reply_bytes pb passes) rs
    \<and> st_current_pos (cn_state (ss_conns sys' ! k)) = Some q
    \<and> served (answers rs) @ after q (h @ feeds_of evs) = after p (h @ feeds_of evs)
    \<and> (cursor_lost (sys_store sys') q \<or> (\<forall>a \<in> set (answers rs). \<not> reports_loss a))
    \<and> (cursor_lost (sys_store sys') q \<longleftrightarrow>
        after q (h @ feeds_of evs) \<noteq> after q (ms_buffer (sys_store sys')))
    \<and> (cn_phase (ss_conns sys' ! k) = Listening \<longrightarrow> (\<forall>now b. is_get_frame pb b \<longrightarrow>
        (let conn = ss_conns (system_step debug pb rx (Arrives k now (Frame b)) sys') ! k
         in if cursor_lost (sys_store sys') q
            then (\<exists>w. tr_sent (cn_transport conn) = tr_sent (cn_transport (ss_conns sys' ! k))
                    @ [ack_err_frame pb (cursor_lost_error q w)])
              \<and> st_current_pos (cn_state conn) = Some q
            else \<exists>n. cn_phase conn = Fetching cid q n False)))"
proof -
  have "follows pb h cid passes p (tr_sent (cn_transport (ss_conns sys ! k))) [] p k sys"
    using assms(1) by (simp add: follows_def cursor_in_def)
  from follows_run [OF this assms(2,3,4,5)] obtain rs q where
    "follows pb (h @ feeds_of evs) cid passes p (tr_sent (cn_transport (ss_conns sys ! k))) rs q k sys'"
    unfolding assms(6) by auto
  then have f: "polling (h @ feeds_of evs) cid passes q k sys'"
    "tr_sent (cn_transport (ss_conns sys' ! k))
        = tr_sent (cn_transport (ss_conns sys ! k)) @ map (reply_bytes pb passes) rs"
    "served (answers rs) @ after q (h @ feeds_of evs) = after p (h @ feeds_of evs)"
    "cursor_lost (sys_store sys') q \<or> (\<forall>a \<in> set (answers rs). \<not> reports_loss a)"
    by (auto simp: follows_def)
  then have q: "store_log (h @ feeds_of evs) (sys_store sys')" "lp_timestamp q = None"
    "st_current_pos (cn_state (ss_conns sys' ! k)) = Some q"
    by (simp_all add: polling_def attached_def)
  show ?thesis
    using f(2-4) q(3) lost_iff_dropped [OF q(1,2)] next_get [OF f(1) _ _ refl, of pb _ debug rx]
    unfolding Let_def by (intro exI [of _ rs] exI [of _ q]) blast
qed

text \<open>A run in which another client connects and the store is fed while a \<open>Get\<close> waits to scan.\<close>

definition polled_events :: "system_event list" where
  "polled_events = [Arrives 0 5 (Frame [1]), Accepts sample_transport, Feeds [sample_event ''b.1'' 4], Scans 0]"

lemma polled_arrive: "system_step True polling_prost literal_engine (Arrives 0 5 (Frame [1])) polled_system
  = polled_system\<lparr>ss_conns := [\<lparr>cn_transport = sample_transport,
      cn_state = (cx_state sub_ctx)\<lparr>st_current_pos := Some (log_position_new ''b.1'' 2)\<rparr>,
      cn_phase = Fetching ''c1'' (log_position_new ''b.1'' 2) 1 False\<rparr>]\<rparr>"
proof -
  have get: "arriving_get polling_prost (Frame [1]) (cn_state (ss_conns polled_system ! 0))
      = Some (packet_default\<lparr>pk_type := packet_type_i32 PtGet\<rparr>)"
    by (simp add: arriving_get_def polling_prost_def polled_system_def sub_ctx_def)
  have size: "get_batch_size 1 = 1"
    by (simp add: get_batch_size_def max_fetch_size_def word_sless_alt)
  have st: "(cx_state sub_ctx)\<lparr>st_current_pos := p, st_unknown_packet_count := 0\<rparr> = (cx_state sub_ctx)\<lparr>st_current_pos := p\<rparr>" for p
    by (simp add: sub_ctx_def client_state_default_def)
  show ?thesis
    using get size st
    by (simp add: system_step_def arrive_def begin_get_def polling_prost_def get_prost_def polled_system_def
        canal_server_new_def get_lost_def get_start_def put_ctx_def conn_ctx_def reset_unknown_def
        lp_less_iff lp_key_new sub_ctx_def Let_def)
qed

lemma polled_undisturbed: "undisturbed True polling_prost literal_engine 0 ''c1'' polled_events polled_system"
proof -
  have lost: "\<not> cursor_lost (snd (put_batch True [sample_event ''b.1'' 4] sample_store)) (log_position_new ''b.1'' 2)"
    by (simp add: put_batch_def put_evict_def put_truncate_def bump_watermark_def sample_store_def cursor_lost_def lp_less_iff lp_key_new
        raise_position_def Let_def)
  show ?thesis
    using lost
    by (simp add: polled_events_def polled_arrive keeps_off_def turn_of_def in_time_def)
      (simp add: system_step_def polled_system_def serve_turn_def serve_step_def canal_server_new_def)
qed

lemma polled_whole: "whole_feeds sample_log polled_events"
  by (simp add: polled_events_def sample_log_def)

lemma no_silent_gap_witness:
  "\<exists>rs q. tr_sent (cn_transport (ss_conns (system_run True polling_prost literal_engine polled_events polled_system) ! 0))
      = map (reply_bytes polling_prost (session_passes (sys_session polled_system ''c1''))) rs
    \<and> served (answers rs) @ after q (map (sample_event ''b.1'') [1, 2, 3, 4]) = map (sample_event ''b.1'') [3, 4]"
proof -
  let ?p = "log_position_new ''b.1'' 2" and ?passes = "session_passes (sys_session polled_system ''c1'')"
  have polling: "polling sample_log ''c1'' ?passes ?p 0 polled_system"
    using sub_ctx_simps(2,5) sample_store_log
    by (simp add: polling_def attached_def conn_ctx_def polled_system_def canal_server_new_def sample_transport_def)
      (simp add: sub_ctx_def)
  have polls: "\<forall>ev \<in> set polled_events. polls polling_prost 0 ev"
    by (simp add: polled_events_def polls_def poll_frame_def polling_prost_def get_prost_def)
  have enc: "e \<in> set (sample_log @ feeds_of polled_events) \<Longrightarrow> encodable e" for e
    using sample_log_encodable by (auto simp: polled_events_def encodable_def sample_event_def)
  have log: "sample_log @ feeds_of polled_events = map (sample_event ''b.1'') [1, 2, 3, 4]"
    by (simp add: sample_log_def polled_events_def)
  have after: "after ?p (map (sample_event ''b.1'') [1, 2, 3, 4]) = map (sample_event ''b.1'') [3, 4]"
    by (simp add: after_def lp_key_new)
  have sent: "tr_sent (cn_transport (ss_conns polled_system ! 0)) = []"
    by (simp add: polled_system_def sample_transport_def)
  show ?thesis
    using no_silent_gap [OF polling polled_undisturbed polls enc polled_whole refl]
    unfolding log after sent append_Nil by blast
qed

end
