(* ===== verification/Canal_System_Progress.thy ===== *)
theory Canal_System_Progress
  imports Canal_System_Live
begin

text \<open>
  Progress of a subscription on the running server. Safety (\<open>no_silent_gap\<close>) says that nothing is
  left out between what a polling client was sent and what is after its cursor; here the client
  also gets there: once the binlog task pauses and the cursor is not behind the watermark, a bounded
  number of \<open>Get\<close>s, each of which the task of the connection scans for at least once, brings the
  whole log to the client, whatever the other connections do in between.
\<close>

subsection \<open>What is still owed to a subscription\<close>

definition fetching :: "connection \<Rightarrow> bool" where
  "fetching cn \<longleftrightarrow> (case cn_phase cn of Fetching _ _ _ _ \<Rightarrow> True | _ \<Rightarrow> False)"

text \<open>A read that has scanned before may run out of time although the log goes on by now.\<close>

definition stale :: "connection \<Rightarrow> bool" where
  "stale cn \<longleftrightarrow> (case cn_phase cn of Fetching _ _ _ tried \<Rightarrow> tried | _ \<Rightarrow> False)"

definition owed :: "canal_event list \<Rightarrow> log_position \<Rightarrow> connection \<Rightarrow> nat" where
  "owed h p cn = (if after p h = [] then 0 else length (after p h) + of_bool (stale cn))"

lemma fetching_simps [simp]:
  "cn_phase cn = Fetching cid start n tried \<Longrightarrow> fetching cn"
  "cn_phase cn = Listening \<Longrightarrow> \<not> fetching cn"
  by (simp_all add: fetching_def)

lemma stale_simps [simp]:
  "cn_phase cn = Fetching cid start n tried \<Longrightarrow> stale cn = tried"
  "cn_phase cn = Listening \<Longrightarrow> \<not> stale cn"
  by (simp_all add: stale_def)

lemma owed_0_iff [simp]: "owed h p cn = 0 \<longleftrightarrow> after p h = []"
  by (simp add: owed_def)

lemma owed_le: "owed h p cn \<le> Suc (length (after p h))"
  by (simp add: owed_def)

text \<open>One step pays, or everything is paid, or nothing changed for the connection.\<close>

definition pays :: "canal_event list \<Rightarrow> log_position \<Rightarrow> connection \<Rightarrow> log_position \<Rightarrow> connection \<Rightarrow> bool" where
  "pays h p cn q cn' \<longleftrightarrow> after q h = [] \<or> owed h q cn' < owed h p cn
     \<or> owed h q cn' = owed h p cn \<and> (fetching cn \<longrightarrow> fetching cn')"

lemma after_not_lost_step:
  assumes "\<not> cursor_lost s p" and "after p h \<noteq> []" and "q = ev_log_position (last (next_group n (after p h)))"
  shows "\<not> cursor_lost s q"
proof -
  have "last (next_group n (after p h)) \<in> set (after p h)"
    using assms(2) by (rule last_next_group_in)
  then have "lp_key p < lp_key q"
    by (simp add: assms(3) after_def lp_key_ev_log_position)
  then show ?thesis
    using assms(1) by (auto simp: cursor_lost_def is_some_and_iff lp_less_iff)
qed

text \<open>What the turns of the connection leave of its place.\<close>

lemma arrive_not_stale:
  assumes "k < length (ss_conns sys)"
  shows "\<not> stale (ss_conns (arrive pb rx k now inp sys) ! k)"
proof -
  have "\<not> stale (ss_conns (settle k cc sys) ! k)" for cc
    using assms by (cases cc; cases "fst cc") (simp_all add: stale_def)
  then show ?thesis
    using assms by (auto simp: arrive_def Let_def stale_def split: option.splits sum.splits prod.splits)
qed

lemma expire_not_fetching:
  assumes "k < length (ss_conns sys)"
  shows "\<not> fetching (ss_conns (expire_turn pb k cid sys) ! k)" "\<not> stale (ss_conns (expire_turn pb k cid sys) ! k)"
proof -
  obtain ctl d where "expire_turn pb k cid sys = settle k (ctl, d) sys"
    unfolding expire_turn_def by (metis prod.exhaust)
  then show "\<not> fetching (ss_conns (expire_turn pb k cid sys) ! k)" "\<not> stale (ss_conns (expire_turn pb k cid sys) ! k)"
    using assms by (cases ctl; simp add: fetching_def stale_def)+
qed

lemma sys_watermark:
  assumes "\<And>es. ev \<noteq> Feeds es"
  shows "cursor_lost (sys_store (system_step debug pb rx ev sys)) p = cursor_lost (sys_store sys) p"
  using system_step_store [OF assms, of debug pb rx sys] by (auto simp: cursor_lost_def)

subsection \<open>Every turn pays or leaves what is owed\<close>

lemma settle_not_stale:
  "k < length (ss_conns sys) \<Longrightarrow> \<not> stale (ss_conns (settle k cc sys) ! k)"
  by (cases cc; cases "fst cc") (simp_all add: stale_def)

lemma scan_not_stale:
  assumes "follows pb h cid passes p0 old rs p k sys" and "\<not> cursor_lost (sys_store sys) p" and "after p h \<noteq> []"
  shows "\<not> stale (ss_conns (scan_turn pb k cid p n sys) ! k)"
proof -
  have "store_log h (sys_store sys)" "lp_timestamp p = None" "k < length (ss_conns sys)"
    using assms(1) by (simp_all add: follows_def polling_def attached_def)
  with get_scan_log_read [OF this(1,2) assms(2), of n] assms(3) show ?thesis
    by (simp add: scan_turn_def settle_not_stale)
qed

lemma scan_pays:
  assumes "follows pb h cid passes p0 old rs p k sys" and "\<not> cursor_lost (sys_store sys) p"
    and "\<And>e. e \<in> set h \<Longrightarrow> encodable e"
  shows "\<exists>rs' q. follows pb h cid passes p0 old (rs @ rs') q k (scan_turn pb k cid p n sys)
    \<and> \<not> cursor_lost (sys_store sys) q
    \<and> (after q h = [] \<or> owed h q (ss_conns (scan_turn pb k cid p n sys) ! k) < owed h p (ss_conns sys ! k))"
proof (cases "after p h = []")
  case True
  with follows_scan_to [OF assms, of n] assms(2) show ?thesis by auto
next
  case False
  define q where "q = ev_log_position (last (next_group n (after p h)))"
  have log: "store_log h (sys_store sys)"
    using assms(1) by (simp add: follows_def polling_def attached_def)
  have "length (next_group n (after p h) @ after q h) = length (after p h)"
    using mem_log.after_step(1) [OF log False, of n] by (simp add: q_def)
  then have "length (after q h) < length (after p h)"
    using False next_group_nonempty [of n "after p h"] by (metis length_append length_greater_0_conv less_add_same_cancel2)
  then have "owed h q (ss_conns (scan_turn pb k cid p n sys) ! k) < owed h p (ss_conns sys ! k)"
    using scan_not_stale [OF assms(1,2) False, of n] False by (auto simp: owed_def)
  with follows_scan_to [OF assms, of n] False after_not_lost_step [OF assms(2) False q_def] show ?thesis
    by (auto simp: q_def)
qed

text \<open>A \<open>Get\<close> is the start of a read when the connection listens.\<close>

lemma arrive_fetches:
  assumes "follows pb h cid passes p0 old rs p k sys" and "\<not> cursor_lost (sys_store sys) p" and "is_get_frame pb b"
  shows "fetching (ss_conns (arrive pb rx k now (Frame b) sys) ! k)"
proof -
  let ?c = "reset_unknown (conn_ctx sys k)"
  have att: "attached h cid passes p ?c" and auth: "st_authenticated (cn_state (ss_conns sys ! k))"
    and k: "k < length (ss_conns sys)"
    using assms(1) attached_sent(3) by (auto simp: follows_def polling_def)
  obtain packet get where "dec_packet pb b = Inr packet" "dec_get_request pb (pk_body packet) = Inr get" "b \<noteq> []"
      "pk_type packet = packet_type_i32 PtGet"
    using assms(3) by (auto simp: is_get_frame_def split: sum.splits)
  moreover have "\<not> cursor_lost (cx_store ?c) p"
    using assms(2) by (simp add: reset_unknown_def)
  ultimately have "arrive pb rx k now (Frame b) sys = put_ctx k (Fetching cid p (get_batch_size (gt_fetch_size get)) False) ?c sys"
    using attached_begin_get [OF att, of pb packet get] auth by (simp add: arrive_def arriving_get_def)
  then show ?thesis
    using k by (simp add: fetching_def)
qed

lemma turn_pays:
  assumes "follows pb h cid passes p0 old rs p k sys" and "\<not> cursor_lost (sys_store sys) p"
    and "turn_of ev = Some k" and "polls pb k ev" and "\<And>e. e \<in> set h \<Longrightarrow> encodable e"
    and "sys' = system_step debug pb rx ev sys"
  shows "\<exists>rs' q. follows pb h cid passes p0 old (rs @ rs') q k sys' \<and> \<not> cursor_lost (sys_store sys) q
    \<and> pays h p (ss_conns sys ! k) q (ss_conns sys' ! k)
    \<and> ((\<exists>t b. ev = Arrives k t (Frame b) \<and> is_get_frame pb b) \<longrightarrow> fetching (ss_conns sys' ! k))
    \<and> (ev = Scans k \<and> fetching (ss_conns sys ! k) \<longrightarrow>
         after q h = [] \<or> owed h q (ss_conns sys' ! k) < owed h p (ss_conns sys ! k))"
proof -
  have k: "k < length (ss_conns sys)"
    using assms(1) by (simp add: follows_def polling_def)
  consider (same) "sys' = sys" "ev = Scans k \<longrightarrow> \<not> fetching (ss_conns sys ! k)"
      "\<And>t b. ev = Arrives k t b \<Longrightarrow> fetching (ss_conns sys ! k)"
    | (arrive) now inp where "ev = Arrives k now inp" "cn_phase (ss_conns sys ! k) = Listening" "sys' = arrive pb rx k now inp sys"
    | (scan) n where "ev = Scans k" "sys' = scan_turn pb k cid p n sys"
    | (expire) "ev = Expires k" "stale (ss_conns sys ! k)" "sys' = expire_turn pb k cid sys"
    using assms(1,3) k unfolding assms(6)
    by (cases ev; cases "cn_phase (ss_conns sys ! k)"; cases "stale (ss_conns sys ! k)")
      (auto simp: turn_of_def system_step_def follows_def polling_def fetching_def)
  then show ?thesis
  proof cases
    case same
    then show ?thesis
      using assms(1,2) by (intro exI [of _ "[]"] exI [of _ p]) (auto simp: pays_def)
  next
    case arrive
    then have "poll_frame pb inp"
      using assms(4) by (simp add: polls_def)
    with follows_arrive [OF assms(1) this, of rx now] arrive_not_stale [OF k, of pb rx now inp] arrive
      arrive_fetches [OF assms(1,2)] assms(2)
    show ?thesis by (fastforce simp: pays_def owed_def)
  next
    case scan
    with scan_pays [OF assms(1,2,5), of n] show ?thesis by (auto simp: pays_def)
  next
    case expire
    with follows_expire [OF assms(1)] expire_not_fetching [OF k, of pb cid] assms(2) show ?thesis
      by (fastforce simp: pays_def owed_def)
  qed
qed

lemma other_pays:
  assumes "follows pb h cid passes p0 old rs p k sys" and "\<not> cursor_lost (sys_store sys) p"
    and "keeps_off debug pb rx k cid ev sys" and "turn_of ev \<noteq> Some k" and "\<And>es. ev \<noteq> Feeds es"
    and "sys' = system_step debug pb rx ev sys"
  shows "follows pb h cid passes p0 old rs p k sys'" and "\<not> cursor_lost (sys_store sys') p"
    and "ss_conns sys' ! k = ss_conns sys ! k"
proof -
  show "follows pb h cid passes p0 old rs p k sys'"
    using follows_other [OF assms(1,3-5)] assms(6) by simp
  show "\<not> cursor_lost (sys_store sys') p"
    using sys_watermark [OF assms(5)] assms(2,6) by simp
  have "k < length (ss_conns sys)"
    using assms(1) by (simp add: follows_def polling_def)
  with system_step_other [OF assms(4)] assms(6) show "ss_conns sys' ! k = ss_conns sys ! k" by auto
qed

subsection \<open>Rounds\<close>

text \<open>A round is a \<open>Get\<close> that has arrived and, later, a scan of the connection's task.\<close>

definition rounds :: "nat \<Rightarrow> (timestamp \<times> bytes) list \<Rightarrow> system_event list" where
  "rounds k gets = concat (map (\<lambda>(t, b). [Arrives k t (Frame b), Scans k]) gets)"

lemma rounds_simps [simp]:
  "rounds k [] = []" "rounds k ((t, b) # gets) = Arrives k t (Frame b) # Scans k # rounds k gets"
  by (simp_all add: rounds_def)

text \<open>What is still to come: with \<open>half\<close>, the scan of the round under way, and then the rounds.\<close>

definition demand :: "nat \<Rightarrow> bool \<Rightarrow> (timestamp \<times> bytes) list \<Rightarrow> system_event list" where
  "demand k half gets = (if half then [Scans k] else []) @ rounds k gets"

lemma demand_step:
  assumes "subseq (demand k half gets) (ev # evs)"
  obtains (same) "subseq (demand k half gets) evs"
    | (scan) "half" "ev = Scans k" "subseq (demand k False gets) evs"
    | (get) t b gets' where "\<not> half" "gets = (t, b) # gets'" "ev = Arrives k t (Frame b)" "subseq (demand k True gets') evs"
proof (cases half)
  case True
  show ?thesis
  proof (cases "ev = Scans k")
    case True
    with assms \<open>half\<close> show ?thesis by (intro scan) (simp_all add: demand_def)
  next
    case False
    with assms \<open>half\<close> show ?thesis by (intro same) (simp add: demand_def)
  qed
next
  case False
  show ?thesis
  proof (cases "\<exists>t b gets'. gets = (t, b) # gets' \<and> ev = Arrives k t (Frame b)")
    case True
    then obtain t b gets' where "gets = (t, b) # gets'" "ev = Arrives k t (Frame b)" by blast
    with assms \<open>\<not> half\<close> show ?thesis by (intro get [of t b gets']) (simp_all add: demand_def)
  next
    case none: False
    show ?thesis
    proof (cases gets)
      case (Cons g gets')
      with assms \<open>\<not> half\<close> none show ?thesis
        by (cases g; intro same) (simp add: demand_def)
    qed (use \<open>\<not> half\<close> same in \<open>simp add: demand_def\<close>)
  qed
qed

text \<open>Enough rounds are left: the scan that is due next pays, or it is not needed.\<close>

definition enough ::
    "canal_event list \<Rightarrow> log_position \<Rightarrow> connection \<Rightarrow> bool \<Rightarrow> (timestamp \<times> bytes) list \<Rightarrow> bool" where
  "enough h p cn half gets \<longleftrightarrow>
     owed h p cn \<le> length gets \<or> half \<and> fetching cn \<and> owed h p cn \<le> Suc (length gets)"

lemma enough_0: "after p h = [] \<Longrightarrow> enough h p cn half gets"
  by (simp add: enough_def owed_def)

lemma enough_paid:
  assumes "enough h p cn half gets" and "pays h p cn q cn'"
  shows "enough h q cn' half gets"
proof (cases "after q h = []")
  case True
  then show ?thesis by (rule enough_0)
next
  case False
  with assms show ?thesis by (auto simp: enough_def pays_def)
qed

lemma step_pays:
  assumes "follows pb h cid passes p0 old rs p k sys" and "\<not> cursor_lost (sys_store sys) p"
    and "keeps_off debug pb rx k cid ev sys" and "polls pb k ev" and "\<And>es. ev \<noteq> Feeds es"
    and "\<And>e. e \<in> set h \<Longrightarrow> encodable e" and "sys' = system_step debug pb rx ev sys"
    and "enough h p (ss_conns sys ! k) half gets" and "subseq (demand k half gets) (ev # evs)"
    and "\<forall>g \<in> set gets. is_get_frame pb (snd g)"
  shows "\<exists>rs' q half' gets'. follows pb h cid passes p0 old (rs @ rs') q k sys' \<and> \<not> cursor_lost (sys_store sys') q
    \<and> enough h q (ss_conns sys' ! k) half' gets' \<and> subseq (demand k half' gets') evs \<and> set gets' \<subseteq> set gets"
proof (cases "turn_of ev = Some k")
  case True
  obtain rs' q where f: "follows pb h cid passes p0 old (rs @ rs') q k sys'" and lost: "\<not> cursor_lost (sys_store sys) q"
    and pays: "pays h p (ss_conns sys ! k) q (ss_conns sys' ! k)"
    and get: "\<And>t b. ev = Arrives k t (Frame b) \<Longrightarrow> is_get_frame pb b \<Longrightarrow> fetching (ss_conns sys' ! k)"
    and scan: "ev = Scans k \<Longrightarrow> fetching (ss_conns sys ! k) \<Longrightarrow>
         after q h = [] \<or> owed h q (ss_conns sys' ! k) < owed h p (ss_conns sys ! k)"
    using turn_pays [OF assms(1,2) True assms(4,6,7)] by metis
  note paid = enough_paid [OF assms(8) pays]
  have lost': "\<not> cursor_lost (sys_store sys') q"
    using sys_watermark [OF assms(5)] lost assms(7) by simp
  from assms(9) show ?thesis
  proof (cases rule: demand_step)
    case same
    with f lost' paid show ?thesis by blast
  next
    case scan': scan
    then have "enough h q (ss_conns sys' ! k) False gets"
      using assms(8) pays scan enough_0 [of q h] by (cases "after q h = []") (auto simp: enough_def pays_def)
    with f lost' scan'(3) show ?thesis by blast
  next
    case get': (get t b gets')
    then have "enough h q (ss_conns sys' ! k) True gets'"
      using paid get [OF get'(3)] assms(10) by (auto simp: enough_def)
    with f lost' get'(2,4) show ?thesis by (metis set_subset_Cons)
  qed
next
  case False
  note other = other_pays [OF assms(1-3) False assms(5,7)]
  from assms(9) False have "subseq (demand k half gets) evs"
    by (cases rule: demand_step) (auto simp: turn_of_def)
  with other assms(8) show ?thesis
    by (intro exI [of _ "[]"] exI [of _ p] exI [of _ half] exI [of _ gets]) simp
qed

lemma rounds_deliver:
  assumes "follows pb h cid passes p0 old rs p k sys" and "\<not> cursor_lost (sys_store sys) p"
    and "kept_off debug pb rx k cid evs sys" and "\<forall>ev \<in> set evs. polls pb k ev"
    and "\<And>es. Feeds es \<notin> set evs" and "\<And>e. e \<in> set h \<Longrightarrow> encodable e"
    and "enough h p (ss_conns sys ! k) half gets" and "subseq (demand k half gets) evs"
    and "\<forall>g \<in> set gets. is_get_frame pb (snd g)"
  shows "\<exists>rs' q. follows pb h cid passes p0 old (rs @ rs') q k (system_run debug pb rx evs sys)
    \<and> \<not> cursor_lost (sys_store (system_run debug pb rx evs sys)) q \<and> after q h = []"
  using assms(1-5,7-9)
proof (induction evs arbitrary: rs p sys half gets)
  case Nil
  then have "\<not> half" "gets = []"
    by (cases gets; auto simp: demand_def split: if_splits)+
  with Nil show ?case
    by (intro exI [of _ "[]"] exI [of _ p]) (simp add: enough_def)
next
  case (Cons ev evs)
  let ?sys = "system_step debug pb rx ev sys"
  have ev: "keeps_off debug pb rx k cid ev sys" "polls pb k ev" "\<And>es. ev \<noteq> Feeds es"
    using Cons.prems(3-5) by auto
  from step_pays [OF Cons.prems(1,2) ev assms(6) refl Cons.prems(6-8)]
  obtain rs' q half' gets' where s: "follows pb h cid passes p0 old (rs @ rs') q k ?sys" "\<not> cursor_lost (sys_store ?sys) q"
    "enough h q (ss_conns ?sys ! k) half' gets'" "subseq (demand k half' gets') evs" "set gets' \<subseteq> set gets"
    by blast
  have "\<forall>g \<in> set gets'. is_get_frame pb (snd g)"
    using Cons.prems(8) s(5) by blast
  from Cons.IH [OF s(1,2) _ _ _ s(3,4) this] Cons.prems(3-5)
  obtain rs'' q' where "follows pb h cid passes p0 old ((rs @ rs') @ rs'') q' k (system_run debug pb rx evs ?sys)
      \<and> \<not> cursor_lost (sys_store (system_run debug pb rx evs ?sys)) q' \<and> after q' h = []"
    by auto
  then show ?case
    by (intro exI [of _ "rs' @ rs''"] exI [of _ q']) simp
qed

text \<open>C8: A client of the running server that keeps asking gets everything, under the conditions that
  it states. As in \<open>no_silent_gap\<close>: the client sends only polling traffic under a client id that no
  other connection uses; connections come and go and the binlog task feeds the store, but no feed
  drops an event that a read of this client under way had still to scan, and no feed splits a group of
  events that share a position. At some point the binlog task pauses for good, and at that moment the
  client's cursor is not behind the watermark, so that nothing it has still to read has been dropped;
  from then on, in any interleaving with the other connections and with whatever else the client
  sends, as many of its \<open>Get\<close>s arrive as there are events in the log after its first cursor, and one
  more, and after each of them the task of the connection scans once. Then the batches that the client
  was sent, in the order sent, are the whole log after its first cursor, its cursor is at the end, and
  it was never told of a loss. Without these conditions it can miss events: \<open>get_gap_race\<close>,
  \<open>shared_client_id_fails_open\<close> and \<open>split_group_skipped\<close> show how.\<close>

theorem running_server_delivers:
  assumes "polling h cid passes p k sys" and "undisturbed debug pb rx k cid busy sys"
    and "kept_off debug pb rx k cid evs sys'" and "\<forall>ev \<in> set (busy @ evs). polls pb k ev" and "\<And>e. e \<in> set log \<Longrightarrow> encodable e"
    and "whole_feeds h busy" and "log = h @ feeds_of busy"
    and "sys' = system_run debug pb rx busy sys"
    and "sys'' = system_run debug pb rx evs sys'"
    and "\<And>q. st_current_pos (cn_state (ss_conns sys' ! k)) = Some q \<Longrightarrow> \<not> cursor_lost (sys_store sys') q"
    and "\<And>es. Feeds es \<notin> set evs"
    and "subseq (rounds k gets) evs" and "\<forall>g \<in> set gets. is_get_frame pb (snd g)"
    and "length (after p log) < length gets"
  shows "\<exists>rs q. tr_sent (cn_transport (ss_conns sys'' ! k))
        = tr_sent (cn_transport (ss_conns sys ! k)) @ map (reply_bytes pb passes) rs
    \<and> served (answers rs) = after p log
    \<and> st_current_pos (cn_state (ss_conns sys'' ! k)) = Some q \<and> after q log = []
    \<and> (\<forall>a \<in> set (answers rs). \<not> reports_loss a)"
proof -
  let ?old = "tr_sent (cn_transport (ss_conns sys ! k))"
  have "follows pb h cid passes p ?old [] p k sys"
    using assms(1) by (simp add: follows_def cursor_in_def)
  from follows_run [OF this assms(2)] assms(4-8) obtain rs q where
    f: "follows pb log cid passes p ?old rs q k sys'"
    by auto
  have lost: "\<not> cursor_lost (sys_store sys') q"
    using f assms(10) by (simp add: follows_def polling_def attached_def)
  have "served (answers rs) @ after q log = after p log"
    using f by (simp add: follows_def)
  then have "length (after q log) \<le> length (after p log)"
    by (metis length_append le_add2)
  then have enough: "enough log q (ss_conns sys' ! k) False gets"
    using owed_le [of log q "ss_conns sys' ! k"] assms(14) by (simp add: enough_def)
  have rounds: "subseq (demand k False gets) evs" and "\<forall>ev \<in> set evs. polls pb k ev"
    using assms(4,12) by (simp_all add: demand_def)
  from rounds_deliver [OF f lost assms(3) this(2) assms(11) assms(5) enough rounds assms(13)]
  obtain rs' q' where "follows pb log cid passes p ?old (rs @ rs') q' k sys''"
    "\<not> cursor_lost (sys_store sys'') q'" "after q' log = []"
    unfolding assms(9) by blast
  then show ?thesis
    by (intro exI [of _ "rs @ rs'"] exI [of _ q']) (auto simp: follows_def polling_def attached_def)
qed

text \<open>The client of the sample run asks three more times after the feed.\<close>

definition busy_events :: "system_event list" where
  "busy_events = [Arrives 0 5 (Frame [1]), Accepts sample_transport, Feeds [sample_event ''b.1'' 4]]"

lemma running_server_delivers_witness:
  "\<exists>rs. tr_sent (cn_transport (ss_conns (system_run True polling_prost literal_engine
        (busy_events @ rounds 0 [(6, [1]), (7, [1]), (8, [1])]) polled_system) ! 0))
      = map (reply_bytes polling_prost (session_passes (sys_session polled_system ''c1''))) rs
    \<and> served (answers rs) = map (sample_event ''b.1'') [3, 4]"
proof -
  let ?p = "log_position_new ''b.1'' 2" and ?passes = "session_passes (sys_session polled_system ''c1'')"
  let ?gets = "[(6, [1]), (7, [1]), (8, [1])] :: (timestamp \<times> bytes) list"
  define s where "s = system_run True polling_prost literal_engine busy_events polled_system"
  have polling: "polling sample_log ''c1'' ?passes ?p 0 polled_system"
    using sub_ctx_simps(2,5) sample_store_log
    by (simp add: polling_def attached_def conn_ctx_def polled_system_def canal_server_new_def sample_transport_def)
      (simp add: sub_ctx_def)
  have und: "undisturbed True polling_prost literal_engine 0 ''c1'' busy_events polled_system"
    and time: "in_time 0 (Scans 0) s"
    using polled_undisturbed by (simp_all add: polled_events_def busy_events_def s_def)
  have polls: "\<forall>ev \<in> set (busy_events @ rounds 0 ?gets). polls polling_prost 0 ev"
    by (simp add: busy_events_def polls_def poll_frame_def polling_prost_def get_prost_def)
  have off: "kept_off True polling_prost literal_engine 0 ''c1'' (rounds 0 ?gets) s"
    by (simp add: keeps_off_def turn_of_def)
  have log: "map (sample_event ''b.1'') [1, 2, 3, 4] = sample_log @ feeds_of busy_events"
    by (simp add: sample_log_def busy_events_def)
  have enc: "e \<in> set (map (sample_event ''b.1'') [1, 2, 3, 4]) \<Longrightarrow> encodable e" for e
    by (auto simp: encodable_def sample_event_def)
  have whole: "whole_feeds sample_log busy_events"
    by (simp add: busy_events_def sample_log_def)
  have after: "after ?p (map (sample_event ''b.1'') [1, 2, 3, 4]) = map (sample_event ''b.1'') [3, 4]"
    by (simp add: after_def lp_key_new)
  have sent: "tr_sent (cn_transport (ss_conns polled_system ! 0)) = []"
    by (simp add: polled_system_def sample_transport_def)
  have conn: "ss_conns s ! 0 = \<lparr>cn_transport = sample_transport,
      cn_state = (cx_state sub_ctx)\<lparr>st_current_pos := Some ?p\<rparr>, cn_phase = Fetching ''c1'' ?p 1 False\<rparr>"
    by (simp add: s_def busy_events_def polled_arrive)
      (simp add: system_step_def polled_system_def serve_turn_def serve_step_def canal_server_new_def Let_def)
  have lost: "st_current_pos (cn_state (ss_conns s ! 0)) = Some q \<Longrightarrow> \<not> cursor_lost (sys_store s) q" for q
    using time by (auto simp: conn in_time_def)
  have gets: "\<forall>g \<in> set ?gets. is_get_frame polling_prost (snd g)"
    by (simp add: is_get_frame_def polling_prost_def get_prost_def)
  have no_feed: "Feeds es \<notin> set (rounds 0 ?gets)" for es
    by simp
  have enough: "length (after ?p (map (sample_event ''b.1'') [1, 2, 3, 4])) < length ?gets"
    unfolding after by simp
  show ?thesis
    using running_server_delivers [OF polling und off polls enc whole log s_def refl lost no_feed subseq_order.order_refl
        gets enough]
    unfolding after sent append_Nil by (auto simp: s_def)
qed

end
