(* ===== verification/Canal_Cli.thy ===== *)
theory Canal_Cli
  imports Canal_Types
begin

text \<open>
  The crate \<open>canal-cli\<close>, \<open>lib.rs\<close>: the configuration, its defaults and how it is read, and
  the bind address of the Admin API. The YAML parser is a parameter from text to a tree of mappings
  whose leaves are its own, and so is how it reads a leaf as a string or an integer; the
  conversion of a tree that \<open>serde\<close> derives for the configuration structs is modelled: unknown,
  duplicate and missing fields are errors, except that a field with a default may be missing. The
  texts of these errors are not modelled, only the context that \<open>load_config\<close> puts around them.
\<close>

subsection \<open>The configuration\<close>

record filter_section =
  fs_pattern :: string
  fs_black_list :: string

record mysql_config =
  mc_host :: string
  mc_port :: u16
  mc_username :: string
  mc_password :: string

record store_section =
  ss_buffer_size :: nat

record server_section =
  vs_bind :: string
  vs_metrics_bind :: string
  vs_admin_bind :: "string option"
  vs_idle_timeout_secs :: u64

record log_section =
  ls_level :: string
  ls_format :: string

record canal_section =
  cn_server_id :: u64
  cn_start_journal_name :: string
  cn_start_position :: u64
  cn_auth_token :: "string option"
  cn_mysql :: mysql_config
  cn_store :: store_section
  cn_server :: server_section
  cn_filter :: filter_section
  cn_logging :: log_section

record canal_config =
  cc_canal :: canal_section

definition default_filter_pattern :: string where
  "default_filter_pattern = ''.*'' @ [CHR 0x5C] @ ''..*''"

definition default_server_id :: u64 where
  "default_server_id = 1001"

definition default_start_journal :: string where
  "default_start_journal = ''mysql-bin.000001''"

definition default_start_position :: u64 where
  "default_start_position = 4"

definition default_mysql_port :: u16 where
  "default_mysql_port = 3306"

definition default_buffer_size :: nat where
  "default_buffer_size = 16384"

definition default_idle_timeout :: u64 where
  "default_idle_timeout = 3600"

definition default_metrics_bind :: string where
  "default_metrics_bind = ''127.0.0.1:9090''"

definition default_bind :: string where
  "default_bind = ''127.0.0.1:11111''"

definition default_log_level :: string where
  "default_log_level = ''info''"

definition default_log_format :: string where
  "default_log_format = ''json''"

definition filter_section_default :: filter_section where
  "filter_section_default = \<lparr>fs_pattern = default_filter_pattern, fs_black_list = ''''\<rparr>"

subsection \<open>Deserialisation\<close>

datatype 'y yaml = YLeaf 'y | YMap "(string \<times> 'y yaml) list"

record 'y scalars =
  sc_is_null :: "'y \<Rightarrow> bool"
  sc_string :: "'y \<Rightarrow> string option"
  sc_unsigned :: "'y \<Rightarrow> nat option"

definition de_string :: "'y scalars \<Rightarrow> 'y yaml \<Rightarrow> string option" where
  "de_string sc y = (case y of YLeaf v \<Rightarrow> sc_string sc v | YMap _ \<Rightarrow> None)"

definition de_opt_string :: "'y scalars \<Rightarrow> 'y yaml \<Rightarrow> string option option" where
  "de_opt_string sc y =
     (case y of
        YLeaf v \<Rightarrow> (if sc_is_null sc v then Some None else map_option Some (sc_string sc v))
      | YMap _ \<Rightarrow> None)"

definition de_uint :: "'y scalars \<Rightarrow> nat \<Rightarrow> 'y yaml \<Rightarrow> nat option" where
  "de_uint sc bits y =
     (case y of
        YLeaf v \<Rightarrow> Option.bind (sc_unsigned sc v) (\<lambda>n. if n < 2 ^ bits then Some n else None)
      | YMap _ \<Rightarrow> None)"

definition de_u64 :: "'y scalars \<Rightarrow> 'y yaml \<Rightarrow> u64 option" where
  "de_u64 sc y = map_option of_nat (de_uint sc 64 y)"

definition de_u16 :: "'y scalars \<Rightarrow> 'y yaml \<Rightarrow> u16 option" where
  "de_u16 sc y = map_option of_nat (de_uint sc 16 y)"

text \<open>A field without and with a default.\<close>

definition de_field :: "('y yaml \<Rightarrow> 'a option) \<Rightarrow> string \<Rightarrow> (string \<times> 'y yaml) list \<Rightarrow> 'a option" where
  "de_field de name kvs = (case map_of kvs name of None \<Rightarrow> None | Some y \<Rightarrow> de y)"

definition de_field_default :: "('y yaml \<Rightarrow> 'a option) \<Rightarrow> 'a \<Rightarrow> string \<Rightarrow> (string \<times> 'y yaml) list \<Rightarrow> 'a option" where
  "de_field_default de d name kvs = (case map_of kvs name of None \<Rightarrow> Some d | Some y \<Rightarrow> de y)"

text \<open>A struct with \<open>deny_unknown_fields\<close>.\<close>

definition de_struct :: "string list \<Rightarrow> 'y yaml \<Rightarrow> (string \<times> 'y yaml) list option" where
  "de_struct names y =
     (case y of
        YMap kvs \<Rightarrow>
          (if distinct (map fst kvs) \<and> list_all (\<lambda>(k, v). k \<in> set names) kvs then Some kvs else None)
      | _ \<Rightarrow> None)"

text \<open>An empty or blank token is no token.\<close>

definition deserialize_auth_token :: "'y scalars \<Rightarrow> 'y yaml \<Rightarrow> string option option" where
  "deserialize_auth_token sc y =
     map_option (\<lambda>tok. case tok of
         None \<Rightarrow> None
       | Some t \<Rightarrow> (if \<not> trim_is_empty t then Some t else None)) (de_opt_string sc y)"

definition de_filter_section :: "'y scalars \<Rightarrow> 'y yaml \<Rightarrow> filter_section option" where
  "de_filter_section sc y =
     Option.bind (de_struct [''pattern'', ''black_list''] y) (\<lambda>kvs.
     Option.bind (de_field_default (de_string sc) default_filter_pattern ''pattern'' kvs) (\<lambda>p.
     Option.bind (de_field_default (de_string sc) '''' ''black_list'' kvs) (\<lambda>b.
     Some \<lparr>fs_pattern = p, fs_black_list = b\<rparr>)))"

definition de_mysql_config :: "'y scalars \<Rightarrow> 'y yaml \<Rightarrow> mysql_config option" where
  "de_mysql_config sc y =
     Option.bind (de_struct [''host'', ''port'', ''username'', ''password''] y) (\<lambda>kvs.
     Option.bind (de_field (de_string sc) ''host'' kvs) (\<lambda>h.
     Option.bind (de_field_default (de_u16 sc) default_mysql_port ''port'' kvs) (\<lambda>p.
     Option.bind (de_field (de_string sc) ''username'' kvs) (\<lambda>u.
     Option.bind (de_field (de_string sc) ''password'' kvs) (\<lambda>w.
     Some \<lparr>mc_host = h, mc_port = p, mc_username = u, mc_password = w\<rparr>)))))"

definition de_store_section :: "'y scalars \<Rightarrow> 'y yaml \<Rightarrow> store_section option" where
  "de_store_section sc y =
     Option.bind (de_struct [''buffer_size''] y) (\<lambda>kvs.
     Option.bind (de_field_default (de_uint sc 64) default_buffer_size ''buffer_size'' kvs) (\<lambda>n.
     Some \<lparr>ss_buffer_size = n\<rparr>))"

definition de_server_section :: "'y scalars \<Rightarrow> 'y yaml \<Rightarrow> server_section option" where
  "de_server_section sc y =
     Option.bind (de_struct [''bind'', ''metrics_bind'', ''admin_bind'', ''idle_timeout_secs''] y) (\<lambda>kvs.
     Option.bind (de_field_default (de_string sc) default_bind ''bind'' kvs) (\<lambda>b.
     Option.bind (de_field_default (de_string sc) default_metrics_bind ''metrics_bind'' kvs) (\<lambda>m.
     Option.bind (de_field_default (de_opt_string sc) None ''admin_bind'' kvs) (\<lambda>a.
     Option.bind (de_field_default (de_u64 sc) default_idle_timeout ''idle_timeout_secs'' kvs) (\<lambda>t.
     Some \<lparr>vs_bind = b, vs_metrics_bind = m, vs_admin_bind = a, vs_idle_timeout_secs = t\<rparr>)))))"

definition de_log_section :: "'y scalars \<Rightarrow> 'y yaml \<Rightarrow> log_section option" where
  "de_log_section sc y =
     Option.bind (de_struct [''level'', ''format''] y) (\<lambda>kvs.
     Option.bind (de_field_default (de_string sc) default_log_level ''level'' kvs) (\<lambda>l.
     Option.bind (de_field_default (de_string sc) default_log_format ''format'' kvs) (\<lambda>f.
     Some \<lparr>ls_level = l, ls_format = f\<rparr>)))"

definition canal_field_names :: "string list" where
  "canal_field_names =
     [''server_id'', ''start_journal_name'', ''start_position'', ''auth_token'', ''mysql'', ''store'',
      ''server'', ''filter'', ''logging'']"

definition de_canal_section :: "'y scalars \<Rightarrow> 'y yaml \<Rightarrow> canal_section option" where
  "de_canal_section sc y =
     Option.bind (de_struct canal_field_names y) (\<lambda>kvs.
     Option.bind (de_field_default (de_u64 sc) default_server_id ''server_id'' kvs) (\<lambda>i.
     Option.bind (de_field_default (de_string sc) default_start_journal ''start_journal_name'' kvs) (\<lambda>j.
     Option.bind (de_field_default (de_u64 sc) default_start_position ''start_position'' kvs) (\<lambda>p.
     Option.bind (de_field_default (deserialize_auth_token sc) None ''auth_token'' kvs) (\<lambda>t.
     Option.bind (de_field (de_mysql_config sc) ''mysql'' kvs) (\<lambda>m.
     Option.bind (de_field (de_store_section sc) ''store'' kvs) (\<lambda>s.
     Option.bind (de_field (de_server_section sc) ''server'' kvs) (\<lambda>v.
     Option.bind (de_field_default (de_filter_section sc) filter_section_default ''filter'' kvs) (\<lambda>f.
     Option.bind (de_field (de_log_section sc) ''logging'' kvs) (\<lambda>l.
     Some \<lparr>cn_server_id = i, cn_start_journal_name = j, cn_start_position = p, cn_auth_token = t,
           cn_mysql = m, cn_store = s, cn_server = v, cn_filter = f, cn_logging = l\<rparr>))))))))))"

definition de_canal_config :: "'y scalars \<Rightarrow> 'y yaml \<Rightarrow> canal_config option" where
  "de_canal_config sc y =
     Option.bind (de_struct [''canal''] y) (\<lambda>kvs.
     Option.bind (de_field (de_canal_section sc) ''canal'' kvs) (\<lambda>c. Some \<lparr>cc_canal = c\<rparr>))"

subsection \<open>Loading\<close>

definition max_config_size :: nat where
  "max_config_size = 10 * 1024 * 1024"

text \<open>The file is what reading it gives, \<open>None\<close> when that fails.\<close>

definition load_config :: "'y scalars \<Rightarrow> (string \<Rightarrow> 'y yaml option) \<Rightarrow> string \<Rightarrow> string option \<Rightarrow> (string, canal_config) rust_result" where
  "load_config sc parse path content =
     (case content of
        None \<Rightarrow> Inl (''Failed to read config: '' @ path)
      | Some text \<Rightarrow>
          (if max_config_size < length text
           then Inl (''Config file exceeds maximum size (10MB): '' @ nat_str (length text) @ '' bytes'')
           else
             (case Option.bind (parse text) (de_canal_config sc) of
                None \<Rightarrow> Inl (''Failed to parse config: '' @ path)
              | Some config \<Rightarrow> Inr config)))"

subsection \<open>The bind address of the Admin API\<close>

text \<open>What the code looks at in a socket address.\<close>

record socket_addr =
  so_port :: u16
  so_unspecified :: bool

type_synonym parse_addr = "string \<Rightarrow> socket_addr option"

definition resolve_admin_bind :: "parse_addr \<Rightarrow> string option \<Rightarrow> socket_addr \<Rightarrow> (string, string) rust_result" where
  "resolve_admin_bind parse configured canal_bind =
     (let bind =
            (case configured of
               Some explicit \<Rightarrow> Inr explicit
             | None \<Rightarrow>
                 (if unat (so_port canal_bind) + 1 < 2 ^ 16
                  then Inr (''127.0.0.1:'' @ nat_str (unat (so_port canal_bind) + 1))
                  else Inl ''Admin port overflow: main port 65535 has no room for admin''))
      in case bind of
           Inl e \<Rightarrow> Inl e
         | Inr admin_bind \<Rightarrow>
             (case parse admin_bind of
                None \<Rightarrow> Inl (''Invalid admin bind address: '' @ admin_bind)
              | Some addr \<Rightarrow> Inr admin_bind))"

subsection \<open>Writing a configuration\<close>

text \<open>
  The specification of the file format: a configuration as a tree, with any of the optional fields
  that have their default value left out. The leaves are written by \<open>wr\<close>.
\<close>

record 'y writer =
  wr_null :: 'y
  wr_str :: "string \<Rightarrow> 'y"
  wr_num :: "nat \<Rightarrow> 'y"

definition writes :: "'y writer \<Rightarrow> 'y scalars \<Rightarrow> bool" where
  "writes wr sc \<longleftrightarrow>
     sc_is_null sc (wr_null wr) \<and> (\<forall>s. \<not> sc_is_null sc (wr_str wr s) \<and> sc_string sc (wr_str wr s) = Some s)
     \<and> (\<forall>n. sc_unsigned sc (wr_num wr n) = Some n)"

definition str_tree :: "'y writer \<Rightarrow> string \<Rightarrow> 'y yaml" where
  "str_tree wr s = YLeaf (wr_str wr s)"

definition num_tree :: "'y writer \<Rightarrow> nat \<Rightarrow> 'y yaml" where
  "num_tree wr n = YLeaf (wr_num wr n)"

definition opt_str_tree :: "'y writer \<Rightarrow> string option \<Rightarrow> 'y yaml" where
  "opt_str_tree wr v = YLeaf (case v of None \<Rightarrow> wr_null wr | Some s \<Rightarrow> wr_str wr s)"

text \<open>A field with the tree of its value; the flag says whether it may be left out.\<close>

fun tree_fields :: "(string \<Rightarrow> bool) \<Rightarrow> (string \<times> bool \<times> 'y yaml) list \<Rightarrow> (string \<times> 'y yaml) list" where
  "tree_fields omit [] = []"
| "tree_fields omit ((k, d, y) # fs) = (if d \<and> omit k then [] else [(k, y)]) @ tree_fields omit fs"

declare tree_fields.simps [simp del]

definition struct_tree :: "(string \<Rightarrow> bool) \<Rightarrow> (string \<times> bool \<times> 'y yaml) list \<Rightarrow> 'y yaml" where
  "struct_tree omit fs = YMap (tree_fields omit fs)"

lemma tree_fields_names: "fst ` set (tree_fields omit fs) \<subseteq> set (map fst fs)"
  by (induction omit fs rule: tree_fields.induct) (auto simp: tree_fields.simps)

lemma tree_fields_distinct:
  "distinct (map fst fs) \<Longrightarrow> distinct (map fst (tree_fields omit fs))"
proof (induction omit fs rule: tree_fields.induct)
  case (2 omit k d y fs)
  then show ?case
    using tree_fields_names [of omit fs] by (auto simp: tree_fields.simps)
qed (simp add: tree_fields.simps)

lemma struct_tree_names:
  assumes "distinct (map fst fs)" and "set (map fst fs) \<subseteq> set names"
  shows "de_struct names (struct_tree omit fs) = Some (tree_fields omit fs)"
proof -
  have "k \<in> set names" if "(k, v) \<in> set (tree_fields omit fs)" for k v
    using tree_fields_names [of omit fs] assms(2) that by force
  then show ?thesis
    using tree_fields_distinct [OF assms(1)]
    by (auto simp: de_struct_def struct_tree_def list_all_iff)
qed

lemma struct_tree_lookup:
  "map_of (tree_fields omit []) name = None"
  "map_of (tree_fields omit ((k, d, y) # fs)) name
    = (if k = name \<and> \<not> (d \<and> omit k) then Some y else map_of (tree_fields omit fs) name)"
  by (auto simp: tree_fields.simps)

definition filter_tree :: "'y writer \<Rightarrow> (string \<Rightarrow> bool) \<Rightarrow> filter_section \<Rightarrow> 'y yaml" where
  "filter_tree wr omit f = struct_tree omit
     [(''pattern'', fs_pattern f = default_filter_pattern, str_tree wr (fs_pattern f)),
      (''black_list'', fs_black_list f = '''', str_tree wr (fs_black_list f))]"

definition mysql_tree :: "'y writer \<Rightarrow> (string \<Rightarrow> bool) \<Rightarrow> mysql_config \<Rightarrow> 'y yaml" where
  "mysql_tree wr omit m = struct_tree omit
     [(''host'', False, str_tree wr (mc_host m)),
      (''port'', mc_port m = default_mysql_port, num_tree wr (unat (mc_port m))),
      (''username'', False, str_tree wr (mc_username m)),
      (''password'', False, str_tree wr (mc_password m))]"

definition store_tree :: "'y writer \<Rightarrow> (string \<Rightarrow> bool) \<Rightarrow> store_section \<Rightarrow> 'y yaml" where
  "store_tree wr omit s = struct_tree omit
     [(''buffer_size'', ss_buffer_size s = default_buffer_size, num_tree wr (ss_buffer_size s))]"

definition server_tree :: "'y writer \<Rightarrow> (string \<Rightarrow> bool) \<Rightarrow> server_section \<Rightarrow> 'y yaml" where
  "server_tree wr omit v = struct_tree omit
     [(''bind'', vs_bind v = default_bind, str_tree wr (vs_bind v)),
      (''metrics_bind'', vs_metrics_bind v = default_metrics_bind, str_tree wr (vs_metrics_bind v)),
      (''admin_bind'', vs_admin_bind v = None, opt_str_tree wr (vs_admin_bind v)),
      (''idle_timeout_secs'', vs_idle_timeout_secs v = default_idle_timeout,
         num_tree wr (unat (vs_idle_timeout_secs v)))]"

definition log_tree :: "'y writer \<Rightarrow> (string \<Rightarrow> bool) \<Rightarrow> log_section \<Rightarrow> 'y yaml" where
  "log_tree wr omit l = struct_tree omit
     [(''level'', ls_level l = default_log_level, str_tree wr (ls_level l)),
      (''format'', ls_format l = default_log_format, str_tree wr (ls_format l))]"

definition canal_tree :: "'y writer \<Rightarrow> (string \<Rightarrow> bool) \<Rightarrow> canal_section \<Rightarrow> 'y yaml" where
  "canal_tree wr omit c = struct_tree omit
     [(''server_id'', cn_server_id c = default_server_id, num_tree wr (unat (cn_server_id c))),
      (''start_journal_name'', cn_start_journal_name c = default_start_journal,
         str_tree wr (cn_start_journal_name c)),
      (''start_position'', cn_start_position c = default_start_position,
         num_tree wr (unat (cn_start_position c))),
      (''auth_token'', cn_auth_token c = None, opt_str_tree wr (cn_auth_token c)),
      (''mysql'', False, mysql_tree wr omit (cn_mysql c)),
      (''store'', False, store_tree wr omit (cn_store c)),
      (''server'', False, server_tree wr omit (cn_server c)),
      (''filter'', cn_filter c = filter_section_default, filter_tree wr omit (cn_filter c)),
      (''logging'', False, log_tree wr omit (cn_logging c))]"

definition config_tree :: "'y writer \<Rightarrow> (string \<Rightarrow> bool) \<Rightarrow> canal_config \<Rightarrow> 'y yaml" where
  "config_tree wr omit c = struct_tree omit [(''canal'', False, canal_tree wr omit (cc_canal c))]"

lemma de_u64_num: "writes wr sc \<Longrightarrow> de_u64 sc (num_tree wr (unat w)) = Some w"
  using unsigned_less [of w] by (simp add: de_u64_def de_uint_def num_tree_def writes_def)

lemma de_u16_num: "writes wr sc \<Longrightarrow> de_u16 sc (num_tree wr (unat w)) = Some w"
  using unsigned_less [of w] by (simp add: de_u16_def de_uint_def num_tree_def writes_def)

lemma de_uint_num: "writes wr sc \<Longrightarrow> n < 2 ^ 64 \<Longrightarrow> de_uint sc 64 (num_tree wr n) = Some n"
  by (simp add: de_uint_def num_tree_def writes_def)

lemma de_string_str: "writes wr sc \<Longrightarrow> de_string sc (str_tree wr s) = Some s"
  by (simp add: de_string_def str_tree_def writes_def)

lemma de_opt_string_str: "writes wr sc \<Longrightarrow> de_opt_string sc (opt_str_tree wr v) = Some v"
  by (simp add: de_opt_string_def opt_str_tree_def writes_def split: option.splits)

lemmas de_leaves = de_u64_num de_u16_num de_uint_num de_string_str de_opt_string_str

lemmas de_fields = struct_tree_names struct_tree_lookup de_field_def de_field_default_def de_leaves

lemma de_filter_tree: "writes wr sc \<Longrightarrow> de_filter_section sc (filter_tree wr omit f) = Some f"
  by (simp add: de_filter_section_def filter_tree_def de_fields)

lemma de_mysql_tree: "writes wr sc \<Longrightarrow> de_mysql_config sc (mysql_tree wr omit m) = Some m"
  by (simp add: de_mysql_config_def mysql_tree_def de_fields)

lemma de_store_tree:
  "writes wr sc \<Longrightarrow> ss_buffer_size s < 2 ^ 64 \<Longrightarrow> de_store_section sc (store_tree wr omit s) = Some s"
  by (simp add: de_store_section_def store_tree_def de_fields)

lemma de_server_tree: "writes wr sc \<Longrightarrow> de_server_section sc (server_tree wr omit v) = Some v"
  by (simp add: de_server_section_def server_tree_def de_fields)

lemma de_log_tree: "writes wr sc \<Longrightarrow> de_log_section sc (log_tree wr omit l) = Some l"
  by (simp add: de_log_section_def log_tree_def de_fields)

lemma de_auth_token_tree:
  "writes wr sc \<Longrightarrow> deserialize_auth_token sc (opt_str_tree wr tok)
    = Some (case tok of None \<Rightarrow> None | Some t \<Rightarrow> if trim_is_empty t then None else Some t)"
  by (simp add: deserialize_auth_token_def de_opt_string_str split: option.splits)

lemmas de_sections = de_filter_tree de_mysql_tree de_store_tree de_server_tree de_log_tree
  de_auth_token_tree

lemma de_canal_tree:
  assumes "writes wr sc" and "ss_buffer_size (cn_store c) < 2 ^ 64"
  shows "de_canal_section sc (canal_tree wr omit c)
    = Some (c\<lparr>cn_auth_token := (case cn_auth_token c of
        None \<Rightarrow> None | Some t \<Rightarrow> if trim_is_empty t then None else Some t)\<rparr>)"
  using assms
  by (simp add: de_canal_section_def canal_tree_def canal_field_names_def de_fields de_sections)

text \<open>C38: Reading back a configuration. Whichever fields with a default are left out when they have
  that value, a configuration that is written to a file of at most 10 MB and loaded is the same
  configuration, except that an empty or blank token has become no token. So a missing field means
  its documented default, and no loaded configuration enables authentication with a blank
  secret.\<close>

theorem config_roundtrip:
  assumes "writes wr sc" and "ss_buffer_size (cn_store (cc_canal c)) < 2 ^ 64"
    and "parse text = Some (config_tree wr omit c)" and "length text \<le> 10 * 1024 * 1024"
  shows "load_config sc parse path (Some text)
    = Inr (c\<lparr>cc_canal := (cc_canal c)\<lparr>cn_auth_token :=
        (case cn_auth_token (cc_canal c) of
           None \<Rightarrow> None | Some t \<Rightarrow> if trim_is_empty t then None else Some t)\<rparr>\<rparr>)"
  using assms(3,4) de_canal_tree [OF assms(1,2), of omit]
  by (simp add: load_config_def max_config_size_def de_canal_config_def config_tree_def de_fields)

text \<open>The configuration of all defaults, and leaves that are strings or numbers.\<close>

definition sample_canal_config :: canal_config where
  "sample_canal_config =
     \<lparr>cc_canal = \<lparr>cn_server_id = default_server_id, cn_start_journal_name = default_start_journal,
        cn_start_position = default_start_position, cn_auth_token = Some '' '',
        cn_mysql = \<lparr>mc_host = ''h'', mc_port = default_mysql_port, mc_username = ''u'', mc_password = ''p''\<rparr>,
        cn_store = \<lparr>ss_buffer_size = default_buffer_size\<rparr>,
        cn_server = \<lparr>vs_bind = default_bind, vs_metrics_bind = default_metrics_bind,
          vs_admin_bind = None, vs_idle_timeout_secs = default_idle_timeout\<rparr>,
        cn_filter = filter_section_default,
        cn_logging = \<lparr>ls_level = default_log_level, ls_format = default_log_format\<rparr>\<rparr>\<rparr>"

definition sample_scalars :: "(string + nat) option scalars" where
  "sample_scalars =
     \<lparr>sc_is_null = (\<lambda>v. v = None),
      sc_string = (\<lambda>v. case v of Some (Inl s) \<Rightarrow> Some s | _ \<Rightarrow> None),
      sc_unsigned = (\<lambda>v. case v of Some (Inr n) \<Rightarrow> Some n | _ \<Rightarrow> None)\<rparr>"

definition sample_writer :: "(string + nat) option writer" where
  "sample_writer = \<lparr>wr_null = None, wr_str = (\<lambda>s. Some (Inl s)), wr_num = (\<lambda>n. Some (Inr n))\<rparr>"

lemma config_roundtrip_witness:
  "load_config sample_scalars (\<lambda>_. Some (config_tree sample_writer (\<lambda>_. True) sample_canal_config))
      ''canal.yaml'' (Some '''')
    = Inr (sample_canal_config\<lparr>cc_canal := (cc_canal sample_canal_config)\<lparr>cn_auth_token := None\<rparr>\<rparr>)"
proof -
  have "trim_is_empty '' ''"
    by (simp add: trim_is_empty_def all_whitespace.simps whitespace_step_def)
  then show ?thesis
    using config_roundtrip [of sample_writer sample_scalars sample_canal_config
        "\<lambda>_. Some (config_tree sample_writer (\<lambda>_. True) sample_canal_config)" "[]" "\<lambda>_. True" "''canal.yaml''"]
    by (simp add: writes_def sample_writer_def sample_scalars_def sample_canal_config_def
        default_buffer_size_def)
qed

text \<open>The Admin API's address. Without an explicit address it is the loopback address with the port
  after the Canal port, which the library can parse, and only for port 65535 there is none. An
  explicit address is used as it is, if it parses.\<close>

theorem resolve_admin_bind_cases:
  assumes "\<forall>n < 2 ^ 16. parse (''127.0.0.1:'' @ nat_str n) \<noteq> None"
  shows "resolve_admin_bind parse configured addr =
    (case configured of
       None \<Rightarrow> (if so_port addr = 65535 then Inl ''Admin port overflow: main port 65535 has no room for admin''
                else Inr (''127.0.0.1:'' @ nat_str (unat (so_port addr + 1))))
     | Some explicit \<Rightarrow> (if parse explicit = None then Inl (''Invalid admin bind address: '' @ explicit)
                        else Inr explicit))"
proof (cases configured)
  case (Some explicit)
  then show ?thesis by (auto simp: resolve_admin_bind_def split: option.splits)
next
  case None
  show ?thesis
  proof (cases "so_port addr = 65535")
    case True
    with None show ?thesis by (simp add: resolve_admin_bind_def)
  next
    case False
    have "unat (so_port addr) < 65536"
      using unsigned_less [of "so_port addr"] by simp
    moreover have "unat (so_port addr) \<noteq> 65535"
      using False by (simp add: word_unat_eq_iff)
    ultimately have less: "unat (so_port addr) + 1 < 2 ^ 16"
      by simp
    then have "unat (so_port addr + 1) = unat (so_port addr) + 1"
      by (simp add: unat_word_ariths)
    then show ?thesis
      using None False less assms by (auto simp: resolve_admin_bind_def split: option.splits)
  qed
qed

lemma resolve_admin_bind_cases_witness:
  "resolve_admin_bind (\<lambda>_. Some \<lparr>so_port = 1, so_unspecified = False\<rparr>) None
      \<lparr>so_port = 65535, so_unspecified = False\<rparr>
    = Inl ''Admin port overflow: main port 65535 has no room for admin''"
  using resolve_admin_bind_cases [of "\<lambda>_. Some \<lparr>so_port = 1, so_unspecified = False\<rparr>" None
      "\<lparr>so_port = 65535, so_unspecified = False\<rparr>"]
  by simp

end
