(* ===== verification/Canal_Metrics.thy ===== *)
theory Canal_Metrics
  imports Canal_Std
begin

text \<open>
  The crate \<open>canal-prometheus\<close> (\<open>metrics_server.rs\<close>): the counters of
  \<open>CanalMetrics\<close> and the token check of \<open>MetricsServer\<close>. The recorder that keeps the
  counters is the process-wide one of the \<open>metrics\<close> crate; what it holds is the sum of the
  increments it was given, and the last value a gauge was set to. Rendering it is a parameter. Two simplifications: the
  record holds what one handle has added, while the recorder sums over all handles of the process
  (there is one sink in \<open>run_server\<close>, and one handle); and the counters are natural numbers, while
  the recorder's are \<open>u64\<close> and wrap around after \<open>2 ^ 64\<close> increments.
\<close>

subsection \<open>Counters\<close>

record canal_metrics =
  cm_parsed :: nat
  cm_filtered :: nat
  cm_dispatched :: nat
  cm_dispatch_errors :: nat
  cm_instances_active :: nat

definition metrics_new :: canal_metrics where
  "metrics_new =
     \<lparr>cm_parsed = 0, cm_filtered = 0, cm_dispatched = 0, cm_dispatch_errors = 0,
      cm_instances_active = 0\<rparr>"

definition inc_parsed :: "nat \<Rightarrow> canal_metrics \<Rightarrow> canal_metrics" where
  "inc_parsed n m = m\<lparr>cm_parsed := cm_parsed m + n\<rparr>"

definition inc_filtered :: "nat \<Rightarrow> canal_metrics \<Rightarrow> canal_metrics" where
  "inc_filtered n m = m\<lparr>cm_filtered := cm_filtered m + n\<rparr>"

definition inc_dispatched :: "nat \<Rightarrow> canal_metrics \<Rightarrow> canal_metrics" where
  "inc_dispatched n m = m\<lparr>cm_dispatched := cm_dispatched m + n\<rparr>"

definition inc_dispatch_errors :: "nat \<Rightarrow> canal_metrics \<Rightarrow> canal_metrics" where
  "inc_dispatch_errors n m = m\<lparr>cm_dispatch_errors := cm_dispatch_errors m + n\<rparr>"

definition set_instances_active :: "nat \<Rightarrow> canal_metrics \<Rightarrow> canal_metrics" where
  "set_instances_active n m = m\<lparr>cm_instances_active := n\<rparr>"

lemma metrics_fields [simp]:
  "cm_parsed (inc_parsed n m) = cm_parsed m + n"
  "cm_filtered (inc_parsed n m) = cm_filtered m"
  "cm_dispatched (inc_parsed n m) = cm_dispatched m"
  "cm_dispatch_errors (inc_parsed n m) = cm_dispatch_errors m"
  "cm_parsed (inc_filtered n m) = cm_parsed m"
  "cm_filtered (inc_filtered n m) = cm_filtered m + n"
  "cm_dispatched (inc_filtered n m) = cm_dispatched m"
  "cm_dispatch_errors (inc_filtered n m) = cm_dispatch_errors m"
  "cm_parsed (inc_dispatched n m) = cm_parsed m"
  "cm_filtered (inc_dispatched n m) = cm_filtered m"
  "cm_dispatched (inc_dispatched n m) = cm_dispatched m + n"
  "cm_dispatch_errors (inc_dispatched n m) = cm_dispatch_errors m"
  "cm_parsed (inc_dispatch_errors n m) = cm_parsed m"
  "cm_filtered (inc_dispatch_errors n m) = cm_filtered m"
  "cm_dispatched (inc_dispatch_errors n m) = cm_dispatched m"
  "cm_dispatch_errors (inc_dispatch_errors n m) = cm_dispatch_errors m + n"
  by (simp_all add: inc_parsed_def inc_filtered_def inc_dispatched_def inc_dispatch_errors_def)

lemma metrics_instances_active [simp]:
  "cm_instances_active (inc_parsed n m) = cm_instances_active m"
  "cm_instances_active (inc_filtered n m) = cm_instances_active m"
  "cm_instances_active (inc_dispatched n m) = cm_instances_active m"
  "cm_instances_active (inc_dispatch_errors n m) = cm_instances_active m"
  "cm_instances_active (set_instances_active n m) = n"
  by (simp_all add: inc_parsed_def inc_filtered_def inc_dispatched_def inc_dispatch_errors_def
      set_instances_active_def)

subsection \<open>The endpoint\<close>

record metrics_server =
  mv_auth_token :: "string option"
  mv_bind_addr :: string

definition metrics_server_new :: "string \<Rightarrow> metrics_server" where
  "metrics_server_new bind_addr = \<lparr>mv_auth_token = None, mv_bind_addr = bind_addr\<rparr>"

definition metrics_with_auth :: "string \<Rightarrow> metrics_server \<Rightarrow> metrics_server" where
  "metrics_with_auth token srv = srv\<lparr>mv_auth_token := Some token\<rparr>"

text \<open>
  An HTTP request is represented by the text of its \<open>Authorization\<close> header, nothing when
  there is none or when it is not text (\<open>headers.get(..).and_then(|v| v.to_str().ok())\<close>).
\<close>

type_synonym authorization = "string option"

text \<open>One of the two comparisons: equal lengths, and no difference in the fold.\<close>

definition bytes_eq :: "bytes \<Rightarrow> bytes \<Rightarrow> bool" where
  "bytes_eq a b \<longleftrightarrow> length a = length b \<and> xor_fold a b = 0"

definition bearer :: "string \<Rightarrow> string" where
  "bearer token = ''Bearer '' @ token"

definition check_metrics_auth :: "authorization \<Rightarrow> string option \<Rightarrow> bool" where
  "check_metrics_auth headers expected =
     (case expected of
        None \<Rightarrow> True
      | Some token \<Rightarrow>
          (if token = [] then False
           else (let auth = unwrap_or headers ''''
                 in bytes_eq (as_bytes auth) (as_bytes (bearer token))
                    \<or> bytes_eq (as_bytes auth) (as_bytes token))))"

text \<open>The route \<open>/metrics\<close>: the status code and the body.\<close>

definition metrics_route :: "(canal_metrics \<Rightarrow> string) \<Rightarrow> metrics_server \<Rightarrow> canal_metrics \<Rightarrow> authorization
    \<Rightarrow> nat \<times> string" where
  "metrics_route render srv m headers =
     (if \<not> check_metrics_auth headers (mv_auth_token srv) then (401, ''unauthorized'')
      else (200, render m))"

lemma bytes_eq_iff: "bytes_eq a b \<longleftrightarrow> a = b"
  by (auto simp: bytes_eq_def xor_fold_eq_0_iff)

text \<open>Access to the metrics. Without a token everyone reads the metrics; with one, exactly the
  requests whose \<open>Authorization\<close> header is the token, bare or after \<open>Bearer\<close>; with
  the empty token nobody does.\<close>

theorem metrics_auth_exact:
  "metrics_route render srv m headers =
     (if (case mv_auth_token srv of
            None \<Rightarrow> True
          | Some token \<Rightarrow> token \<noteq> [] \<and> (headers = Some token \<or> headers = Some (''Bearer '' @ token)))
      then (200, render m) else (401, ''unauthorized''))"
  by (cases headers)
    (auto simp: metrics_route_def check_metrics_auth_def bytes_eq_iff bearer_def Let_def
      split: option.splits)

end
