(* ===== verification/Canal_Sink.thy ===== *)
theory Canal_Sink
  imports Canal_Store Canal_Filter Canal_Metrics "HOL-Library.Multiset"
begin

text \<open>
  The crate \<open>canal-sink\<close>: \<open>DefaultEventSink\<close> of \<open>sink.rs\<close>, which filters the events
  of a feed, puts them into the store and queues them for the worker that hands them to the
  external connectors, and the interface \<open>SinkConnector\<close> of \<open>connector.rs\<close>.

  A connector is a state together with \<open>dispatch\<close>, a function of the events that returns the
  result and the next state; the sink and its worker share the connectors. The lemmas say that the
  store, the queue and every connector get exactly the events that pass the filter, in order.
\<close>

type_synonym 'k dispatch = "canal_event list \<Rightarrow> 'k \<Rightarrow> unit canal_result \<times> 'k"

record dispatch_request =
  dr_events :: "canal_event list"
  dr_filtered_count :: nat

text \<open>
  \<open>sk_queue\<close> is the content of the unbounded channel, \<open>sk_worker\<close> the number of connectors
  that the worker copied when it was started, nothing when there is no worker and no sender.
  The counters are kept by a recorder that all sinks of the process share; \<open>sk_metrics\<close> is what
  this sink has added to them.
\<close>

record 'k event_sink =
  sk_store :: mem_store
  sk_filter :: event_filter
  sk_connectors :: "'k list"
  sk_metrics :: canal_metrics
  sk_queue :: "dispatch_request list"
  sk_worker :: "nat option"

definition sink_with_metrics :: "mem_store \<Rightarrow> event_filter \<Rightarrow> 'k list \<Rightarrow> canal_metrics \<Rightarrow> 'k event_sink" where
  "sink_with_metrics store flt connectors metrics =
     \<lparr>sk_store = store, sk_filter = flt, sk_connectors = connectors, sk_metrics = metrics,
      sk_queue = [], sk_worker = None\<rparr>"

definition sink_new :: "mem_store \<Rightarrow> event_filter \<Rightarrow> 'k list \<Rightarrow> 'k event_sink" where
  "sink_new store flt connectors = sink_with_metrics store flt connectors metrics_new"

definition sink_store_only :: "mem_store \<Rightarrow> event_filter \<Rightarrow> 'k event_sink" where
  "sink_store_only store flt = sink_with_metrics store flt [] metrics_new"

definition add_connector :: "'k \<Rightarrow> 'k event_sink \<Rightarrow> 'k event_sink" where
  "add_connector k s = s\<lparr>sk_connectors := sk_connectors s @ [k]\<rparr>"

subsection \<open>The worker\<close>

text \<open>The first use starts the worker, with the connectors there are at that time.\<close>

definition ensure_worker :: "'k event_sink \<Rightarrow> 'k event_sink" where
  "ensure_worker s =
     (case sk_worker s of
        Some _ \<Rightarrow> s
      | None \<Rightarrow> s\<lparr>sk_worker := Some (length (sk_connectors s))\<rparr>)"

text \<open>\<open>for conn in &connectors\<close>: one request goes to each connector in turn.\<close>

fun worker_request :: "'k dispatch \<Rightarrow> dispatch_request \<Rightarrow> 'k list \<Rightarrow> canal_metrics \<Rightarrow> 'k list \<times> canal_metrics" where
  "worker_request dsp req [] m = ([], m)"
| "worker_request dsp req (k # ks) m =
     (let (r, k') = dsp (dr_events req) k;
          m' = (case r of
                  Inr _ \<Rightarrow> inc_dispatched (dr_filtered_count req) m
                | Inl _ \<Rightarrow> inc_dispatch_errors 1 m);
          (ks', m'') = worker_request dsp req ks m'
      in (k' # ks', m''))"

text \<open>One turn of the worker's loop: take the oldest request, if there is one.\<close>

definition worker_step :: "'k dispatch \<Rightarrow> 'k event_sink \<Rightarrow> 'k event_sink" where
  "worker_step dsp s =
     (case (sk_worker s, sk_queue s) of
        (Some n, req # q) \<Rightarrow>
          (let (ks, m) = worker_request dsp req (take n (sk_connectors s)) (sk_metrics s)
           in s\<lparr>sk_queue := q, sk_connectors := ks @ drop n (sk_connectors s), sk_metrics := m\<rparr>)
      | _ \<Rightarrow> s)"

text \<open>Dropping the sink closes the channel and aborts the worker: what is queued is gone.\<close>

definition sink_drop :: "'k event_sink \<Rightarrow> 'k event_sink" where
  "sink_drop s = s\<lparr>sk_worker := None, sk_queue := []\<rparr>"

subsection \<open>\<open>sink\<close>\<close>

text \<open>The result \<open>None\<close> is the panic of the store's feed-order assertion.\<close>

definition sink :: "bool \<Rightarrow> canal_event list \<Rightarrow> 'k event_sink \<Rightarrow> events canal_result option \<times> 'k event_sink" where
  "sink debug evs s =
     (let total = length evs;
          m1 = inc_parsed total (sk_metrics s);
          filtered = filter (filter_passes (sk_filter s)) evs;
          dropped_count = total - length filtered;
          m2 = (if 0 < dropped_count then inc_filtered dropped_count m1 else m1);
          s1 = s\<lparr>sk_metrics := m2\<rparr>
      in if filtered = [] then (Some (Inr (events_new 0)), s1)
         else
           (case put_batch debug filtered (sk_store s) of
              (None, store) \<Rightarrow> (None, s1\<lparr>sk_store := store\<rparr>)
            | (Some batch_id, store) \<Rightarrow>
                (let s2 = s1\<lparr>sk_store := store\<rparr>;
                     s3 = (if sk_connectors s2 \<noteq> []
                           then (let s' = ensure_worker s2
                                 in s'\<lparr>sk_queue := sk_queue s'
                                        @ [\<lparr>dr_events = filtered, dr_filtered_count = length filtered\<rparr>]\<rparr>)
                           else s2)
                 in (Some (Inr (events_new batch_id)), s3))))"

lemma ensure_worker_fields [simp]:
  "sk_store (ensure_worker s) = sk_store s" "sk_filter (ensure_worker s) = sk_filter s"
  "sk_connectors (ensure_worker s) = sk_connectors s" "sk_metrics (ensure_worker s) = sk_metrics s"
  "sk_queue (ensure_worker s) = sk_queue s"
  by (simp_all add: ensure_worker_def split: option.splits)

lemma sink_filter [simp]: "sk_filter (snd (sink debug evs s)) = sk_filter s"
  by (simp add: sink_def Let_def split: prod.splits option.splits)

lemma worker_step_fields [simp]:
  "sk_store (worker_step dsp s) = sk_store s" "sk_filter (worker_step dsp s) = sk_filter s"
  "sk_worker (worker_step dsp s) = sk_worker s"
  by (simp_all add: worker_step_def Let_def split: option.splits list.splits prod.splits)

lemma put_batch_release: "\<exists>i store. put_batch False evs st = (Some i, store)"
  by (auto simp: put_batch_def Let_def split: prod.splits)

subsection \<open>Histories\<close>

text \<open>Feeds and turns of the worker interleave in any way.\<close>

datatype sink_op = Feed "canal_event list" | WorkerTurn

fun sink_run :: "'k dispatch \<Rightarrow> sink_op list \<Rightarrow> 'k event_sink \<Rightarrow> 'k event_sink" where
  "sink_run dsp [] s = s"
| "sink_run dsp (Feed evs # ops) s = sink_run dsp ops (snd (sink False evs s))"
| "sink_run dsp (WorkerTurn # ops) s = sink_run dsp ops (worker_step dsp s)"

text \<open>The events fed, and the batches that reach the store: of each feed those that pass.\<close>

definition fed :: "sink_op list \<Rightarrow> canal_event list list" where
  "fed ops = List.map_filter (\<lambda>op. case op of Feed evs \<Rightarrow> Some evs | WorkerTurn \<Rightarrow> None) ops"

definition batches :: "event_filter \<Rightarrow> sink_op list \<Rightarrow> canal_event list list" where
  "batches flt ops = filter (\<lambda>b. b \<noteq> []) (map (filter (filter_passes flt)) (fed ops))"

lemma fed_simps [simp]:
  "fed [] = []" "fed (Feed evs # ops) = evs # fed ops" "fed (WorkerTurn # ops) = fed ops"
  by (simp_all add: fed_def List.map_filter_simps)

lemma batches_simps [simp]:
  "batches flt [] = []"
  "batches flt (Feed evs # ops) =
     (if filter (filter_passes flt) evs = [] then [] else [filter (filter_passes flt) evs]) @ batches flt ops"
  "batches flt (WorkerTurn # ops) = batches flt ops"
  by (simp_all add: batches_def)

lemma concat_batches: "concat (batches flt ops) = filter (filter_passes flt) (concat (fed ops))"
proof -
  have "concat (filter (\<lambda>b. b \<noteq> []) (map (filter P) bs)) = filter P (concat bs)" for P :: "canal_event \<Rightarrow> bool" and bs
    by (induction bs) auto
  then show ?thesis by (simp add: batches_def)
qed

text \<open>
  One connector over a list of batches: its state, the events of the batches it took, the batches
  it failed on.
\<close>

fun conn_after :: "'k dispatch \<Rightarrow> canal_event list list \<Rightarrow> 'k \<Rightarrow> 'k" where
  "conn_after dsp [] k = k"
| "conn_after dsp (b # bs) k = conn_after dsp bs (snd (dsp b k))"

fun conn_sent :: "'k dispatch \<Rightarrow> canal_event list list \<Rightarrow> 'k \<Rightarrow> nat" where
  "conn_sent dsp [] k = 0"
| "conn_sent dsp (b # bs) k =
     (if isl (fst (dsp b k)) then 0 else length b) + conn_sent dsp bs (snd (dsp b k))"

fun conn_errors :: "'k dispatch \<Rightarrow> canal_event list list \<Rightarrow> 'k \<Rightarrow> nat" where
  "conn_errors dsp [] k = 0"
| "conn_errors dsp (b # bs) k =
     (if isl (fst (dsp b k)) then 1 else 0) + conn_errors dsp bs (snd (dsp b k))"

lemma worker_request_eq:
  "fst (worker_request dsp req ks m) = map (\<lambda>k. snd (dsp (dr_events req) k)) ks"
  "cm_parsed (snd (worker_request dsp req ks m)) = cm_parsed m"
  "cm_filtered (snd (worker_request dsp req ks m)) = cm_filtered m"
  "cm_dispatched (snd (worker_request dsp req ks m)) = cm_dispatched m
     + sum_list (map (\<lambda>k. if isl (fst (dsp (dr_events req) k)) then 0 else dr_filtered_count req) ks)"
  "cm_dispatch_errors (snd (worker_request dsp req ks m)) = cm_dispatch_errors m
     + sum_list (map (\<lambda>k. if isl (fst (dsp (dr_events req) k)) then 1 else 0) ks)"
  by (induction ks arbitrary: m) (auto simp: Let_def split_def split: sum.splits)

lemma sink_pass:
  assumes "b = filter (filter_passes (sk_filter s)) evs"
  shows "sk_store (snd (sink False evs s)) = (if b = [] then sk_store s else snd (put_batch False b (sk_store s)))"
    and "cm_parsed (sk_metrics (snd (sink False evs s))) = cm_parsed (sk_metrics s) + length evs"
    and "cm_filtered (sk_metrics (snd (sink False evs s))) + length b = cm_filtered (sk_metrics s) + length evs"
    and "cm_dispatched (sk_metrics (snd (sink False evs s))) = cm_dispatched (sk_metrics s)"
    and "cm_dispatch_errors (sk_metrics (snd (sink False evs s))) = cm_dispatch_errors (sk_metrics s)"
    and "sk_connectors (snd (sink False evs s)) = sk_connectors s"
proof -
  obtain i st where p: "put_batch False b (sk_store s) = (Some i, st)"
    using put_batch_release by blast
  have "length b \<le> length evs"
    using assms by simp
  then show "sk_store (snd (sink False evs s)) = (if b = [] then sk_store s else snd (put_batch False b (sk_store s)))"
    "cm_parsed (sk_metrics (snd (sink False evs s))) = cm_parsed (sk_metrics s) + length evs"
    "cm_filtered (sk_metrics (snd (sink False evs s))) + length b = cm_filtered (sk_metrics s) + length evs"
    "cm_dispatched (sk_metrics (snd (sink False evs s))) = cm_dispatched (sk_metrics s)"
    "cm_dispatch_errors (sk_metrics (snd (sink False evs s))) = cm_dispatch_errors (sk_metrics s)"
    "sk_connectors (snd (sink False evs s)) = sk_connectors s"
    using p by (auto simp: sink_def Let_def simp flip: assms)
qed

lemma sink_run_store:
  "sk_store (sink_run dsp ops s)
     = fold (\<lambda>b st. snd (put_batch False b st)) (batches (sk_filter s) ops) (sk_store s)
   \<and> cm_parsed (sk_metrics (sink_run dsp ops s)) = cm_parsed (sk_metrics s) + length (concat (fed ops))
   \<and> cm_filtered (sk_metrics (sink_run dsp ops s)) + length (concat (batches (sk_filter s) ops))
     = cm_filtered (sk_metrics s) + length (concat (fed ops))"
proof (induction dsp ops s rule: sink_run.induct)
  case (2 dsp evs ops s)
  then show ?case
    using sink_pass [OF refl, of evs s] by (simp split: if_splits)
next
  case (3 dsp ops s)
  have "cm_parsed (sk_metrics (worker_step dsp s)) = cm_parsed (sk_metrics s)"
    "cm_filtered (sk_metrics (worker_step dsp s)) = cm_filtered (sk_metrics s)"
    by (auto simp: worker_step_def split_def worker_request_eq split: option.splits list.splits)
  with 3 show ?case by simp
qed simp

definition sink_ok :: "'k event_sink \<Rightarrow> bool" where
  "sink_ok s \<longleftrightarrow>
     (if sk_worker s = None then sk_queue s = []
      else sk_worker s = Some (length (sk_connectors s)))
     \<and> (\<forall>req \<in> set (sk_queue s). dr_filtered_count req = length (dr_events req))"

lemma sink_enqueues:
  assumes "sink_ok s" and "sk_connectors s \<noteq> []"
    and "b = filter (filter_passes (sk_filter s)) evs"
  shows "sink_ok (snd (sink False evs s))"
    and "map dr_events (sk_queue (snd (sink False evs s)))
      = map dr_events (sk_queue s) @ (if b = [] then [] else [b])"
proof -
  obtain i st where p: "put_batch False b (sk_store s) = (Some i, st)"
    using put_batch_release by blast
  show "sink_ok (snd (sink False evs s))"
    using p assms(1,2)
    by (cases "sk_worker s"; cases "b = []")
      (auto simp: sink_def Let_def sink_ok_def ensure_worker_def simp flip: assms(3))
  show "map dr_events (sk_queue (snd (sink False evs s)))
      = map dr_events (sk_queue s) @ (if b = [] then [] else [b])"
    using p assms(2) by (auto simp: sink_def Let_def simp flip: assms(3))
qed

lemma worker_idle: "sk_queue s = [] \<Longrightarrow> worker_step dsp s = s"
  by (simp add: worker_step_def split: option.splits)

lemma worker_turn:
  assumes "sink_ok s" and "sk_queue s = req # q" and "b = dr_events req"
  shows "sk_connectors (worker_step dsp s) = map (\<lambda>k. snd (dsp b k)) (sk_connectors s)"
    and "sk_queue (worker_step dsp s) = q"
    and "cm_dispatched (sk_metrics (worker_step dsp s)) = cm_dispatched (sk_metrics s)
      + sum_list (map (\<lambda>k. if isl (fst (dsp b k)) then 0 else length b) (sk_connectors s))"
    and "cm_dispatch_errors (sk_metrics (worker_step dsp s)) = cm_dispatch_errors (sk_metrics s)
      + sum_list (map (\<lambda>k. if isl (fst (dsp b k)) then 1 else 0) (sk_connectors s))"
    and "sink_ok (worker_step dsp s)"
proof -
  have w: "sk_worker s = Some (length (sk_connectors s))" "dr_filtered_count req = length b"
    using assms by (auto simp: sink_ok_def split: if_splits)
  note eqs = worker_step_def w assms(2,3) split_def Let_def worker_request_eq
  show conns: "sk_connectors (worker_step dsp s) = map (\<lambda>k. snd (dsp b k)) (sk_connectors s)"
    by (simp add: eqs)
  show queue: "sk_queue (worker_step dsp s) = q"
    by (simp add: eqs)
  show "cm_dispatched (sk_metrics (worker_step dsp s)) = cm_dispatched (sk_metrics s)
      + sum_list (map (\<lambda>k. if isl (fst (dsp b k)) then 0 else length b) (sk_connectors s))"
    by (simp add: eqs cong: if_cong)
  show "cm_dispatch_errors (sk_metrics (worker_step dsp s)) = cm_dispatch_errors (sk_metrics s)
      + sum_list (map (\<lambda>k. if isl (fst (dsp b k)) then 1 else 0) (sk_connectors s))"
    by (simp add: eqs)
  show "sink_ok (worker_step dsp s)"
    using assms(1,2) by (auto simp: sink_ok_def conns queue split: if_splits)
qed

lemma sum_list_map_add:
  "sum_list (map (\<lambda>k. f k + g k) ks) = sum_list (map f ks) + (sum_list (map g ks) :: nat)"
  by (rule sum_list_addf)

lemma sink_run_connectors:
  assumes "sink_ok s" and "sk_connectors s \<noteq> []"
  shows "\<exists>handled. sk_connectors (sink_run dsp ops s) = map (conn_after dsp handled) (sk_connectors s)
    \<and> handled @ map dr_events (sk_queue (sink_run dsp ops s))
      = map dr_events (sk_queue s) @ batches (sk_filter s) ops
    \<and> cm_dispatched (sk_metrics (sink_run dsp ops s))
      = cm_dispatched (sk_metrics s) + sum_list (map (conn_sent dsp handled) (sk_connectors s))
    \<and> cm_dispatch_errors (sk_metrics (sink_run dsp ops s))
      = cm_dispatch_errors (sk_metrics s) + sum_list (map (conn_errors dsp handled) (sk_connectors s))"
  using assms
proof (induction dsp ops s rule: sink_run.induct)
  case (1 dsp s)
  have "map (conn_after dsp []) ks = ks" "sum_list (map (conn_sent dsp []) ks) = 0"
    "sum_list (map (conn_errors dsp []) ks) = 0" for ks
    by (induction ks) auto
  then show ?case by (intro exI [of _ "[]"]) simp
next
  case (2 dsp evs ops s)
  note e = sink_enqueues [OF "2.prems" refl, of evs] and f = sink_pass [OF refl, of evs s]
  from 2 show ?case by (simp add: e f)
next
  case (3 dsp ops s)
  show ?case
  proof (cases "sk_queue s")
    case Nil
    with 3 show ?thesis by (simp add: worker_idle)
  next
    case (Cons req q)
    note t = worker_turn [OF "3.prems"(1) Cons refl, of dsp]
    from "3.IH" t "3.prems"(2) obtain handled where h:
      "sk_connectors (sink_run dsp ops (worker_step dsp s))
        = map (conn_after dsp handled) (sk_connectors (worker_step dsp s))"
      "handled @ map dr_events (sk_queue (sink_run dsp ops (worker_step dsp s)))
        = map dr_events q @ batches (sk_filter s) ops"
      "cm_dispatched (sk_metrics (sink_run dsp ops (worker_step dsp s)))
        = cm_dispatched (sk_metrics (worker_step dsp s))
          + sum_list (map (conn_sent dsp handled) (sk_connectors (worker_step dsp s)))"
      "cm_dispatch_errors (sk_metrics (sink_run dsp ops (worker_step dsp s)))
        = cm_dispatch_errors (sk_metrics (worker_step dsp s))
          + sum_list (map (conn_errors dsp handled) (sk_connectors (worker_step dsp s)))"
      by fastforce
    then show ?thesis
      by (intro exI [of _ "dr_events req # handled"])
        (simp add: t Cons comp_def sum_list_map_add [symmetric] ac_simps)
  qed
qed

lemma sink_run_no_connectors:
  assumes "sk_connectors s = []" and "sk_queue s = []"
  shows "sk_connectors (sink_run dsp ops s) = [] \<and> sk_queue (sink_run dsp ops s) = []
    \<and> cm_dispatched (sk_metrics (sink_run dsp ops s)) = cm_dispatched (sk_metrics s)
    \<and> cm_dispatch_errors (sk_metrics (sink_run dsp ops s)) = cm_dispatch_errors (sk_metrics s)"
  using assms
proof (induction dsp ops s rule: sink_run.induct)
  case (2 dsp evs ops s)
  have "sk_queue (snd (sink False evs s)) = []"
    using "2.prems" by (auto simp: sink_def Let_def split: option.splits prod.splits)
  with 2 show ?case
    using sink_pass [OF refl, of evs s] by simp
qed (simp_all add: worker_idle)

lemma sink_ok_new: "sink_ok (sink_new store flt ks)"
  by (simp add: sink_ok_def sink_new_def sink_with_metrics_def)

lemma sink_new_fields [simp]:
  "sk_store (sink_new store flt ks) = store" "sk_filter (sink_new store flt ks) = flt"
  "sk_connectors (sink_new store flt ks) = ks" "sk_queue (sink_new store flt ks) = []"
  "sk_metrics (sink_new store flt ks) = metrics_new"
  by (simp_all add: sink_new_def sink_with_metrics_def)

lemma metrics_new_fields [simp]:
  "cm_parsed metrics_new = 0" "cm_filtered metrics_new = 0" "cm_dispatched metrics_new = 0"
  "cm_dispatch_errors metrics_new = 0" "cm_instances_active metrics_new = 0"
  by (simp_all add: metrics_new_def)

text \<open>C33: What the sink does with the events. After any interleaving of feeds and turns of the worker
  the store has been given the non-empty filtered batches of the feeds, in order; every connector
  has been handed a prefix of the same batches, in the same order, each once, and the rest are in
  the queue. The counters say what happened: parsed events are those fed, filtered ones those that
  did not pass, and each connector adds the events of every batch it took to the dispatched ones
  and one error for every batch it failed on; a failed batch is not dispatched again.\<close>

theorem sink_fan_out:
  "let s = sink_run dsp ops (sink_new store flt ks)
   in sk_store s = fold (\<lambda>b st. snd (put_batch False b st)) (batches flt ops) store
    \<and> concat (batches flt ops) = filter (filter_passes flt) (concat (fed ops))
    \<and> cm_parsed (sk_metrics s) = length (concat (fed ops))
    \<and> cm_parsed (sk_metrics s) = cm_filtered (sk_metrics s) + length (concat (batches flt ops))
    \<and> (\<exists>handled. handled @ map dr_events (sk_queue s) = batches flt ops
         \<and> sk_connectors s = map (conn_after dsp handled) ks
         \<and> cm_dispatched (sk_metrics s) = sum_list (map (conn_sent dsp handled) ks)
         \<and> cm_dispatch_errors (sk_metrics s) = sum_list (map (conn_errors dsp handled) ks))"
proof -
  let ?s0 = "sink_new store flt ks"
  have "\<exists>handled. handled @ map dr_events (sk_queue (sink_run dsp ops ?s0)) = batches flt ops
         \<and> sk_connectors (sink_run dsp ops ?s0) = map (conn_after dsp handled) ks
         \<and> cm_dispatched (sk_metrics (sink_run dsp ops ?s0)) = sum_list (map (conn_sent dsp handled) ks)
         \<and> cm_dispatch_errors (sk_metrics (sink_run dsp ops ?s0)) = sum_list (map (conn_errors dsp handled) ks)"
  proof (cases "ks = []")
    case True
    then show ?thesis
      using sink_run_no_connectors [of ?s0 dsp ops] by (intro exI [of _ "batches flt ops"]) simp
  next
    case False
    then show ?thesis
      using sink_run_connectors [OF sink_ok_new, of store flt ks dsp ops] by fastforce
  qed
  then show ?thesis
    using sink_run_store [of dsp ops ?s0] by (simp add: Let_def concat_batches)
qed

subsection \<open>What a connector promises\<close>

text \<open>
  \<open>trait SinkConnector\<close>: a successful \<open>dispatch\<close> has delivered the message of every event of
  the batch that has one, a failed one some of them. The order is not part of the contract.
\<close>

locale sink_target =
  fixes dispatch :: "'k dispatch" and received :: "'k \<Rightarrow> 'm multiset"
    and message :: "'k \<Rightarrow> canal_event \<Rightarrow> 'm option"
  assumes dispatch_ok: "dispatch es k = (Inr u, k') \<Longrightarrow>
      received k' = received k + mset (List.map_filter (message k) es)"
    and dispatch_error: "dispatch es k = (Inl e, k') \<Longrightarrow>
      received k \<subseteq># received k' \<and> received k' \<subseteq># received k + mset (List.map_filter (message k) es)"
    and message_dispatch: "message (snd (dispatch es k)) = message k"
begin

lemma delivered:
  assumes "conn_errors dispatch bs k = 0"
  shows "received (conn_after dispatch bs k)
    = received k + mset (List.map_filter (message k) (concat bs))"
  using assms
proof (induction bs arbitrary: k)
  case (Cons b bs)
  obtain u k' where d: "dispatch b k = (Inr u, k')"
    using Cons.prems by (cases "dispatch b k"; cases "fst (dispatch b k)") auto
  have "message k' = message k"
    using message_dispatch [of b k] d by simp
  with Cons d show ?case
    by (simp add: dispatch_ok [OF d] List.map_filter_def)
qed (simp add: List.map_filter_def)

lemma received_bounds:
  "received k \<subseteq># received (conn_after dispatch bs k)
   \<and> received (conn_after dispatch bs k) \<subseteq># received k + mset (List.map_filter (message k) (concat bs))"
proof (induction bs arbitrary: k)
  case (Cons b bs)
  obtain r k' where d: "dispatch b k = (r, k')"
    by fastforce
  have m: "message k' = message k"
    using message_dispatch [of b k] d by simp
  have b: "received k \<subseteq># received k'
      \<and> received k' \<subseteq># received k + mset (List.map_filter (message k) b)"
    using d by (cases r) (auto dest: dispatch_ok dispatch_error)
  have "received (conn_after dispatch bs k')
      \<subseteq># received k' + mset (List.map_filter (message k) (concat bs))"
    using Cons.IH [of k'] m by simp
  also have "\<dots> \<subseteq># (received k + mset (List.map_filter (message k) b))
      + mset (List.map_filter (message k) (concat bs))"
    using b by (simp add: subset_mset.add_right_mono)
  finally show ?case
    using Cons.IH [of k'] b d
    by (auto simp: List.map_filter_def add.assoc intro: subset_mset.order_trans)
qed (simp add: List.map_filter_def)

end

end
