(* ===== verification/Canal_Registry.thy ===== *)
theory Canal_Registry
  imports Main "HOL-Library.Finite_Map"
begin

text \<open>
  The interface of the keyed tables of the program: a table that starts empty, in which an entry is
  inserted or replaced under its key, removed, and looked up. The table metadata cache and the
  instance manager provide it.
\<close>

datatype ('k, 'v) registry_op = Insert 'k 'v | Remove 'k

text \<open>What a history of operations leaves under a key, given what was there before.\<close>

fun last_value :: "('k, 'v) registry_op list \<Rightarrow> 'k \<Rightarrow> 'v option \<Rightarrow> 'v option" where
  "last_value [] k v = v"
| "last_value (Insert k' v' # ops) k v = last_value ops k (if k' = k then Some v' else v)"
| "last_value (Remove k' # ops) k v = last_value ops k (if k' = k then None else v)"

text \<open>
  \<open>files k v\<close> says that the table files the entry \<open>v\<close> under \<open>k\<close>: some tables take the key
  from the entry.
\<close>

locale registry =
  fixes lookup :: "'m \<Rightarrow> 'k \<Rightarrow> 'v option" and empty :: 'm
    and insert :: "'k \<Rightarrow> 'v \<Rightarrow> 'm \<Rightarrow> 'm" and remove :: "'k \<Rightarrow> 'm \<Rightarrow> 'm"
    and files :: "'k \<Rightarrow> 'v \<Rightarrow> bool"
  assumes lookup_empty: "lookup empty k = None"
    and lookup_insert: "files k v \<Longrightarrow>
      lookup (insert k v m) k' = (if k = k' then Some v else lookup m k')"
    and lookup_remove: "lookup (remove k m) k' = (if k = k' then None else lookup m k')"
begin

definition apply_op :: "('k, 'v) registry_op \<Rightarrow> 'm \<Rightarrow> 'm" where
  "apply_op op m = (case op of Insert k v \<Rightarrow> insert k v m | Remove k \<Rightarrow> remove k m)"

lemma lookup_history:
  assumes "\<And>k v. Insert k v \<in> set ops \<Longrightarrow> files k v"
  shows "lookup (fold apply_op ops m) k = last_value ops k (lookup m k)"
  using assms
  by (induction ops k "lookup m k" arbitrary: m rule: last_value.induct)
    (simp_all add: apply_op_def lookup_insert lookup_remove)

lemma lookup_history_empty:
  assumes "\<And>k v. Insert k v \<in> set ops \<Longrightarrow> files k v"
  shows "lookup (fold apply_op ops empty) k = last_value ops k None"
  using assms by (simp add: lookup_history lookup_empty)

end

end
