(* ===== verification/Canal_Instance.thy ===== *)
theory Canal_Instance
  imports Canal_Sink Canal_Registry "HOL-Library.Char_ord" "HOL-Library.List_Lexorder"
begin

text \<open>
  The crate \<open>canal-instance\<close> (\<open>instance.rs\<close>): \<open>CanalInstance\<close>, a store and a sink behind
  a running flag, and \<open>InstanceManager\<close>, the table of instances by destination. The instance's
  store is the one in its sink. The iteration order of the manager's hash map is a parameter.
\<close>

record instance_config =
  ic_destination :: string
  ic_mysql_host :: string
  ic_mysql_port :: u16
  ic_mysql_username :: string
  ic_mysql_password :: string
  ic_mysql_server_id :: u64
  ic_start_position :: log_position
  ic_filter :: filter_pattern
  ic_store_buffer_size :: nat
  ic_connector_names :: "string list"

record 'k canal_instance =
  ci_config :: instance_config
  ci_sink :: "'k event_sink"
  ci_running :: bool

definition invalid_filter :: "string \<Rightarrow> string \<Rightarrow> canal_error" where
  "invalid_filter pattern e =
     Config (''Invalid filter pattern '' @ [CHR 0x27] @ pattern @ [CHR 0x27] @ '': '' @ e)"

text \<open>\<open>None\<close> is the panic of the store's constructor on the size 0.\<close>

definition canal_instance_new :: "regex_engine \<Rightarrow> instance_config \<Rightarrow> 'k list \<Rightarrow> 'k canal_instance canal_result option" where
  "canal_instance_new rx config connectors =
     (case mem_store_new (ic_store_buffer_size config) of
        None \<Rightarrow> None
      | Some store \<Rightarrow>
          Some (case event_filter_with_blacklist rx (fp_pattern (ic_filter config))
                      (fp_black_list (ic_filter config)) of
                  Inl e \<Rightarrow> Inl (invalid_filter (fp_pattern (ic_filter config)) e)
                | Inr flt \<Rightarrow> Inr \<lparr>ci_config = config, ci_sink = sink_new store flt connectors, ci_running = False\<rparr>))"

definition instance_destination :: "'k canal_instance \<Rightarrow> string" where
  "instance_destination i = ic_destination (ci_config i)"

definition instance_store :: "'k canal_instance \<Rightarrow> mem_store" where
  "instance_store i = sk_store (ci_sink i)"

definition not_running_error :: "string \<Rightarrow> canal_error" where
  "not_running_error destination =
     Internal (''instance '' @ [CHR 0x27] @ destination @ [CHR 0x27] @ '' is not running '' @ em_dash
       @ '' cannot feed events'')"

text \<open>\<open>None\<close> is the panic of the store's feed-order assertion.\<close>

definition feed :: "bool \<Rightarrow> canal_event list \<Rightarrow> 'k canal_instance \<Rightarrow> unit canal_result option \<times> 'k canal_instance" where
  "feed debug evs i =
     (if \<not> ci_running i then (Some (Inl (not_running_error (ic_destination (ci_config i)))), i)
      else
        (let (r, s) = sink debug evs (ci_sink i); i' = i\<lparr>ci_sink := s\<rparr>
         in case r of
              None \<Rightarrow> (None, i')
            | Some (Inl e) \<Rightarrow> (Some (Inl e), i')
            | Some (Inr _) \<Rightarrow> (Some (Inr ()), i')))"

definition instance_start :: "'k canal_instance \<Rightarrow> 'k canal_instance" where
  "instance_start i = i\<lparr>ci_running := True\<rparr>"

definition instance_stop :: "'k canal_instance \<Rightarrow> 'k canal_instance" where
  "instance_stop i = i\<lparr>ci_running := False\<rparr>"

interpretation inst_life: lifecycle instance_start instance_stop ci_running
  by unfold_locales (auto simp: instance_start_def instance_stop_def)

lemma instance_start_fields [simp]:
  "ci_config (instance_start i) = ci_config i" "ci_sink (instance_start i) = ci_sink i"
  "ci_running (instance_start i)"
  by (simp_all add: instance_start_def)

lemma instance_stop_fields [simp]:
  "ci_config (instance_stop i) = ci_config i" "ci_sink (instance_stop i) = ci_sink i"
  "\<not> ci_running (instance_stop i)"
  by (simp_all add: instance_stop_def)

subsection \<open>Feeding\<close>

abbreviation passing :: "'k canal_instance \<Rightarrow> canal_event list \<Rightarrow> canal_event list" where
  "passing i \<equiv> filter (filter_passes (sk_filter (ci_sink i)))"

lemma sink_store_log:
  assumes "store_log h (sk_store s)" and "b = filter (filter_passes (sk_filter s)) evs"
    and "sorted (map ev_key (h @ b))"
  shows "\<exists>es s'. sink debug evs s = (Some (Inr es), s') \<and> store_log (h @ b) (sk_store s')"
proof (cases "b = []")
  case True
  with assms show ?thesis by (simp add: sink_def Let_def flip: assms(2))
next
  case False
  obtain i st where "put_batch debug b (sk_store s) = (Some i, st)" "store_log (h @ b) st"
    using put_batch_log_nonempty [OF assms(1,3) False] by blast
  with False show ?thesis by (simp add: sink_def Let_def flip: assms(2))
qed

lemma feed_log:
  assumes "store_log h (instance_store i)" and "sorted (map ev_key (h @ passing i evs))"
    and "ci_running i"
  shows "\<exists>i'. feed debug evs i = (Some (Inr ()), i') \<and> ci_running i'
    \<and> sk_filter (ci_sink i') = sk_filter (ci_sink i)
    \<and> store_log (h @ passing i evs) (instance_store i')"
proof -
  obtain es s' where s: "sink debug evs (ci_sink i) = (Some (Inr es), s')"
    "store_log (h @ passing i evs) (sk_store s')"
    using sink_store_log [OF assms(1) [unfolded instance_store_def] refl assms(2)] by blast
  then have "sk_filter s' = sk_filter (ci_sink i)"
    by (metis sink_filter snd_conv)
  with s assms(3) show ?thesis
    by (simp add: feed_def instance_store_def)
qed

text \<open>Feeding an instance. A running instance whose store stands for the log \<open>h\<close> and that is
  fed events whose passing part continues \<open>h\<close> in position order accepts them, with or without
  debug assertions: its store then stands for \<open>h\<close> and the passing events. An instance that is not
  running refuses any feed and is left as it was.\<close>

theorem feed_refines:
  assumes "store_log h (instance_store i)" and "sorted (map ev_key (h @ passing i evs))"
  shows "\<exists>i'. feed debug evs i
      = (Some (if ci_running i then Inr () else Inl (not_running_error (instance_destination i))), i')
    \<and> store_log (if ci_running i then h @ passing i evs else h) (instance_store i')
    \<and> (\<not> ci_running i \<longrightarrow> i' = i)"
  using feed_log [OF assms, of debug] assms(1)
  by (cases "ci_running i") (auto simp: feed_def instance_destination_def)

definition sample_config :: instance_config where
  "sample_config =
     \<lparr>ic_destination = ''default'', ic_mysql_host = ''h'', ic_mysql_port = 3306,
      ic_mysql_username = ''u'', ic_mysql_password = ''p'', ic_mysql_server_id = 1001,
      ic_start_position = log_position_new ''b.1'' 0,
      ic_filter = \<lparr>fp_pattern = ''p'', fp_black_list = ''''\<rparr>, ic_store_buffer_size = 2,
      ic_connector_names = []\<rparr>"

definition sample_instance :: "'k canal_instance" where
  "sample_instance =
     \<lparr>ci_config = sample_config,
      ci_sink = sink_new sample_store \<lparr>ef_include = (\<lambda>_. True), ef_exclude = None\<rparr> [],
      ci_running = True\<rparr>"

lemma sample_instance_fields [simp]:
  "instance_store sample_instance = sample_store" "ci_running sample_instance"
  "filter_passes (sk_filter (ci_sink sample_instance)) e"
  "instance_destination sample_instance = ''default''"
  by (simp_all add: sample_instance_def sample_config_def instance_store_def instance_destination_def
      filter_passes_def event_filter_matches_def Let_def)

lemma feed_refines_witness:
  "\<exists>i'. feed True [sample_event ''b.1'' 4] (sample_instance :: unit canal_instance) = (Some (Inr ()), i')
    \<and> store_log (sample_log @ [sample_event ''b.1'' 4]) (instance_store i')"
  using feed_refines [of sample_log "sample_instance :: unit canal_instance" "[sample_event ''b.1'' 4]" True]
    sample_store_log sample_log_sorted [of 4] by auto

subsection \<open>The manager\<close>

type_synonym 'k instance_manager = "(string, 'k canal_instance) fmap"

text \<open>An iteration of the map yields each entry once, in some order.\<close>

type_synonym 'k map_order = "'k instance_manager \<Rightarrow> (string \<times> 'k canal_instance) list"

definition iterates :: "'k map_order \<Rightarrow> bool" where
  "iterates iter \<longleftrightarrow>
     (\<forall>m. distinct (map fst (iter m)) \<and> (\<forall>d i. (d, i) \<in> set (iter m) \<longleftrightarrow> fmlookup m d = Some i))"

definition manager_new :: "'k instance_manager" where
  "manager_new = fmempty"

definition manager_register :: "'k canal_instance \<Rightarrow> 'k instance_manager \<Rightarrow> 'k instance_manager" where
  "manager_register i m = (let dest = instance_destination i in fmupd dest i m)"

definition manager_get :: "'k instance_manager \<Rightarrow> string \<Rightarrow> 'k canal_instance option" where
  "manager_get m dest = fmlookup m dest"

definition manager_remove :: "string \<Rightarrow> 'k instance_manager \<Rightarrow> 'k canal_instance option \<times> 'k instance_manager" where
  "manager_remove dest m = (fmlookup m dest, fmdrop dest m)"

definition manager_list :: "'k map_order \<Rightarrow> 'k instance_manager \<Rightarrow> string list" where
  "manager_list iter m = map fst (iter m)"

definition running_count :: "'k map_order \<Rightarrow> 'k instance_manager \<Rightarrow> nat" where
  "running_count iter m = length (filter (\<lambda>(d, i). ci_running i) (iter m))"

text \<open>The instances are shared, so starting one changes it under its key.\<close>

definition update_instance :: "string \<Rightarrow> ('k canal_instance \<Rightarrow> 'k canal_instance) \<Rightarrow> 'k instance_manager
    \<Rightarrow> 'k instance_manager" where
  "update_instance dest f m =
     (case fmlookup m dest of None \<Rightarrow> m | Some i \<Rightarrow> fmupd dest (f i) m)"

definition start_all :: "'k map_order \<Rightarrow> 'k instance_manager \<Rightarrow> unit canal_result \<times> 'k instance_manager" where
  "start_all iter m = (Inr (), fold (\<lambda>(d, i) m. update_instance d instance_start m) (iter m) m)"

definition stop_all :: "'k map_order \<Rightarrow> 'k instance_manager \<Rightarrow> unit canal_result \<times> 'k instance_manager" where
  "stop_all iter m = (Inr (), fold (\<lambda>(d, i) m. update_instance d instance_stop m) (iter m) m)"

lemma fmlookup_update_instance [simp]:
  "fmlookup (update_instance d f m) d' = (if d = d' then map_option f (fmlookup m d) else fmlookup m d')"
  by (auto simp: update_instance_def split: option.splits)

lemma fold_update_instances:
  assumes "distinct (map fst xs)"
  shows "fmlookup (fold (\<lambda>(d, i) m. update_instance d f m) xs m) d
    = (if d \<in> fst ` set xs then map_option f (fmlookup m d) else fmlookup m d)"
  using assms by (induction xs arbitrary: m) (auto simp: image_iff split: prod.splits)

lemma iteratesD:
  assumes "iterates iter"
  shows "distinct (map fst (iter m))" and "(d, i) \<in> set (iter m) \<longleftrightarrow> fmlookup m d = Some i"
  using assms by (simp_all add: iterates_def)

lemma iterates_dom: "iterates iter \<Longrightarrow> d \<in> fst ` set (iter m) \<longleftrightarrow> fmlookup m d \<noteq> None"
  using iteratesD(2) [of iter d _ m] by (force simp: image_iff)

lemma fmlookup_start_all:
  assumes "iterates iter"
  shows "fmlookup (snd (start_all iter m)) d = map_option instance_start (fmlookup m d)"
    and "fmlookup (snd (stop_all iter m)) d = map_option instance_stop (fmlookup m d)"
  using iterates_dom [OF assms, of d m]
  by (auto simp: start_all_def stop_all_def fold_update_instances [OF iteratesD(1) [OF assms]])

lemma running_count_card:
  assumes "iterates iter"
  shows "running_count iter m = card {d. \<exists>i. fmlookup m d = Some i \<and> ci_running i}"
proof -
  let ?r = "filter (\<lambda>(d, i). ci_running i) (iter m)"
  have "distinct (map fst ?r)"
    by (rule distinct_map_filter [OF iteratesD(1) [OF assms]])
  then have "length ?r = card (set (map fst ?r))"
    by (metis distinct_card length_map)
  also have "set (map fst ?r) = {d. \<exists>i. fmlookup m d = Some i \<and> ci_running i}"
    by (force simp: iteratesD(2) [OF assms])
  finally show ?thesis by (simp add: running_count_def)
qed

text \<open>The manager is a registry that files an instance under the destination it carries.\<close>

interpretation manager: registry manager_get manager_new "\<lambda>_. manager_register"
    "\<lambda>d m. snd (manager_remove d m)" "\<lambda>d i. d = instance_destination i"
  by unfold_locales
    (auto simp: manager_get_def manager_new_def manager_register_def manager_remove_def Let_def)

lemma manager_history:
  assumes "\<And>d i. Insert d i \<in> set ops \<Longrightarrow> d = instance_destination i"
  shows "manager_get (fold manager.apply_op ops manager_new) d = last_value ops d None"
  using assms by (rule manager.lookup_history_empty)

text \<open>Starting and stopping all instances. Whatever the iteration order of the map, after
  \<open>start_all\<close> every registered instance runs and is otherwise as it was, and the count of running
  instances is the number of registered ones; after \<open>stop_all\<close> none runs and the count is 0. The
  same instances are registered before and after.\<close>

theorem all_instances:
  assumes "iterates iter"
  shows "manager_get (snd (start_all iter m)) d = map_option instance_start (manager_get m d)
    \<and> manager_get (snd (stop_all iter m)) d = map_option instance_stop (manager_get m d)
    \<and> running_count iter (snd (start_all iter m)) = length (manager_list iter m)
    \<and> running_count iter (snd (stop_all iter m)) = 0
    \<and> set (manager_list iter (snd (start_all iter m))) = set (manager_list iter m)"
proof -
  have doms: "set (manager_list iter m') = {d. fmlookup m' d \<noteq> None}" for m'
    using iterates_dom [OF assms] by (auto simp: manager_list_def)
  have "length (manager_list iter m) = card (set (manager_list iter m))"
    using distinct_card [OF iteratesD(1) [OF assms]] by (simp add: manager_list_def)
  also have "set (manager_list iter m) = {d. \<exists>i. fmlookup m d = Some i}"
    by (simp add: doms)
  also have "\<dots> = {d. \<exists>i. fmlookup (snd (start_all iter m)) d = Some i \<and> ci_running i}"
    by (auto simp: fmlookup_start_all [OF assms])
  finally have "running_count iter (snd (start_all iter m)) = length (manager_list iter m)"
    by (simp add: running_count_card [OF assms])
  moreover have "{d. \<exists>i. fmlookup (snd (stop_all iter m)) d = Some i \<and> ci_running i} = {}"
    by (auto simp: fmlookup_start_all [OF assms])
  then have "running_count iter (snd (stop_all iter m)) = 0"
    by (simp only: running_count_card [OF assms] card.empty)
  ultimately show ?thesis
    by (simp add: doms manager_get_def fmlookup_start_all [OF assms])
qed

lemma iterates_sorted: "iterates sorted_list_of_fmap"
proof -
  have d: "distinct (map fst (sorted_list_of_fmap m))" for m :: "(string, 'a canal_instance) fmap"
    by (simp add: sorted_list_of_fmap_def comp_def sorted_list_of_fset.rep_eq)
  then show ?thesis
    by (simp add: iterates_def flip: map_of_eq_Some_iff [OF d])
qed

lemma all_instances_witness:
  "let m = fmupd ''default'' (sample_instance :: unit canal_instance) fmempty
   in running_count sorted_list_of_fmap (snd (start_all sorted_list_of_fmap m))
        = length (manager_list sorted_list_of_fmap m)
     \<and> running_count sorted_list_of_fmap (snd (stop_all sorted_list_of_fmap m)) = 0"
  using all_instances [OF iterates_sorted,
      of "fmupd ''default'' (sample_instance :: unit canal_instance) fmempty" "''default''"]
  unfolding Let_def by blast

end
