(* ===== verification/Canal_Admin.thy ===== *)
theory Canal_Admin
  imports Canal_Instance
begin

unbundle bit_operations_syntax

text \<open>
  The crate \<open>canal-admin\<close> (\<open>lib.rs\<close>): the token check of the Admin API and its handlers over
  the instance manager. A request is its route, its path parameter and the text of its
  \<open>Authorization\<close> header. The build's version string and the clock are parameters.
\<close>

subsection \<open>The token\<close>

definition byte_at :: "bytes \<Rightarrow> nat \<Rightarrow> u8" where
  "byte_at a i = (if i < length a then a ! i else 0)"

text \<open>The lengths enter the fold as the low 16 bits of their XOR.\<close>

definition constant_time_eq :: "bytes \<Rightarrow> bytes \<Rightarrow> bool" where
  "constant_time_eq a b =
     (let max_len = max (length a) (length b);
          acc0 = (ucast ((of_nat (length a) :: u64) XOR of_nat (length b)) :: u16);
          acc = foldl (\<lambda>acc i. acc OR ucast (byte_at a i XOR byte_at b i)) acc0 [0 ..< max_len]
      in acc = 0)"

definition check_auth :: "authorization \<Rightarrow> string option \<Rightarrow> (nat, unit) rust_result" where
  "check_auth headers expected =
     (case expected of
        None \<Rightarrow> Inr ()
      | Some token \<Rightarrow>
          (if token = [] then Inl 401
           else (let auth = unwrap_or headers ''''
                 in if constant_time_eq (as_bytes auth) (as_bytes (bearer token))
                       \<or> constant_time_eq (as_bytes auth) (as_bytes token)
                    then Inr () else Inl 401)))"

lemma ucast_u8_u16_eq_0: "(ucast (x :: u8) :: u16) = 0 \<longleftrightarrow> x = 0"
proof -
  have "unat x < 256"
    using unsigned_less [of x] by simp
  then have "unat (ucast x :: u16) = unat x"
    by (simp add: unsigned_ucast_eq take_bit_nat_eq_self)
  then show ?thesis by (simp add: word_unat_eq_iff)
qed

lemma length_xor_eq_0:
  "(ucast ((of_nat m :: u64) XOR of_nat n) :: u16) = 0 \<longleftrightarrow> m mod 65536 = n mod 65536"
proof -
  have "(ucast ((of_nat m :: u64) XOR of_nat n) :: u16) = of_nat m XOR of_nat n"
    by (rule bit_word_eqI) (simp add: bit_simps)
  also have "\<dots> = 0 \<longleftrightarrow> (of_nat m :: u16) = of_nat n"
    by (rule word_xor_eq_0_iff)
  also have "\<dots> \<longleftrightarrow> m mod 65536 = n mod 65536"
    by (simp add: word_of_nat_eq_iff take_bit_eq_mod)
  finally show ?thesis .
qed

lemma constant_time_eq_iff:
  "constant_time_eq a b \<longleftrightarrow>
     length a mod 65536 = length b mod 65536 \<and> (\<forall>i < max (length a) (length b). byte_at a i = byte_at b i)"
  unfolding constant_time_eq_def Let_def foldl_or_eq_0 length_xor_eq_0 ucast_u8_u16_eq_0
    word_xor_eq_0_iff
  by (simp add: atLeast0LessThan Ball_def)

lemma constant_time_eq_longer:
  assumes "length b \<le> length a"
  shows "constant_time_eq a b \<longleftrightarrow> (\<exists>k. a = b @ replicate (65536 * k) 0)"
proof
  assume eq: "constant_time_eq a b"
  then have "65536 dvd length a - length b"
    using assms by (simp add: constant_time_eq_iff mod_eq_dvd_iff_nat)
  then obtain k where "length a - length b = 65536 * k" ..
  then have k: "length a = length b + 65536 * k"
    using assms by simp
  have "a = b @ replicate (65536 * k) 0"
  proof (rule nth_equalityI)
    show "length a = length (b @ replicate (65536 * k) 0)"
      by (simp add: k)
    fix i
    assume "i < length a"
    moreover from this have "byte_at a i = byte_at b i"
      using eq by (simp add: constant_time_eq_iff)
    ultimately show "a ! i = (b @ replicate (65536 * k) 0) ! i"
      by (auto simp: byte_at_def nth_append k split: if_splits)
  qed
  then show "\<exists>k. a = b @ replicate (65536 * k) 0" ..
next
  assume "\<exists>k. a = b @ replicate (65536 * k) 0"
  then obtain k where k: "a = b @ replicate (65536 * k) 0" ..
  show "constant_time_eq a b"
    by (auto simp: constant_time_eq_iff k byte_at_def nth_append)
qed

lemma constant_time_eq_sym: "constant_time_eq a b \<longleftrightarrow> constant_time_eq b a"
  by (auto simp: constant_time_eq_iff max.commute)

lemma constant_time_eq_padding:
  "constant_time_eq a b \<longleftrightarrow>
     (\<exists>k. a = b @ replicate (65536 * k) 0 \<or> b = a @ replicate (65536 * k) 0)"
proof (cases "length b \<le> length a")
  case True
  have "b = a @ replicate (65536 * k) 0 \<Longrightarrow> a = b @ replicate (65536 * 0) 0" for k
    using True by simp
  then show ?thesis
    using constant_time_eq_longer [OF True] by blast
next
  case False
  have "a = b @ replicate (65536 * k) 0 \<Longrightarrow> b = a @ replicate (65536 * 0) 0" for k
    using False by simp
  then show ?thesis
    using constant_time_eq_longer [of a b] constant_time_eq_sym [of a b] False by auto
qed

text \<open>The constant-time comparison. It holds exactly on byte strings that are equal up to zero
  bytes appended to one of them, in a number divisible by 65536: the XOR of the lengths is cut to
  16 bits and missing bytes count as 0. For strings shorter than 65536 it is equality.\<close>

theorem constant_time_eq_exact:
  "(constant_time_eq a b \<longleftrightarrow>
      (\<exists>k. a = b @ replicate (65536 * k) 0 \<or> b = a @ replicate (65536 * k) 0))
   \<and> constant_time_eq a (a @ replicate 65536 0)"
  using constant_time_eq_padding [of a b] constant_time_eq_padding [of a "a @ replicate 65536 0"]
  by (metis mult.right_neutral)

lemma constant_time_eq_text:
  assumes "CHR 0x00 \<notin> set s" and "CHR 0x00 \<notin> set t"
  shows "constant_time_eq (as_bytes s) (as_bytes t) \<longleftrightarrow> s = t"
proof -
  have nz: "as_bytes u = as_bytes v @ replicate (65536 * k) 0 \<Longrightarrow> u = v"
    if "CHR 0x00 \<notin> set u" for u v k
  proof (cases k)
    case (Suc k')
    assume "as_bytes u = as_bytes v @ replicate (65536 * k) 0"
    then have "u = v @ of_bytes (replicate (65536 * k) 0)"
      by (metis of_bytes_as_bytes as_bytes_append as_bytes_of_bytes)
    moreover have "CHR 0x00 \<in> set (of_bytes (replicate (65536 * k) 0))"
      by (simp add: of_bytes_def char_of_byte_def char_of_def Suc)
    ultimately show ?thesis using that by simp
  qed simp
  show ?thesis
    using nz assms by (auto simp: constant_time_eq_padding)
qed

subsection \<open>The handlers\<close>

record instance_summary =
  is_name :: string
  is_destination :: string
  is_running_flag :: bool

record 'k admin_state =
  ad_instance_manager :: "'k instance_manager"
  ad_started_at :: int
  ad_admin_token :: "string option"

record 'k admin_server =
  as_bind_addr :: string
  as_state :: "'k admin_state"

record health_response =
  hr_status :: string
  hr_version :: string
  hr_uptime_seconds :: int

record status_message =
  st_status :: string
  st_message :: string

definition admin_server_new :: "int \<Rightarrow> string \<Rightarrow> 'k instance_manager \<Rightarrow> 'k admin_server" where
  "admin_server_new now bind_addr m =
     \<lparr>as_bind_addr = bind_addr,
      as_state = \<lparr>ad_instance_manager = m, ad_started_at = now, ad_admin_token = None\<rparr>\<rparr>"

definition admin_with_auth :: "string \<Rightarrow> 'k admin_server \<Rightarrow> 'k admin_server" where
  "admin_with_auth token srv = srv\<lparr>as_state := (as_state srv)\<lparr>ad_admin_token := Some token\<rparr>\<rparr>"

text \<open>\<open>Instant::elapsed().as_secs()\<close>, with instants in nanoseconds.\<close>

definition elapsed_secs :: "int \<Rightarrow> int \<Rightarrow> int" where
  "elapsed_secs now started = (now - started) div 10 ^ 9"

definition health_handler :: "string \<Rightarrow> int \<Rightarrow> 'k admin_state \<Rightarrow> health_response" where
  "health_handler version now st =
     \<lparr>hr_status = ''UP'', hr_version = version, hr_uptime_seconds = elapsed_secs now (ad_started_at st)\<rparr>"

text \<open>The values that the landing page shows: version, uptime, running and registered instances.\<close>

definition index_values :: "'k map_order \<Rightarrow> string \<Rightarrow> int \<Rightarrow> 'k admin_state \<Rightarrow> string \<times> int \<times> nat \<times> nat" where
  "index_values iter version now st =
     (version, elapsed_secs now (ad_started_at st), running_count iter (ad_instance_manager st),
      length (manager_list iter (ad_instance_manager st)))"

definition list_instances :: "'k map_order \<Rightarrow> authorization \<Rightarrow> 'k admin_state
    \<Rightarrow> (nat, instance_summary list) rust_result" where
  "list_instances iter headers st =
     (case check_auth headers (ad_admin_token st) of
        Inl code \<Rightarrow> Inl code
      | Inr _ \<Rightarrow>
          (let dests = manager_list iter (ad_instance_manager st)
           in Inr (map (\<lambda>d. \<lparr>is_name = d, is_destination = d,
                is_running_flag =
                  unwrap_or (map_option ci_running (manager_get (ad_instance_manager st) d)) False\<rparr>) dests)))"

definition quoted :: "string \<Rightarrow> string" where
  "quoted s = [CHR 0x27] @ s @ [CHR 0x27]"

text \<open>\<open>start\<close> and \<open>stop\<close> of an instance never fail; their results are still looked at.\<close>

definition start_result :: "'k canal_instance \<Rightarrow> unit canal_result \<times> 'k canal_instance" where
  "start_result i = (Inr (), instance_start i)"

definition stop_result :: "'k canal_instance \<Rightarrow> unit canal_result \<times> 'k canal_instance" where
  "stop_result i = (Inr (), instance_stop i)"

definition not_found_message :: "string \<Rightarrow> status_message" where
  "not_found_message name = \<lparr>st_status = ''not_found'', st_message = ''Instance '' @ quoted name @ '' not found''\<rparr>"

definition start_instance :: "authorization \<Rightarrow> string \<Rightarrow> 'k admin_state
    \<Rightarrow> (nat, status_message) rust_result \<times> 'k admin_state" where
  "start_instance headers name st =
     (case check_auth headers (ad_admin_token st) of
        Inl code \<Rightarrow> (Inl code, st)
      | Inr _ \<Rightarrow>
          (case manager_get (ad_instance_manager st) name of
             Some i \<Rightarrow>
               (let (r, i') = start_result i;
                    st' = st\<lparr>ad_instance_manager := update_instance name (\<lambda>_. i') (ad_instance_manager st)\<rparr>
                in (Inr (case r of
                           Inr _ \<Rightarrow> \<lparr>st_status = ''ok'', st_message = ''Instance '' @ quoted name @ '' started''\<rparr>
                         | Inl e \<Rightarrow> \<lparr>st_status = ''error'',
                                     st_message = ''Failed to start '' @ quoted name @ '': '' @ error_display e\<rparr>),
                    st'))
           | None \<Rightarrow> (Inr (not_found_message name), st)))"

definition stop_instance :: "authorization \<Rightarrow> string \<Rightarrow> 'k admin_state
    \<Rightarrow> (nat, status_message) rust_result \<times> 'k admin_state" where
  "stop_instance headers name st =
     (case check_auth headers (ad_admin_token st) of
        Inl code \<Rightarrow> (Inl code, st)
      | Inr _ \<Rightarrow>
          (case manager_get (ad_instance_manager st) name of
             Some i \<Rightarrow>
               (let (r, i') = stop_result i;
                    st' = st\<lparr>ad_instance_manager := update_instance name (\<lambda>_. i') (ad_instance_manager st)\<rparr>
                in (Inr (case r of
                           Inr _ \<Rightarrow> \<lparr>st_status = ''ok'', st_message = ''Instance '' @ quoted name @ '' stopped''\<rparr>
                         | Inl e \<Rightarrow> \<lparr>st_status = ''error'',
                                     st_message = ''Failed to stop '' @ quoted name @ '': '' @ error_display e\<rparr>),
                    st'))
           | None \<Rightarrow> (Inr (not_found_message name), st)))"

subsection \<open>Sequences of requests\<close>

datatype admin_request = ListInstances | StartInstance string | StopInstance string

definition admin_step :: "authorization \<times> admin_request \<Rightarrow> 'k admin_state \<Rightarrow> 'k admin_state" where
  "admin_step r st =
     (case r of
        (h, ListInstances) \<Rightarrow> st
      | (h, StartInstance d) \<Rightarrow> snd (start_instance h d st)
      | (h, StopInstance d) \<Rightarrow> snd (stop_instance h d st))"

text \<open>The commands that authorised requests give to an instance: \<open>True\<close> is start.\<close>

fun commands :: "string option \<Rightarrow> string \<Rightarrow> (authorization \<times> admin_request) list \<Rightarrow> bool list" where
  "commands tok d [] = []"
| "commands tok d ((h, StartInstance d') # rs) =
     (if check_auth h tok = Inr () \<and> d' = d then [True] else []) @ commands tok d rs"
| "commands tok d ((h, StopInstance d') # rs) =
     (if check_auth h tok = Inr () \<and> d' = d then [False] else []) @ commands tok d rs"
| "commands tok d ((h, ListInstances) # rs) = commands tok d rs"

lemma admin_step_token [simp]: "ad_admin_token (admin_step r st) = ad_admin_token st"
  by (auto simp: admin_step_def start_instance_def stop_instance_def start_result_def stop_result_def
      split: prod.splits admin_request.splits sum.splits option.splits)

lemma admin_step_get:
  "manager_get (ad_instance_manager (admin_step r st)) d =
     map_option (fold (\<lambda>b. if b then instance_start else instance_stop) (commands (ad_admin_token st) d [r]))
       (manager_get (ad_instance_manager st) d)"
  by (auto simp: admin_step_def start_instance_def stop_instance_def start_result_def stop_result_def
      manager_get_def option.map_id
      split: prod.splits admin_request.splits sum.splits option.splits)

lemma commands_Cons: "commands tok d (r # rs) = commands tok d [r] @ commands tok d rs"
  by (cases "(tok, d, r # rs)" rule: commands.cases) simp_all

lemma admin_run_get:
  "manager_get (ad_instance_manager (fold admin_step rs st)) d =
     map_option (fold (\<lambda>b. if b then instance_start else instance_stop) (commands (ad_admin_token st) d rs))
       (manager_get (ad_instance_manager st) d)"
proof (induction rs arbitrary: st)
  case (Cons r rs)
  then show ?case
    by (simp add: commands_Cons [of _ _ r rs] admin_step_get option.map_comp comp_def)
qed (simp add: option.map_id)

text \<open>C36: Access to the Admin API. Header texts and tokens have no zero byte (the header library
  only yields visible ASCII as text). Then a request is let through exactly when there is no token,
  or when the token is not empty and the header is the token, bare or after \<open>Bearer\<close>;
  every other one is answered with 401.\<close>

theorem admin_auth_exact:
  assumes "\<forall>h. headers = Some h \<longrightarrow> CHR 0x00 \<notin> set h"
    and "\<forall>t. tok = Some t \<longrightarrow> CHR 0x00 \<notin> set t"
  shows "check_auth headers tok =
    (if (case tok of
           None \<Rightarrow> True
         | Some t \<Rightarrow> t \<noteq> [] \<and> (headers = Some t \<or> headers = Some (''Bearer '' @ t)))
     then Inr () else Inl 401)"
proof (cases tok)
  case None
  then show ?thesis by (simp add: check_auth_def)
next
  case (Some t)
  define auth where "auth = unwrap_or headers []"
  have "CHR 0x00 \<notin> set auth"
    using assms(1) by (cases headers) (auto simp: auth_def)
  moreover have "CHR 0x00 \<notin> set t" "CHR 0x00 \<notin> set (bearer t)"
    using assms(2) Some by (auto simp: bearer_def)
  ultimately have "check_auth headers tok = (if t \<noteq> [] \<and> (auth = bearer t \<or> auth = t) then Inr () else Inl 401)"
    by (simp add: check_auth_def Some constant_time_eq_text Let_def flip: auth_def)
  moreover have "t \<noteq> [] \<Longrightarrow> (auth = bearer t \<or> auth = t)
      \<longleftrightarrow> (headers = Some t \<or> headers = Some (''Bearer '' @ t))"
    by (cases headers) (auto simp: auth_def bearer_def)
  ultimately show ?thesis
    by (auto simp: Some)
qed

lemma admin_auth_exact_witness:
  "check_auth (Some ''Bearer s3'') (Some ''s3'') = Inr () \<and> check_auth None (Some ''s3'') = Inl 401"
  using admin_auth_exact [of "Some ''Bearer s3''" "Some ''s3''"] admin_auth_exact [of None "Some ''s3''"]
  by simp

text \<open>Starting and stopping over the API. After any sequence of requests an instance is as the last
  authorised start or stop of it left it: running after a start, not running after a stop, and
  otherwise unchanged. Requests without valid credentials, for other instances, and listings change
  nothing; no request registers or removes an instance.\<close>

theorem admin_commands:
  "manager_get (ad_instance_manager (fold admin_step rs st)) d =
     map_option
       (\<lambda>i. let cs = commands (ad_admin_token st) d rs
            in if cs = [] then i else if last cs then instance_start i else instance_stop i)
       (manager_get (ad_instance_manager st) d)"
proof -
  have "fold (\<lambda>b. if b then instance_start else instance_stop) cs
      = (\<lambda>i :: 'a canal_instance. if cs = [] then i else if last cs then instance_start i else instance_stop i)"
    for cs
    using inst_life.fold_commands [of "butlast cs" "last cs"] by (cases "cs = []") (auto simp: fun_eq_iff)
  then show ?thesis
    by (simp add: admin_run_get Let_def)
qed

end
