(* ===== verification/Canal_Main.thy ===== *)
theory Canal_Main
  imports Canal_Cli Canal_Admin Canal_Server Canal_Connector
begin

text \<open>
  The binary, \<open>main.rs\<close> of \<open>canal-cli\<close>: how \<open>run_server\<close> puts the components together, the
  task that collects the replicated events into batches and feeds them to the instance, and the
  dump command. Whether a listener can be bound, the address parser and the clock are parameters.
\<close>

subsection \<open>Setting up the server\<close>

text \<open>
  The store of the Canal server is the instance's store, shared; the record keeps the state that
  each part is created with.
\<close>

record 'k server_setup =
  su_metrics_server :: metrics_server
  su_metrics :: canal_metrics
  su_manager :: "'k instance_manager"
  su_admin :: "'k admin_server"
  su_server :: canal_server

definition instance_config_of :: "canal_config \<Rightarrow> instance_config" where
  "instance_config_of config =
     (let c = cc_canal config
      in \<lparr>ic_destination = ''default'', ic_mysql_host = mc_host (cn_mysql c),
          ic_mysql_port = mc_port (cn_mysql c), ic_mysql_username = mc_username (cn_mysql c),
          ic_mysql_password = mc_password (cn_mysql c), ic_mysql_server_id = cn_server_id c,
          ic_start_position = log_position_new (cn_start_journal_name c) (cn_start_position c),
          ic_filter = \<lparr>fp_pattern = fs_pattern (cn_filter c), fp_black_list = fs_black_list (cn_filter c)\<rparr>,
          ic_store_buffer_size = ss_buffer_size (cn_store c), ic_connector_names = []\<rparr>)"

record 'k environment =
  en_regex :: regex_engine
  en_parse_addr :: parse_addr
  en_map_order :: "'k map_order"
  en_now :: int
  en_metrics_bound :: bool
  en_admin_bound :: bool

definition server_of :: "canal_section \<Rightarrow> mem_store \<Rightarrow> canal_server" where
  "server_of c store =
     (let server = with_idle_timeout (vs_idle_timeout_secs (cn_server c))
                     (canal_server_new (vs_bind (cn_server c)) store)
      in case cn_auth_token c of Some token \<Rightarrow> with_auth token server | None \<Rightarrow> server)"

text \<open>\<open>None\<close> is a panic; an error is the context that the code puts in front of its cause.\<close>

definition run_server :: "'k environment \<Rightarrow> canal_config \<Rightarrow> (string, 'k server_setup) rust_result option" where
  "run_server en config =
     (let c = cc_canal config
      in case en_parse_addr en (vs_bind (cn_server c)) of
           None \<Rightarrow> Some (Inl (''Invalid bind address: '' @ vs_bind (cn_server c)))
         | Some bind_addr \<Rightarrow>
      (case en_parse_addr en (vs_metrics_bind (cn_server c)) of
           None \<Rightarrow> Some (Inl (''Invalid metrics bind address: '' @ vs_metrics_bind (cn_server c)))
         | Some metrics_bind \<Rightarrow>
      (let metrics_server = metrics_server_new (vs_metrics_bind (cn_server c))
       in if \<not> en_metrics_bound en then Some (Inl ''Failed to start metrics server'')
          else
      (case canal_instance_new (en_regex en) (instance_config_of config) [] of
           None \<Rightarrow> None
         | Some (Inl e) \<Rightarrow> Some (Inl ''Failed to create instance'')
         | Some (Inr inst) \<Rightarrow>
      (let store = instance_store inst;
           (started, mgr) = start_all (en_map_order en) (manager_register inst manager_new)
       in case started of
           Inl e \<Rightarrow> Some (Inl ''Failed to start instances'')
         | Inr _ \<Rightarrow>
      (let metrics = set_instances_active (running_count (en_map_order en) mgr) metrics_new
       in case resolve_admin_bind (en_parse_addr en) (vs_admin_bind (cn_server c)) bind_addr of
           Inl e \<Rightarrow> Some (Inl e)
         | Inr admin_bind \<Rightarrow>
      (if \<not> en_admin_bound en then Some (Inl ''Failed to start admin API'')
       else Some (Inr
         \<lparr>su_metrics_server = metrics_server, su_metrics = metrics, su_manager = mgr,
          su_admin = admin_server_new (en_now en) admin_bind mgr,
          su_server = server_of c store\<rparr>))))))))"

text \<open>The binlog task's connector: created, given a channel, connected, or the server shuts down.\<close>

definition binlog_task_connect :: "canal_config \<Rightarrow> start_signal \<Rightarrow> (binlog_connector \<times> replica_options option \<times> channel) option" where
  "binlog_task_connect config signal =
     (let c = cc_canal config; m = cn_mysql c;
          pos = log_position_new (cn_start_journal_name c) (cn_start_position c)
      in case connector_new (mc_host m) (mc_port m) (mc_username m) (mc_password m) (cn_server_id c) of
           Inl e \<Rightarrow> None
         | Inr conn0 \<Rightarrow>
             (let (conn, ch) = with_channel conn0;
                  (r, opts, conn') = connector_connect pos signal conn
              in case r of Inl e \<Rightarrow> None | Inr _ \<Rightarrow> Some (conn', opts, ch)))"

subsection \<open>Batching the replicated events\<close>

text \<open>
  What the loop of the binlog task waits for: an item of the channel or its end, and the flush
  timer. Between two of these the Admin API may start or stop the instance. \<open>bs_fed\<close> records the
  batches that were handed to \<open>feed\<close>.
\<close>

datatype select_event = Received "canal_event canal_result option" | TimerTick | Command bool

datatype task_status = TaskRunning | TaskDone | TaskPanicked

record 'k batch_state =
  bs_batch :: "canal_event list"
  bs_instance :: "'k canal_instance"
  bs_fed :: "canal_event list list"

definition max_batch :: nat where
  "max_batch = 256"

text \<open>An error of \<open>feed\<close> is logged; the batch is gone either way.\<close>

definition feed_batch :: "bool \<Rightarrow> 'k batch_state \<Rightarrow> task_status \<times> 'k batch_state" where
  "feed_batch debug s =
     (let (r, i) = feed debug (bs_batch s) (bs_instance s);
          s' = s\<lparr>bs_batch := [], bs_instance := i, bs_fed := bs_fed s @ [bs_batch s]\<rparr>
      in (if r = None then TaskPanicked else TaskRunning, s'))"

definition batch_step :: "bool \<Rightarrow> select_event \<Rightarrow> 'k batch_state \<Rightarrow> task_status \<times> 'k batch_state" where
  "batch_step debug ev s =
     (case ev of
        Received (Some (Inr event)) \<Rightarrow>
          (let s1 = s\<lparr>bs_batch := bs_batch s @ [event]\<rparr>
           in if max_batch \<le> length (bs_batch s1) then feed_batch debug s1 else (TaskRunning, s1))
      | Received (Some (Inl e)) \<Rightarrow> (TaskRunning, s)
      | Received None \<Rightarrow>
          (if bs_batch s \<noteq> []
           then (let (st, s') = feed_batch debug s in (if st = TaskPanicked then TaskPanicked else TaskDone, s'))
           else (TaskDone, s))
      | TimerTick \<Rightarrow> (if bs_batch s \<noteq> [] then feed_batch debug s else (TaskRunning, s))
      | Command run \<Rightarrow>
          (TaskRunning, s\<lparr>bs_instance := (if run then instance_start else instance_stop) (bs_instance s)\<rparr>))"

fun batch_loop :: "bool \<Rightarrow> select_event list \<Rightarrow> 'k batch_state \<Rightarrow> task_status \<times> 'k batch_state" where
  "batch_loop debug [] s = (TaskRunning, s)"
| "batch_loop debug (ev # evs) s =
     (case batch_step debug ev s of
        (TaskRunning, s') \<Rightarrow> batch_loop debug evs s'
      | (st, s') \<Rightarrow> (st, s'))"

definition batch_start :: "'k canal_instance \<Rightarrow> 'k batch_state" where
  "batch_start i = \<lparr>bs_batch = [], bs_instance = i, bs_fed = []\<rparr>"

subsection \<open>The dump command\<close>

datatype console_line = OutLine string | ErrLine string

definition dml_type_debug :: "dml_type \<Rightarrow> string" where
  "dml_type_debug t = (case t of DmlInsert \<Rightarrow> ''Insert'' | DmlUpdate \<Rightarrow> ''Update'' | DmlDelete \<Rightarrow> ''Delete'')"

definition dump_event :: "nat \<Rightarrow> canal_event \<Rightarrow> console_line list" where
  "dump_event k event =
     [OutLine (''['' @ nat_str k @ ''] pos='' @ ev_journal_name event @ '':''
        @ nat_str (unat (ev_position event)) @ '' schema='' @ ev_schema_name event @ ''.''
        @ ev_table_name event @ '' type='' @ event_type_debug (ev_entry_type event))]
     @ (case ev_ddl_sql event of None \<Rightarrow> [] | Some sql \<Rightarrow> [OutLine (''  DDL: '' @ sql)])
     @ (case ev_row_change event of
          None \<Rightarrow> []
        | Some rc \<Rightarrow> [OutLine (''  DML: '' @ dml_type_debug (rc_dml_type rc))])"

fun dump_loop :: "nat \<Rightarrow> canal_event canal_result list \<Rightarrow> console_line list" where
  "dump_loop k [] =
     [ErrLine '''', ErrLine (''Done. '' @ nat_str k @ '' events received.'')]"
| "dump_loop k (Inr event # rs) = dump_event (k + 1) event @ dump_loop (k + 1) rs"
| "dump_loop k (Inl e # rs) = ErrLine (''Error: '' @ error_display e) # dump_loop k rs"

definition run_dump :: "canal_event canal_result list \<Rightarrow> console_line list" where
  "run_dump received =
     [ErrLine ''Connected. Streaming binlog events...'', ErrLine ''''] @ dump_loop 0 received"

subsection \<open>What the set-up guarantees\<close>

lemma canal_instance_new_cases:
  assumes "canal_instance_new rx config [] = Some (Inr i)"
  shows "\<exists>store flt. mem_store_new (ic_store_buffer_size config) = Some store
    \<and> event_filter_with_blacklist rx (fp_pattern (ic_filter config)) (fp_black_list (ic_filter config)) = Inr flt
    \<and> i = \<lparr>ci_config = config, ci_sink = sink_new store flt [], ci_running = False\<rparr>"
  using assms by (auto simp: canal_instance_new_def split: option.splits sum.splits)

lemma run_server_Inr:
  assumes "run_server en config = Some (Inr su)"
  obtains i admin_bind where
    "canal_instance_new (en_regex en) (instance_config_of config) [] = Some (Inr i)"
    "su_manager su = snd (start_all (en_map_order en) (manager_register i manager_new))"
    "su_metrics_server su = metrics_server_new (vs_metrics_bind (cn_server (cc_canal config)))"
    "su_metrics su = set_instances_active (running_count (en_map_order en) (su_manager su)) metrics_new"
    "su_admin su = admin_server_new (en_now en) admin_bind (su_manager su)"
    "su_server su = server_of (cc_canal config) (instance_store i)"
  using assms by (auto simp: run_server_def Let_def split_def split: option.splits sum.splits if_splits)

lemma server_of_token:
  "sr_auth_token (server_of c store) =
     (case cn_auth_token c of None \<Rightarrow> None | Some t \<Rightarrow> if trim_is_empty t then None else Some t)"
  by (simp add: server_of_def with_auth_def with_idle_timeout_def canal_server_new_def Let_def
      split: option.splits)

text \<open>C39: The token protects the Canal port only. When \<open>run_server\<close> has set everything up, the Canal
  server asks for the configured token (a blank one is none), but the Admin API and the metrics
  endpoint have no token whatever the configuration says: every listing, start and stop is let
  through without credentials.\<close>

theorem token_protects_canal_port_only:
  assumes "run_server en config = Some (Inr su)"
  shows "sr_auth_token (su_server su)
      = (case cn_auth_token (cc_canal config) of
           None \<Rightarrow> None | Some t \<Rightarrow> if trim_is_empty t then None else Some t)
    \<and> check_auth headers (ad_admin_token (as_state (su_admin su))) = Inr ()
    \<and> metrics_route render (su_metrics_server su) (su_metrics su) headers = (200, render (su_metrics su))"
  using assms
  by (rule run_server_Inr)
    (simp add: server_of_token admin_server_new_def metrics_server_new_def check_auth_def
      metrics_route_def check_metrics_auth_def)

text \<open>A concrete set-up: all defaults, a library that builds every pattern and parses every address.\<close>

definition sample_environment :: "unit environment" where
  "sample_environment =
     \<lparr>en_regex = (\<lambda>_ _. Inr (\<lambda>_. True)), en_parse_addr = (\<lambda>_. Some \<lparr>so_port = 11111, so_unspecified = False\<rparr>),
      en_map_order = sorted_list_of_fmap, en_now = 0, en_metrics_bound = True, en_admin_bound = True\<rparr>"

lemma run_server_sample: "\<exists>su. run_server sample_environment sample_canal_config = Some (Inr su)"
  by (simp add: run_server_def sample_environment_def sample_canal_config_def canal_instance_new_def
      instance_config_of_def mem_store_new_def default_buffer_size_def event_filter_with_blacklist_def
      filter_section_default_def default_filter_pattern_def max_filter_len_def start_all_def
      resolve_admin_bind_def Let_def)

lemma token_protects_canal_port_only_witness:
  "\<exists>su. run_server sample_environment sample_canal_config = Some (Inr su)
    \<and> check_auth None (ad_admin_token (as_state (su_admin su))) = Inr ()"
  using run_server_sample token_protects_canal_port_only by blast

text \<open>The instance of the server. The set-up registers exactly the instance \<open>default\<close>, running, with
  the configured filter, an empty store of the configured size, which is the one the Canal server
  serves, and no connectors; the gauge of active instances is 1. A buffer size of 0 is not an error
  but a panic, wherever the set-up gets as far as the instance.\<close>

theorem run_server_instance:
  assumes "run_server en config = Some (Inr su)" and "iterates (en_map_order en)"
  shows "\<exists>i. manager_get (su_manager su) d = (if d = ''default'' then Some i else None) \<and> ci_running i
    \<and> store_log [] (instance_store i) \<and> instance_store i = sr_store (su_server su)
    \<and> ms_capacity (instance_store i) = ss_buffer_size (cn_store (cc_canal config))
    \<and> event_filter_with_blacklist (en_regex en) (fs_pattern (cn_filter (cc_canal config)))
        (fs_black_list (cn_filter (cc_canal config))) = Inr (sk_filter (ci_sink i))
    \<and> sk_connectors (ci_sink i) = []
    \<and> cm_instances_active (su_metrics su) = 1
    \<and> ss_buffer_size (cn_store (cc_canal config)) \<noteq> 0"
proof -
  from assms(1) obtain i where i:
    "canal_instance_new (en_regex en) (instance_config_of config) [] = Some (Inr i)"
    "su_manager su = snd (start_all (en_map_order en) (manager_register i manager_new))"
    "su_metrics su = set_instances_active (running_count (en_map_order en) (su_manager su)) metrics_new"
    "su_server su = server_of (cc_canal config) (instance_store i)"
    by (rule run_server_Inr)
  obtain store flt where n: "mem_store_new (ss_buffer_size (cn_store (cc_canal config))) = Some store"
    "event_filter_with_blacklist (en_regex en) (fs_pattern (cn_filter (cc_canal config)))
        (fs_black_list (cn_filter (cc_canal config))) = Inr flt"
    "i = \<lparr>ci_config = instance_config_of config, ci_sink = sink_new store flt [], ci_running = False\<rparr>"
    using canal_instance_new_cases [OF i(1)] by (auto simp: instance_config_of_def Let_def)
  have dest: "instance_destination i = ''default''"
    by (simp add: n(3) instance_destination_def instance_config_of_def Let_def)
  have look: "fmlookup (su_manager su) d = (if d = ''default'' then Some (instance_start i) else None)" for d
    by (simp add: i(2) fmlookup_start_all(1) [OF assms(2)] manager_register_def manager_new_def dest Let_def)
  have "{d. \<exists>j. fmlookup (su_manager su) d = Some j \<and> ci_running j} = {''default''}"
    by (auto simp: look split: if_splits)
  then have "running_count (en_map_order en) (su_manager su) = 1"
    by (simp only: running_count_card [OF assms(2)] card_1_singleton_iff) simp
  then have "cm_instances_active (su_metrics su) = 1"
    by (simp add: i(3))
  moreover have "sr_store (su_server su) = store"
    by (simp add: i(4) n(3) server_of_def with_auth_def with_idle_timeout_def canal_server_new_def
        instance_store_def Let_def split: option.splits)
  moreover have "ms_capacity store = ss_buffer_size (cn_store (cc_canal config))"
    "ss_buffer_size (cn_store (cc_canal config)) \<noteq> 0"
    using n(1) by (auto simp: mem_store_new_def split: if_splits)
  ultimately show ?thesis
    using n mem_store_new_log [OF n(1)]
    by (intro exI [of _ "instance_start i"]) (simp add: manager_get_def look instance_store_def)
qed

lemma run_server_instance_witness:
  "\<exists>su i. run_server sample_environment sample_canal_config = Some (Inr su)
    \<and> manager_get (su_manager su) ''default'' = Some i \<and> ci_running i"
proof -
  obtain su where su: "run_server sample_environment sample_canal_config = Some (Inr su)"
    using run_server_sample by blast
  have "iterates (en_map_order sample_environment)"
    by (simp add: sample_environment_def iterates_sorted)
  from run_server_instance [OF su this, of "''default''"] su show ?thesis
    by auto
qed

subsection \<open>What the batching loop guarantees\<close>

fun received :: "select_event list \<Rightarrow> canal_event list" where
  "received [] = []"
| "received (Received (Some (Inr e)) # evs) = e # received evs"
| "received (ev # evs) = received evs"

text \<open>The state after some events \<open>rec\<close> have been received: those not yet fed are in the batch.\<close>

definition batch_inv :: "canal_event list \<Rightarrow> event_filter \<Rightarrow> canal_event list \<Rightarrow> 'k batch_state \<Rightarrow> bool" where
  "batch_inv h flt rec s \<longleftrightarrow>
     ci_running (bs_instance s) \<and> sk_filter (ci_sink (bs_instance s)) = flt
     \<and> concat (bs_fed s) @ bs_batch s = rec
     \<and> (\<forall>b \<in> set (bs_fed s). b \<noteq> [] \<and> length b \<le> max_batch)
     \<and> store_log (h @ filter (filter_passes flt) (concat (bs_fed s))) (instance_store (bs_instance s))"

lemma feed_batch_inv:
  assumes "batch_inv h flt rec s" and "bs_batch s \<noteq> []" and "length (bs_batch s) \<le> max_batch"
    and "sorted (map ev_key (h @ filter (filter_passes flt) rec))"
  shows "\<exists>s'. feed_batch debug s = (TaskRunning, s') \<and> batch_inv h flt rec s' \<and> bs_batch s' = []"
proof -
  let ?i = "bs_instance s" and ?l = "h @ filter (filter_passes flt) (concat (bs_fed s))"
  have inv: "store_log ?l (instance_store ?i)" "ci_running ?i" "sk_filter (ci_sink ?i) = flt"
    "rec = concat (bs_fed s) @ bs_batch s"
    using assms(1) by (simp_all add: batch_inv_def)
  have "sorted (map ev_key (?l @ passing ?i (bs_batch s)))"
    using assms(4) by (simp add: inv(3,4))
  then obtain i' where "feed debug (bs_batch s) ?i = (Some (Inr ()), i')" "ci_running i'"
    "sk_filter (ci_sink i') = flt" "store_log (?l @ filter (filter_passes flt) (bs_batch s)) (instance_store i')"
    using feed_log [OF inv(1) _ inv(2), of "bs_batch s" debug] inv(3) by auto
  moreover have "filter (filter_passes flt) rec
      = filter (filter_passes flt) (concat (bs_fed s)) @ filter (filter_passes flt) (bs_batch s)"
    by (simp add: inv(4))
  ultimately show ?thesis
    using assms(1-3) by (simp add: feed_batch_def batch_inv_def)
qed

lemma sorted_prefix:
  "sorted (map ev_key (h @ filter P (xs @ ys))) \<Longrightarrow> sorted (map ev_key (h @ filter P xs))"
  by (simp add: sorted_append)

lemma batch_step_inv:
  assumes "batch_inv h flt rec s" and "length (bs_batch s) < max_batch"
    and "ev \<noteq> Received None" and "ev \<noteq> Command False"
    and "sorted (map ev_key (h @ filter (filter_passes flt) (rec @ received [ev])))"
  shows "\<exists>s'. batch_step debug ev s = (TaskRunning, s') \<and> batch_inv h flt (rec @ received [ev]) s'
    \<and> length (bs_batch s') < max_batch"
proof (cases ev)
  case (Received x)
  then obtain r where x: "x = Some r"
    using assms(3) by (cases x) auto
  show ?thesis
  proof (cases r)
    case (Inl e)
    with assms(1,2) Received x show ?thesis by (simp add: batch_step_def)
  next
    case (Inr e)
    define s1 where "s1 = s\<lparr>bs_batch := bs_batch s @ [e]\<rparr>"
    have inv: "batch_inv h flt (rec @ [e]) s1"
      using assms(1) by (auto simp: batch_inv_def s1_def)
    have step: "batch_step debug (Received (Some (Inr e))) s
        = (if max_batch \<le> length (bs_batch s1) then feed_batch debug s1 else (TaskRunning, s1))"
      by (simp add: batch_step_def s1_def Let_def)
    have "length (bs_batch s1) \<le> max_batch" "bs_batch s1 \<noteq> []"
      using assms(2) by (simp_all add: s1_def)
    then show ?thesis
      using feed_batch_inv [OF inv, of debug] inv assms(5)
      by (auto simp: step Received x Inr max_batch_def)
  qed
next
  case TimerTick
  then show ?thesis
    using feed_batch_inv [OF assms(1), of debug] assms(1,2,5)
    by (auto simp: batch_step_def max_batch_def)
next
  case (Command b)
  with assms(1,2,4) show ?thesis
    by (cases b) (auto simp: batch_step_def batch_inv_def instance_store_def)
qed

lemma received_Cons: "received (ev # evs) = received [ev] @ received evs"
  by (cases "ev # evs" rule: received.cases) auto

lemma batch_loop_inv:
  assumes "batch_inv h flt rec s" and "length (bs_batch s) < max_batch"
    and "Received None \<notin> set evs" and "Command False \<notin> set evs"
    and "sorted (map ev_key (h @ filter (filter_passes flt) (rec @ received evs)))"
  shows "\<exists>s'. batch_loop debug evs s = (TaskRunning, s') \<and> batch_inv h flt (rec @ received evs) s'
    \<and> length (bs_batch s') < max_batch"
  using assms
proof (induction evs arbitrary: s rec)
  case (Cons ev evs)
  have r: "rec @ received (ev # evs) = (rec @ received [ev]) @ received evs"
    by (subst received_Cons) simp
  have "sorted (map ev_key (h @ filter (filter_passes flt) (rec @ received [ev])))"
    using Cons.prems(5) unfolding r by (rule sorted_prefix)
  then obtain s' where s': "batch_step debug ev s = (TaskRunning, s')"
    "batch_inv h flt (rec @ received [ev]) s'" "length (bs_batch s') < max_batch"
    using batch_step_inv [OF Cons.prems(1,2), of ev debug] Cons.prems(3,4) by auto
  then show ?case
    using Cons.IH [OF s'(2,3)] Cons.prems(3-5) unfolding r by simp
qed simp

lemma batch_loop_append:
  "batch_loop debug evs s = (TaskRunning, s') \<Longrightarrow> batch_loop debug (evs @ evs') s = batch_loop debug evs' s'"
  by (induction debug evs s rule: batch_loop.induct) (auto split: prod.splits task_status.splits)

lemma batch_start_inv:
  assumes "store_log h (instance_store i)" and "ci_running i"
  shows "batch_inv h (sk_filter (ci_sink i)) [] (batch_start i)"
  using assms by (simp add: batch_inv_def batch_start_def)

lemma batch_loop_flush:
  assumes "batch_loop debug evs s = (TaskRunning, s1)" and "batch_inv h flt rec s1"
    and "length (bs_batch s1) < max_batch" and "sorted (map ev_key (h @ filter (filter_passes flt) rec))"
  shows "\<exists>s'. batch_loop debug (evs @ [TimerTick]) s = (TaskRunning, s')
    \<and> batch_loop debug (evs @ [Received None]) s = (TaskDone, s')
    \<and> batch_inv h flt rec s' \<and> bs_batch s' = []"
proof (cases "bs_batch s1 = []")
  case True
  with assms(2) show ?thesis
    by (simp add: batch_loop_append [OF assms(1)] batch_step_def)
next
  case False
  with feed_batch_inv [OF assms(2) False _ assms(4), of debug] assms(3) show ?thesis
    by (auto simp: batch_loop_append [OF assms(1)] batch_step_def)
qed

text \<open>C26: Batching feeds every event once and in order. While the instance runs, whatever the timing
  of the flushes: at each moment fewer than 256 received events wait in the batch, the
  others have been fed, in order, in batches of 1 to 256, and the store stands for the passing ones
  among them; errors on the channel are skipped. With the next tick of the flush timer all have been
  fed, and so they have when the channel ends, which ends the task; there is no panic, also when
  debug assertions are on.\<close>

theorem batching_feeds_once:
  assumes "store_log h (instance_store i)" and "ci_running i"
    and "Received None \<notin> set evs" and "Command False \<notin> set evs"
    and "sorted (map ev_key (h @ passing i (received evs)))"
  shows "\<exists>s s'. batch_loop debug evs (batch_start i) = (TaskRunning, s)
    \<and> length (bs_batch s) < 256 \<and> concat (bs_fed s) @ bs_batch s = received evs
    \<and> store_log (h @ passing i (concat (bs_fed s))) (instance_store (bs_instance s))
    \<and> batch_loop debug (evs @ [TimerTick]) (batch_start i) = (TaskRunning, s')
    \<and> batch_loop debug (evs @ [Received None]) (batch_start i) = (TaskDone, s')
    \<and> concat (bs_fed s') = received evs \<and> (\<forall>b \<in> set (bs_fed s'). b \<noteq> [] \<and> length b \<le> 256)
    \<and> store_log (h @ passing i (received evs)) (instance_store (bs_instance s'))"
proof -
  let ?flt = "sk_filter (ci_sink i)"
  obtain s where s: "batch_loop debug evs (batch_start i) = (TaskRunning, s)"
    "batch_inv h ?flt (received evs) s" "length (bs_batch s) < max_batch"
    using batch_loop_inv [OF batch_start_inv [OF assms(1,2)] _ assms(3,4), of debug] assms(5)
    by (auto simp: batch_start_def max_batch_def)
  obtain s' where "batch_loop debug (evs @ [TimerTick]) (batch_start i) = (TaskRunning, s')"
    "batch_loop debug (evs @ [Received None]) (batch_start i) = (TaskDone, s')"
    "batch_inv h ?flt (received evs) s'" "bs_batch s' = []"
    using batch_loop_flush [OF s assms(5)] by blast
  with s show ?thesis
    by (auto simp: batch_inv_def max_batch_def)
qed

lemma batching_feeds_once_witness:
  "\<exists>s'. batch_loop True ([Received (Some (Inr (sample_event ''b.1'' 4))), TimerTick,
        Received (Some (Inl (Internal '''')))] @ [Received None]) (batch_start (sample_instance :: unit canal_instance))
      = (TaskDone, s')
    \<and> store_log (sample_log @ [sample_event ''b.1'' 4]) (instance_store (bs_instance s'))"
  using batching_feeds_once [of sample_log "sample_instance :: unit canal_instance"
      "[Received (Some (Inr (sample_event ''b.1'' 4))), TimerTick, Received (Some (Inl (Internal '''')))]" True]
    sample_store_log sample_log_sorted [of 4]
  by auto

lemma feed_batch_stopped:
  assumes "\<not> ci_running (bs_instance s)"
  shows "feed_batch debug s = (TaskRunning, s\<lparr>bs_batch := [], bs_fed := bs_fed s @ [bs_batch s]\<rparr>)"
  using assms by (simp add: feed_batch_def feed_def)

lemma batch_step_stopped:
  assumes "\<not> ci_running (bs_instance s)" and "ev \<noteq> Received None" and "ev \<noteq> Command True"
  shows "\<exists>s'. batch_step debug ev s = (TaskRunning, s') \<and> bs_instance s' = bs_instance s
    \<and> concat (bs_fed s') @ bs_batch s' = concat (bs_fed s) @ bs_batch s @ received [ev]"
proof (cases ev)
  case (Received x)
  then obtain r where "x = Some r"
    using assms(2) by (cases x) auto
  with Received assms(1) show ?thesis
    by (cases r) (simp_all add: batch_step_def feed_batch_stopped Let_def)
next
  case TimerTick
  then show ?thesis
    using assms(1) by (simp add: batch_step_def feed_batch_stopped)
next
  case (Command b)
  with assms show ?thesis
    by (cases b) (simp_all add: batch_step_def inst_life.stop_stopped)
qed

lemma batch_loop_stopped:
  assumes "\<not> ci_running (bs_instance s)" and "Received None \<notin> set evs" and "Command True \<notin> set evs"
  shows "\<exists>s'. batch_loop debug evs s = (TaskRunning, s') \<and> bs_instance s' = bs_instance s
    \<and> concat (bs_fed s') @ bs_batch s' = concat (bs_fed s) @ bs_batch s @ received evs"
  using assms
proof (induction evs arbitrary: s)
  case (Cons ev evs)
  obtain s' where s': "batch_step debug ev s = (TaskRunning, s')" "bs_instance s' = bs_instance s"
    "concat (bs_fed s') @ bs_batch s' = concat (bs_fed s) @ bs_batch s @ received [ev]"
    using batch_step_stopped [OF Cons.prems(1), of ev debug] Cons.prems(2,3) by auto
  then obtain s'' where "batch_loop debug evs s' = (TaskRunning, s'')" "bs_instance s'' = bs_instance s'"
    "concat (bs_fed s'') @ bs_batch s'' = (concat (bs_fed s') @ bs_batch s') @ received evs"
    using Cons.IH [of s'] Cons.prems by auto
  with s' show ?case
    by (subst received_Cons) simp
qed simp

text \<open>Stopping an instance loses events. The Admin API's stop does not stop replication. As
  long as the instance is stopped, the binlog task goes on collecting batches and hands them to the
  instance, which refuses every one; the events are gone, the instance is unchanged, and after a
  restart feeding goes on behind the gap.\<close>

theorem stopped_instance_loses:
  assumes "\<not> ci_running i" and "Received None \<notin> set evs" and "Command True \<notin> set evs"
  shows "\<exists>s'. batch_loop debug (evs @ [Received None]) (batch_start i) = (TaskDone, s')
    \<and> concat (bs_fed s') = received evs \<and> bs_batch s' = [] \<and> bs_instance s' = i"
proof -
  obtain s1 where s1: "batch_loop debug evs (batch_start i) = (TaskRunning, s1)" "bs_instance s1 = i"
    "concat (bs_fed s1) @ bs_batch s1 = received evs"
    using batch_loop_stopped [of "batch_start i" evs debug] assms by (auto simp: batch_start_def)
  then show ?thesis
    using assms(1)
    by (cases "bs_batch s1 = []")
      (auto simp: batch_loop_append [OF s1(1)] batch_step_def feed_batch_stopped)
qed

lemma stopped_instance_loses_witness:
  "\<exists>s'. batch_loop True ([Received (Some (Inr (sample_event ''b.1'' 4)))] @ [Received None])
      (batch_start (instance_stop sample_instance :: unit canal_instance)) = (TaskDone, s')
    \<and> instance_store (bs_instance s') = instance_store (instance_stop sample_instance :: unit canal_instance)"
  using stopped_instance_loses [of "instance_stop sample_instance :: unit canal_instance"
      "[Received (Some (Inr (sample_event ''b.1'' 4)))]" True] by auto

subsection \<open>The end of replication\<close>

text \<open>
  \<open>recv\<close> reports the end of the channel when every sender has been dropped: the clone that the
  replication thread holds while it runs, and the one in the connector.
\<close>

definition senders_gone :: "bool \<Rightarrow> binlog_connector \<Rightarrow> bool" where
  "senders_gone thread_running conn \<longleftrightarrow> \<not> thread_running \<and> \<not> bc_sender conn"

lemma batch_step_not_done: "ev \<noteq> Received None \<Longrightarrow> fst (batch_step debug ev s) \<noteq> TaskDone"
proof (cases ev)
  case (Received x)
  moreover assume "ev \<noteq> Received None"
  ultimately obtain r where "ev = Received (Some r)"
    by (cases x) auto
  then show ?thesis
    by (cases r) (auto simp: batch_step_def feed_batch_def Let_def split: prod.splits)
qed (auto simp: batch_step_def feed_batch_def Let_def split: prod.splits)

lemma batch_loop_not_done:
  "Received None \<notin> set evs \<Longrightarrow> fst (batch_loop debug evs s) \<noteq> TaskDone"
proof (induction evs arbitrary: s)
  case (Cons ev evs)
  obtain st s' where step: "batch_step debug ev s = (st, s')"
    by fastforce
  then have "st \<noteq> TaskDone"
    using batch_step_not_done [of ev debug s] Cons.prems by auto
  then show ?case
    using Cons.IH [of s'] Cons.prems by (cases st) (simp_all add: step)
qed simp

text \<open>The end of replication goes unnoticed. The binlog task keeps its connector, and with it a
  sender of the channel, for as long as it runs; so when the replication thread ends, be it that the
  stream has ended or broken off, the channel does not. The task goes on waiting and never reaches
  the shutdown that it would start at the end of the stream. Disconnecting would end the channel.\<close>

theorem replication_end_unnoticed:
  assumes "binlog_task_connect config signal = Some (conn, opts, ch)"
    and "Received None \<in> set evs \<longrightarrow> senders_gone thread_running conn"
  shows "\<not> senders_gone False conn \<and> fst (batch_loop debug evs (batch_start i)) \<noteq> TaskDone
    \<and> senders_gone False (snd (connector_disconnect conn))"
proof -
  have "bc_sender conn"
    using assms(1) by (cases signal) (auto simp: binlog_task_connect_def with_channel_def
        connector_connect_def Let_def split: sum.splits if_splits)
  then have "\<not> senders_gone alive conn" for alive
    by (simp add: senders_gone_def)
  with assms(2) show ?thesis
    using batch_loop_not_done [of evs debug "batch_start i"]
    by (auto simp: senders_gone_def connector_disconnect_def cancel_current_def Let_def split: option.splits)
qed

lemma sample_connects: "\<exists>conn opts ch. binlog_task_connect sample_canal_config SignalSent = Some (conn, opts, ch)"
proof -
  have "unat (cn_server_id (cc_canal sample_canal_config)) \<le> 2 ^ 32 - 1"
    by (simp add: sample_canal_config_def default_server_id_def)
  then show ?thesis
    by (simp add: binlog_task_connect_def connector_new_def with_channel_def connector_connect_def Let_def)
qed

lemma replication_end_unnoticed_witness:
  "\<exists>conn opts ch. binlog_task_connect sample_canal_config SignalSent = Some (conn, opts, ch)
    \<and> fst (batch_loop True [Received (Some (Inl (Internal ''''))), TimerTick]
        (batch_start (sample_instance :: unit canal_instance))) \<noteq> TaskDone"
proof -
  obtain conn opts ch where c: "binlog_task_connect sample_canal_config SignalSent = Some (conn, opts, ch)"
    using sample_connects by blast
  then show ?thesis
    using replication_end_unnoticed [OF c, of "[Received (Some (Inl (Internal ''''))), TimerTick]" True True
        "sample_instance :: unit canal_instance"] by auto
qed

subsection \<open>What the dump prints\<close>

lemma dump_loop_last:
  "\<exists>out. dump_loop k rs = out @ [ErrLine '''',
      ErrLine (''Done. '' @ nat_str (k + length (ok_events rs)) @ '' events received.'')]"
proof (induction k rs rule: dump_loop.induct)
  case (2 k event rs)
  then show ?case by (auto simp: ok_events_def)
qed (auto simp: ok_events_def)

end
