(* ===== verification/Canal_Process.thy ===== *)
theory Canal_Process
  imports Canal_System_Live Canal_Main
begin

text \<open>
  The server process, \<open>run_server\<close> of \<open>main.rs\<close> after its set-up, until the process ends: the Canal
  server with all its connections, the Admin API, the binlog task, the replication thread and the
  handler of the interrupt signal run side by side, tied together by the shared store, the shared
  instance and the shutdown token. When \<open>run_server\<close> has returned, the runtime of
  \<open>#[tokio::main]\<close> is dropped: it drops the tasks, and waits without a bound for a replication thread
  that is still running. The theorems show that the server in it is the server of \<open>Canal_System\<close> fed
  by the binlog task, what makes \<open>run_server\<close> return, that a shutdown makes it return, when the
  process ends then, and what it loses.
\<close>

subsection \<open>The tasks of the process\<close>

text \<open>
  The binlog task: connecting, in its loop with the connector that it holds, returned, panicked, or
  aborted. \<open>run_server\<close> waits for the server first, and then for the binlog task.
\<close>

datatype binlog_task = TaskConnecting | TaskLooping binlog_connector | TaskReturned | TaskCrashed | TaskAborted

text \<open>
  The thread that \<open>connect\<close> starts with \<open>spawn_blocking\<close>: it runs replication until its loop
  ends, which a read from MySQL that blocks can put off for ever. After \<open>Returned\<close> only this thread
  is left.
\<close>

datatype replication_thread = ThreadUnstarted | ThreadRunning | ThreadEnded

datatype process_stage =
  AwaitsServer | AwaitsTask | Returned "unit canal_result" | Exited "unit canal_result"

record 'k process =
  ps_config :: canal_config
  ps_system :: server_system
  ps_admin :: "'k admin_state"
  ps_task :: binlog_task
  ps_thread :: replication_thread
  ps_batch :: "canal_event list"
  ps_fed :: "canal_event list list"
  ps_cancelled :: bool
  ps_stage :: process_stage

abbreviation process_instance :: "'k process \<Rightarrow> 'k canal_instance option" where
  "process_instance p \<equiv> manager_get (ad_instance_manager (ps_admin p)) ''default''"

definition change_instance :: "('k canal_instance \<Rightarrow> 'k canal_instance) \<Rightarrow> 'k process \<Rightarrow> 'k process" where
  "change_instance f p = p\<lparr>ps_admin := (ps_admin p)
     \<lparr>ad_instance_manager := update_instance ''default'' f (ad_instance_manager (ps_admin p))\<rparr>\<rparr>"

definition with_store :: "mem_store \<Rightarrow> 'k canal_instance \<Rightarrow> 'k canal_instance" where
  "with_store st i = i\<lparr>ci_sink := (ci_sink i)\<lparr>sk_store := st\<rparr>\<rparr>"

text \<open>The store of the instance is the store of the server: what the server did to it is seen there.\<close>

definition share_store :: "'k process \<Rightarrow> 'k process" where
  "share_store p = change_instance (with_store (sys_store (ps_system p))) p"

text \<open>The rest of \<open>run_server\<close>: the instance is looked up again, the binlog task is spawned, and
  \<open>serve\<close> is called; whether its listener can be bound is a parameter. If not, \<open>run_server\<close> returns
  that error at its next step, when the binlog task may have started its thread already.\<close>

definition process_start ::
    "canal_error option \<Rightarrow> canal_config \<Rightarrow> 'k server_setup \<Rightarrow> (string, 'k process) rust_result" where
  "process_start bind_result config su =
     (case manager_get (su_manager su) ''default'' of
        None \<Rightarrow> Inl (''Instance '' @ quoted ''default'' @ '' was not found after registration'')
      | Some i \<Rightarrow>
          (let (status, server) = serve_start bind_result (su_server su)
           in Inr (share_store
                \<lparr>ps_config = config,
                 ps_system = \<lparr>ss_server = server, ss_status = status, ss_conns = []\<rparr>,
                 ps_admin = as_state (su_admin su), ps_task = TaskConnecting,
                 ps_thread = ThreadUnstarted, ps_batch = [], ps_fed = [], ps_cancelled = False,
                 ps_stage = AwaitsServer\<rparr>)))"

text \<open>The thread is started once, when the connector can be created; \<open>connect\<close> gets that far exactly
  if it succeeds with the signal of the thread.\<close>

definition start_thread :: "'k process \<Rightarrow> 'k process" where
  "start_thread p =
     (if ps_thread p = ThreadUnstarted \<and> binlog_task_connect (ps_config p) SignalSent \<noteq> None
      then p\<lparr>ps_thread := ThreadRunning\<rparr> else p)"

text \<open>The binlog task connects; if that fails it starts the shutdown and returns. The thread that it
  has started goes on when \<open>connect\<close> gives up waiting for its signal.\<close>

definition task_connect :: "start_signal \<Rightarrow> 'k process \<Rightarrow> 'k process" where
  "task_connect signal p0 =
     (let p = start_thread p0
      in case binlog_task_connect (ps_config p) signal of
           None \<Rightarrow> p\<lparr>ps_task := TaskReturned, ps_cancelled := True\<rparr>
         | Some (conn, opts, ch) \<Rightarrow> p\<lparr>ps_task := TaskLooping conn\<rparr>)"

text \<open>One turn of its loop. At the end of the channel it flushes, starts the shutdown and returns.\<close>

definition task_turn :: "bool \<Rightarrow> select_event \<Rightarrow> 'k process \<Rightarrow> 'k process" where
  "task_turn debug sel p =
     (case process_instance p of
        None \<Rightarrow> p
      | Some i \<Rightarrow>
          (let (st, s) = batch_step debug sel \<lparr>bs_batch = ps_batch p, bs_instance = i, bs_fed = ps_fed p\<rparr>;
               p1 = change_instance (\<lambda>_. bs_instance s) (p\<lparr>ps_batch := bs_batch s, ps_fed := bs_fed s\<rparr>);
               p2 = p1\<lparr>ps_system := (ps_system p1)\<lparr>ss_server := (ss_server (ps_system p1))
                      \<lparr>sr_store := instance_store (bs_instance s)\<rparr>\<rparr>\<rparr>
           in (case st of
                 TaskRunning \<Rightarrow> p2
               | TaskDone \<Rightarrow> p2\<lparr>ps_task := TaskReturned, ps_cancelled := True\<rparr>
               | TaskPanicked \<Rightarrow> p2\<lparr>ps_task := TaskCrashed\<rparr>)))"

definition task_over :: "binlog_task \<Rightarrow> bool" where
  "task_over t \<longleftrightarrow> t = TaskReturned \<or> t = TaskCrashed \<or> t = TaskAborted"

text \<open>\<open>run_server\<close> returns: the tasks are dropped with the runtime, and the process ends when no
  replication thread is running.\<close>

definition run_returns :: "unit canal_result \<Rightarrow> 'k process \<Rightarrow> 'k process" where
  "run_returns r p = p\<lparr>ps_stage := (if ps_thread p = ThreadRunning then Returned r else Exited r)\<rparr>"

text \<open>An error of \<open>serve\<close> is returned at once; otherwise the binlog task is waited for.\<close>

definition advance :: "'k process \<Rightarrow> 'k process" where
  "advance p =
     (case ss_status (ps_system p) of
        Served (Inl e) \<Rightarrow> run_returns (Inl e) p
      | Served (Inr _) \<Rightarrow>
          (if task_over (ps_task p) then run_returns (Inr ()) p else p\<lparr>ps_stage := AwaitsTask\<rparr>)
      | _ \<Rightarrow> p)"

text \<open>
  What can happen next: the interrupt signal; the binlog task has started its replication thread;
  this thread ends; the binlog task's connector has connected or not; the
  channel has an item or has ended, or the flush timer ticks; something happens at the server; a
  request comes in at the Admin API; the five seconds for the binlog task are over. The server takes
  notice of the shutdown only when the token is cancelled, is fed by the binlog task alone, and the
  channel ends only when every sender is gone.
\<close>

datatype process_event =
  Interrupt
  | ThreadStarts
  | ThreadEnds
  | Connects start_signal
  | Collects "canal_event canal_result option"
  | FlushTick
  | Serves system_event
  | Requests authorization admin_request
  | WaitOver

definition serves :: "bool \<Rightarrow> prost \<Rightarrow> regex_engine \<Rightarrow> system_event \<Rightarrow> 'k process \<Rightarrow> 'k process" where
  "serves debug pb rx ev p =
     (case ev of
        Feeds evs \<Rightarrow> p
      | Cancelled \<Rightarrow>
          (if ps_cancelled p
           then share_store (p\<lparr>ps_system := system_step debug pb rx Cancelled (ps_system p)\<rparr>) else p)
      | _ \<Rightarrow> share_store (p\<lparr>ps_system := system_step debug pb rx ev (ps_system p)\<rparr>))"

definition process_turn ::
    "bool \<Rightarrow> prost \<Rightarrow> regex_engine \<Rightarrow> process_event \<Rightarrow> 'k process \<Rightarrow> 'k process" where
  "process_turn debug pb rx ev p =
     (case ev of
        Interrupt \<Rightarrow> p\<lparr>ps_cancelled := True\<rparr>
      | ThreadStarts \<Rightarrow> (if ps_task p = TaskConnecting then start_thread p else p)
      | ThreadEnds \<Rightarrow> (if ps_thread p = ThreadRunning then p\<lparr>ps_thread := ThreadEnded\<rparr> else p)
      | Connects signal \<Rightarrow> (if ps_task p = TaskConnecting then task_connect signal p else p)
      | Collects x \<Rightarrow>
          (case ps_task p of
             TaskLooping conn \<Rightarrow>
               (if x = None \<and> \<not> senders_gone False conn then p else task_turn debug (Received x) p)
           | _ \<Rightarrow> p)
      | FlushTick \<Rightarrow> (case ps_task p of TaskLooping conn \<Rightarrow> task_turn debug TimerTick p | _ \<Rightarrow> p)
      | Serves sev \<Rightarrow> serves debug pb rx sev p
      | Requests headers r \<Rightarrow> p\<lparr>ps_admin := admin_step (headers, r) (ps_admin p)\<rparr>
      | WaitOver \<Rightarrow> (if ps_stage p = AwaitsTask then p\<lparr>ps_task := TaskAborted\<rparr> else p))"

definition process_step ::
    "bool \<Rightarrow> prost \<Rightarrow> regex_engine \<Rightarrow> process_event \<Rightarrow> 'k process \<Rightarrow> 'k process" where
  "process_step debug pb rx ev p =
     (case ps_stage p of
        Exited r \<Rightarrow> p
      | Returned r \<Rightarrow>
          (if ev = ThreadEnds then run_returns r (p\<lparr>ps_thread := ThreadEnded\<rparr>) else p)
      | _ \<Rightarrow> advance (process_turn debug pb rx ev p))"

abbreviation process_run ::
    "bool \<Rightarrow> prost \<Rightarrow> regex_engine \<Rightarrow> process_event list \<Rightarrow> 'k process \<Rightarrow> 'k process" where
  "process_run debug pb rx evs p \<equiv> fold (process_step debug pb rx) evs p"

subsection \<open>The server of the process\<close>

lemma change_instance_simps [simp]:
  "ps_config (change_instance f p) = ps_config p" "ps_system (change_instance f p) = ps_system p"
  "ps_task (change_instance f p) = ps_task p" "ps_batch (change_instance f p) = ps_batch p"
  "ps_fed (change_instance f p) = ps_fed p" "ps_cancelled (change_instance f p) = ps_cancelled p"
  "ps_stage (change_instance f p) = ps_stage p" "ps_thread (change_instance f p) = ps_thread p"
  "process_instance (change_instance f p) = map_option f (process_instance p)"
  by (simp_all add: change_instance_def manager_get_def)

lemma with_store_simps [simp]:
  "instance_store (with_store st i) = st" "sk_filter (ci_sink (with_store st i)) = sk_filter (ci_sink i)"
  "ci_running (with_store st i) = ci_running i"
  by (simp_all add: with_store_def instance_store_def)

lemma share_store_simps [simp]:
  "ps_config (share_store p) = ps_config p" "ps_system (share_store p) = ps_system p"
  "ps_task (share_store p) = ps_task p" "ps_batch (share_store p) = ps_batch p"
  "ps_fed (share_store p) = ps_fed p" "ps_cancelled (share_store p) = ps_cancelled p"
  "ps_stage (share_store p) = ps_stage p" "ps_thread (share_store p) = ps_thread p"
  "process_instance (share_store p) = map_option (with_store (sys_store (ps_system p))) (process_instance p)"
  by (simp_all add: share_store_def)

lemma start_thread_simps [simp]:
  "ps_config (start_thread p) = ps_config p" "ps_system (start_thread p) = ps_system p"
  "ps_admin (start_thread p) = ps_admin p" "ps_task (start_thread p) = ps_task p"
  "ps_batch (start_thread p) = ps_batch p" "ps_fed (start_thread p) = ps_fed p"
  "ps_cancelled (start_thread p) = ps_cancelled p" "ps_stage (start_thread p) = ps_stage p"
  by (simp_all add: start_thread_def)

lemma run_returns_simps [simp]:
  "ps_config (run_returns r p) = ps_config p" "ps_system (run_returns r p) = ps_system p"
  "ps_admin (run_returns r p) = ps_admin p" "ps_task (run_returns r p) = ps_task p"
  "ps_batch (run_returns r p) = ps_batch p" "ps_fed (run_returns r p) = ps_fed p"
  "ps_cancelled (run_returns r p) = ps_cancelled p" "ps_thread (run_returns r p) = ps_thread p"
  by (simp_all add: run_returns_def)

lemma advance_simps [simp]:
  "ps_thread (advance p) = ps_thread p"
  "ps_config (advance p) = ps_config p" "ps_system (advance p) = ps_system p"
  "ps_admin (advance p) = ps_admin p" "ps_task (advance p) = ps_task p" "ps_batch (advance p) = ps_batch p"
  "ps_fed (advance p) = ps_fed p" "ps_cancelled (advance p) = ps_cancelled p"
  by (simp_all add: advance_def split: serve_status.splits sum.splits)

lemma sink_store:
  "sk_store (snd (sink debug evs s))
    = snd (put_batch debug (filter (filter_passes (sk_filter s)) evs) (sk_store s))"
  by (simp add: sink_def Let_def split: prod.splits option.splits)

lemma feed_fields:
  "instance_store (snd (feed debug evs i))
    = (if ci_running i then snd (put_batch debug (passing i evs) (instance_store i)) else instance_store i)"
  "ci_running (snd (feed debug evs i)) = ci_running i"
  "sk_filter (ci_sink (snd (feed debug evs i))) = sk_filter (ci_sink i)"
proof -
  obtain r x where x: "sink debug evs (ci_sink i) = (r, x)"
    by fastforce
  then have "sk_store x = snd (put_batch debug (passing i evs) (sk_store (ci_sink i)))"
    "sk_filter x = sk_filter (ci_sink i)"
    using sink_store [of debug evs "ci_sink i"] sink_filter [of debug evs "ci_sink i"] by simp_all
  with x show "instance_store (snd (feed debug evs i))
      = (if ci_running i then snd (put_batch debug (passing i evs) (instance_store i)) else instance_store i)"
    "ci_running (snd (feed debug evs i)) = ci_running i"
    "sk_filter (ci_sink (snd (feed debug evs i))) = sk_filter (ci_sink i)"
    by (auto simp: feed_def instance_store_def Let_def split: option.splits sum.splits)
qed

definition put_batches :: "bool \<Rightarrow> canal_event list list \<Rightarrow> mem_store \<Rightarrow> mem_store" where
  "put_batches debug bs st = fold (\<lambda>b st. snd (put_batch debug b st)) bs st"

lemma system_run_feeds:
  "system_run debug pb rx (map Feeds bs) sys
    = sys\<lparr>ss_server := (ss_server sys)\<lparr>sr_store := put_batches debug bs (sys_store sys)\<rparr>\<rparr>"
  by (induction bs arbitrary: sys) (simp_all add: put_batches_def system_step_def)

text \<open>The batches that a turn of the binlog task hands to the instance.\<close>

lemma batch_step_feeds:
  assumes "batch_step debug sel s = (st, s')" and "\<And>b. sel \<noteq> Command b"
  obtains bs where "bs_fed s' = bs_fed s @ bs"
    and "instance_store (bs_instance s') = (if ci_running (bs_instance s)
      then put_batches debug (map (passing (bs_instance s)) bs) (instance_store (bs_instance s))
      else instance_store (bs_instance s))"
    and "ci_running (bs_instance s') = ci_running (bs_instance s)"
    and "sk_filter (ci_sink (bs_instance s')) = sk_filter (ci_sink (bs_instance s))"
proof -
  define fed where "fed = (\<lambda>s' :: 'a batch_state. \<exists>bs. bs_fed s' = bs_fed s @ bs
    \<and> instance_store (bs_instance s') = (if ci_running (bs_instance s)
      then put_batches debug (map (passing (bs_instance s)) bs) (instance_store (bs_instance s))
      else instance_store (bs_instance s))
    \<and> ci_running (bs_instance s') = ci_running (bs_instance s)
    \<and> sk_filter (ci_sink (bs_instance s')) = sk_filter (ci_sink (bs_instance s)))"
  have none: "fed (s\<lparr>bs_batch := b\<rparr>)" for b
    unfolding fed_def by (rule exI [of _ "[]"]) (simp add: put_batches_def)
  have one: "fed (snd (feed_batch debug (s\<lparr>bs_batch := b\<rparr>)))" for b
    unfolding fed_def
    by (rule exI [of _ "[b]"])
      (simp add: feed_batch_def put_batches_def split_def feed_fields Let_def)
  have "fed s" "fed (snd (feed_batch debug s))"
    using none [of "bs_batch s"] one [of "bs_batch s"] by simp_all
  with none one have "fed (snd (batch_step debug sel s))"
    using assms(2) by (auto simp: batch_step_def Let_def split_def split: select_event.splits option.splits sum.splits)
  then show thesis
    using that assms(1) by (auto simp: fed_def)
qed

text \<open>The instance shares its store with the server and has the filter \<open>flt\<close>.\<close>

definition shares :: "event_filter \<Rightarrow> 'k process \<Rightarrow> bool" where
  "shares flt p \<longleftrightarrow>
     (\<exists>i. process_instance p = Some i \<and> instance_store i = sys_store (ps_system p)
        \<and> sk_filter (ci_sink i) = flt)"

definition runs :: "'k process \<Rightarrow> bool" where
  "runs p \<longleftrightarrow> (case process_instance p of Some i \<Rightarrow> ci_running i | None \<Rightarrow> False)"

lemma task_turn_fields:
  assumes "process_instance p = Some i"
    and "batch_step debug sel \<lparr>bs_batch = ps_batch p, bs_instance = i, bs_fed = ps_fed p\<rparr> = (st, s)"
  shows "ps_batch (task_turn debug sel p) = bs_batch s" and "ps_fed (task_turn debug sel p) = bs_fed s"
    and "process_instance (task_turn debug sel p) = Some (bs_instance s)"
    and "ps_system (task_turn debug sel p)
      = (ps_system p)\<lparr>ss_server := (ss_server (ps_system p))\<lparr>sr_store := instance_store (bs_instance s)\<rparr>\<rparr>"
    and "ps_task (task_turn debug sel p) = (case st of TaskRunning \<Rightarrow> ps_task p
      | TaskDone \<Rightarrow> TaskReturned | TaskPanicked \<Rightarrow> TaskCrashed)"
    and "ps_cancelled (task_turn debug sel p) = (ps_cancelled p \<or> st = TaskDone)"
    and "ps_stage (task_turn debug sel p) = ps_stage p" and "ps_config (task_turn debug sel p) = ps_config p"
proof -
  define p1 where "p1 = change_instance (\<lambda>_. bs_instance s) (p\<lparr>ps_batch := bs_batch s, ps_fed := bs_fed s\<rparr>)"
  have p1: "ps_batch p1 = bs_batch s" "ps_fed p1 = bs_fed s" "ps_system p1 = ps_system p" "ps_task p1 = ps_task p"
    "process_instance p1 = Some (bs_instance s)" "ps_cancelled p1 = ps_cancelled p"
    "ps_stage p1 = ps_stage p" "ps_config p1 = ps_config p"
    using assms(1) by (simp_all add: p1_def)
  have t: "task_turn debug sel p =
    (let p2 = p1\<lparr>ps_system := (ps_system p1)\<lparr>ss_server := (ss_server (ps_system p1))
                      \<lparr>sr_store := instance_store (bs_instance s)\<rparr>\<rparr>\<rparr>
     in case st of
          TaskRunning \<Rightarrow> p2
        | TaskDone \<Rightarrow> p2\<lparr>ps_task := TaskReturned, ps_cancelled := True\<rparr>
        | TaskPanicked \<Rightarrow> p2\<lparr>ps_task := TaskCrashed\<rparr>)"
    by (simp only: task_turn_def assms option.case prod.case Let_def flip: p1_def)
  show "ps_batch (task_turn debug sel p) = bs_batch s" "ps_fed (task_turn debug sel p) = bs_fed s"
    "process_instance (task_turn debug sel p) = Some (bs_instance s)"
    "ps_system (task_turn debug sel p)
      = (ps_system p)\<lparr>ss_server := (ss_server (ps_system p))\<lparr>sr_store := instance_store (bs_instance s)\<rparr>\<rparr>"
    "ps_task (task_turn debug sel p) = (case st of TaskRunning \<Rightarrow> ps_task p
      | TaskDone \<Rightarrow> TaskReturned | TaskPanicked \<Rightarrow> TaskCrashed)"
    "ps_cancelled (task_turn debug sel p) = (ps_cancelled p \<or> st = TaskDone)"
    "ps_stage (task_turn debug sel p) = ps_stage p" "ps_config (task_turn debug sel p) = ps_config p"
    unfolding t by (cases st; simp add: p1)+
qed

lemma task_turn_run:
  assumes "shares flt p" and "\<And>b. sel \<noteq> Command b"
  obtains bs where "ps_fed (task_turn debug sel p) = ps_fed p @ bs"
    and "shares flt (task_turn debug sel p)" and "runs (task_turn debug sel p) = runs p"
    and "ps_system (task_turn debug sel p) = system_run debug pb rx
      (if runs p then map Feeds (map (filter (filter_passes flt)) bs) else []) (ps_system p)"
proof -
  obtain i where i: "process_instance p = Some i" "instance_store i = sys_store (ps_system p)"
    "sk_filter (ci_sink i) = flt"
    using assms(1) by (auto simp: shares_def)
  obtain st s where step: "batch_step debug sel \<lparr>bs_batch = ps_batch p, bs_instance = i, bs_fed = ps_fed p\<rparr> = (st, s)"
    by fastforce
  obtain bs where bs: "bs_fed s = ps_fed p @ bs"
    "instance_store (bs_instance s) = (if ci_running i
      then put_batches debug (map (passing i) bs) (instance_store i) else instance_store i)"
    "ci_running (bs_instance s) = ci_running i" "sk_filter (ci_sink (bs_instance s)) = flt"
    by (rule batch_step_feeds [OF step assms(2)], rule that) (simp_all only: batch_state.simps i(3))
  have turn: "ps_fed (task_turn debug sel p) = bs_fed s"
    "process_instance (task_turn debug sel p) = Some (bs_instance s)"
    "ps_system (task_turn debug sel p)
      = (ps_system p)\<lparr>ss_server := (ss_server (ps_system p))\<lparr>sr_store := instance_store (bs_instance s)\<rparr>\<rparr>"
    by (rule task_turn_fields [OF i(1) step])+
  show thesis
  proof (rule that [of bs])
    show "ps_fed (task_turn debug sel p) = ps_fed p @ bs"
      by (simp add: turn(1) bs(1))
    show "shares flt (task_turn debug sel p)"
      using bs(4) by (simp add: shares_def turn(2,3))
    show "runs (task_turn debug sel p) = runs p"
      by (simp add: runs_def turn(2) i(1) bs(3))
    show "ps_system (task_turn debug sel p) = system_run debug pb rx
      (if runs p then map Feeds (map (filter (filter_passes flt)) bs) else []) (ps_system p)"
      by (simp add: turn(3) bs(2) i system_run_feeds runs_def del: map_map)
  qed
qed

text \<open>What happened at the server, without the feeds; whether the Admin API was asked to stop.\<close>

definition at_server :: "process_event list \<Rightarrow> system_event list" where
  "at_server evs = List.map_filter (\<lambda>ev. case ev of Serves sev \<Rightarrow> Some sev | _ \<Rightarrow> None) evs"

definition is_feed :: "system_event \<Rightarrow> bool" where
  "is_feed ev = (case ev of Feeds _ \<Rightarrow> True | _ \<Rightarrow> False)"

definition never_stopped :: "process_event list \<Rightarrow> bool" where
  "never_stopped evs = list_all (\<lambda>ev. case ev of Requests _ (StopInstance _) \<Rightarrow> False | _ \<Rightarrow> True) evs"

lemma at_server_simps [simp]:
  "at_server [] = []" "at_server (evs @ evs') = at_server evs @ at_server evs'"
  "at_server (Serves sev # evs) = sev # at_server evs"
  by (simp_all add: at_server_def List.map_filter_def)

lemma never_stopped_append [simp]: "never_stopped (xs @ ys) \<longleftrightarrow> never_stopped xs \<and> never_stopped ys"
  by (simp add: never_stopped_def)

text \<open>
  After \<open>evs\<close> the server of the process is where the events \<open>es\<close> bring it, which are feeds of what
  passes of the batches that the binlog task has fed, and what happened at the server.
\<close>

definition mirrors ::
    "bool \<Rightarrow> prost \<Rightarrow> regex_engine \<Rightarrow> server_system \<Rightarrow> event_filter \<Rightarrow> process_event list
      \<Rightarrow> system_event list \<Rightarrow> 'k process \<Rightarrow> bool" where
  "mirrors debug pb rx sys flt evs es p \<longleftrightarrow>
     shares flt p \<and> ps_system p = system_run debug pb rx es sys
     \<and> subseq (filter (\<lambda>ev. \<not> is_feed ev) es) (at_server evs)
     \<and> subseq (feeds_of es) (filter (filter_passes flt) (concat (ps_fed p)))
     \<and> (never_stopped evs \<longrightarrow> runs p \<and> feeds_of es = filter (filter_passes flt) (concat (ps_fed p)))"

lemma feeds_of_append [simp]: "feeds_of (xs @ ys) = feeds_of xs @ feeds_of ys"
  by (induction xs rule: feeds_of.induct) simp_all

lemma feeds_of_feeds [simp]: "feeds_of (map Feeds bs) = concat bs"
  by (induction bs) simp_all

lemma filter_is_feed [simp]: "filter (\<lambda>ev. \<not> is_feed ev) (map Feeds bs) = []"
  by (simp add: is_feed_def)

lemma mirrors_same:
  assumes "mirrors debug pb rx sys flt evs es p"
    and "shares flt p'" and "ps_system p' = ps_system p" and "ps_fed p' = ps_fed p"
    and "never_stopped [ev] \<Longrightarrow> runs p \<Longrightarrow> runs p'"
  shows "mirrors debug pb rx sys flt (evs @ [ev]) es p'"
  using assms by (auto simp: mirrors_def intro: list_emb_prefix)

lemma mirrors_task:
  assumes "mirrors debug pb rx sys flt evs es p" and "\<And>b. sel \<noteq> Command b"
  shows "\<exists>es'. mirrors debug pb rx sys flt (evs @ [ev]) es' (task_turn debug sel p)"
proof -
  have "shares flt p"
    using assms(1) by (simp add: mirrors_def)
  then obtain bs where bs: "ps_fed (task_turn debug sel p) = ps_fed p @ bs"
    "shares flt (task_turn debug sel p)" "runs (task_turn debug sel p) = runs p"
    "ps_system (task_turn debug sel p) = system_run debug pb rx
      (if runs p then map Feeds (map (filter (filter_passes flt)) bs) else []) (ps_system p)"
    by (rule task_turn_run [OF _ assms(2)])
  have flat: "concat (map (filter P) bs) = filter P (concat bs)" for P
    by (simp add: filter_concat)
  define fs where "fs = (if runs p then map Feeds (map (filter (filter_passes flt)) bs) else [])"
  have fs: "filter (\<lambda>ev. \<not> is_feed ev) fs = []"
    "feeds_of fs = (if runs p then filter (filter_passes flt) (concat bs) else [])"
    by (simp_all add: fs_def flat del: map_map)
  have "ps_system (task_turn debug sel p) = system_run debug pb rx (es @ fs) sys"
    using assms(1) by (simp add: bs(4) mirrors_def flip: fs_def)
  moreover have "subseq (feeds_of (es @ fs)) (filter (filter_passes flt) (concat (ps_fed p @ bs)))"
    using assms(1) by (auto simp: mirrors_def fs(2) intro!: list_emb_append_mono)
  moreover have "subseq (filter (\<lambda>ev. \<not> is_feed ev) (es @ fs)) (at_server (evs @ [ev]))"
    using assms(1) by (simp add: fs(1) mirrors_def list_emb_prefix)
  ultimately have "mirrors debug pb rx sys flt (evs @ [ev]) (es @ fs) (task_turn debug sel p)"
    using assms(1) bs(1-3) by (auto simp: mirrors_def fs(2))
  then show ?thesis by blast
qed

lemma commands_keep:
  "instance_store (fold (\<lambda>b. if b then instance_start else instance_stop) bs i) = instance_store i"
  "sk_filter (ci_sink (fold (\<lambda>b. if b then instance_start else instance_stop) bs i)) = sk_filter (ci_sink i)"
  by (induction bs arbitrary: i) (simp_all add: instance_store_def)

lemma request_shares:
  assumes "shares flt p" and "p' = p\<lparr>ps_admin := admin_step (h, r) (ps_admin p)\<rparr>"
  shows "shares flt p'" and "never_stopped [Requests h r] \<Longrightarrow> runs p \<Longrightarrow> runs p'"
proof -
  obtain i where i: "process_instance p = Some i" "instance_store i = sys_store (ps_system p)"
    "sk_filter (ci_sink i) = flt"
    using assms(1) by (auto simp: shares_def)
  let ?cs = "commands (ad_admin_token (ps_admin p)) ''default'' [(h, r)]"
  have i': "process_instance p' = Some (fold (\<lambda>b. if b then instance_start else instance_stop) ?cs i)"
    using i(1) by (simp add: assms(2) admin_step_get)
  then show "shares flt p'"
    using i(2,3) by (simp add: shares_def assms(2) commands_keep)
  show "runs p'" if "never_stopped [Requests h r]" "runs p"
    using i(1) i' that by (cases r) (auto simp: runs_def never_stopped_def)
qed

lemma mirrors_serves:
  assumes "mirrors debug pb rx sys flt evs es p"
  shows "\<exists>es'. mirrors debug pb rx sys flt (evs @ [Serves sev]) es' (serves debug pb rx sev p)"
proof (cases "serves debug pb rx sev p = p")
  case True
  with assms show ?thesis
    by (auto intro!: mirrors_same simp: mirrors_def)
next
  case False
  then have p': "serves debug pb rx sev p
      = share_store (p\<lparr>ps_system := system_step debug pb rx sev (ps_system p)\<rparr>)" and "\<not> is_feed sev"
    by (auto simp: serves_def is_feed_def split: system_event.splits if_splits)
  obtain i where i: "process_instance p = Some i" "sk_filter (ci_sink i) = flt"
    using assms by (auto simp: mirrors_def shares_def)
  have "feeds_of [sev] = []"
    using \<open>\<not> is_feed sev\<close> by (cases sev) (simp_all add: is_feed_def)
  moreover have "shares flt (serves debug pb rx sev p)" "runs (serves debug pb rx sev p) = runs p"
    using i by (simp_all add: p' shares_def runs_def)
  ultimately have "mirrors debug pb rx sys flt (evs @ [Serves sev]) (es @ [sev]) (serves debug pb rx sev p)"
    using assms \<open>\<not> is_feed sev\<close> by (simp add: mirrors_def p')
  then show ?thesis by blast
qed

lemma advance_shares [simp]: "shares flt (advance p) = shares flt p" "runs (advance p) = runs p"
  by (simp_all add: shares_def runs_def)

lemma mirrors_turn:
  assumes "mirrors debug pb rx sys flt evs es p"
  shows "\<exists>es'. mirrors debug pb rx sys flt (evs @ [ev]) es' (process_turn debug pb rx ev p)"
proof -
  have shares: "shares flt p"
    using assms by (simp add: mirrors_def)
  have same: "mirrors debug pb rx sys flt (evs @ [ev]) es p'"
    if "process_instance p' = process_instance p" "ps_system p' = ps_system p" "ps_fed p' = ps_fed p" for p'
    using assms shares that by (intro mirrors_same) (simp_all add: shares_def runs_def)
  show ?thesis
  proof (cases ev)
    case (Connects signal)
    show ?thesis
      by (rule exI, rule same)
        (simp_all add: Connects process_turn_def task_connect_def Let_def split: option.splits prod.splits)
  next
    case ThreadStarts
    show ?thesis
      by (rule exI, rule same) (simp_all add: ThreadStarts process_turn_def)
  next
    case ThreadEnds
    show ?thesis
      by (rule exI, rule same) (simp_all add: ThreadEnds process_turn_def)
  next
    case (Collects x)
    then show ?thesis
      using same [of p] mirrors_task [OF assms, of "Received x" ev]
      by (auto simp: process_turn_def split: binlog_task.splits)
  next
    case FlushTick
    then show ?thesis
      using same [of p] mirrors_task [OF assms, of TimerTick ev]
      by (auto simp: process_turn_def split: binlog_task.splits)
  next
    case (Serves sev)
    then show ?thesis
      using mirrors_serves [OF assms] by (simp add: process_turn_def)
  next
    case (Requests h r)
    have "mirrors debug pb rx sys flt (evs @ [ev]) es (p\<lparr>ps_admin := admin_step (h, r) (ps_admin p)\<rparr>)"
      using request_shares [OF shares refl, of h r] by (intro mirrors_same [OF assms]) (simp_all add: Requests)
    then show ?thesis
      by (auto simp: Requests process_turn_def)
  next
    case Interrupt
    show ?thesis
      by (rule exI, rule same) (simp_all add: Interrupt process_turn_def)
  next
    case WaitOver
    show ?thesis
      by (rule exI, rule same) (simp_all add: WaitOver process_turn_def)
  qed
qed

text \<open>\<open>run_server\<close> has returned. From then on a step changes at most the thread and the stage.\<close>

definition returned :: "'k process \<Rightarrow> bool" where
  "returned p \<longleftrightarrow> (case ps_stage p of Returned _ \<Rightarrow> True | Exited _ \<Rightarrow> True | _ \<Rightarrow> False)"

lemma process_step_cases:
  obtains (returned) "returned p"
      "\<exists>th st. process_step debug pb rx ev p = p\<lparr>ps_thread := th, ps_stage := st\<rparr>"
  | (live) "\<not> returned p" "process_step debug pb rx ev p = advance (process_turn debug pb rx ev p)"
proof (cases "ps_stage p")
  case (Returned r)
  have "\<exists>th st. process_step debug pb rx ev p = p\<lparr>ps_thread := th, ps_stage := st\<rparr>"
  proof (cases "ev = ThreadEnds")
    case True
    then show ?thesis
      using Returned by (auto simp: process_step_def run_returns_def)
  next
    case False
    then have "process_step debug pb rx ev p = p\<lparr>ps_thread := ps_thread p, ps_stage := ps_stage p\<rparr>"
      using Returned by (simp add: process_step_def)
    then show ?thesis by blast
  qed
  then show ?thesis by (intro that(1)) (simp_all add: returned_def Returned)
next
  case (Exited r)
  then have "process_step debug pb rx ev p = p\<lparr>ps_thread := ps_thread p, ps_stage := ps_stage p\<rparr>"
    by (simp add: process_step_def)
  then have "\<exists>th st. process_step debug pb rx ev p = p\<lparr>ps_thread := th, ps_stage := st\<rparr>"
    by blast
  then show ?thesis by (intro that(1)) (simp_all add: returned_def Exited)
qed (simp_all add: returned_def process_step_def that)

lemma mirrors_step:
  assumes "mirrors debug pb rx sys flt evs es p"
  shows "\<exists>es'. mirrors debug pb rx sys flt (evs @ [ev]) es' (process_step debug pb rx ev p)"
proof (cases rule: process_step_cases [of p debug pb rx ev])
  case returned
  then obtain th st where step: "process_step debug pb rx ev p = p\<lparr>ps_thread := th, ps_stage := st\<rparr>"
    by blast
  have "mirrors debug pb rx sys flt (evs @ [ev]) es (p\<lparr>ps_thread := th, ps_stage := st\<rparr>)"
    by (rule mirrors_same [OF assms]) (use assms in \<open>auto simp: mirrors_def shares_def runs_def\<close>)
  then show ?thesis
    by (auto simp: step)
next
  case live
  with mirrors_turn [OF assms, of ev] show ?thesis
    by (simp add: mirrors_def)
qed

lemma mirrors_run:
  "mirrors debug pb rx sys flt evs es p \<Longrightarrow>
    \<exists>es'. mirrors debug pb rx sys flt (evs @ evs') es' (process_run debug pb rx evs' p)"
proof (induction evs' arbitrary: evs es p)
  case (Cons ev evs')
  with mirrors_step [OF Cons.prems, of ev] Cons.IH [of "evs @ [ev]"] show ?case
    by fastforce
qed auto

lemma store_log_started [simp]: "store_log h (mem_store_start s) = store_log h s"
  by (simp add: store_log_def store_wf_def dropped_def mem_store_start_def)

lemma process_start_cases:
  assumes "run_server en config = Some (Inr su)" and "iterates (en_map_order en)"
    and "process_start None config su = Inr p0"
  obtains i where "manager_get (su_manager su) ''default'' = Some i" "ci_running i" "store_log [] (instance_store i)"
    and "mirrors debug pb rx (system_start (su_server su)) (sk_filter (ci_sink i)) [] [] p0"
    and "ps_config p0 = config" "ps_task p0 = TaskConnecting" "ps_batch p0 = []" "ps_fed p0 = []"
    and "\<not> ps_cancelled p0" "ps_stage p0 = AwaitsServer" "ps_system p0 = system_start (su_server su)"
proof -
  obtain i where i: "manager_get (su_manager su) ''default'' = Some i" "ci_running i"
    "store_log [] (instance_store i)"
    using run_server_instance [OF assms(1,2), of "''default''"] by auto
  obtain admin_bind where "su_admin su = admin_server_new (en_now en) admin_bind (su_manager su)"
    by (rule run_server_Inr [OF assms(1)])
  then have admin: "ad_instance_manager (as_state (su_admin su)) = su_manager su"
    by (simp add: admin_server_new_def)
  have p0: "ps_config p0 = config" "ps_task p0 = TaskConnecting" "ps_batch p0 = []" "ps_fed p0 = []"
    "\<not> ps_cancelled p0" "ps_stage p0 = AwaitsServer" "ps_system p0 = system_start (su_server su)"
    "process_instance p0 = Some (with_store (sys_store (ps_system p0)) i)"
    using assms(3) i(1) by (auto simp: process_start_def serve_start_def system_start_def admin)
  then have "mirrors debug pb rx (system_start (su_server su)) (sk_filter (ci_sink i)) [] [] p0"
    using i(2) by (simp add: mirrors_def shares_def runs_def)
  with that i p0 show thesis by blast
qed

text \<open>C2: The running process is the server, fed by the binlog. Whatever happens in the process, and
  in whatever order: its Canal server, with all connections, sessions and the store, is the
  server of \<open>Canal_System\<close> after some events, which are what came in at it, in order, and feeds of
  what the instance's filter passes of the batches that the binlog task has handed over, in order; all
  of it, as long as the Admin API has not been asked to stop an instance. The store that the instance
  is fed into is the store that the clients are served from.\<close>

theorem process_is_server:
  assumes "run_server en config = Some (Inr su)" and "iterates (en_map_order en)"
    and "process_start None config su = Inr p0" and "p = process_run debug pb (en_regex en) evs p0"
  shows "\<exists>i j es. manager_get (su_manager su) ''default'' = Some i \<and> process_instance p = Some j
    \<and> instance_store j = sys_store (ps_system p)
    \<and> ps_system p = system_run debug pb (en_regex en) es (system_start (su_server su))
    \<and> subseq (filter (\<lambda>ev. \<not> is_feed ev) es) (at_server evs)
    \<and> subseq (feeds_of es) (passing i (concat (ps_fed p)))
    \<and> (never_stopped evs \<longrightarrow> feeds_of es = passing i (concat (ps_fed p)))"
proof -
  obtain i where i: "manager_get (su_manager su) ''default'' = Some i"
    "mirrors debug pb (en_regex en) (system_start (su_server su)) (sk_filter (ci_sink i)) [] [] p0"
    by (rule process_start_cases [OF assms(1-3)])
  from mirrors_run [OF i(2), of evs] obtain es where
    "mirrors debug pb (en_regex en) (system_start (su_server su)) (sk_filter (ci_sink i)) evs es p"
    by (auto simp: assms(4))
  with i(1) show ?thesis
    by (auto simp: mirrors_def shares_def)
qed

subsection \<open>What a shutdown loses\<close>

text \<open>The events that the binlog task takes off its channel.\<close>

definition takes :: "process_event \<Rightarrow> 'k process \<Rightarrow> canal_event list" where
  "takes ev p =
     (case (ps_task p, ev) of
        (TaskLooping _, Collects (Some (Inr e))) \<Rightarrow> (if returned p then [] else [e])
      | _ \<Rightarrow> [])"

fun taken :: "bool \<Rightarrow> prost \<Rightarrow> regex_engine \<Rightarrow> process_event list \<Rightarrow> 'k process \<Rightarrow> canal_event list" where
  "taken debug pb rx [] p = []"
| "taken debug pb rx (ev # evs) p = takes ev p @ taken debug pb rx evs (process_step debug pb rx ev p)"

lemma batch_step_accounts:
  assumes "batch_step debug sel s = (st, s')" and "length (bs_batch s) < max_batch"
  shows "concat (bs_fed s') @ bs_batch s' = concat (bs_fed s) @ bs_batch s @ received [sel]"
    and "length (bs_batch s') < max_batch" and "st = TaskDone \<Longrightarrow> sel = Received None \<and> bs_batch s' = []"
proof -
  have "concat (bs_fed s') @ bs_batch s' = concat (bs_fed s) @ bs_batch s @ received [sel]
    \<and> length (bs_batch s') < max_batch \<and> (st = TaskDone \<longrightarrow> sel = Received None \<and> bs_batch s' = [])"
    using assms by (cases sel rule: select_event.exhaust)
      (auto simp: batch_step_def feed_batch_def split_def Let_def max_batch_def
        split: option.splits sum.splits if_splits)
  then show "concat (bs_fed s') @ bs_batch s' = concat (bs_fed s) @ bs_batch s @ received [sel]"
    "length (bs_batch s') < max_batch" "st = TaskDone \<Longrightarrow> sel = Received None \<and> bs_batch s' = []"
    by blast+
qed

definition accounts :: "canal_event list \<Rightarrow> 'k process \<Rightarrow> bool" where
  "accounts xs p \<longleftrightarrow>
     concat (ps_fed p) @ ps_batch p = xs \<and> length (ps_batch p) < max_batch
     \<and> (ps_task p = TaskConnecting \<or> ps_task p = TaskReturned \<longrightarrow> ps_batch p = [])"

lemma accounts_task:
  assumes "accounts xs p" and "shares flt p" and "ps_task p = TaskLooping conn"
  shows "accounts (xs @ received [sel]) (task_turn debug sel p)"
proof -
  obtain i where i: "process_instance p = Some i"
    using assms(2) by (auto simp: shares_def)
  obtain st s where step: "batch_step debug sel \<lparr>bs_batch = ps_batch p, bs_instance = i, bs_fed = ps_fed p\<rparr> = (st, s)"
    by fastforce
  have "length (bs_batch \<lparr>bs_batch = ps_batch p, bs_instance = i, bs_fed = ps_fed p\<rparr>) < max_batch"
    using assms(1) by (simp add: accounts_def)
  note acc = batch_step_accounts [OF step this]
  show ?thesis
    unfolding accounts_def task_turn_fields [OF i step]
    using acc assms(1,3) by (cases st) (simp_all add: accounts_def)
qed

lemma accounts_same:
  "accounts xs p \<Longrightarrow> ps_fed p' = ps_fed p \<Longrightarrow> ps_batch p' = ps_batch p \<Longrightarrow>
    ps_task p' = ps_task p \<or> ps_batch p = [] \<or> ps_task p' \<noteq> TaskConnecting \<and> ps_task p' \<noteq> TaskReturned \<Longrightarrow>
    accounts xs p'"
  by (auto simp: accounts_def)

lemma serves_simps [simp]:
  "ps_config (serves debug pb rx sev p) = ps_config p" "ps_task (serves debug pb rx sev p) = ps_task p"
  "ps_batch (serves debug pb rx sev p) = ps_batch p" "ps_fed (serves debug pb rx sev p) = ps_fed p"
  "ps_thread (serves debug pb rx sev p) = ps_thread p"
  "ps_cancelled (serves debug pb rx sev p) = ps_cancelled p" "ps_stage (serves debug pb rx sev p) = ps_stage p"
  by (simp_all add: serves_def split: system_event.splits)

lemma takes_nothing:
  "(\<And>e. ev \<noteq> Collects (Some (Inr e))) \<Longrightarrow> takes ev p = []"
  "(\<And>conn. ps_task p \<noteq> TaskLooping conn) \<Longrightarrow> takes ev p = []" "returned p \<Longrightarrow> takes ev p = []"
  by (auto simp: takes_def split: binlog_task.splits process_event.splits option.splits sum.splits)

lemma takes_collected:
  "ps_task p = TaskLooping conn \<Longrightarrow> \<not> returned p \<Longrightarrow> takes (Collects x) p = received [Received x]"
  by (auto simp: takes_def split: option.splits sum.splits)

lemma accounts_turn:
  assumes "accounts xs p" and "shares flt p" and "\<not> returned p"
  shows "accounts (xs @ takes ev p) (process_turn debug pb rx ev p)"
proof (cases ev)
  case (Collects x)
  show ?thesis
  proof (cases "\<exists>conn. ps_task p = TaskLooping conn")
    case True
    then obtain conn where conn: "ps_task p = TaskLooping conn" by blast
    with accounts_task [OF assms(1,2) conn, of "Received x" debug] assms(1) show ?thesis
      by (auto simp: Collects process_turn_def takes_collected [OF conn assms(3)])
  next
    case False
    with assms(1) show ?thesis
      by (auto simp: Collects process_turn_def takes_nothing(2) split: binlog_task.splits)
  qed
next
  case (Connects signal)
  have "accounts xs (process_turn debug pb rx ev p)"
    by (rule accounts_same [OF assms(1)])
      (use assms(1) in \<open>auto simp: Connects process_turn_def task_connect_def accounts_def Let_def split: option.splits\<close>)
  then show ?thesis by (simp add: takes_nothing(1) Connects)
next
  case FlushTick
  then show ?thesis
    using accounts_task [OF assms(1,2), of _ TimerTick debug] assms(1)
    by (auto simp: process_turn_def takes_nothing(1) split: binlog_task.splits)
qed (use assms(1) in \<open>auto simp: process_turn_def takes_nothing(1) intro: accounts_same\<close>)

lemma accounts_step:
  assumes "accounts xs p" and "shares flt p"
  shows "accounts (xs @ takes ev p) (process_step debug pb rx ev p)"
proof (cases rule: process_step_cases [of p debug pb rx ev])
  case returned
  with assms(1) show ?thesis by (auto simp: accounts_def takes_nothing(3))
next
  case live
  with accounts_turn [OF assms, of ev debug pb rx] show ?thesis
    by (simp add: accounts_def)
qed

lemma accounts_run:
  assumes "accounts xs p" and "mirrors debug pb rx sys flt evs0 es p"
  shows "accounts (xs @ taken debug pb rx evs p) (process_run debug pb rx evs p)"
  using assms
proof (induction evs arbitrary: xs p evs0 es)
  case (Cons ev evs)
  from mirrors_step [OF Cons.prems(2), of ev] obtain es' where
    "mirrors debug pb rx sys flt (evs0 @ [ev]) es' (process_step debug pb rx ev p)" by blast
  moreover have "shares flt p"
    using Cons.prems(2) by (simp add: mirrors_def)
  ultimately show ?case
    using Cons.IH [OF accounts_step [OF Cons.prems(1)]] by simp
qed simp

text \<open>C4: What a shutdown loses. At every moment of the process, and so when it returns and exits, the events
  that the binlog task has taken off its channel are those it has fed to the instance, followed by
  those in its batch, which are fewer than 256, and none when the task has returned by
  itself. So a process that ends by aborting the task, as it does when the five seconds are over,
  loses at most 255 events that it had taken; all others have been fed, and if the instance was
  never stopped and the events came in order, the passing ones are the log of the store.\<close>

theorem shutdown_loses_one_batch:
  assumes "run_server en config = Some (Inr su)" and "iterates (en_map_order en)"
    and "process_start None config su = Inr p0" and "p = process_run debug pb (en_regex en) evs p0"
  shows "concat (ps_fed p) @ ps_batch p = taken debug pb (en_regex en) evs p0
    \<and> length (ps_batch p) \<le> 255 \<and> (ps_task p = TaskReturned \<longrightarrow> ps_batch p = [])
    \<and> (\<exists>i. manager_get (su_manager su) ''default'' = Some i
        \<and> (never_stopped evs \<and> sorted (map ev_key (passing i (taken debug pb (en_regex en) evs p0)))
             \<longrightarrow> store_log (passing i (concat (ps_fed p))) (sys_store (ps_system p))))"
proof -
  obtain i where i: "manager_get (su_manager su) ''default'' = Some i" "store_log [] (instance_store i)"
    "mirrors debug pb (en_regex en) (system_start (su_server su)) (sk_filter (ci_sink i)) [] [] p0"
    "ps_task p0 = TaskConnecting" "ps_batch p0 = []" "ps_fed p0 = []" "ps_system p0 = system_start (su_server su)"
    by (rule process_start_cases [OF assms(1-3)])
  have "accounts [] p0"
    using i(4-6) by (simp add: accounts_def max_batch_def)
  from accounts_run [OF this i(3), of evs] have acc: "accounts (taken debug pb (en_regex en) evs p0) p"
    by (simp add: assms(4))
  from mirrors_run [OF i(3), of evs] obtain es where
    es: "mirrors debug pb (en_regex en) (system_start (su_server su)) (sk_filter (ci_sink i)) evs es p"
    by (auto simp: assms(4))
  have "store_log [] (sys_store (system_start (su_server su)))"
    using run_server_instance [OF assms(1,2), of "''default''"] i(1,2)
    by (auto simp: system_start_def serve_start_def store_log_started)
  note log = system_run_log [OF this, of es debug pb "en_regex en"]
  have split: "taken debug pb (en_regex en) evs p0 = concat (ps_fed p) @ ps_batch p"
    using acc by (simp add: accounts_def)
  from log es acc i(1) show ?thesis
    by (auto simp: split mirrors_def accounts_def max_batch_def sorted_append)
qed

end
