(* ===== verification/Canal_Shutdown.thy ===== *)
theory Canal_Shutdown
  imports Canal_Process
begin

text \<open>
  How the server process ends: which steps lead from an interrupt to the return of \<open>run_server\<close>,
  that nothing holds that up for good, that the process is then held up by a running replication
  thread and by nothing else, and that \<open>run_server\<close> never returns without being told to.
\<close>

subsection \<open>The stages of a shutdown\<close>

lemma serve_turn_status:
  "ss_status (serve_turn ev sys) = fst (serve_step ev (ss_status sys, ss_server sys))"
  by (simp add: serve_turn_def split: prod.splits)

lemma put_ctx_status [simp]: "ss_status (put_ctx k ph c sys) = ss_status sys"
  by (simp add: put_ctx_def)

text \<open>What an event can do to the status of \<open>serve\<close>.\<close>

definition status_step :: "system_event \<Rightarrow> serve_status \<Rightarrow> serve_status \<Rightarrow> bool" where
  "status_step ev st st' \<longleftrightarrow>
     st' = st \<or> st = Draining \<and> st' = Served (Inr ())
     \<or> st = Serving \<and> ev = Cancelled \<and> (st' = Draining \<or> st' = Served (Inr ()))
     \<or> (\<exists>e. st = Serving \<and> ev = AcceptFails e \<and> st' = Served (Inl e))"

lemma status_step_refl [simp]: "status_step ev st st"
  by (simp add: status_step_def)

lemma settle_status [simp]: "status_step ev (ss_status sys) (ss_status (settle k cc sys))"
  by (cases cc; cases "fst cc")
    (auto simp: status_step_def settle_def serve_turn_status serve_step_def Let_def)

lemma task_status [simp]:
  "status_step ev (ss_status sys) (ss_status (arrive pb rx k now inp sys))"
  "status_step ev (ss_status sys) (ss_status (scan_turn pb k cid start n sys))"
  "status_step ev (ss_status sys) (ss_status (expire_turn pb k cid sys))"
  by (simp_all add: arrive_def scan_turn_def expire_turn_def Let_def
      split: option.splits sum.splits prod.splits)

lemma system_step_status [simp]:
  "status_step ev (ss_status sys) (ss_status (system_step debug pb rx ev sys))"
  by (cases ev)
    (simp_all add: system_step_def Let_def split: phase.splits,
      auto simp: status_step_def serve_turn_status serve_step_def Let_def)

lemma serves_status:
  "status_step sev (ss_status (ps_system p)) (ss_status (ps_system (serves debug pb rx sev p)))"
  "ss_status (ps_system (serves debug pb rx Cancelled p)) \<noteq> ss_status (ps_system p) \<Longrightarrow> ps_cancelled p"
  using system_step_status [of sev "ps_system p" debug pb rx]
  by (auto simp: serves_def status_step_def split: system_event.splits if_splits)

lemma task_turn_status [simp]:
  "ss_status (ps_system (task_turn debug sel p)) = ss_status (ps_system p)"
  "ps_stage (task_turn debug sel p) = ps_stage p" "ps_config (task_turn debug sel p) = ps_config p"
  by (simp_all add: task_turn_def Let_def split: option.splits prod.splits task_status.splits)

lemma turn_stage [simp]: "ps_stage (process_turn debug pb rx ev p) = ps_stage p"
  by (simp add: process_turn_def task_connect_def Let_def
      split: process_event.splits option.splits binlog_task.splits prod.splits)

text \<open>After the return of \<open>run_server\<close>: the process has exited unless its thread is running.\<close>

definition settled :: "'k process \<Rightarrow> bool" where
  "settled p \<longleftrightarrow>
     (case ps_stage p of
        Returned _ \<Rightarrow> ps_thread p = ThreadRunning
      | Exited _ \<Rightarrow> ps_thread p \<noteq> ThreadRunning
      | _ \<Rightarrow> True)"

lemma returned_step: "returned p \<Longrightarrow> returned (process_step debug pb rx ev p)"
  by (auto simp: returned_def process_step_def run_returns_def split: process_stage.splits)

lemma returned_step_fields:
  assumes "ps_stage p \<in> {Returned r, Exited r}"
  obtains th st where "process_step debug pb rx ev p = p\<lparr>ps_thread := th, ps_stage := st\<rparr>"
    and "st \<in> {Returned r, Exited r}"
proof (cases "ps_stage p = Returned r \<and> ev = ThreadEnds")
  case True
  then show ?thesis
    by (intro that [where th = ThreadEnded and st = "Exited r"]) (simp_all add: process_step_def run_returns_def)
next
  case False
  then have "process_step debug pb rx ev p = p"
    using assms by (auto simp: process_step_def)
  with assms show ?thesis
    by (intro that [where th = "ps_thread p" and st = "ps_stage p"]) simp_all
qed

lemma settled_live: "\<not> returned p \<Longrightarrow> settled p"
  by (simp add: returned_def settled_def split: process_stage.splits)

lemma settled_run_returns [simp]: "settled (run_returns r p)"
  by (simp add: settled_def run_returns_def)

lemma settled_step: "settled p \<Longrightarrow> settled (process_step debug pb rx ev p)"
proof (cases "returned p")
  case True
  moreover assume "settled p"
  ultimately show ?thesis
    by (auto simp: process_step_def returned_def split: process_stage.splits)
next
  case False
  have "settled (advance q)" if "\<not> returned q" for q :: "'a process"
  proof -
    have "settled (q\<lparr>ps_stage := AwaitsTask\<rparr>)"
      by (simp add: settled_def)
    with settled_live [OF that] show ?thesis
      by (simp add: advance_def split: serve_status.splits sum.splits)
  qed
  moreover have "\<not> returned (process_turn debug pb rx ev p)"
    using False by (simp add: returned_def)
  moreover have "process_step debug pb rx ev p = advance (process_turn debug pb rx ev p)"
    using False by (simp add: process_step_def returned_def split: process_stage.splits)
  ultimately show ?thesis by simp
qed

lemma settled_run: "settled p \<Longrightarrow> settled (process_run debug pb rx evs p)"
  by (induction evs arbitrary: p) (simp_all add: settled_step)

text \<open>After the return only the end of the thread changes anything.\<close>

lemma settled_stage:
  assumes "settled p" and "returned p"
  obtains r where "ps_stage p = (if ps_thread p = ThreadRunning then Returned r else Exited r)"
  using assms by (auto simp: settled_def returned_def split: process_stage.splits)

lemma exit_run: "ps_stage p = Exited r \<Longrightarrow> process_run debug pb rx evs p = p"
  by (induction evs) (simp_all add: process_step_def)

lemma return_run:
  assumes "ps_stage p = Returned r"
  shows "ps_stage (process_run debug pb rx evs p)
    = (if ThreadEnds \<in> set evs then Exited r else Returned r)"
  using assms
proof (induction evs arbitrary: p)
  case (Cons ev evs)
  show ?case
  proof (cases "ev = ThreadEnds")
    case True
    then have "ps_stage (process_step debug pb rx ev p) = Exited r"
      using Cons.prems by (simp add: process_step_def run_returns_def)
    then show ?thesis
      using exit_run [of "process_step debug pb rx ev p" r] True by simp
  next
    case False
    then have "process_step debug pb rx ev p = p"
      using Cons.prems by (simp add: process_step_def)
    with Cons False show ?thesis by simp
  qed
qed simp

text \<open>How far a shutdown has come: the token is cancelled, the server has stopped to accept, the
  server has returned, \<open>run_server\<close> has returned.\<close>

fun shutdown_at :: "nat \<Rightarrow> 'k process \<Rightarrow> bool" where
  "shutdown_at 0 p = True"
| "shutdown_at (Suc 0) p = (returned p \<or> ps_cancelled p)"
| "shutdown_at (Suc (Suc 0)) p = (returned p \<or> ss_status (ps_system p) \<noteq> Serving)"
| "shutdown_at (Suc (Suc (Suc 0))) p = (returned p \<or>
     (case ss_status (ps_system p) of Served _ \<Rightarrow> ps_stage p = AwaitsTask | _ \<Rightarrow> False))"
| "shutdown_at n p = returned p"

definition shutdown_steps :: "process_event list" where
  "shutdown_steps = [Interrupt, Serves Cancelled, Serves DrainTimeout, WaitOver]"

lemma task_turn_cancelled: "ps_cancelled p \<Longrightarrow> ps_cancelled (task_turn debug sel p)"
  by (simp add: task_turn_def Let_def split: option.splits prod.splits task_status.splits)

lemma turn_cancelled: "ps_cancelled p \<Longrightarrow> ps_cancelled (process_turn debug pb rx ev p)"
  by (cases ev) (auto simp: process_turn_def task_connect_def task_turn_cancelled Let_def
      split: option.splits binlog_task.splits)

lemma turn_status:
  "\<exists>sev. (ev = Serves sev \<or> ss_status (ps_system (process_turn debug pb rx ev p)) = ss_status (ps_system p))
    \<and> status_step sev (ss_status (ps_system p)) (ss_status (ps_system (process_turn debug pb rx ev p)))"
  using serves_status(1) [of _ p debug pb rx]
  by (cases ev) (auto simp: process_turn_def task_connect_def Let_def split: option.splits binlog_task.splits)

lemma advance_returned:
  "ss_status (ps_system p) = Served r \<Longrightarrow> returned (advance p) \<or> ps_stage (advance p) = AwaitsTask"
  by (auto simp: returned_def advance_def run_returns_def split: serve_status.splits sum.splits)

lemma shutdown_at_stable:
  assumes "shutdown_at n p"
  shows "shutdown_at n (process_step debug pb rx ev p)"
proof (cases rule: process_step_cases [of p debug pb rx ev])
  case returned
  with returned_step [of p debug pb rx ev] show ?thesis
    by (cases "(n, p)" rule: shutdown_at.cases) simp_all
next
  case live
  let ?t = "process_turn debug pb rx ev p"
  obtain sev where "status_step sev (ss_status (ps_system p)) (ss_status (ps_system ?t))"
    using turn_status by blast
  then have status: "ss_status (ps_system p) \<noteq> Serving \<Longrightarrow> ss_status (ps_system ?t) \<noteq> Serving"
    "ss_status (ps_system p) = Served r \<Longrightarrow> ss_status (ps_system ?t) = Served r" for r
    by (auto simp: status_step_def)
  from assms show ?thesis
    using live turn_cancelled [of p debug pb rx ev] status advance_returned [of ?t]
    by (cases "(n, p)" rule: shutdown_at.cases) (auto split: serve_status.splits)
qed

lemma shutdown_at_next:
  assumes "shutdown_at n p" and "n < 4"
  shows "shutdown_at (Suc n) (process_step debug pb rx (shutdown_steps ! n) p)"
proof (cases rule: process_step_cases [of p debug pb rx "shutdown_steps ! n"])
  case returned
  with returned_step [of p debug pb rx "shutdown_steps ! n"] show ?thesis
    by (cases "(Suc n, p)" rule: shutdown_at.cases) simp_all
next
  case live
  consider "n = 0" | "n = 1" | "n = 2" | "n = 3"
    using assms(2) by linarith
  then show ?thesis
  proof cases
    case 1
    with live show ?thesis by (simp add: shutdown_steps_def process_turn_def)
  next
    case 2
    with live assms(1) have "ps_cancelled p" by simp
    with 2 live show ?thesis
      by (simp add: shutdown_steps_def process_turn_def serves_def system_step_def serve_turn_status serve_step_def)
  next
    case 3
    with live assms(1) have "ss_status (ps_system p) \<noteq> Serving" by (simp add: numeral_2_eq_2)
    then obtain r where "ss_status (ps_system (process_turn debug pb rx (Serves DrainTimeout) p)) = Served r"
      by (cases "ss_status (ps_system p)")
        (auto simp: process_turn_def serves_def system_step_def serve_turn_status serve_step_def)
    with advance_returned [OF this] 3 live show ?thesis
      by (auto simp: shutdown_steps_def numeral_3_eq_3)
  next
    case 4
    with live assms(1) obtain r where "ss_status (ps_system p) = Served r" "ps_stage p = AwaitsTask"
      by (auto simp: numeral_3_eq_3 split: serve_status.splits)
    with 4 live show ?thesis
      by (auto simp: shutdown_steps_def process_turn_def advance_def returned_def run_returns_def task_over_def
          eval_nat_numeral split: sum.splits)
  qed
qed

lemma shutdown_progress:
  assumes "subseq (drop n shutdown_steps) evs" and "shutdown_at n p" and "n \<le> 4"
  shows "shutdown_at 4 (process_run debug pb rx evs p)"
  using assms
proof (induction evs arbitrary: n p rule: list.induct)
  case Nil
  have "drop n shutdown_steps = []"
    using Nil.prems(1) by (rule list_emb_Nil2)
  with Nil.prems(3) have "n = 4" by (simp add: shutdown_steps_def)
  with Nil.prems(2) show ?case by simp
next
  case (Cons ev evs)
  show ?case
  proof (cases "n < 4 \<and> ev = shutdown_steps ! n \<and> subseq (drop (Suc n) shutdown_steps) evs")
    case True
    with shutdown_at_next [OF Cons.prems(2), of debug pb rx] Cons.IH [of "Suc n"] show ?thesis by simp
  next
    case False
    have "subseq (drop n shutdown_steps) evs"
    proof (cases "n < 4")
      case True
      then have "drop n shutdown_steps = shutdown_steps ! n # drop (Suc n) shutdown_steps"
        by (intro Cons_nth_drop_Suc [symmetric]) (simp add: shutdown_steps_def)
      with Cons.prems(1) False True show ?thesis
        by (auto elim: list_emb.cases)
    qed (simp add: shutdown_steps_def)
    with Cons.IH shutdown_at_stable [OF Cons.prems(2)] Cons.prems(3) show ?thesis by simp
  qed
qed

text \<open>C3: A shutdown ends. Whatever state the process is in and whatever else goes on in it before,
  between and after: when the interrupt signal comes, and later the server notices it, and later the
  30 seconds for the connections are over, and later the five seconds for the binlog task, then
  \<open>run_server\<close> has returned; no connection, no read in progress and no event of the binlog holds it
  up. Whether the process ends with that depends on the replication thread alone, which the runtime
  waits for without a bound: if it is not running, the process has exited; if it is, the process
  stays until the thread ends, whatever else happens, another interrupt included, and exits then,
  with the same result.\<close>

theorem shutdown_ends:
  assumes "subseq [Interrupt, Serves Cancelled, Serves DrainTimeout, WaitOver] evs"
    and "\<not> returned p"
  shows "\<exists>r. \<forall>evs'. ps_stage (process_run debug pb rx (evs @ evs') p)
    = (if ps_thread (process_run debug pb rx evs p) = ThreadRunning \<and> ThreadEnds \<notin> set evs'
       then Returned r else Exited r)"
proof -
  let ?p = "process_run debug pb rx evs p"
  have "shutdown_at 4 ?p"
    using shutdown_progress [of 0 evs p debug pb rx] assms(1) by (simp add: shutdown_steps_def)
  then have "returned ?p"
    by (simp add: eval_nat_numeral)
  with settled_run [OF settled_live [OF assms(2)]] obtain r where
    r: "ps_stage ?p = (if ps_thread ?p = ThreadRunning then Returned r else Exited r)"
    by (rule settled_stage)
  show ?thesis
  proof (cases "ps_thread ?p = ThreadRunning")
    case True
    with r return_run [of ?p r debug pb rx] show ?thesis by auto
  next
    case False
    with r exit_run [of ?p r debug pb rx] show ?thesis by auto
  qed
qed

text \<open>A process whose replication thread is blocked in a read.\<close>

lemma shutdown_ends_witness:
  "\<exists>p :: unit process. \<exists>r. ps_stage p = AwaitsServer \<and> ps_thread p = ThreadRunning
    \<and> ps_stage (process_run True null_prost literal_engine
        ([Interrupt, FlushTick, Serves Cancelled, Serves DrainTimeout, Interrupt, WaitOver] @ [ThreadEnds]) p) = Exited r"
proof -
  let ?evs = "[Interrupt, FlushTick, Serves Cancelled, Serves DrainTimeout, Interrupt, WaitOver]"
  obtain p :: "unit process" where p: "ps_stage p = AwaitsServer" "ps_thread p = ThreadRunning"
    by (meson process.select_convs)
  have "subseq [Interrupt, Serves Cancelled, Serves DrainTimeout, WaitOver] ?evs"
    by simp
  moreover have "\<not> returned p"
    by (simp add: returned_def p)
  ultimately obtain r where "\<forall>evs'. ps_stage (process_run True null_prost literal_engine (?evs @ evs') p)
      = (if ps_thread (process_run True null_prost literal_engine ?evs p) = ThreadRunning \<and> ThreadEnds \<notin> set evs'
         then Returned r else Exited r)"
    using shutdown_ends [of ?evs p True null_prost literal_engine] by blast
  from spec [OF this, of "[ThreadEnds]"]
  have "ps_stage (process_run True null_prost literal_engine (?evs @ [ThreadEnds]) p) = Exited r"
    by (simp del: fold.simps fold_append)
  with p show ?thesis by blast
qed

subsection \<open>Nothing else ends the process\<close>

text \<open>The process was told to end: by the signal, or because MySQL could not be connected to.\<close>

definition told_to_end :: "canal_config \<Rightarrow> process_event list \<Rightarrow> bool" where
  "told_to_end config evs \<longleftrightarrow>
     list_ex (\<lambda>ev. case ev of
        Interrupt \<Rightarrow> True | Connects signal \<Rightarrow> binlog_task_connect config signal = None | _ \<Rightarrow> False) evs"

lemma told_to_end_append [simp]:
  "told_to_end config (xs @ ys) \<longleftrightarrow> told_to_end config xs \<or> told_to_end config ys"
  by (simp add: told_to_end_def)

definition ends_when_told :: "canal_config \<Rightarrow> process_event list \<Rightarrow> 'k process \<Rightarrow> bool" where
  "ends_when_told config evs p \<longleftrightarrow>
     ps_config p = config \<and> (ps_cancelled p \<longrightarrow> told_to_end config evs)
     \<and> (case ps_task p of TaskLooping conn \<Rightarrow> bc_sender conn | _ \<Rightarrow> True)
     \<and> (case ss_status (ps_system p) of
          Serving \<Rightarrow> ps_stage p = AwaitsServer
        | Served (Inl e) \<Rightarrow> Serves (AcceptFails e) \<in> set evs
        | _ \<Rightarrow> told_to_end config evs)
     \<and> (case ps_stage p of
          Returned r \<Rightarrow> ss_status (ps_system p) = Served r
        | Exited r \<Rightarrow> ss_status (ps_system p) = Served r
        | _ \<Rightarrow> True)"

lemma connected_sender: "binlog_task_connect config signal = Some (conn, opts, ch) \<Longrightarrow> bc_sender conn"
  using replication_end_unnoticed [of config signal conn opts ch "[]"] by (simp add: senders_gone_def)

lemma collecting_goes_on:
  assumes "sel \<noteq> Received None"
  shows "ps_cancelled (task_turn debug sel p) = ps_cancelled p"
    and "ps_task (task_turn debug sel p) = TaskLooping conn \<Longrightarrow> ps_task p = TaskLooping conn"
proof -
  have "batch_step debug sel s \<noteq> (TaskDone, s')" for s s' :: "'a batch_state"
    using batch_step_not_done [OF assms, of debug s] by (metis fst_conv)
  then show "ps_cancelled (task_turn debug sel p) = ps_cancelled p"
    and "ps_task (task_turn debug sel p) = TaskLooping conn \<Longrightarrow> ps_task p = TaskLooping conn"
    by (auto simp: task_turn_def Let_def split: option.splits prod.splits task_status.splits)
qed

text \<open>What a step changes of that: the token, the task with its connector, and the server.\<close>

lemma told_turn:
  assumes "ends_when_told config evs p"
  shows "ps_config (process_turn debug pb rx ev p) = config"
    and "ps_cancelled (process_turn debug pb rx ev p) \<Longrightarrow> told_to_end config (evs @ [ev])"
    and "ps_task (process_turn debug pb rx ev p) = TaskLooping conn \<Longrightarrow> bc_sender conn"
proof -
  have p: "ps_config p = config" "ps_cancelled p \<Longrightarrow> told_to_end config evs"
    "\<And>conn. ps_task p = TaskLooping conn \<Longrightarrow> bc_sender conn"
    using assms by (auto simp: ends_when_told_def)
  have held: "senders_gone False conn \<longleftrightarrow> False" if "ps_task p = TaskLooping conn" for conn
    using p(3) [OF that] by (simp add: senders_gone_def)
  show "ps_config (process_turn debug pb rx ev p) = config"
    using p(1) by (simp add: process_turn_def task_connect_def Let_def
        split: process_event.splits option.splits binlog_task.splits prod.splits)
  show "told_to_end config (evs @ [ev])" if "ps_cancelled (process_turn debug pb rx ev p)"
    using that p(1,2) held collecting_goes_on(1) [of "Received (Some _)" debug p]
      collecting_goes_on(1) [of TimerTick debug p]
    by (cases ev) (auto simp: process_turn_def task_connect_def told_to_end_def Let_def
        split: option.splits binlog_task.splits if_splits)
  show "bc_sender conn" if "ps_task (process_turn debug pb rx ev p) = TaskLooping conn"
    using that p(1,3) held collecting_goes_on(2) [of "Received (Some _)" debug p]
      collecting_goes_on(2) [of TimerTick debug p]
    by (cases ev) (auto simp: process_turn_def task_connect_def Let_def dest: connected_sender
        split: option.splits binlog_task.splits if_splits)
qed

lemma told_status:
  assumes "ends_when_told config evs p"
  shows "case ss_status (ps_system (process_turn debug pb rx ev p)) of
      Serving \<Rightarrow> ps_stage p = AwaitsServer
    | Served (Inl e) \<Rightarrow> Serves (AcceptFails e) \<in> set (evs @ [ev])
    | _ \<Rightarrow> told_to_end config (evs @ [ev])"
proof -
  let ?p = "process_turn debug pb rx ev p"
  obtain sev where sev: "ev = Serves sev \<or> ss_status (ps_system ?p) = ss_status (ps_system p)"
    "status_step sev (ss_status (ps_system p)) (ss_status (ps_system ?p))"
    using turn_status by blast
  show ?thesis
  proof (cases "ss_status (ps_system ?p) = ss_status (ps_system p)")
    case True
    with assms show ?thesis
      by (auto simp: ends_when_told_def split: serve_status.splits sum.splits)
  next
    case False
    then have ev: "ev = Serves sev" using sev(1) by blast
    have "sev = Cancelled \<Longrightarrow> ps_cancelled p"
      using False serves_status(2) [of debug pb rx p] by (simp add: ev process_turn_def)
    with False sev(2) assms show ?thesis
      by (auto simp: status_step_def ev ends_when_told_def split: serve_status.splits sum.splits)
  qed
qed

lemma ends_when_told_step:
  assumes "ends_when_told config evs p"
  shows "ends_when_told config (evs @ [ev]) (process_step debug pb rx ev p)"
proof (cases "returned p")
  case True
  then obtain r where r: "ps_stage p \<in> {Returned r, Exited r}"
    by (auto simp: returned_def split: process_stage.splits)
  then have "ss_status (ps_system p) = Served r"
    using assms by (auto simp: ends_when_told_def)
  moreover obtain th st where "process_step debug pb rx ev p = p\<lparr>ps_thread := th, ps_stage := st\<rparr>"
    "st \<in> {Returned r, Exited r}"
    by (rule returned_step_fields [OF r])
  ultimately show ?thesis
    using assms by (auto simp: ends_when_told_def split: sum.splits)
next
  case False
  let ?p = "process_turn debug pb rx ev p"
  have live: "process_step debug pb rx ev p = advance ?p"
    using False by (simp add: process_step_def returned_def split: process_stage.splits)
  have stage: "ss_status (ps_system ?p) = Serving \<Longrightarrow> ps_stage (advance ?p) = ps_stage p"
    "ps_stage (advance ?p) = Returned r \<Longrightarrow> ss_status (ps_system ?p) = Served r"
    "ps_stage (advance ?p) = Exited r \<Longrightarrow> ss_status (ps_system ?p) = Served r" for r
    using False by (auto simp: advance_def returned_def run_returns_def
        split: serve_status.splits sum.splits if_splits)
  note turn = told_turn [OF assms, where ev = ev and debug = debug and pb = pb and rx = rx]
  have "case ps_stage (advance ?p) of Returned r \<Rightarrow> ss_status (ps_system ?p) = Served r
      | Exited r \<Rightarrow> ss_status (ps_system ?p) = Served r | _ \<Rightarrow> True"
    using stage(2,3) by (simp split: process_stage.split)
  moreover have "case ss_status (ps_system ?p) of
      Serving \<Rightarrow> ps_stage (advance ?p) = AwaitsServer
    | Served (Inl e) \<Rightarrow> Serves (AcceptFails e) \<in> set (evs @ [ev])
    | _ \<Rightarrow> told_to_end config (evs @ [ev])"
    using told_status [OF assms, where ev = ev and debug = debug and pb = pb and rx = rx] stage(1)
    by (cases "ss_status (ps_system ?p)") simp_all
  moreover have "case ps_task ?p of TaskLooping conn \<Rightarrow> bc_sender conn | _ \<Rightarrow> True"
    using turn(3) by (simp split: binlog_task.split)
  ultimately show ?thesis
    unfolding live ends_when_told_def advance_simps using turn(1,2) by blast
qed

lemma ends_when_told_run:
  "ends_when_told config evs p \<Longrightarrow> ends_when_told config (evs @ evs') (process_run debug pb rx evs' p)"
proof (induction evs' arbitrary: evs p)
  case (Cons ev evs')
  from Cons.IH [OF ends_when_told_step [OF Cons.prems, of ev debug pb rx]] show ?case by simp
qed simp

text \<open>C5: Nothing else ends the process. If \<open>run_server\<close> returns, and so if the process exits, then
  with \<open>Ok\<close> and after the interrupt signal or a failure to connect to MySQL, or with the error of the
  listener's \<open>accept\<close>. In particular it goes on, accepting clients that will never see another event,
  when replication has ended or broken off, when the binlog task has panicked, when the instance is
  stopped, and when every connection has failed.\<close>

theorem process_ends_only_when_told:
  assumes "run_server en config = Some (Inr su)" and "iterates (en_map_order en)"
    and "process_start None config su = Inr p0"
    and "ps_stage (process_run debug pb rx evs p0) \<in> {Returned r, Exited r}"
  shows "r = Inr () \<and> told_to_end config evs \<or> (\<exists>e. r = Inl e \<and> Serves (AcceptFails e) \<in> set evs)"
proof -
  have "ends_when_told config [] p0"
    by (rule process_start_cases [OF assms(1-3)])
      (simp add: ends_when_told_def system_start_def serve_start_def)
  from ends_when_told_run [OF this, of evs debug pb rx] assms(4) show ?thesis
    by (cases r) (auto simp: ends_when_told_def)
qed

text \<open>The process of the sample configuration.\<close>

lemma sample_process:
  obtains su and p0 :: "unit process" where "run_server sample_environment sample_canal_config = Some (Inr su)"
    and "process_start None sample_canal_config su = Inr p0" and "iterates (en_map_order sample_environment)"
proof -
  obtain su where su: "run_server sample_environment sample_canal_config = Some (Inr su)"
    using run_server_sample by blast
  have it: "iterates (en_map_order sample_environment)"
    by (simp add: sample_environment_def iterates_sorted)
  obtain i where "manager_get (su_manager su) ''default'' = Some i"
    using run_server_instance [OF su it, of "''default''"] by auto
  then have "\<exists>p0. process_start None sample_canal_config su = Inr p0"
    by (simp add: process_start_def serve_start_def)
  with su it that show thesis by blast
qed

lemma process_ends_only_when_told_witness:
  "\<exists>su. \<exists>p0 :: unit process. run_server sample_environment sample_canal_config = Some (Inr su)
    \<and> process_start None sample_canal_config su = Inr p0
    \<and> ps_stage (process_run True null_prost literal_engine shutdown_steps p0) \<in> {Returned (Inr ()), Exited (Inr ())}"
proof -
  obtain su and p0 :: "unit process" where p0:
    "run_server sample_environment sample_canal_config = Some (Inr su)"
    "process_start None sample_canal_config su = Inr p0" "iterates (en_map_order sample_environment)"
    by (rule sample_process)
  have "shutdown_at 4 (process_run True null_prost literal_engine shutdown_steps p0)"
    by (rule shutdown_progress [of 0]) simp_all
  then obtain r where r: "ps_stage (process_run True null_prost literal_engine shutdown_steps p0)
      \<in> {Returned r, Exited r}"
    by (auto simp: returned_def eval_nat_numeral split: process_stage.splits)
  from process_ends_only_when_told [OF p0(1,3,2) r] have "r = Inr ()"
    by (auto simp: shutdown_steps_def)
  with p0 r show ?thesis by blast
qed

lemma process_is_server_witness:
  "\<exists>su es. \<exists>p0 :: unit process. run_server sample_environment sample_canal_config = Some (Inr su)
    \<and> process_start None sample_canal_config su = Inr p0
    \<and> ps_system (process_run True null_prost (en_regex sample_environment)
        [Interrupt, Serves (Accepts sample_transport)] p0)
      = system_run True null_prost (en_regex sample_environment) es (system_start (su_server su))"
proof -
  obtain su and p0 :: "unit process" where p0:
    "run_server sample_environment sample_canal_config = Some (Inr su)"
    "process_start None sample_canal_config su = Inr p0" "iterates (en_map_order sample_environment)"
    by (rule sample_process)
  from process_is_server [OF p0(1,3,2) refl] p0(1,2) show ?thesis by meson
qed

lemma shutdown_loses_one_batch_witness:
  "\<exists>su. \<exists>p0 :: unit process. run_server sample_environment sample_canal_config = Some (Inr su)
    \<and> process_start None sample_canal_config su = Inr p0
    \<and> (let p = process_run True null_prost (en_regex sample_environment)
          [Connects SignalSent, Collects (Some (Inr (sample_event ''b.1'' 4))), FlushTick] p0
       in concat (ps_fed p) @ ps_batch p = [sample_event ''b.1'' 4])"
proof -
  let ?e = "sample_event ''b.1'' 4" and ?rx = "en_regex sample_environment"
  let ?evs = "[Connects SignalSent, Collects (Some (Inr ?e)), FlushTick]"
  obtain su and p0 :: "unit process" where p0:
    "run_server sample_environment sample_canal_config = Some (Inr su)"
    "process_start None sample_canal_config su = Inr p0" "iterates (en_map_order sample_environment)"
    by (rule sample_process)
  have start: "ps_config p0 = sample_canal_config" "ps_task p0 = TaskConnecting" "ps_stage p0 = AwaitsServer"
    "ss_status (ps_system p0) = Serving"
    by (rule process_start_cases [OF p0(1,3,2)]; simp add: system_start_def serve_start_def)+
  obtain conn opts ch where "binlog_task_connect sample_canal_config SignalSent = Some (conn, opts, ch)"
    using sample_connects by blast
  with start have "process_step True null_prost ?rx (Connects SignalSent) p0
      = (start_thread p0)\<lparr>ps_task := TaskLooping conn\<rparr>"
    by (simp add: process_step_def process_turn_def task_connect_def advance_def Let_def)
  then have "taken True null_prost ?rx ?evs p0 = [?e]"
    using start by (simp add: takes_collected takes_nothing(1) returned_def)
  with shutdown_loses_one_batch [OF p0(1,3,2) refl, of True null_prost ?evs] p0(1,2) show ?thesis
    by (auto simp: Let_def simp del: taken.simps fold.simps)
qed

end
