(* ===== verification/Canal_Http.thy ===== *)
theory Canal_Http
  imports Canal_Admin
begin

text \<open>
  The two HTTP endpoints as a whole, \<open>AdminServer::start\<close> of \<open>canal-admin\<close> and
  \<open>MetricsServer::start\<close> of \<open>canal-prometheus\<close>: their routes, methods and handlers. A path is the
  list of its segments, so \<open>/\<close> is one empty segment. The decoding of a segment that is a parameter,
  which fails when it is not UTF-8, is that of axum; the text of the landing page is a function
  \<open>page\<close> of the four values that the handler formats into it.
\<close>

datatype http_method = HttpGet | HttpHead | HttpPost | HttpOther

record http_request =
  rq_method :: http_method
  rq_path :: "string list"
  rq_auth :: authorization

datatype http_body = NoBody | TextBody string | HtmlBody string | SvgBody string | HealthBody health_response
  | ListBody "instance_summary list" | StatusBody status_message

type_synonym http_response = "nat \<times> http_body"

text \<open>\<open>get(..)\<close> answers \<open>HEAD\<close> as well, without the body; other methods are refused.\<close>

definition get_only :: "http_method \<Rightarrow> http_response \<Rightarrow> http_response" where
  "get_only m r =
     (case m of HttpGet \<Rightarrow> r | HttpHead \<Rightarrow> (fst r, NoBody) | _ \<Rightarrow> (405, NoBody))"

definition json_or_status :: "('a \<Rightarrow> http_body) \<Rightarrow> (nat, 'a) rust_result \<Rightarrow> http_response" where
  "json_or_status body r = (case r of Inl code \<Rightarrow> (code, NoBody) | Inr x \<Rightarrow> (200, body x))"

text \<open>The routes, in the order of the code.\<close>

datatype admin_path = IndexPath | PetPath | HealthPath | InstancesPath | StartPath string | StopPath string | NoPath

definition admin_path_of :: "string list \<Rightarrow> admin_path" where
  "admin_path_of segments =
     (if segments = [''''] then IndexPath
      else if segments = [''pet.svg''] then PetPath
      else if segments = [''health''] then HealthPath
      else if segments = [''api'', ''instances''] then InstancesPath
      else (case segments of
              [a, b, segment, c] \<Rightarrow>
                (if a \<noteq> ''api'' \<or> b \<noteq> ''instances'' \<or> segment = [] then NoPath
                 else if c = ''start'' then StartPath segment
                 else if c = ''stop'' then StopPath segment
                 else NoPath)
            | _ \<Rightarrow> NoPath))"

text \<open>A command on the instance that the path names.\<close>

definition command_route ::
    "(string \<Rightarrow> string option) \<Rightarrow> http_method \<Rightarrow> string
      \<Rightarrow> (string \<Rightarrow> 'k admin_state \<Rightarrow> (nat, status_message) rust_result \<times> 'k admin_state)
      \<Rightarrow> 'k admin_state \<Rightarrow> http_response \<times> 'k admin_state" where
  "command_route decode m segment cmd st =
     (if m \<noteq> HttpPost then ((405, NoBody), st)
      else (case decode segment of
              None \<Rightarrow> ((400, NoBody), st)
            | Some name \<Rightarrow> (let (r, st') = cmd name st in (json_or_status StatusBody r, st'))))"

definition admin_route ::
    "(string \<times> int \<times> nat \<times> nat \<Rightarrow> string) \<Rightarrow> string \<Rightarrow> (string \<Rightarrow> string option) \<Rightarrow> 'k map_order
      \<Rightarrow> string \<Rightarrow> int \<Rightarrow> http_request \<Rightarrow> 'k admin_state \<Rightarrow> http_response \<times> 'k admin_state" where
  "admin_route page svg decode iter version now req st =
     (case admin_path_of (rq_path req) of
        IndexPath \<Rightarrow> (get_only (rq_method req) (200, HtmlBody (page (index_values iter version now st))), st)
      | PetPath \<Rightarrow> (get_only (rq_method req) (200, SvgBody svg), st)
      | HealthPath \<Rightarrow> (get_only (rq_method req) (200, HealthBody (health_handler version now st)), st)
      | InstancesPath \<Rightarrow>
          (get_only (rq_method req) (json_or_status ListBody (list_instances iter (rq_auth req) st)), st)
      | StartPath segment \<Rightarrow> command_route decode (rq_method req) segment (start_instance (rq_auth req)) st
      | StopPath segment \<Rightarrow> command_route decode (rq_method req) segment (stop_instance (rq_auth req)) st
      | NoPath \<Rightarrow> ((404, NoBody), st))"

definition metrics_endpoint ::
    "(canal_metrics \<Rightarrow> string) \<Rightarrow> metrics_server \<Rightarrow> canal_metrics \<Rightarrow> http_request \<Rightarrow> http_response" where
  "metrics_endpoint render srv m req =
     (if rq_path req = [''metrics'']
      then get_only (rq_method req)
        (let (code, body) = metrics_route render srv m (rq_auth req) in (code, TextBody body))
      else (404, NoBody))"

subsection \<open>What an unauthorised request can see and do\<close>

text \<open>States that an unauthorised client is meant not to tell apart: the same token and start time,
  and as many instances, running and in all.\<close>

definition alike :: "'k map_order \<Rightarrow> 'k admin_state \<Rightarrow> 'k admin_state \<Rightarrow> bool" where
  "alike iter st st' \<longleftrightarrow>
     ad_admin_token st = ad_admin_token st' \<and> ad_started_at st = ad_started_at st'
     \<and> running_count iter (ad_instance_manager st) = running_count iter (ad_instance_manager st')
     \<and> length (manager_list iter (ad_instance_manager st)) = length (manager_list iter (ad_instance_manager st'))"

lemma check_auth_refused: "check_auth h tok \<noteq> Inr () \<Longrightarrow> check_auth h tok = Inl 401"
  by (auto simp: check_auth_def Let_def split: option.splits if_splits)

lemma refused_handlers:
  assumes "check_auth h (ad_admin_token st) = Inl 401"
  shows "list_instances iter h st = Inl 401" and "start_instance h d st = (Inl 401, st)"
    and "stop_instance h d st = (Inl 401, st)"
  using assms by (simp_all add: list_instances_def start_instance_def stop_instance_def)

lemma command_refused:
  assumes "\<And>d. cmd d st = (Inl 401, st)"
  shows "command_route decode m segment cmd st
    = ((if m \<noteq> HttpPost then 405 else if decode segment = None then 400 else 401, NoBody), st)"
  by (simp add: command_route_def assms json_or_status_def split: option.splits)

text \<open>C37: What an unauthorised request can see and do. With a token configured, a request
  that does not carry it leaves the state as it is, whatever its method and path; and what it is
  answered depends on no more of the instances than how many there are and how many run: on two
  states that agree in these it gets the same answer. So it learns no name of an instance and
  cannot find out whether one exists.\<close>

theorem unauthorised_learns_no_names:
  assumes "check_auth (rq_auth req) (ad_admin_token st) \<noteq> Inr ()" and "alike iter st st'"
  shows "snd (admin_route page svg decode iter version now req st) = st
    \<and> fst (admin_route page svg decode iter version now req st)
      = fst (admin_route page svg decode iter version now req st')"
proof -
  have "check_auth (rq_auth req) (ad_admin_token st) = Inl 401"
    "check_auth (rq_auth req) (ad_admin_token st') = Inl 401"
    using check_auth_refused [OF assms(1)] assms(2) by (simp_all add: alike_def)
  note refused = refused_handlers [OF this(1)] refused_handlers [OF this(2)]
  have "index_values iter version now st = index_values iter version now st'"
    "health_handler version now st = health_handler version now st'"
    using assms(2) by (simp_all add: alike_def index_values_def health_handler_def)
  then show ?thesis
    by (simp add: admin_route_def refused command_refused split: admin_path.splits)
qed

text \<open>Two managers of one running instance, under different names.\<close>

lemma unauthorised_learns_no_names_witness:
  "let st = \<lambda>d. \<lparr>ad_instance_manager = fmupd d (sample_instance :: unit canal_instance) fmempty,
         ad_started_at = 0, ad_admin_token = Some ''s3''\<rparr>;
       req = \<lparr>rq_method = HttpPost, rq_path = [''api'', ''instances'', ''a'', ''stop''], rq_auth = None\<rparr>
   in fst (admin_route (\<lambda>_. '''') '''' Some sorted_list_of_fmap ''1'' 0 req (st ''a''))
    = fst (admin_route (\<lambda>_. '''') '''' Some sorted_list_of_fmap ''1'' 0 req (st ''b''))"
proof -
  define st where "st = (\<lambda>d. \<lparr>ad_instance_manager = fmupd d (sample_instance :: unit canal_instance) fmempty,
         ad_started_at = 0, ad_admin_token = Some ''s3''\<rparr>)"
  let ?req = "\<lparr>rq_method = HttpPost, rq_path = [''api'', ''instances'', ''a'', ''stop''], rq_auth = None\<rparr>"
  have one: "sorted_list_of_fmap (fmupd d i fmempty) = [(d, i)]" for d :: string and i :: "unit canal_instance"
    by (simp add: sorted_list_of_fmap_def sorted_list_of_fset.rep_eq)
  have "alike sorted_list_of_fmap (st ''a'') (st ''b'')"
    by (simp add: alike_def st_def running_count_def manager_list_def one)
  moreover have "check_auth (rq_auth ?req) (ad_admin_token (st ''a'')) \<noteq> Inr ()"
    by (simp add: st_def check_auth_def constant_time_eq_text bearer_def Let_def)
  ultimately show ?thesis
    using unauthorised_learns_no_names [of ?req "st ''a''" sorted_list_of_fmap "st ''b''"]
    unfolding Let_def st_def [symmetric] by blast
qed

end
