(* ===== verification/Canal_Command.thy ===== *)
theory Canal_Command
  imports Canal_Main
begin

text \<open>
  The command line of \<open>canal-rust\<close> (\<open>Cli\<close> and \<open>setup_logging\<close> of \<open>canal-cli\<close>'s \<open>lib.rs\<close>, \<open>main\<close> and
  \<open>run_pet\<close> of \<open>main.rs\<close>) and the mascot that it prints (\<open>pet.rs\<close> of \<open>canal-common\<close>). The parsing of
  the arguments is clap's, the log filters are those of the tracing library.
\<close>

subsection \<open>The mascot\<close>

definition pet_name :: string where
  "pet_name = [CHR 0xE5, CHR 0xB0, CHR 0x8F, CHR 0xE8, CHR 0xBF, CHR 0x90] @ '' (Canal Crab)''"

definition pet_tagline :: string where
  "pet_tagline = ''keeper of the lock on the data canal''"

text \<open>In the lines of the picture \<open>#\<close> stands for a backslash and \<open>%\<close> for an apostrophe.\<close>

definition art_char :: "char \<Rightarrow> char" where
  "art_char c = (if c = CHR 0x23 then CHR 0x5C else if c = CHR 0x25 then CHR 0x27 else c)"

definition crab_lines :: "string list" where
  "crab_lines = map (map art_char)
    [''     #    #              /    /'',
     ''      #    #____________/    /'',
     ''    ___#_                  _/___'',
     ''   /     o                o     #'',
     ''  |               __              |'',
     ''   #          #________/         /'',
     ''    %.__________________________.%'',
     ''   __/   /     |      |     #   #__'',
     ''  |==================================|'',
     ''  ~~~~~~~~~~~~~~~~~~~~~~~~~~~~~~~~~~~~'']"

definition newline :: char where
  "newline = CHR 0x0A"

fun join_lines :: "string list \<Rightarrow> string" where
  "join_lines [] = []"
| "join_lines [l] = l"
| "join_lines (l # ls) = l @ newline # join_lines ls"

definition canal_crab :: string where
  "canal_crab = join_lines crab_lines"

definition pet_banner :: string where
  "pet_banner = canal_crab @ [newline, newline] @ pet_name @ '' '' @ em_dash @ '' '' @ pet_tagline @ [newline]"

definition run_pet :: "console_line list" where
  "run_pet =
     [OutLine pet_banner,
      OutLine ''  vector original  docs/assets/canal-pet.svg'',
      OutLine ''  in code          canal_common::pet::{CANAL_CRAB, PET_SVG}'',
      OutLine ''  served by        canal server, Admin API  GET /  and  GET /pet.svg'',
      OutLine ''  on the web       README.md / README.en.md, top of the page'']"

subsection \<open>Logging\<close>

text \<open>
  The filter from the environment, else from the configured level, else \<open>info\<close>; the result says
  whether the invalid level is warned of, and whether lines are written as JSON.
\<close>

record 'f logging_setup =
  lo_filter :: 'f
  lo_warning :: "string option"
  lo_json :: bool

definition setup_logging ::
    "(string, 'f) rust_result \<Rightarrow> (string \<Rightarrow> (string, 'f) rust_result) \<Rightarrow> (string \<Rightarrow> 'f) \<Rightarrow> log_section
      \<Rightarrow> 'f logging_setup" where
  "setup_logging from_env try_new new logging =
     (let (filter, warning) =
        (case from_env of
           Inr f \<Rightarrow> (f, None)
         | Inl _ \<Rightarrow>
             (case try_new (ls_level logging) of
                Inr f \<Rightarrow> (f, None)
              | Inl _ \<Rightarrow> (new ''info'', Some (''Invalid log level '' @ quoted (ls_level logging)
                  @ '', falling back to '' @ quoted ''info''))))
      in \<lparr>lo_filter = filter, lo_warning = warning, lo_json = (ls_format logging = ''json'')\<rparr>)"

subsection \<open>Commands\<close>

datatype cli_command = ServerCommand string | DumpCommand string | PetCommand

definition default_config_path :: string where
  "default_config_path = ''canal.yaml''"

text \<open>The subcommands with the value of \<open>--config\<close>, when it is given.\<close>

definition parse_command :: "string \<Rightarrow> string option \<Rightarrow> cli_command option" where
  "parse_command name config =
     (let path = unwrap_or config default_config_path
      in if name = ''server'' then Some (ServerCommand path)
         else if name = ''dump'' then Some (DumpCommand path)
         else if name = ''pet'' \<and> config = None then Some PetCommand
         else None)"

text \<open>What a command comes to: a server that is set up, a dump of what is received, or a printout.\<close>

datatype 'k outcome =
  ServerSet "'k server_setup" | ServerPanics | Dumped "console_line list" | CommandFails string | Printed "console_line list"

definition dump_command ::
    "canal_config \<Rightarrow> start_signal \<Rightarrow> canal_event canal_result list \<Rightarrow> (string, console_line list) rust_result" where
  "dump_command config signal items =
     (let c = cc_canal config; m = cn_mysql c;
          pos = log_position_new (cn_start_journal_name c) (cn_start_position c)
      in case connector_new (mc_host m) (mc_port m) (mc_username m) (mc_password m) (cn_server_id c) of
           Inl e \<Rightarrow> Inl ''Failed to create binlog connector''
         | Inr conn0 \<Rightarrow>
             (case fst (connector_connect pos signal (fst (with_channel conn0))) of
                Inl e \<Rightarrow> Inl ''Failed to connect to MySQL''
              | Inr _ \<Rightarrow> Inr (run_dump items)))"

definition run_command ::
    "(string \<Rightarrow> (string, canal_config) rust_result) \<Rightarrow> 'k environment \<Rightarrow> start_signal
      \<Rightarrow> canal_event canal_result list \<Rightarrow> cli_command \<Rightarrow> 'k outcome" where
  "run_command load en signal items cmd =
     (case cmd of
        ServerCommand path \<Rightarrow>
          (case load path of
             Inl e \<Rightarrow> CommandFails e
           | Inr config \<Rightarrow>
               (case run_server en config of
                  None \<Rightarrow> ServerPanics
                | Some (Inl e) \<Rightarrow> CommandFails e
                | Some (Inr su) \<Rightarrow> ServerSet su))
      | DumpCommand path \<Rightarrow>
          (case load path of
             Inl e \<Rightarrow> CommandFails e
           | Inr config \<Rightarrow>
               (case dump_command config signal items of
                  Inl e \<Rightarrow> CommandFails e
                | Inr out \<Rightarrow> Dumped out))
      | PetCommand \<Rightarrow> Printed run_pet)"

text \<open>The picture keeps to what a terminal needs: printable ASCII, ten lines, no blank at the end of
  one.\<close>

lemma crab_printable:
  "length crab_lines = 10"
  "list_all (\<lambda>l. list_all (\<lambda>c. 32 \<le> (of_char c :: nat) \<and> of_char c < (127 :: nat)) l \<and> last l \<noteq> CHR 0x20) crab_lines"
  by (simp_all add: crab_lines_def art_char_def)

text \<open>The dump command and the server refuse the same server ids, and both need MySQL.\<close>

lemma dump_connects_like_server:
  "(\<exists>e. dump_command config signal items = Inl e) \<longleftrightarrow> binlog_task_connect config signal = None"
  by (auto simp: dump_command_def binlog_task_connect_def Let_def split_def split: sum.splits prod.splits)

text \<open>The server command. It sets a server up only from a configuration that loads, with a
  buffer of at least one event and a filter that compiles; every other outcome but a buffer size
  of 0 is an error that is reported.\<close>

theorem server_command:
  assumes "run_command load en signal items (ServerCommand path) = r" and "iterates (en_map_order en)"
  shows "case r of
      ServerSet su \<Rightarrow> (\<exists>config. load path = Inr config \<and> 0 < ss_buffer_size (cn_store (cc_canal config))
        \<and> (\<exists>flt. event_filter_with_blacklist (en_regex en) (fs_pattern (cn_filter (cc_canal config)))
            (fs_black_list (cn_filter (cc_canal config))) = Inr flt))
    | ServerPanics \<Rightarrow> (\<exists>config. load path = Inr config \<and> ss_buffer_size (cn_store (cc_canal config)) = 0)
    | CommandFails e \<Rightarrow> True
    | _ \<Rightarrow> False"
proof (cases "load path")
  case (Inr config)
  show ?thesis
  proof (cases "run_server en config")
    case None
    then have "mem_store_new (ss_buffer_size (cn_store (cc_canal config))) = None"
      by (auto simp: run_server_def Let_def split_def canal_instance_new_def instance_config_of_def start_all_def
          split: option.splits sum.splits if_splits)
    with assms(1) None Inr show ?thesis
      by (auto simp: run_command_def mem_store_new_def split: if_splits)
  next
    case (Some x)
    with assms(1) Inr run_server_instance [OF _ assms(2), of config _ "''default''"] show ?thesis
      by (cases x) (auto simp: run_command_def)
  qed
qed (use assms(1) in \<open>auto simp: run_command_def\<close>)

end
