(* ===== verification/Canal_Page.thy ===== *)
theory Canal_Page
  imports Canal_Http Canal_Command
begin

text \<open>
  The landing page of the Admin API, the template that \<open>index_handler\<close> of \<open>lib.rs\<close> formats. The
  page is the function \<open>page\<close> that the routes of \<open>Canal_Http\<close> leave open; it depends on the four
  values that the handler reads and on nothing else of the server's state.
\<close>

abbreviation dq :: string where
  "dq \<equiv> [CHR 0x22]"

definition index_page :: "string \<times> int \<times> nat \<times> nat \<Rightarrow> string" where
  "index_page = (\<lambda>(version, uptime, running, registered). join_lines
     [''<!doctype html>'',
      ''<html lang='' @ dq @ ''en'' @ dq @ ''>'',
      ''<head>'',
      ''<meta charset='' @ dq @ ''utf-8'' @ dq @ ''>'',
      ''<meta name='' @ dq @ ''viewport'' @ dq @ '' content='' @ dq @ ''width=device-width,initial-scale=1'' @ dq @ ''>'',
      ''<title>Canal Rust '' @ [CHR 0xC2, CHR 0xB7] @ '' Admin</title>'',
      ''<style>'',
      ''  :root { color-scheme: light dark; }'',
      ''  body { margin:0; min-height:100vh; display:flex; flex-direction:column;'',
      ''         align-items:center; justify-content:center; gap:1.25rem;'',
      ''         font:16px/1.5 system-ui,-apple-system,'' @ dq @ ''Segoe UI'' @ dq @ '',sans-serif;'',
      ''         background:#fffdfa; color:#2d2438; }'',
      ''  img { width:min(420px,80vw); height:auto; }'',
      ''  h1 { margin:0; font-size:1.15rem; font-weight:650; }'',
      ''  p { margin:0; color:#6b7280; font-size:.875rem; }'',
      ''  dl { display:flex; gap:2rem; margin:0; text-align:center; }'',
      ''  dt { font-size:.7rem; letter-spacing:.08em; text-transform:uppercase; color:#9ca3af; }'',
      ''  dd { margin:.15rem 0 0; font-weight:650; font-variant-numeric:tabular-nums; }'',
      ''  code { background:#f3f4f6; padding:.1rem .35rem; border-radius:.25rem; font-size:.8rem; }'',
      ''  @media (prefers-color-scheme:dark) {'',
      ''    body { background:#1b1b1f; color:#f3f4f6; }'',
      ''    code { background:#2a2a31; }'',
      ''  }'',
      ''</style>'',
      ''</head>'',
      ''<body>'',
      ''  <img src='' @ dq @ ''/pet.svg'' @ dq @ '' alt='' @ dq @ pet_name @ '' '' @ em_dash @ '' '' @ pet_tagline @ dq @ ''>'',
      ''  <h1>'' @ pet_name @ ''</h1>'',
      ''  <p>'' @ pet_tagline @ ''</p>'',
      ''  <dl>'',
      ''    <div><dt>version</dt><dd>v'' @ version @ ''</dd></div>'',
      ''    <div><dt>uptime</dt><dd>'' @ int_str uptime @ ''s</dd></div>'',
      ''    <div><dt>instances</dt><dd>'' @ nat_str running @ '' / '' @ nat_str registered @ ''</dd></div>'',
      ''  </dl>'',
      ''  <p><code>GET /health</code> '' @ [CHR 0xC2, CHR 0xB7] @ '' <code>GET /api/instances</code> '' @ [CHR 0xC2, CHR 0xB7] @ '' <code>GET /metrics</code></p>'',
      ''</body>'',
      ''</html>''])"

text \<open>The handler.\<close>

definition index_handler :: "'k map_order \<Rightarrow> string \<Rightarrow> int \<Rightarrow> 'k admin_state \<Rightarrow> string" where
  "index_handler iter version now st = index_page (index_values iter version now st)"

text \<open>What the page shows of the instances are two numbers: with the same numbers of running and of
  registered instances, and the same time of start, two servers show the same page, whatever their
  instances and tokens are.\<close>

lemma index_handler_counts:
  assumes "running_count iter (ad_instance_manager st) = running_count iter (ad_instance_manager st')"
    and "length (manager_list iter (ad_instance_manager st)) = length (manager_list iter (ad_instance_manager st'))"
    and "ad_started_at st = ad_started_at st'"
  shows "index_handler iter version now st = index_handler iter version now st'"
  using assms by (simp add: index_handler_def index_values_def)

lemma admin_route_index:
  assumes "rq_path req = ['''']" and "rq_method req = HttpGet"
  shows "admin_route index_page svg decode iter version now req st
    = ((200, HtmlBody (index_handler iter version now st)), st)"
  using assms by (simp add: admin_route_def admin_path_of_def get_only_def index_handler_def)

end
