(* ===== verification/Canal_Kafka.thy ===== *)
theory Canal_Kafka
  imports Canal_Sink
begin

text \<open>
  The crate \<open>canal-connector\<close>: \<open>KafkaConnector\<close> of \<open>kafka.rs\<close>, the implementation of
  \<open>SinkConnector\<close>. The JSON that \<open>serde\<close> derives for a payload is a tree; turning it into
  text (\<open>serde_json\<close>) is a parameter. The broker with its client library is part of the connector's
  state. What a send is answered and how many copies of the message the topic then holds are
  independent of each other: with \<open>acks=1\<close>, a message timeout and no idempotence, a send that timed
  out may have been stored, a retry inside the library may store it twice, and a confirmed message
  can be lost with the broker that confirmed it. Concurrent sends may reach the broker in any order,
  so the messages are multisets.
\<close>

subsection \<open>Payloads\<close>

datatype json =
  JNull | JBool bool | JNum int | JStr string | JArr "json list" | JObj "(string \<times> json) list"

definition json_opt_str :: "string option \<Rightarrow> json" where
  "json_opt_str v = (case v of None \<Rightarrow> JNull | Some s \<Rightarrow> JStr s)"

definition skip_none :: "string \<Rightarrow> 'a option \<Rightarrow> ('a \<Rightarrow> json) \<Rightarrow> (string \<times> json) list" where
  "skip_none name v f = (case v of None \<Rightarrow> [] | Some x \<Rightarrow> [(name, f x)])"

record kafka_column =
  kl_name :: string
  kl_value :: "string option"
  kl_is_key :: bool
  kl_updated :: bool

record kafka_row_change =
  kr_dml_type :: string
  kr_before :: "kafka_column list option"
  kr_after :: "kafka_column list option"

record kafka_payload =
  kp_schema :: string
  kp_table :: string
  kp_event_type :: string
  kp_position :: u64
  kp_journal :: string
  kp_server_id :: u64
  kp_execute_time :: i64
  kp_gtid :: "string option"
  kp_row_change :: "kafka_row_change option"
  kp_ddl_sql :: "string option"

definition kafka_column_json :: "kafka_column \<Rightarrow> json" where
  "kafka_column_json c =
     JObj ([(''name'', JStr (kl_name c)), (''value'', json_opt_str (kl_value c)),
            (''is_key'', JBool (kl_is_key c))]
           @ (if \<not> kl_updated c then [] else [(''updated'', JBool (kl_updated c))]))"

definition kafka_row_change_json :: "kafka_row_change \<Rightarrow> json" where
  "kafka_row_change_json rc =
     JObj ([(''dml_type'', JStr (kr_dml_type rc))]
           @ skip_none ''before'' (kr_before rc) (\<lambda>cs. JArr (map kafka_column_json cs))
           @ skip_none ''after'' (kr_after rc) (\<lambda>cs. JArr (map kafka_column_json cs)))"

definition kafka_payload_json :: "kafka_payload \<Rightarrow> json" where
  "kafka_payload_json p =
     JObj ([(''schema'', JStr (kp_schema p)), (''table'', JStr (kp_table p)),
            (''type'', JStr (kp_event_type p)), (''position'', JNum (uint (kp_position p))),
            (''journal'', JStr (kp_journal p)), (''server_id'', JNum (uint (kp_server_id p))),
            (''execute_time'', JNum (sint (kp_execute_time p)))]
           @ skip_none ''gtid'' (kp_gtid p) JStr
           @ skip_none ''row_change'' (kp_row_change p) kafka_row_change_json
           @ skip_none ''ddl_sql'' (kp_ddl_sql p) JStr)"

text \<open>The columns of a before image never carry the mark, those of an after image keep it.\<close>

definition kafka_column_of :: "bool \<Rightarrow> column_value \<Rightarrow> kafka_column" where
  "kafka_column_of keep c =
     \<lparr>kl_name = cv_name c, kl_value = cv_value c, kl_is_key = cv_is_key c,
      kl_updated = (if keep then cv_updated c else False)\<rparr>"

definition kafka_payload_of :: "canal_event \<Rightarrow> kafka_payload" where
  "kafka_payload_of event =
     \<lparr>kp_schema = ev_schema_name event, kp_table = ev_table_name event,
      kp_event_type = event_type_as_str (ev_entry_type event), kp_position = ev_position event,
      kp_journal = ev_journal_name event, kp_server_id = ev_server_id event,
      kp_execute_time = ev_execute_time event, kp_gtid = ev_gtid event,
      kp_row_change =
        map_option (\<lambda>rc. \<lparr>kr_dml_type = dml_type_as_str (rc_dml_type rc),
            kr_before = map_option (\<lambda>r. map (kafka_column_of False) (rd_columns r)) (rc_before rc),
            kr_after = map_option (\<lambda>r. map (kafka_column_of True) (rd_columns r)) (rc_after rc)\<rparr>)
          (ev_row_change event),
      kp_ddl_sql = ev_ddl_sql event\<rparr>"

type_synonym json_text = "json \<Rightarrow> (string, string) rust_result"

text \<open>\<open>serialize_events\<close>: key and message of every event that serialises; the others are
  dropped with a warning.\<close>

definition serialize_events :: "json_text \<Rightarrow> canal_event list \<Rightarrow> (string \<times> string) list" where
  "serialize_events to_string evs =
     List.map_filter
       (\<lambda>event. case to_string (kafka_payload_json (kafka_payload_of event)) of
          Inl _ \<Rightarrow> None
        | Inr text \<Rightarrow> Some (ev_schema_name event, text)) evs"

subsection \<open>The connector\<close>

record kafka_config =
  kf_servers :: string
  kf_topic :: string
  kf_ssl_ca_location :: "string option"
  kf_sasl_username :: "string option"
  kf_sasl_password :: "string option"
  kf_sasl_mechanism :: "string option"

definition kafka_config_new :: "string \<Rightarrow> string \<Rightarrow> kafka_config" where
  "kafka_config_new servers topic =
     \<lparr>kf_servers = servers, kf_topic = topic, kf_ssl_ca_location = None, kf_sasl_username = None,
      kf_sasl_password = None, kf_sasl_mechanism = None\<rparr>"

type_synonym settings = "(string \<times> string) list"
type_synonym kafka_message = "string \<times> string \<times> string"

text \<open>
  The client library and the broker: whether a producer can be created with these settings, what
  fetching the metadata of a topic answers (the outer error is that of joining the blocking task),
  and, for the \<open>n\<close>-th send, its error, if any, and the number of copies that the topic gets of the
  message. \<open>bk_handed\<close> are the messages given to \<open>producer.send\<close>, \<open>bk_confirmed\<close> those whose send
  succeeded, and \<open>bk_stored\<close> what the topic holds.
\<close>

record kafka_broker =
  bk_create :: "settings \<Rightarrow> (string, unit) rust_result"
  bk_metadata :: "settings \<Rightarrow> string \<Rightarrow> (string, (string, unit) rust_result) rust_result"
  bk_send :: "nat \<Rightarrow> kafka_message \<Rightarrow> string option \<times> nat"
  bk_sends :: nat
  bk_handed :: "kafka_message multiset"
  bk_confirmed :: "kafka_message multiset"
  bk_stored :: "kafka_message multiset"

record kafka_connector =
  kc_name :: string
  kc_producer :: "settings option"
  kc_config :: kafka_config
  kc_broker :: kafka_broker

definition kafka_connector_new :: "string \<Rightarrow> kafka_config \<Rightarrow> kafka_broker \<Rightarrow> kafka_connector canal_result" where
  "kafka_connector_new name config broker =
     Inr \<lparr>kc_name = name, kc_producer = None, kc_config = config, kc_broker = broker\<rparr>"

text \<open>The calls of \<open>cfg.set\<close>, in order.\<close>

definition client_settings :: "kafka_config \<Rightarrow> settings" where
  "client_settings config =
     (let has_tls = kf_ssl_ca_location config \<noteq> None;
          has_sasl = kf_sasl_username config \<noteq> None
      in [(''bootstrap.servers'', kf_servers config), (''message.timeout.ms'', ''5000''), (''acks'', ''1'')]
         @ (if has_tls \<and> has_sasl then [(''security.protocol'', ''SASL_SSL'')]
            else if has_tls then [(''security.protocol'', ''SSL'')]
            else if has_sasl then [(''security.protocol'', ''SASL_PLAINTEXT'')]
            else [])
         @ (case kf_ssl_ca_location config of None \<Rightarrow> [] | Some ca \<Rightarrow> [(''ssl.ca.location'', ca)])
         @ (case kf_sasl_username config of
              None \<Rightarrow> []
            | Some user \<Rightarrow>
                [(''sasl.username'', user)]
                @ (case kf_sasl_password config of None \<Rightarrow> [] | Some pass \<Rightarrow> [(''sasl.password'', pass)])
                @ [(''sasl.mechanism'', unwrap_or (kf_sasl_mechanism config) ''PLAIN'')]))"

definition kafka_connect :: "kafka_connector \<Rightarrow> unit canal_result \<times> kafka_connector" where
  "kafka_connect k =
     (let cfg = client_settings (kc_config k)
      in case bk_create (kc_broker k) cfg of
           Inl e \<Rightarrow> (Inl (Internal (''Kafka producer: '' @ e)), k)
         | Inr _ \<Rightarrow>
             (case bk_metadata (kc_broker k) cfg (kf_topic (kc_config k)) of
                Inl e \<Rightarrow> (Inl (Internal (''Kafka metadata join error: '' @ e)), k)
              | Inr (Inl e) \<Rightarrow> (Inl (Internal (''Kafka metadata: '' @ e)), k)
              | Inr (Inr _) \<Rightarrow> (Inr (), k\<lparr>kc_producer := Some cfg\<rparr>)))"

text \<open>One \<open>producer.send\<close>, and the joined sends of a batch.\<close>

definition broker_send :: "kafka_message \<Rightarrow> kafka_broker \<Rightarrow> (string, unit) rust_result \<times> kafka_broker" where
  "broker_send msg b =
     (let (answer, copies) = bk_send b (bk_sends b) msg;
          b' = b\<lparr>bk_sends := bk_sends b + 1, bk_handed := bk_handed b + {#msg#},
                 bk_stored := bk_stored b + replicate_mset copies msg\<rparr>
      in case answer of
           Some e \<Rightarrow> (Inl e, b')
         | None \<Rightarrow> (Inr (), b'\<lparr>bk_confirmed := bk_confirmed b + {#msg#}\<rparr>))"

fun send_all :: "string \<Rightarrow> (string \<times> string) list \<Rightarrow> kafka_broker
    \<Rightarrow> (string, unit) rust_result list \<times> kafka_broker" where
  "send_all topic [] b = ([], b)"
| "send_all topic ((key, msg) # msgs) b =
     (let (r, b') = broker_send (topic, key, msg) b;
          (rs, b'') = send_all topic msgs b'
      in (r # rs, b''))"

definition kafka_failed :: "string \<Rightarrow> nat \<Rightarrow> nat \<Rightarrow> canal_error" where
  "kafka_failed name failed n =
     Internal (''Kafka '' @ [CHR 0x27] @ name @ [CHR 0x27] @ '': '' @ nat_str failed @ ''/''
       @ nat_str n @ '' messages failed'')"

definition kafka_dispatch :: "json_text \<Rightarrow> kafka_connector dispatch" where
  "kafka_dispatch to_string evs k =
     (if length evs = 0 then (Inr (), k)
      else
        (case kc_producer k of
           None \<Rightarrow> (Inl (Internal ''KafkaConnector: not connected''), k)
         | Some producer \<Rightarrow>
             (let messages = serialize_events to_string evs;
                  (results, broker) = send_all (kf_topic (kc_config k)) messages (kc_broker k);
                  failed = length (filter isl results);
                  k' = k\<lparr>kc_broker := broker\<rparr>
              in if 0 < failed then (Inl (kafka_failed (kc_name k) failed (length evs)), k')
                 else (Inr (), k'))))"

definition kafka_close :: "kafka_connector \<Rightarrow> unit canal_result \<times> kafka_connector" where
  "kafka_close k = (Inr (), k\<lparr>kc_producer := None\<rparr>)"

subsection \<open>The connector keeps the promise of its interface\<close>

definition kafka_message_of :: "json_text \<Rightarrow> kafka_connector \<Rightarrow> canal_event \<Rightarrow> kafka_message option" where
  "kafka_message_of to_string k event =
     (case to_string (kafka_payload_json (kafka_payload_of event)) of
        Inl _ \<Rightarrow> None
      | Inr text \<Rightarrow> Some (kf_topic (kc_config k), ev_schema_name event, text))"

definition kafka_handed :: "kafka_connector \<Rightarrow> kafka_message multiset" where
  "kafka_handed k = bk_handed (kc_broker k)"

definition kafka_confirmed :: "kafka_connector \<Rightarrow> kafka_message multiset" where
  "kafka_confirmed k = bk_confirmed (kc_broker k)"

definition kafka_stored :: "kafka_connector \<Rightarrow> kafka_message multiset" where
  "kafka_stored k = bk_stored (kc_broker k)"

text \<open>What \<open>acks=1\<close> gives as long as the leader keeps what it has confirmed: a confirmed message is
  in the topic, at least once.\<close>

definition confirms_stored :: "kafka_broker \<Rightarrow> bool" where
  "confirms_stored b \<longleftrightarrow> (\<forall>n msg. fst (bk_send b n msg) = None \<longrightarrow> 1 \<le> snd (bk_send b n msg))"

lemma serialize_events_messages:
  "map (Pair (kf_topic (kc_config k))) (serialize_events to_string evs)
    = List.map_filter (kafka_message_of to_string k) evs"
  by (induction evs)
    (auto simp: serialize_events_def kafka_message_of_def List.map_filter_simps split: sum.splits)

text \<open>The joined sends: every message is handed over once, the successful ones are confirmed, and
  with a broker that stores what it confirms they are in the topic.\<close>

lemma send_all_effect:
  "\<exists>ms. bk_handed (snd (send_all topic msgs b)) = bk_handed b + mset (map (Pair topic) msgs)
     \<and> bk_confirmed (snd (send_all topic msgs b)) = bk_confirmed b + ms
     \<and> ms \<subseteq># mset (map (Pair topic) msgs)
     \<and> (filter isl (fst (send_all topic msgs b)) = [] \<longrightarrow> ms = mset (map (Pair topic) msgs))
     \<and> bk_send (snd (send_all topic msgs b)) = bk_send b
     \<and> (confirms_stored b \<longrightarrow> bk_stored b + ms \<subseteq># bk_stored (snd (send_all topic msgs b)))"
proof (induction topic msgs b rule: send_all.induct)
  case (2 topic key msg msgs b)
  obtain r b' where s: "broker_send (topic, key, msg) b = (r, b')"
    by fastforce
  let ?m = "if isl r then {#} else {#(topic, key, msg)#}"
  have b': "bk_confirmed b' = bk_confirmed b + ?m" "bk_handed b' = bk_handed b + {#(topic, key, msg)#}"
    "bk_send b' = bk_send b"
    using s by (auto simp: broker_send_def Let_def split: option.splits prod.splits)
  obtain answer copies where ans: "bk_send b (bk_sends b) (topic, key, msg) = (answer, copies)"
    by fastforce
  have r: "isl r \<longleftrightarrow> answer \<noteq> None" "bk_stored b' = bk_stored b + replicate_mset copies (topic, key, msg)"
    using s by (auto simp: broker_send_def Let_def ans split: option.splits)
  have st: "bk_stored b + ?m \<subseteq># bk_stored b'" if "confirms_stored b"
  proof (cases answer)
    case None
    then have "1 \<le> copies"
      using that ans unfolding confirms_stored_def by (metis fst_conv snd_conv)
    with None show ?thesis
      by (cases copies) (simp_all add: r)
  qed (simp add: r)
  have conf: "confirms_stored b' \<longleftrightarrow> confirms_stored b"
    by (simp add: confirms_stored_def b'(3))
  obtain ms where ms: "bk_handed (snd (send_all topic msgs b')) = bk_handed b' + mset (map (Pair topic) msgs)"
    "bk_confirmed (snd (send_all topic msgs b')) = bk_confirmed b' + ms"
    "ms \<subseteq># mset (map (Pair topic) msgs)"
    "filter isl (fst (send_all topic msgs b')) = [] \<Longrightarrow> ms = mset (map (Pair topic) msgs)"
    "bk_send (snd (send_all topic msgs b')) = bk_send b'"
    "confirms_stored b' \<Longrightarrow> bk_stored b' + ms \<subseteq># bk_stored (snd (send_all topic msgs b'))"
    using "2.IH" [OF s [symmetric] refl] by blast
  have stored: "bk_stored b + (?m + ms) \<subseteq># bk_stored (snd (send_all topic msgs b'))" if "confirms_stored b"
  proof -
    have "(bk_stored b + ?m) + ms \<subseteq># bk_stored b' + ms"
      using st [OF that] by (rule subset_mset.add_right_mono)
    also have "\<dots> \<subseteq># bk_stored (snd (send_all topic msgs b'))"
      using ms(6) that by (simp add: conf)
    finally show ?thesis
      by (simp only: add.assoc)
  qed
  show ?case
    using ms(1-5) b' stored
    by (intro exI [of _ "?m + ms"]) (auto simp: s split_def Let_def intro: subset_mset.order_trans)
qed simp

lemma kafka_dispatch_cases:
  obtains "kafka_dispatch to_string evs k = (Inr (), k)" "evs = []"
  | e where "kafka_dispatch to_string evs k = (Inl e, k)"
  | r ms where "fst (kafka_dispatch to_string evs k) = r"
      "kc_config (snd (kafka_dispatch to_string evs k)) = kc_config k"
      "kafka_handed (snd (kafka_dispatch to_string evs k))
        = kafka_handed k + mset (List.map_filter (kafka_message_of to_string k) evs)"
      "kafka_confirmed (snd (kafka_dispatch to_string evs k)) = kafka_confirmed k + ms"
      "ms \<subseteq># mset (List.map_filter (kafka_message_of to_string k) evs)"
      "\<not> isl r \<longrightarrow> ms = mset (List.map_filter (kafka_message_of to_string k) evs)"
      "bk_send (kc_broker (snd (kafka_dispatch to_string evs k))) = bk_send (kc_broker k)"
      "confirms_stored (kc_broker k) \<longrightarrow>
        kafka_stored k + ms \<subseteq># kafka_stored (snd (kafka_dispatch to_string evs k))"
proof -
  let ?msgs = "mset (List.map_filter (kafka_message_of to_string k) evs)"
    and ?s = "send_all (kf_topic (kc_config k)) (serialize_events to_string evs) (kc_broker k)"
  obtain ms where ms: "bk_handed (snd ?s) = bk_handed (kc_broker k) + ?msgs"
    "bk_confirmed (snd ?s) = bk_confirmed (kc_broker k) + ms" "ms \<subseteq># ?msgs"
    "filter isl (fst ?s) = [] \<longrightarrow> ms = ?msgs" "bk_send (snd ?s) = bk_send (kc_broker k)"
    "confirms_stored (kc_broker k) \<longrightarrow> bk_stored (kc_broker k) + ms \<subseteq># bk_stored (snd ?s)"
    using send_all_effect [of "kf_topic (kc_config k)" "serialize_events to_string evs" "kc_broker k"]
    by (auto simp: serialize_events_messages)
  show ?thesis
  proof (cases "kc_producer k")
    case None
    show ?thesis
    proof (cases "evs = []")
      case True
      then show ?thesis by (intro that(1)) (simp_all add: kafka_dispatch_def)
    next
      case False
      with None show ?thesis by (intro that(2)) (simp add: kafka_dispatch_def)
    qed
  next
    case (Some p)
    show ?thesis
    proof (cases "evs = []")
      case True
      then show ?thesis by (intro that(1)) (simp_all add: kafka_dispatch_def)
    next
      case False
      have d: "snd (kafka_dispatch to_string evs k) = k\<lparr>kc_broker := snd ?s\<rparr>"
        "isl (fst (kafka_dispatch to_string evs k)) \<longleftrightarrow> filter isl (fst ?s) \<noteq> []"
        using Some False by (simp_all add: kafka_dispatch_def split_def Let_def)
      show ?thesis
        by (rule that(3) [OF refl, of ms])
          (use ms in \<open>simp_all add: d kafka_handed_def kafka_confirmed_def kafka_stored_def\<close>)
    qed
  qed
qed

lemma kafka_message_of_dispatch:
  "kafka_message_of to_string (snd (kafka_dispatch to_string es k)) = kafka_message_of to_string k"
proof -
  have "kc_config (snd (kafka_dispatch to_string es k)) = kc_config k"
    by (rule kafka_dispatch_cases [of to_string es k]) auto
  then show ?thesis
    by (auto simp: kafka_message_of_def fun_eq_iff split: sum.splits)
qed

interpretation kafka: sink_target "kafka_dispatch to_string" kafka_confirmed "kafka_message_of to_string"
  for to_string
proof
  fix es k u k' e
  show "kafka_dispatch to_string es k = (Inr u, k') \<Longrightarrow>
      kafka_confirmed k' = kafka_confirmed k + mset (List.map_filter (kafka_message_of to_string k) es)"
    by (rule kafka_dispatch_cases [of to_string es k]) (auto simp: List.map_filter_simps)
  show "kafka_dispatch to_string es k = (Inl e, k') \<Longrightarrow> kafka_confirmed k \<subseteq># kafka_confirmed k'
      \<and> kafka_confirmed k' \<subseteq># kafka_confirmed k + mset (List.map_filter (kafka_message_of to_string k) es)"
    by (rule kafka_dispatch_cases [of to_string es k]) auto
qed (rule kafka_message_of_dispatch)

interpretation producer: sink_target "kafka_dispatch to_string" kafka_handed "kafka_message_of to_string"
  for to_string
proof
  fix es k u k' e
  show "kafka_dispatch to_string es k = (Inr u, k') \<Longrightarrow>
      kafka_handed k' = kafka_handed k + mset (List.map_filter (kafka_message_of to_string k) es)"
    by (rule kafka_dispatch_cases [of to_string es k]) (auto simp: List.map_filter_simps)
  show "kafka_dispatch to_string es k = (Inl e, k') \<Longrightarrow> kafka_handed k \<subseteq># kafka_handed k'
      \<and> kafka_handed k' \<subseteq># kafka_handed k + mset (List.map_filter (kafka_message_of to_string k) es)"
    by (rule kafka_dispatch_cases [of to_string es k]) auto
qed (rule kafka_message_of_dispatch)

text \<open>The topic holds what was confirmed, when the broker stores what it confirms.\<close>

lemma confirmed_in_topic:
  assumes "confirms_stored (kc_broker k)"
  shows "\<exists>ms. kafka_confirmed (conn_after (kafka_dispatch to_string) bs k) = kafka_confirmed k + ms
    \<and> kafka_stored k + ms \<subseteq># kafka_stored (conn_after (kafka_dispatch to_string) bs k)"
  using assms
proof (induction bs arbitrary: k)
  case (Cons b bs)
  let ?k = "snd (kafka_dispatch to_string b k)"
  have "\<exists>ms. kafka_confirmed ?k = kafka_confirmed k + ms \<and> kafka_stored k + ms \<subseteq># kafka_stored ?k
      \<and> bk_send (kc_broker ?k) = bk_send (kc_broker k)"
    by (rule kafka_dispatch_cases [of to_string b k]) (use Cons.prems in auto)
  then obtain ms where ms: "kafka_confirmed ?k = kafka_confirmed k + ms"
    "kafka_stored k + ms \<subseteq># kafka_stored ?k" "bk_send (kc_broker ?k) = bk_send (kc_broker k)"
    by blast
  have "confirms_stored (kc_broker ?k)"
    using Cons.prems by (simp add: confirms_stored_def ms(3))
  then obtain ns where ns: "kafka_confirmed (conn_after (kafka_dispatch to_string) bs ?k) = kafka_confirmed ?k + ns"
    "kafka_stored ?k + ns \<subseteq># kafka_stored (conn_after (kafka_dispatch to_string) bs ?k)"
    using Cons.IH by blast
  have "kafka_stored k + (ms + ns) \<subseteq># kafka_stored (conn_after (kafka_dispatch to_string) bs ?k)"
    unfolding add.assoc [symmetric]
    by (rule subset_mset.order_trans [OF subset_mset.add_right_mono [OF ms(2)] ns(2)])
  then show ?case
    using ms(1) ns(1) by (intro exI [of _ "ms + ns"]) (simp add: add.assoc)
qed simp

lemma map_filter_append: "List.map_filter f (xs @ ys) = List.map_filter f xs @ List.map_filter f ys"
  by (simp add: List.map_filter_def)

text \<open>C34: Sending to Kafka. A sink with Kafka connectors, after any interleaving of feeds and turns of
  the worker, whatever the client library answers and whatever the brokers do with the messages: no
  connector hands its client library more than one send for each event that passes the filter and
  can be serialised, and none for any other event. When the queue is empty and the error counter
  zero, it has handed over exactly one send for each of these events, keyed by the event's schema,
  and the library has confirmed each of them; then the topic holds every one of these messages at
  least once, if the broker stores what it confirms. Events that cannot be serialised vanish without
  an error. How many copies a topic gets is not bounded: the library's own retries can repeat a
  message, and a send that timed out may have been stored.\<close>

theorem kafka_delivery:
  assumes "i < length ks"
    and "s = sink_run (kafka_dispatch to_string) ops (sink_new store flt ks)"
    and "msgs = mset (List.map_filter (kafka_message_of to_string (ks ! i))
      (filter (filter_passes flt) (concat (fed ops))))"
  shows "kafka_handed (sk_connectors s ! i) \<subseteq># kafka_handed (ks ! i) + msgs
    \<and> kafka_confirmed (sk_connectors s ! i) \<subseteq># kafka_confirmed (ks ! i) + msgs
    \<and> (sk_queue s = [] \<and> cm_dispatch_errors (sk_metrics s) = 0 \<longrightarrow>
        kafka_handed (sk_connectors s ! i) = kafka_handed (ks ! i) + msgs
        \<and> kafka_confirmed (sk_connectors s ! i) = kafka_confirmed (ks ! i) + msgs
        \<and> (confirms_stored (kc_broker (ks ! i)) \<longrightarrow>
             kafka_stored (ks ! i) + msgs \<subseteq># kafka_stored (sk_connectors s ! i)))"
proof -
  have "ks \<noteq> []"
    using assms(1) by auto
  then obtain handled where h: "sk_connectors s = map (conn_after (kafka_dispatch to_string) handled) ks"
    "handled @ map dr_events (sk_queue s) = batches flt ops"
    "cm_dispatch_errors (sk_metrics s) = sum_list (map (conn_errors (kafka_dispatch to_string) handled) ks)"
    using sink_run_connectors [OF sink_ok_new, of store flt ks "kafka_dispatch to_string" ops]
    by (auto simp: assms(2))
  let ?msgs = "\<lambda>evs. mset (List.map_filter (kafka_message_of to_string (ks ! i)) evs)"
  have conn: "sk_connectors s ! i = conn_after (kafka_dispatch to_string) handled (ks ! i)"
    using assms(1) by (simp add: h(1))
  have "concat handled @ concat (map dr_events (sk_queue s)) = filter (filter_passes flt) (concat (fed ops))"
    by (metis h(2) concat_append concat_batches)
  then have msgs: "msgs = ?msgs (concat handled) + ?msgs (concat (map dr_events (sk_queue s)))"
    by (simp only: assms(3) map_filter_append [symmetric] mset_append [symmetric])
  have "kafka_handed (sk_connectors s ! i) \<subseteq># kafka_handed (ks ! i) + msgs"
    "kafka_confirmed (sk_connectors s ! i) \<subseteq># kafka_confirmed (ks ! i) + msgs"
    unfolding msgs add.assoc [symmetric] conn
    using producer.received_bounds [of "ks ! i" to_string handled]
      kafka.received_bounds [of "ks ! i" to_string handled]
    by (auto intro: subset_mset.order_trans [OF _ mset_subset_eq_add_left])
  moreover have "kafka_handed (sk_connectors s ! i) = kafka_handed (ks ! i) + msgs"
    "kafka_confirmed (sk_connectors s ! i) = kafka_confirmed (ks ! i) + msgs"
    if "sk_queue s = []" "cm_dispatch_errors (sk_metrics s) = 0"
    using producer.delivered [of to_string handled "ks ! i"] kafka.delivered [of to_string handled "ks ! i"]
      h(3) assms(1) that by (simp_all add: conn msgs List.map_filter_simps)
  moreover from this have "kafka_stored (ks ! i) + msgs \<subseteq># kafka_stored (sk_connectors s ! i)"
    if "sk_queue s = []" "cm_dispatch_errors (sk_metrics s) = 0" "confirms_stored (kc_broker (ks ! i))"
    using confirmed_in_topic [OF that(3), of to_string handled] that(1,2) by (auto simp: conn)
  ultimately show ?thesis by blast
qed

text \<open>A broker that confirms every send and stores two copies of each message, one feed of an event
  that passes and a turn.\<close>

definition sample_broker :: kafka_broker where
  "sample_broker =
     \<lparr>bk_create = (\<lambda>_. Inr ()), bk_metadata = (\<lambda>_ _. Inr (Inr ())), bk_send = (\<lambda>_ _. (None, 2)),
      bk_sends = 0, bk_handed = {#}, bk_confirmed = {#}, bk_stored = {#}\<rparr>"

definition sample_kafka :: kafka_connector where
  "sample_kafka =
     snd (kafka_connect (projr (kafka_connector_new ''k'' (kafka_config_new ''h:9092'' ''t'') sample_broker)))"

lemma sample_kafka_fields [simp]:
  "kc_producer sample_kafka = Some (client_settings (kafka_config_new ''h:9092'' ''t''))"
  "kc_config sample_kafka = kafka_config_new ''h:9092'' ''t''"
  "kc_broker sample_kafka = sample_broker"
  by (simp_all add: sample_kafka_def kafka_connector_new_def kafka_connect_def sample_broker_def Let_def)

lemma sample_dispatch: "\<exists>k. kafka_dispatch (\<lambda>_. Inr ''x'') [e] sample_kafka = (Inr (), k)"
  by (simp add: kafka_dispatch_def serialize_events_def List.map_filter_simps broker_send_def
      kafka_config_new_def sample_broker_def)

lemma kafka_delivery_witness:
  "kafka_handed (sk_connectors (sink_run (kafka_dispatch (\<lambda>_. Inr ''x''))
      [Feed [sample_event ''b.1'' 4], WorkerTurn]
      (sink_new sample_store \<lparr>ef_include = (\<lambda>_. True), ef_exclude = None\<rparr> [sample_kafka])) ! 0)
      = {#(''t'', ''db'', ''x'')#}
    \<and> {#(''t'', ''db'', ''x'')#} \<subseteq># kafka_stored (sk_connectors (sink_run (kafka_dispatch (\<lambda>_. Inr ''x''))
      [Feed [sample_event ''b.1'' 4], WorkerTurn]
      (sink_new sample_store \<lparr>ef_include = (\<lambda>_. True), ef_exclude = None\<rparr> [sample_kafka])) ! 0)"
proof -
  let ?flt = "\<lparr>ef_include = (\<lambda>_. True), ef_exclude = None\<rparr> :: event_filter"
  let ?s = "sink_run (kafka_dispatch (\<lambda>_. Inr ''x'')) [Feed [sample_event ''b.1'' 4], WorkerTurn]
      (sink_new sample_store ?flt [sample_kafka])"
  have pass: "filter_passes ?flt e" for e
    by (simp add: filter_passes_def event_filter_matches_def Let_def)
  obtain i st where "put_batch False [sample_event ''b.1'' 4] sample_store = (Some i, st)"
    using put_batch_release by blast
  moreover obtain k where "kafka_dispatch (\<lambda>_. Inr ''x'') [sample_event ''b.1'' 4] sample_kafka = (Inr (), k)"
    using sample_dispatch by blast
  ultimately have run: "sk_queue ?s = [] \<and> cm_dispatch_errors (sk_metrics ?s) = 0"
    by (simp add: sink_def pass sink_new_def sink_with_metrics_def ensure_worker_def worker_step_def)
  have conf: "confirms_stored (kc_broker ([sample_kafka] ! 0))"
    by (simp add: confirms_stored_def sample_broker_def)
  have msgs: "mset (List.map_filter (kafka_message_of (\<lambda>_. Inr ''x'') ([sample_kafka] ! 0))
      (filter (filter_passes ?flt) (concat (fed [Feed [sample_event ''b.1'' 4], WorkerTurn]))))
    = {#(''t'', ''db'', ''x'')#}"
    by (simp add: pass List.map_filter_simps kafka_message_of_def kafka_config_new_def sample_event_def)
  have zero: "kafka_handed ([sample_kafka] ! 0) = {#}" "kafka_stored ([sample_kafka] ! 0) = {#}"
    by (simp_all add: kafka_handed_def kafka_stored_def sample_broker_def)
  show ?thesis
    using kafka_delivery [of 0 "[sample_kafka]" ?s "\<lambda>_. Inr ''x''" "[Feed [sample_event ''b.1'' 4], WorkerTurn]"
        sample_store ?flt _, OF _ refl msgs [symmetric]] run conf
    unfolding zero by simp
qed

end
