(* ===== verification/Canal_Meta.thy ===== *)
theory Canal_Meta
  imports Canal_Prelude Canal_Registry
begin

text \<open>
  The crate \<open>canal-meta\<close> (\<open>lib.rs\<close>): table schemas and their cache. A lock of the cache is
  held for one operation, and a poisoned one is recovered from, so the cache is a finite map and
  every operation a function on it.
\<close>

record column_meta =
  cm_name :: string
  cm_column_type :: i32
  cm_is_key :: bool
  cm_is_nullable :: bool
  cm_position :: nat

text \<open>\<open>updated_at\<close> is a point in time.\<close>

record table_meta =
  tm_schema_name :: string
  tm_table_name :: string
  tm_columns :: "column_meta list"
  tm_updated_at :: int

definition primary_keys :: "table_meta \<Rightarrow> column_meta list" where
  "primary_keys t = filter cm_is_key (tm_columns t)"

definition column_count :: "table_meta \<Rightarrow> nat" where
  "column_count t = length (tm_columns t)"

definition get_column :: "table_meta \<Rightarrow> string \<Rightarrow> column_meta option" where
  "get_column t name = List.find (\<lambda>c. cm_name c = name) (tm_columns t)"

type_synonym meta_cache = "(string, table_meta) fmap"

definition meta_new :: meta_cache where
  "meta_new = fmempty"

definition meta_put :: "string \<Rightarrow> table_meta \<Rightarrow> meta_cache \<Rightarrow> meta_cache" where
  "meta_put key meta c = fmupd key meta c"

definition meta_get :: "meta_cache \<Rightarrow> string \<Rightarrow> table_meta option" where
  "meta_get c key = fmlookup c key"

definition meta_remove :: "string \<Rightarrow> meta_cache \<Rightarrow> meta_cache" where
  "meta_remove key c = fmdrop key c"

definition meta_contains :: "meta_cache \<Rightarrow> string \<Rightarrow> bool" where
  "meta_contains c key \<longleftrightarrow> key |\<in>| fmdom c"

definition meta_len :: "meta_cache \<Rightarrow> nat" where
  "meta_len c = fcard (fmdom c)"

definition meta_is_empty :: "meta_cache \<Rightarrow> bool" where
  "meta_is_empty c \<longleftrightarrow> meta_len c = 0"

definition meta_clear :: "meta_cache \<Rightarrow> meta_cache" where
  "meta_clear c = fmempty"

interpretation meta: registry meta_get meta_new meta_put meta_remove "\<lambda>_ _. True"
  by unfold_locales (auto simp: meta_get_def meta_new_def meta_put_def meta_remove_def)

text \<open>The history of a cache: the operations of the registry, and clearing it.\<close>

fun meta_run :: "(string, table_meta) registry_op list list \<Rightarrow> meta_cache \<Rightarrow> meta_cache" where
  "meta_run [] c = c"
| "meta_run [ops] c = fold meta.apply_op ops c"
| "meta_run (ops # opss) c = meta_run opss (meta_clear (fold meta.apply_op ops c))"

lemma meta_run_get:
  "meta_get (meta_run opss c) key
    = (if length opss \<le> 1 then last_value (concat opss) key (meta_get c key)
       else last_value (last opss) key None)"
proof (induction opss c rule: meta_run.induct)
  case (3 ops ops' opss c)
  then show ?case
    by (cases opss) (auto simp: meta_get_def meta_clear_def)
qed (simp_all add: meta.lookup_history)

text \<open>The cache answers with the last schema. After any history of puts and removals, cut into
  stretches by calls of \<open>clear\<close>, the cache answers for a key with the schema put last since the
  last removal of the key in the last stretch; it contains exactly the keys it answers for, and it
  is empty exactly when it answers for none.\<close>

theorem meta_cache_history:
  "let c = meta_run (opss @ [ops]) meta_new
   in meta_get c key = last_value ops key None
    \<and> (meta_contains c key \<longleftrightarrow> last_value ops key None \<noteq> None)
    \<and> (meta_is_empty c \<longleftrightarrow> (\<forall>k. last_value ops k None = None))"
proof -
  define c where "c = meta_run (opss @ [ops]) meta_new"
  have get: "meta_get c k = last_value ops k None" for k
    using meta_run_get [of "opss @ [ops]" meta_new k]
    by (auto simp: c_def meta.lookup_empty length_Suc_conv)
  have "meta_contains c k \<longleftrightarrow> meta_get c k \<noteq> None" for k
    by (auto simp: meta_contains_def meta_get_def fmdom_notD fmdomI)
  moreover have "meta_is_empty c \<longleftrightarrow> (\<forall>k. meta_get c k = None)"
    by (auto simp: meta_is_empty_def meta_len_def meta_get_def fcard_0_eq fmempty_of_list
        fmrestrict_fset_dom [symmetric] dest: fmdom_notD)
  ultimately show ?thesis
    by (simp add: get Let_def flip: c_def)
qed

end
