(* ===== verification/Canal_Locks.thy ===== *)
theory Canal_Locks
  imports Canal_Types
begin

text \<open>
  The recovery of poisoned locks, \<open>utils.rs\<close> of \<open>canal-common\<close>. A lock of the standard library is
  its value and a mark that a holder panicked; \<open>lock\<close> of a poisoned lock is an error that contains
  the guard. All shared state of the program is behind such locks. The theorem justifies that the
  other theories leave them out: whatever panics there were, every critical section is entered and
  sees what the one before it left, so that a history is the sequence of its sections.
\<close>

record 'a rust_lock =
  lk_value :: 'a
  lk_poisoned :: bool

definition lock_new :: "'a \<Rightarrow> 'a rust_lock" where
  "lock_new v = \<lparr>lk_value = v, lk_poisoned = False\<rparr>"

text \<open>\<open>Mutex::lock\<close>, \<open>RwLock::read\<close> and \<open>RwLock::write\<close>, once they have the lock.\<close>

definition std_lock :: "'a rust_lock \<Rightarrow> ('a, 'a) rust_result" where
  "std_lock l = (if lk_poisoned l then Inl (lk_value l) else Inr (lk_value l))"

text \<open>Each method has a \<open>LOGGED\<close> flag of its own, static and so shared by the locks of all types.
  The log is the list of the methods that have written their line.\<close>

datatype lock_kind = MutexLock | ReadLock | WriteLock

record lock_log =
  ll_logged :: "lock_kind \<Rightarrow> bool"
  ll_lines :: "lock_kind list"

definition lock_log_new :: lock_log where
  "lock_log_new = \<lparr>ll_logged = (\<lambda>_. False), ll_lines = []\<rparr>"

definition lock_name :: "lock_kind \<Rightarrow> string" where
  "lock_name k = (case k of MutexLock \<Rightarrow> ''Mutex'' | _ \<Rightarrow> ''RwLock'')"

definition recovered_message :: "lock_kind \<Rightarrow> string" where
  "recovered_message k = ''Recovered from poisoned '' @ lock_name k @ '' '' @ em_dash @ '' data may be inconsistent''"

definition log_text :: "lock_log \<Rightarrow> string list" where
  "log_text g = map recovered_message (ll_lines g)"

text \<open>\<open>LOGGED.swap(true)\<close>, and a line the first time.\<close>

definition log_once :: "lock_kind \<Rightarrow> lock_log \<Rightarrow> lock_log" where
  "log_once k g =
     g\<lparr>ll_logged := (ll_logged g)(k := True),
       ll_lines := (if ll_logged g k then ll_lines g else ll_lines g @ [k])\<rparr>"

definition or_recover :: "lock_kind \<Rightarrow> 'a rust_lock \<Rightarrow> lock_log \<Rightarrow> 'a \<times> lock_log" where
  "or_recover k l g =
     (case std_lock l of
        Inr guard \<Rightarrow> (guard, g)
      | Inl guard \<Rightarrow> (guard, log_once k g))"

definition lock_or_recover :: "'a rust_lock \<Rightarrow> lock_log \<Rightarrow> 'a \<times> lock_log" where
  "lock_or_recover = or_recover MutexLock"

definition read_or_recover :: "'a rust_lock \<Rightarrow> lock_log \<Rightarrow> 'a \<times> lock_log" where
  "read_or_recover = or_recover ReadLock"

definition write_or_recover :: "'a rust_lock \<Rightarrow> lock_log \<Rightarrow> 'a \<times> lock_log" where
  "write_or_recover = or_recover WriteLock"

subsection \<open>Critical sections\<close>

text \<open>
  A section gets the value and leaves a value, at its end or where it panics; a section under a
  read lock leaves it as it is, and does not poison the lock when it panics.
\<close>

datatype 'a critical =
  WithLock "'a \<Rightarrow> 'a \<times> bool" | WithWrite "'a \<Rightarrow> 'a \<times> bool" | WithRead

definition release :: "'a \<times> bool \<Rightarrow> 'a rust_lock \<Rightarrow> 'a rust_lock" where
  "release r l = \<lparr>lk_value = fst r, lk_poisoned = (lk_poisoned l \<or> snd r)\<rparr>"

definition enter :: "'a critical \<Rightarrow> 'a rust_lock \<times> lock_log \<Rightarrow> 'a rust_lock \<times> lock_log" where
  "enter s lg =
     (let (l, g) = lg
      in (case s of
            WithLock body \<Rightarrow> (let (v, g') = lock_or_recover l g in (release (body v) l, g'))
          | WithWrite body \<Rightarrow> (let (v, g') = write_or_recover l g in (release (body v) l, g'))
          | WithRead \<Rightarrow> (let (v, g') = read_or_recover l g in (l, g'))))"

text \<open>The section as a step on the value alone.\<close>

definition atomically :: "'a critical \<Rightarrow> 'a \<Rightarrow> 'a" where
  "atomically s v = (case s of WithLock body \<Rightarrow> fst (body v) | WithWrite body \<Rightarrow> fst (body v) | WithRead \<Rightarrow> v)"

lemma or_recover_value [simp]: "fst (or_recover k l g) = lk_value l"
  by (simp add: or_recover_def std_lock_def)

lemma enter_value: "lk_value (fst (enter s (l, g))) = atomically s (lk_value l)"
  by (cases s) (simp_all add: enter_def atomically_def release_def lock_or_recover_def write_or_recover_def
      read_or_recover_def split_def Let_def)

definition logged_lines :: "lock_log \<Rightarrow> bool" where
  "logged_lines g \<longleftrightarrow> distinct (ll_lines g) \<and> list_all (ll_logged g) (ll_lines g)"

lemma log_once_lines: "logged_lines g \<Longrightarrow> logged_lines (log_once k g)"
  by (auto simp: logged_lines_def log_once_def list_all_iff)

lemma enter_lines: "logged_lines g \<Longrightarrow> logged_lines (snd (enter s (l, g)))"
  by (cases s) (simp_all add: enter_def lock_or_recover_def write_or_recover_def read_or_recover_def or_recover_def
      std_lock_def split_def Let_def log_once_lines)

lemma enter_all:
  "lk_value (fst (fold enter ss (l, g))) = fold atomically ss (lk_value l)
    \<and> (logged_lines g \<longrightarrow> logged_lines (snd (fold enter ss (l, g))))"
proof (induction ss arbitrary: l g)
  case (Cons s ss)
  obtain l' g' where "enter s (l, g) = (l', g')" by fastforce
  with Cons.IH [of l' g'] enter_value [of s l g] enter_lines [of g s l] show ?case by auto
qed simp

text \<open>Panics do not stop the program. Whatever critical sections are run on a lock and whichever of
  them panic, each is entered, and the value goes through them as if the lock were not there; and
  the log gets at most one line from each of the three methods.\<close>

theorem locks_recover:
  "lk_value (fst (fold enter sections (lock_new v, lock_log_new))) = fold atomically sections v
    \<and> (\<exists>ks. distinct ks \<and> log_text (snd (fold enter sections (lock_new v, lock_log_new))) = map recovered_message ks)"
proof -
  have "logged_lines lock_log_new"
    by (simp add: logged_lines_def lock_log_new_def)
  then show ?thesis
    using enter_all [of sections "lock_new v" lock_log_new]
    by (auto simp: logged_lines_def log_text_def lock_new_def)
qed

end
