(* ===== verification/Canal_Debug.thy ===== *)
theory Canal_Debug
  imports Canal_Cli Canal_Kafka Canal_Admin Canal_Session
begin

text \<open>
  The \<open>Debug\<close> texts of the types that hold secrets: which of them print the secret. \<open>debug_str\<close>
  is the standard library's text of a string; how it prints a character beyond ASCII, which depends
  on Unicode tables, is the parameter \<open>w\<close> from the character's bytes to a text. The \<open>Debug\<close> texts
  of clock values are parameters as well.
\<close>

subsection \<open>The texts of the standard library\<close>

definition hex_nat_digit :: "nat \<Rightarrow> char" where
  "hex_nat_digit d = (if d < 10 then char_of (48 + d) else char_of (87 + d))"

definition hex_nat :: "nat \<Rightarrow> string" where
  "hex_nat n = (if n < 16 then [hex_nat_digit n] else [hex_nat_digit (n div 16), hex_nat_digit (n mod 16)])"

definition escape_ascii :: "char \<Rightarrow> string" where
  "escape_ascii c =
     (if c = CHR 0x00 then [CHR 0x5C, CHR ''0'']
      else if c = CHR 0x09 then [CHR 0x5C, CHR ''t'']
      else if c = CHR 0x0D then [CHR 0x5C, CHR ''r'']
      else if c = CHR 0x0A then [CHR 0x5C, CHR ''n'']
      else if c = CHR 0x22 \<or> c = CHR 0x5C then [CHR 0x5C, c]
      else if (of_char c :: nat) < 32 \<or> c = CHR 0x7F then CHR 0x5C # ''u{'' @ hex_nat (of_char c) @ ''}''
      else [c])"

text \<open>A character beyond ASCII is its leading byte with the continuation bytes after it.\<close>

function escape_debug :: "(string \<Rightarrow> string) \<Rightarrow> string \<Rightarrow> string" where
  "escape_debug w [] = []"
| "escape_debug w (c # cs) =
     (if (of_char c :: nat) < 128 then escape_ascii c @ escape_debug w cs
      else w (c # takeWhile (\<lambda>b. utf8_cont (of_char b)) cs)
        @ escape_debug w (dropWhile (\<lambda>b. utf8_cont (of_char b)) cs))"
  by pat_completeness auto
termination
  by (relation "measure (\<lambda>(w, s). length s)") (auto simp: le_imp_less_Suc length_dropWhile_le)

definition debug_str :: "(string \<Rightarrow> string) \<Rightarrow> string \<Rightarrow> string" where
  "debug_str w s = [CHR 0x22] @ escape_debug w s @ [CHR 0x22]"

definition debug_option :: "('a \<Rightarrow> string) \<Rightarrow> 'a option \<Rightarrow> string" where
  "debug_option d x = (case x of None \<Rightarrow> ''None'' | Some y \<Rightarrow> ''Some('' @ d y @ '')'')"

definition debug_bool :: "bool \<Rightarrow> string" where
  "debug_bool b = (if b then ''true'' else ''false'')"

fun join_fields :: "(string \<times> string) list \<Rightarrow> string" where
  "join_fields [] = []"
| "join_fields [(n, v)] = n @ '': '' @ v"
| "join_fields ((n, v) # fs) = n @ '': '' @ v @ '', '' @ join_fields fs"

text \<open>\<open>debug_struct\<close>, its fields, and \<open>finish\<close> or \<open>finish_non_exhaustive\<close>.\<close>

definition debug_struct :: "string \<Rightarrow> (string \<times> string) list \<Rightarrow> string" where
  "debug_struct name fs = name @ '' { '' @ join_fields fs @ '' }''"

definition debug_struct_open :: "string \<Rightarrow> (string \<times> string) list \<Rightarrow> string" where
  "debug_struct_open name fs = name @ '' { '' @ join_fields fs @ '', .. }''"

subsection \<open>The types with an implementation of their own\<close>

definition redacted :: string where
  "redacted = ''<redacted>''"

definition debug_mysql_config :: "(string \<Rightarrow> string) \<Rightarrow> mysql_config \<Rightarrow> string" where
  "debug_mysql_config w c =
     debug_struct ''MysqlConfig''
       [(''host'', debug_str w (mc_host c)), (''port'', nat_str (unat (mc_port c))),
        (''username'', debug_str w (mc_username c)), (''password'', debug_str w redacted)]"

definition debug_kafka_config :: "(string \<Rightarrow> string) \<Rightarrow> kafka_config \<Rightarrow> string" where
  "debug_kafka_config w c =
     debug_struct ''KafkaConfig''
       [(''servers'', debug_str w (kf_servers c)), (''topic'', debug_str w (kf_topic c)),
        (''ssl_ca_location'', debug_option (debug_str w) (kf_ssl_ca_location c)),
        (''sasl_username'', debug_option (debug_str w) (kf_sasl_username c)),
        (''sasl_password'', debug_str w redacted),
        (''sasl_mechanism'', debug_option (debug_str w) (kf_sasl_mechanism c))]"

definition debug_instance_config :: "(string \<Rightarrow> string) \<Rightarrow> instance_config \<Rightarrow> string" where
  "debug_instance_config w c =
     debug_struct ''InstanceConfig''
       [(''destination'', debug_str w (ic_destination c)), (''mysql_host'', debug_str w (ic_mysql_host c)),
        (''mysql_port'', nat_str (unat (ic_mysql_port c))),
        (''mysql_username'', debug_str w (ic_mysql_username c)),
        (''mysql_password'', debug_str w redacted),
        (''mysql_server_id'', nat_str (unat (ic_mysql_server_id c)))]"

definition debug_admin_state :: "(int \<Rightarrow> string) \<Rightarrow> 'k admin_state \<Rightarrow> string" where
  "debug_admin_state instant st =
     debug_struct ''AdminState''
       [(''started_at'', instant (ad_started_at st)), (''has_auth'', debug_bool (ad_admin_token st \<noteq> None))]"

definition debug_admin_server :: "(string \<Rightarrow> string) \<Rightarrow> 'k admin_server \<Rightarrow> string" where
  "debug_admin_server w s = debug_struct ''AdminServer'' [(''bind_addr'', debug_str w (as_bind_addr s))]"

definition debug_filter_pattern :: "(string \<Rightarrow> string) \<Rightarrow> filter_pattern \<Rightarrow> string" where
  "debug_filter_pattern w fp =
     debug_struct ''FilterPattern''
       [(''pattern'', debug_str w (fp_pattern fp)), (''black_list'', debug_str w (fp_black_list fp))]"

definition debug_client_session ::
    "(string \<Rightarrow> string) \<Rightarrow> (timestamp \<Rightarrow> string) \<Rightarrow> client_session \<Rightarrow> string" where
  "debug_client_session w utc s =
     debug_struct_open ''ClientSession''
       [(''client_id'', debug_str w (cs_client_id s)), (''destination'', debug_str w (cs_destination s)),
        (''filter'', debug_filter_pattern w (cs_filter s)), (''connected_at'', utc (cs_connected_at s))]"

subsection \<open>The derived texts of the configuration\<close>

definition debug_filter_section :: "(string \<Rightarrow> string) \<Rightarrow> filter_section \<Rightarrow> string" where
  "debug_filter_section w c =
     debug_struct ''FilterSection''
       [(''pattern'', debug_str w (fs_pattern c)), (''black_list'', debug_str w (fs_black_list c))]"

definition debug_store_section :: "store_section \<Rightarrow> string" where
  "debug_store_section c = debug_struct ''StoreSection'' [(''buffer_size'', nat_str (ss_buffer_size c))]"

definition debug_server_section :: "(string \<Rightarrow> string) \<Rightarrow> server_section \<Rightarrow> string" where
  "debug_server_section w c =
     debug_struct ''ServerSection''
       [(''bind'', debug_str w (vs_bind c)), (''metrics_bind'', debug_str w (vs_metrics_bind c)),
        (''admin_bind'', debug_option (debug_str w) (vs_admin_bind c)),
        (''idle_timeout_secs'', nat_str (unat (vs_idle_timeout_secs c)))]"

definition debug_log_section :: "(string \<Rightarrow> string) \<Rightarrow> log_section \<Rightarrow> string" where
  "debug_log_section w c =
     debug_struct ''LogSection''
       [(''level'', debug_str w (ls_level c)), (''format'', debug_str w (ls_format c))]"

definition debug_canal_section :: "(string \<Rightarrow> string) \<Rightarrow> canal_section \<Rightarrow> string" where
  "debug_canal_section w c =
     debug_struct ''CanalSection''
       [(''server_id'', nat_str (unat (cn_server_id c))),
        (''start_journal_name'', debug_str w (cn_start_journal_name c)),
        (''start_position'', nat_str (unat (cn_start_position c))),
        (''auth_token'', debug_option (debug_str w) (cn_auth_token c)),
        (''mysql'', debug_mysql_config w (cn_mysql c)), (''store'', debug_store_section (cn_store c)),
        (''server'', debug_server_section w (cn_server c)),
        (''filter'', debug_filter_section w (cn_filter c)), (''logging'', debug_log_section w (cn_logging c))]"

definition debug_canal_config :: "(string \<Rightarrow> string) \<Rightarrow> canal_config \<Rightarrow> string" where
  "debug_canal_config w c = debug_struct ''CanalConfig'' [(''canal'', debug_canal_section w (cc_canal c))]"

subsection \<open>Which secrets are printed\<close>

text \<open>A text that \<open>Debug\<close> prints as it is: printable ASCII without quotation marks and backslashes.\<close>

definition plain :: "string \<Rightarrow> bool" where
  "plain s \<longleftrightarrow> list_all (\<lambda>c. 32 \<le> (of_char c :: nat) \<and> (of_char c :: nat) < 127
     \<and> c \<noteq> CHR 0x22 \<and> c \<noteq> CHR 0x5C) s"

lemma escape_ascii_plain:
  assumes "32 \<le> (of_char c :: nat)" and "(of_char c :: nat) < 127" and "c \<noteq> CHR 0x22" and "c \<noteq> CHR 0x5C"
  shows "escape_ascii c = [c]"
proof -
  have "c \<noteq> CHR 0x00" "c \<noteq> CHR 0x09" "c \<noteq> CHR 0x0D" "c \<noteq> CHR 0x0A" "c \<noteq> CHR 0x7F"
    using assms(1,2) by (rule_tac [!] notI) simp_all
  with assms show ?thesis by (simp only: escape_ascii_def if_False simp_thms not_less [symmetric])
qed

lemma escape_debug_plain: "plain s \<Longrightarrow> escape_debug w s = s"
proof (induction s)
  case (Cons c s)
  from Cons.prems have c: "32 \<le> (of_char c :: nat)" "(of_char c :: nat) < 127" "c \<noteq> CHR 0x22" "c \<noteq> CHR 0x5C" "plain s"
    unfolding plain_def list.pred_inject by blast+
  then have "escape_debug w (c # s) = escape_ascii c @ escape_debug w s"
    by simp
  with escape_ascii_plain [OF c(1-4)] Cons.IH [OF c(5)] show ?case by simp
qed simp

text \<open>The passwords and the Admin API's token: no \<open>Debug\<close> text depends on them, except that
  \<open>AdminState\<close> says whether there is a token.\<close>

lemma debug_redacts:
  "debug_mysql_config w (m\<lparr>mc_password := x\<rparr>) = debug_mysql_config w m"
  "debug_kafka_config w (k\<lparr>kf_sasl_password := y\<rparr>) = debug_kafka_config w k"
  "debug_instance_config w (i\<lparr>ic_mysql_password := x\<rparr>) = debug_instance_config w i"
  "debug_admin_state t (a\<lparr>ad_admin_token := Some x\<rparr>) = debug_admin_state t (a\<lparr>ad_admin_token := Some z\<rparr>)"
  "debug_admin_server w (s\<lparr>as_state := b\<rparr>) = debug_admin_server w s"
  by (simp_all add: debug_mysql_config_def debug_kafka_config_def debug_instance_config_def
      debug_admin_state_def debug_admin_server_def)

text \<open>Secrets in the \<open>Debug\<close> text of the configuration. It does not depend on the MySQL password,
  but it contains the token of the Canal server in the clear.\<close>

theorem config_debug_prints_token:
  assumes "cn_auth_token (cc_canal c) = Some tok" and "plain tok"
  shows "debug_canal_config w (c\<lparr>cc_canal := (cc_canal c)\<lparr>cn_mysql :=
        (cn_mysql (cc_canal c))\<lparr>mc_password := x\<rparr>\<rparr>\<rparr>) = debug_canal_config w c
    \<and> (\<exists>pre post. debug_canal_config w c
          = pre @ ''auth_token: Some('' @ [CHR 0x22] @ tok @ [CHR 0x22] @ '')'' @ post)"
proof
  show "debug_canal_config w (c\<lparr>cc_canal := (cc_canal c)\<lparr>cn_mysql :=
      (cn_mysql (cc_canal c))\<lparr>mc_password := x\<rparr>\<rparr>\<rparr>) = debug_canal_config w c"
    by (simp add: debug_canal_config_def debug_canal_section_def debug_mysql_config_def)
  let ?fields = "join_fields
       [(''mysql'', debug_mysql_config w (cn_mysql (cc_canal c))),
        (''store'', debug_store_section (cn_store (cc_canal c))),
        (''server'', debug_server_section w (cn_server (cc_canal c))),
        (''filter'', debug_filter_section w (cn_filter (cc_canal c))),
        (''logging'', debug_log_section w (cn_logging (cc_canal c)))]"
  have "debug_canal_config w c =
      (''CanalConfig { canal: CanalSection { server_id: '' @ nat_str (unat (cn_server_id (cc_canal c)))
        @ '', start_journal_name: '' @ debug_str w (cn_start_journal_name (cc_canal c))
        @ '', start_position: '' @ nat_str (unat (cn_start_position (cc_canal c))) @ '', '')
      @ ''auth_token: Some('' @ [CHR 0x22] @ tok @ [CHR 0x22] @ '')'' @ ('', '' @ ?fields @ '' } }'')"
    using assms by (simp add: debug_canal_config_def debug_canal_section_def debug_struct_def
        debug_option_def debug_str_def escape_debug_plain)
  then show "\<exists>pre post. debug_canal_config w c
      = pre @ ''auth_token: Some('' @ [CHR 0x22] @ tok @ [CHR 0x22] @ '')'' @ post"
    by blast
qed

end
