(* ===== verification/Canal_Tests.thy ===== *)
theory Canal_Tests
  imports Canal_Prelude "HOL-Library.Monad_Syntax"
begin

text \<open>
  The unit tests of the repository, run on the model. A test is a program of the option monad:
  \<open>None\<close> is a panic, of an \<open>unwrap\<close> or of a failed assertion, and the test passes when it gets to
  its end. The theories \<open>Canal_Tests_...\<close> hold one definition per test function, translated from
  the test's lines, and one lemma that the model passes it, evaluated by the simplifier. Where a
  test fixes what the code answers on a concrete input, the model answers the same.
\<close>

type_synonym test = "unit option"

definition assert_true :: "bool \<Rightarrow> test" where
  "assert_true b = (if b then Some () else None)"

definition assert_eq :: "'a \<Rightarrow> 'a \<Rightarrow> test" where
  "assert_eq x y = assert_true (x = y)"

text \<open>\<open>Result::unwrap\<close> and \<open>Result::unwrap_err\<close>.\<close>

definition unwrap :: "'e + 'a \<Rightarrow> 'a option" where
  "unwrap r = (case r of Inl _ \<Rightarrow> None | Inr x \<Rightarrow> Some x)"

definition unwrap_err :: "'e + 'a \<Rightarrow> 'e option" where
  "unwrap_err r = (case r of Inl e \<Rightarrow> Some e | Inr _ \<Rightarrow> None)"

lemma assert_simps [simp]:
  "assert_true True = Some ()" "assert_true False = None" "assert_eq x y = assert_true (x = y)"
  by (simp_all add: assert_true_def assert_eq_def)

lemma unwrap_simps [simp]:
  "unwrap (Inr x) = Some x" "unwrap (Inl e) = None"
  "unwrap_err (Inr x) = None" "unwrap_err (Inl e) = Some e"
  by (simp_all add: unwrap_def unwrap_err_def)

text \<open>With this rule the simplifier runs a program from its first step to its last.\<close>

lemma bind_weak_cong: "x = y \<Longrightarrow> Option.bind x f = Option.bind y f"
  by simp

text \<open>An indexing that panics out of range.\<close>

definition nth_panics :: "'a list \<Rightarrow> nat \<Rightarrow> 'a option" where
  "nth_panics xs i = (if i < length xs then Some (xs ! i) else None)"

lemma nth_panics_simps [simp]:
  "nth_panics [] i = None" "nth_panics (x # xs) 0 = Some x" "nth_panics (x # xs) (Suc i) = nth_panics xs i"
  by (simp_all add: nth_panics_def)

lemma nth_panics_numeral [simp]: "nth_panics (x # xs) (numeral k) = nth_panics xs (pred_numeral k)"
  by (simp add: numeral_eq_Suc)

lemma replicate_numeral: "replicate (numeral k) x = x # replicate (pred_numeral k) x"
  by (simp add: numeral_eq_Suc)

lemma digit_chars [simp]:
  "digit_char (Suc (Suc 0)) = CHR ''2''" "digit_char 0 = CHR ''0''" "digit_char (Suc 0) = CHR ''1''" "digit_char 2 = CHR ''2''" "digit_char 3 = CHR ''3''"
  "digit_char 4 = CHR ''4''" "digit_char 5 = CHR ''5''" "digit_char 6 = CHR ''6''" "digit_char 7 = CHR ''7''"
  "digit_char 8 = CHR ''8''" "digit_char 9 = CHR ''9''"
  by (simp_all add: digit_char_def char_of_def bit_0)

text \<open>\<open>str::lines\<close> of a text without carriage returns, whose last line does not count when it is
  empty; \<open>str::starts_with\<close>, \<open>str::contains\<close>, \<open>str::ends_with\<close>.\<close>

fun split_lines :: "string \<Rightarrow> string list" where
  "split_lines [] = []"
| "split_lines (c # cs) =
     (if c = CHR 0x0A then [] # split_lines cs
      else (case split_lines cs of [] \<Rightarrow> [[c]] | l # ls \<Rightarrow> (c # l) # ls))"

fun starts_with :: "string \<Rightarrow> string \<Rightarrow> bool" where
  "starts_with s [] = True"
| "starts_with [] (p # ps) = False"
| "starts_with (c # cs) (p # ps) \<longleftrightarrow> c = p \<and> starts_with cs ps"

fun contains :: "string \<Rightarrow> string \<Rightarrow> bool" where
  "contains [] p = (p = [])"
| "contains (c # cs) p \<longleftrightarrow> starts_with (c # cs) p \<or> contains cs p"

definition ends_with :: "string \<Rightarrow> string \<Rightarrow> bool" where
  "ends_with s p \<longleftrightarrow> starts_with (rev s) (rev p)"

lemma starts_with_append [simp]: "starts_with (p @ s) p"
  by (induction p) simp_all

lemma contains_infix: "starts_with s p \<Longrightarrow> contains (t @ s) p"
  by (induction t) (cases s; cases p; auto)+

abbreviation backslash :: string where
  "backslash \<equiv> [CHR 0x5C]"

end
