(* ===== verification/Canal_Tests_Common.thy ===== *)
theory Canal_Tests_Common
  imports Canal_Tests Canal_Session
begin

text \<open>
  The tests of \<open>canal-common\<close> (\<open>lib.rs\<close>, \<open>types.rs\<close>, \<open>error.rs\<close>), of \<open>canal-filter\<close> and of the server's
  \<open>session.rs\<close>. The tests that compile a pattern take the \<open>regex\<close> crate as their argument; they are
  run with a small engine that knows the syntax they use.
\<close>

subsection \<open>\<open>canal-common\<close>\<close>

lemma journal_suffix [simp]:
  "binlog_suffix ''mysql-bin.000001'' = 1" "binlog_suffix ''mysql-bin.000002'' = 2"
  "binlog_suffix ''relay-log'' = - 1"
  by (simp_all add: binlog_suffix_def last_segment_def parse_u64_def is_digit_def digit_val_def Let_def)

lemma lp_position_new [simp]:
  "lp_position (log_position_new j p) = p" "lp_journal_name (log_position_new j p) = j"
  "lp_gtid (log_position_new j p) = None"
  by (simp_all add: log_position_new_def)

lemma one_less_max [simp]: "(1 :: u64) < - 1"
  using word_order.not_eq_extremum [of "1 :: u64"] by simp

text \<open>\<open>MockComponent\<close> overrides \<open>is_running\<close> only: the state is its flag, and \<open>start\<close> and \<open>stop\<close>
  are the defaults of the trait, which succeed and change nothing.\<close>

definition lifecycle_default_start :: "bool \<Rightarrow> unit canal_result \<times> bool" where
  "lifecycle_default_start running = (Inr (), running)"

definition lifecycle_default_stop :: "bool \<Rightarrow> unit canal_result \<times> bool" where
  "lifecycle_default_stop running = (Inr (), running)"

definition test_lifecycle_default_impls :: test where
  "test_lifecycle_default_impls = do {
     let (started, running) = lifecycle_default_start False;
     _ \<leftarrow> unwrap started;
     let (stopped, running) = lifecycle_default_stop running;
     _ \<leftarrow> unwrap stopped;
     assert_true (\<not> running)
   }"

definition test_log_position_new :: test where
  "test_log_position_new = do {
     let pos = log_position_new ''mysql-bin.000001'' 12345;
     assert_eq (lp_journal_name pos) ''mysql-bin.000001'';
     assert_eq (lp_position pos) 12345
   }"

definition test_log_position_display :: test where
  "test_log_position_display = do {
     let pos = log_position_new ''mysql-bin.000001'' 999;
     assert_eq (log_position_display pos) ''mysql-bin.000001:999''
   }"

definition test_log_position_display_with_gtid :: test where
  "test_log_position_display_with_gtid = do {
     let pos = \<lparr>lp_journal_name = ''bin.001'', lp_position = 42, lp_timestamp = Some 1000,
         lp_server_id = Some 1, lp_gtid = Some ''uuid:1-100''\<rparr>;
     assert_eq (log_position_display pos) ''bin.001:42:uuid:1-100''
   }"

definition test_log_position_ord :: test where
  "test_log_position_ord = do {
     let p1 = log_position_new ''mysql-bin.000001'' 100;
     let p2 = log_position_new ''mysql-bin.000001'' 200;
     assert_true (p1 < p2);
     let p3 = log_position_new ''mysql-bin.000001'' 999;
     let p4 = log_position_new ''mysql-bin.000002'' 4;
     assert_true (p3 < p4)
   }"

definition test_log_position_ord_suffix_fallback :: test where
  "test_log_position_ord_suffix_fallback = do {
     let p1 = log_position_new ''mysql-bin.000001'' 100;
     let p2 = log_position_new ''relay-log'' 100;
     assert_true (p1 < p2)
   }"

definition test_event_type_from_i32 :: test where
  "test_event_type_from_i32 = do {
     assert_eq (event_type_from 1) EtInsert;
     assert_eq (event_type_from 2) EtUpdate;
     assert_eq (event_type_from 3) EtDelete;
     assert_eq (event_type_from 99) (EtUnknown 99)
   }"

definition test_events_new_is_empty :: test where
  "test_events_new_is_empty = do {
     let batch = events_new 42;
     assert_true (events_is_empty batch);
     assert_eq (events_len batch) 0
   }"

definition test_events_with_events_populates_range :: test where
  "test_events_with_events_populates_range = do {
     let e1 = \<lparr>ev_journal_name = ''bin.001'', ev_position = 100, ev_server_id = 1, ev_execute_time = 0,
         ev_entry_type = EtInsert, ev_schema_name = ''db'', ev_table_name = ''t'', ev_row_change = None,
         ev_ddl_sql = None, ev_gtid = None, ev_raw_bytes = []\<rparr>;
     let e2 = \<lparr>ev_journal_name = ''bin.001'', ev_position = 200, ev_server_id = 1, ev_execute_time = 0,
         ev_entry_type = EtUpdate, ev_schema_name = ''db'', ev_table_name = ''t'', ev_row_change = None,
         ev_ddl_sql = None, ev_gtid = None, ev_raw_bytes = []\<rparr>;
     let batch = events_with_events [e1, e2] 1;
     assert_eq (events_len batch) 2;
     assert_eq (lp_position (pr_start (es_position_range batch))) 100;
     assert_eq (lp_position (pr_end (es_position_range batch))) 200
   }"

definition test_filter_pattern_default :: test where
  "test_filter_pattern_default = do {
     let fp = filter_pattern_default;
     assert_eq (fp_pattern fp) (''.*'' @ backslash @ ''..*'');
     assert_true (fp_black_list fp = [])
   }"

definition test_column_value_key_detection :: test where
  "test_column_value_key_detection = do {
     let pk = \<lparr>cv_name = ''id'', cv_value = Some ''1'', cv_column_type = 3, cv_is_key = True, cv_updated = False\<rparr>;
     assert_true (cv_is_key pk);
     let non_pk = \<lparr>cv_name = ''name'', cv_value = None, cv_column_type = 253, cv_is_key = False, cv_updated = False\<rparr>;
     assert_true (\<not> cv_is_key non_pk)
   }"

definition test_row_change_roundtrip :: test where
  "test_row_change_roundtrip = do {
     let change = \<lparr>rc_table_name = ''users'', rc_schema_name = ''db'', rc_before = None,
         rc_after = Some \<lparr>rd_columns = []\<rparr>, rc_dml_type = DmlInsert\<rparr>;
     assert_eq (rc_dml_type change) DmlInsert
   }"

definition test_error_display :: test where
  "test_error_display = do {
     assert_eq (error_display (BinlogConnection ''timeout'')) ''binlog connection: timeout'';
     assert_eq (error_display (PositionNotFound ''bin.001'' 42)) ''position bin.001:42 not found'';
     assert_eq (error_display (Protocol ''bad packet'')) ''protocol: bad packet'';
     assert_eq (error_display (Internal ''oops'')) ''internal: oops''
   }"

lemma common_tests_pass_1:
  "test_lifecycle_default_impls = Some ()"
  "test_log_position_new = Some ()"
  "test_log_position_display = Some ()"
  "test_log_position_display_with_gtid = Some ()"
  "test_log_position_ord = Some ()"
  "test_log_position_ord_suffix_fallback = Some ()"
  "test_event_type_from_i32 = Some ()"
  "test_events_new_is_empty = Some ()"
  "test_events_with_events_populates_range = Some ()"
  "test_filter_pattern_default = Some ()"
  by (simp_all add: test_lifecycle_default_impls_def test_log_position_new_def
      test_log_position_display_def test_log_position_display_with_gtid_def test_log_position_ord_def
      test_log_position_ord_suffix_fallback_def test_event_type_from_i32_def test_events_new_is_empty_def
      test_events_with_events_populates_range_def test_filter_pattern_default_def
      lifecycle_default_start_def lifecycle_default_stop_def log_position_display_def error_display_def
      event_type_from_def events_new_def events_with_events_def events_is_empty_def events_len_def
      filter_pattern_default_def ev_log_position_def lp_less_iff lp_key_new nat_str.simps Let_def)

lemma common_tests_pass_2:
  "test_column_value_key_detection = Some ()"
  "test_row_change_roundtrip = Some ()"
  "test_error_display = Some ()"
  by (simp_all add: test_column_value_key_detection_def test_row_change_roundtrip_def
      test_error_display_def lifecycle_default_start_def lifecycle_default_stop_def
      log_position_display_def error_display_def event_type_from_def events_new_def
      events_with_events_def events_is_empty_def events_len_def filter_pattern_default_def
      ev_log_position_def lp_less_iff lp_key_new nat_str.simps Let_def)

subsection \<open>A small regex engine\<close>

text \<open>
  The syntax that the tests use: literal characters, the dot, a backslash before a literal, and the
  star after one character. A pattern matches a text when it matches somewhere in it.
\<close>

type_synonym regex_item = "char option \<times> bool"

fun tiny_parse :: "string \<Rightarrow> (string, regex_item list) rust_result" where
  "tiny_parse [] = Inr []"
| "tiny_parse (c # cs) =
     (if c = CHR ''['' then Inl ''regex parse error: unclosed character class''
      else if c = CHR 0x5C then
        (case cs of
           [] \<Rightarrow> Inl ''regex parse error: incomplete escape sequence''
         | d # ds \<Rightarrow> map_sum id (\<lambda>is. (Some d, False) # is) (tiny_parse ds))
      else if c = CHR ''*'' then Inl ''regex parse error: repetition operator missing expression''
      else
        (let item = (if c = CHR ''.'' then None else Some c)
         in (case cs of
               d # ds \<Rightarrow> (if d = CHR ''*'' then map_sum id (\<lambda>is. (item, True) # is) (tiny_parse ds)
                          else map_sum id (\<lambda>is. (item, False) # is) (tiny_parse cs))
             | [] \<Rightarrow> Inr [(item, False)])))"

function tiny_match :: "regex_item list \<Rightarrow> string \<Rightarrow> bool" where
  "tiny_match [] s = True"
| "tiny_match ((c, False) # is) [] = False"
| "tiny_match ((c, False) # is) (x # xs) \<longleftrightarrow> (c = None \<or> c = Some x) \<and> tiny_match is xs"
| "tiny_match ((c, True) # is) [] = tiny_match is []"
| "tiny_match ((c, True) # is) (x # xs) \<longleftrightarrow>
     tiny_match is (x # xs) \<or> (c = None \<or> c = Some x) \<and> tiny_match ((c, True) # is) xs"
  by pat_completeness auto
termination by lexicographic_order

fun tiny_search :: "regex_item list \<Rightarrow> string \<Rightarrow> bool" where
  "tiny_search is [] = tiny_match is []"
| "tiny_search is (x # xs) \<longleftrightarrow> tiny_match is (x # xs) \<or> tiny_search is xs"

definition tiny_regex :: regex_engine where
  "tiny_regex limit p = map_sum id tiny_search (tiny_parse p)"

lemma tiny_parse_literals: "tiny_parse (replicate n CHR ''x'') = Inr (replicate n (Some CHR ''x'', False))"
proof (induction n)
  case (Suc n)
  have "tiny_parse (CHR ''x'' # replicate n CHR ''x'')
      = (if n = 0 then Inr [(Some CHR ''x'', False)]
         else map_sum id (\<lambda>is. (Some CHR ''x'', False) # is) (tiny_parse (replicate n CHR ''x'')))"
    by (subst tiny_parse.simps(2), cases n) (simp_all add: Let_def del: tiny_parse.simps)
  with Suc show ?case by (auto simp del: tiny_parse.simps)
qed simp

subsection \<open>\<open>canal-filter\<close>\<close>

definition make_named_event :: "string \<Rightarrow> string \<Rightarrow> canal_event" where
  "make_named_event schema table =
     \<lparr>ev_journal_name = ''mysql-bin.000001'', ev_position = 100, ev_server_id = 1, ev_execute_time = 0,
      ev_entry_type = EtInsert, ev_schema_name = schema, ev_table_name = table,
      ev_row_change = None, ev_ddl_sql = None, ev_gtid = None, ev_raw_bytes = []\<rparr>"

definition any_table :: string where
  "any_table = ''.*'' @ backslash @ ''..*''"

definition test_match_all_pattern :: "regex_engine \<Rightarrow> test" where
  "test_match_all_pattern rx = do {
     flt \<leftarrow> unwrap (event_filter_new rx any_table);
     assert_true (filter_passes flt (make_named_event ''test_db'' ''users''));
     assert_true (filter_passes flt (make_named_event ''prod'' ''orders''))
   }"

definition test_specific_table :: "regex_engine \<Rightarrow> test" where
  "test_specific_table rx = do {
     flt \<leftarrow> unwrap (event_filter_new rx (''test_db'' @ backslash @ ''.users''));
     assert_true (filter_passes flt (make_named_event ''test_db'' ''users''));
     assert_true (\<not> filter_passes flt (make_named_event ''test_db'' ''orders''));
     assert_true (\<not> filter_passes flt (make_named_event ''other_db'' ''users''))
   }"

definition test_wildcard_schema :: "regex_engine \<Rightarrow> test" where
  "test_wildcard_schema rx = do {
     flt \<leftarrow> unwrap (event_filter_new rx (''.*'' @ backslash @ ''.users''));
     assert_true (filter_passes flt (make_named_event ''test_db'' ''users''));
     assert_true (filter_passes flt (make_named_event ''prod'' ''users''));
     assert_true (\<not> filter_passes flt (make_named_event ''test_db'' ''orders''))
   }"

definition test_blacklist_excludes :: "regex_engine \<Rightarrow> test" where
  "test_blacklist_excludes rx = do {
     flt \<leftarrow> unwrap (event_filter_with_blacklist rx any_table (''test_db'' @ backslash @ ''.logs''));
     assert_true (filter_passes flt (make_named_event ''test_db'' ''users''));
     assert_true (\<not> filter_passes flt (make_named_event ''test_db'' ''logs''))
   }"

definition test_empty_blacklist_passes_all :: "regex_engine \<Rightarrow> test" where
  "test_empty_blacklist_passes_all rx = do {
     flt \<leftarrow> unwrap (event_filter_with_blacklist rx any_table '''');
     assert_true (filter_passes flt (make_named_event ''test_db'' ''anything''))
   }"

definition test_invalid_regex_returns_error :: "regex_engine \<Rightarrow> test" where
  "test_invalid_regex_returns_error rx =
     assert_true (isl (event_filter_new rx ''[''))"

definition test_pattern_too_long_returns_error :: "regex_engine \<Rightarrow> test" where
  "test_pattern_too_long_returns_error rx = do {
     let long = replicate (max_filter_len + 1) CHR ''x'';
     err \<leftarrow> unwrap_err (event_filter_new rx long);
     assert_true (contains err ''pattern too long'')
   }"

definition test_blacklist_too_long_returns_error :: "regex_engine \<Rightarrow> test" where
  "test_blacklist_too_long_returns_error rx = do {
     let long = replicate (max_filter_len + 1) CHR ''x'';
     err \<leftarrow> unwrap_err (event_filter_with_blacklist rx any_table long);
     assert_true (contains err ''blacklist too long'')
   }"

definition test_pattern_at_max_length_is_ok :: "regex_engine \<Rightarrow> test" where
  "test_pattern_at_max_length_is_ok rx = do {
     let longest = replicate max_filter_len CHR ''x'';
     assert_true (\<not> isl (event_filter_new rx longest))
   }"

definition test_empty_blacklist_yields_none :: "regex_engine \<Rightarrow> test" where
  "test_empty_blacklist_yields_none rx = do {
     flt \<leftarrow> unwrap (event_filter_with_blacklist rx any_table '''');
     assert_true (ef_exclude flt = None)
   }"

definition test_matching_is_case_sensitive :: "regex_engine \<Rightarrow> test" where
  "test_matching_is_case_sensitive rx = do {
     flt \<leftarrow> unwrap (event_filter_new rx ''Users'');
     assert_true (\<not> filter_passes flt (make_named_event ''test_db'' ''users''));
     assert_true (filter_passes flt (make_named_event ''test_db'' ''Users''))
   }"

definition test_blacklist_matches_substring :: "regex_engine \<Rightarrow> test" where
  "test_blacklist_matches_substring rx = do {
     flt \<leftarrow> unwrap (event_filter_with_blacklist rx any_table ''log'');
     assert_true (\<not> filter_passes flt (make_named_event ''test_db'' ''logs''));
     assert_true (filter_passes flt (make_named_event ''test_db'' ''users''))
   }"

definition test_blacklist_wins_over_include :: "regex_engine \<Rightarrow> test" where
  "test_blacklist_wins_over_include rx = do {
     flt \<leftarrow> unwrap (event_filter_with_blacklist rx (''test_db'' @ backslash @ ''..*'') (''test_db'' @ backslash @ ''.users''));
     assert_true (\<not> filter_passes flt (make_named_event ''test_db'' ''users''));
     assert_true (filter_passes flt (make_named_event ''test_db'' ''orders''))
   }"

definition test_empty_schema_table_matches_all_pattern :: "regex_engine \<Rightarrow> test" where
  "test_empty_schema_table_matches_all_pattern rx = do {
     flt \<leftarrow> unwrap (event_filter_new rx any_table);
     assert_true (filter_passes flt (make_named_event '''' ''''))
   }"

lemmas run_filter = event_filter_new_def event_filter_with_blacklist_def filter_passes_def event_filter_matches_def
  make_named_event_def any_table_def max_filter_len_def max_regex_size_def too_long_error_def nat_str.simps tiny_regex_def Let_def

lemma filter_tests_pass_1:
  "test_match_all_pattern tiny_regex = Some ()"
  "test_specific_table tiny_regex = Some ()"
  "test_wildcard_schema tiny_regex = Some ()"
  "test_blacklist_excludes tiny_regex = Some ()"
  "test_empty_blacklist_passes_all tiny_regex = Some ()"
  by (simp_all add: test_match_all_pattern_def test_specific_table_def test_wildcard_schema_def
      test_blacklist_excludes_def test_empty_blacklist_passes_all_def run_filter tiny_parse_literals)

lemma filter_tests_pass_2:
  "test_invalid_regex_returns_error tiny_regex = Some ()"
  "test_pattern_too_long_returns_error tiny_regex = Some ()"
  "test_blacklist_too_long_returns_error tiny_regex = Some ()"
  "test_pattern_at_max_length_is_ok tiny_regex = Some ()"
  "test_empty_blacklist_yields_none tiny_regex = Some ()"
  by (simp_all add: test_invalid_regex_returns_error_def test_pattern_too_long_returns_error_def
      test_blacklist_too_long_returns_error_def test_pattern_at_max_length_is_ok_def
      test_empty_blacklist_yields_none_def run_filter tiny_parse_literals)

lemma filter_tests_pass_3:
  "test_matching_is_case_sensitive tiny_regex = Some ()"
  "test_blacklist_matches_substring tiny_regex = Some ()"
  "test_blacklist_wins_over_include tiny_regex = Some ()"
  "test_empty_schema_table_matches_all_pattern tiny_regex = Some ()"
  by (simp_all add: test_matching_is_case_sensitive_def test_blacklist_matches_substring_def
      test_blacklist_wins_over_include_def test_empty_schema_table_matches_all_pattern_def run_filter
      tiny_parse_literals)

subsection \<open>\<open>session.rs\<close>\<close>

text \<open>The wall clock, which stands still unless the test waits.\<close>

definition test_session_lifecycle :: "regex_engine \<Rightarrow> timestamp \<Rightarrow> test" where
  "test_session_lifecycle rx now = do {
     let mgr = session_manager_new;
     let flt = filter_pattern_default;
     let mgr = sessions_register rx now ''client-1'' ''example'' flt mgr;
     assert_true (sessions_get mgr ''client-1'' \<noteq> None);
     let mgr = sessions_unregister ''client-1'' mgr;
     assert_true (sessions_get mgr ''client-1'' = None)
   }"

definition test_position_tracking :: "regex_engine \<Rightarrow> timestamp \<Rightarrow> test" where
  "test_position_tracking rx now = do {
     let mgr = session_manager_new;
     let mgr = sessions_register rx now ''client-1'' ''example'' filter_pattern_default mgr;
     let pos = log_position_new ''mysql-bin.000001'' 500;
     let mgr = sessions_update_ack ''client-1'' pos mgr;
     session \<leftarrow> sessions_get mgr ''client-1'';
     acked \<leftarrow> cs_last_ack_position session;
     assert_eq (lp_position acked) 500
   }"

definition test_heartbeat_updates_timestamp :: "regex_engine \<Rightarrow> timestamp \<Rightarrow> test" where
  "test_heartbeat_updates_timestamp rx now = do {
     let mgr = session_manager_new;
     let mgr = sessions_register rx now ''client-1'' ''example'' filter_pattern_default mgr;
     session \<leftarrow> sessions_get mgr ''client-1'';
     let earlier = cs_last_heartbeat session;
     let mgr = sessions_heartbeat (now + 10) ''client-1'' mgr;
     session \<leftarrow> sessions_get mgr ''client-1'';
     let later = cs_last_heartbeat session;
     assert_true (earlier < later)
   }"

definition test_invalid_filter_regex_compiles_to_none :: "regex_engine \<Rightarrow> timestamp \<Rightarrow> test" where
  "test_invalid_filter_regex_compiles_to_none rx now = do {
     let mgr = session_manager_new;
     let flt = \<lparr>fp_pattern = ''[invalid'', fp_black_list = ''''\<rparr>;
     let mgr = sessions_register rx now ''c'' ''dest'' flt mgr;
     session \<leftarrow> sessions_get mgr ''c'';
     assert_true (cs_compiled_pattern session = None);
     assert_true (cs_compiled_black_list session = None)
   }"

definition test_invalid_blacklist_regex_compiles_to_none :: "regex_engine \<Rightarrow> timestamp \<Rightarrow> test" where
  "test_invalid_blacklist_regex_compiles_to_none rx now = do {
     let mgr = session_manager_new;
     let flt = \<lparr>fp_pattern = any_table, fp_black_list = ''[bad''\<rparr>;
     let mgr = sessions_register rx now ''c'' ''dest'' flt mgr;
     session \<leftarrow> sessions_get mgr ''c'';
     assert_true (cs_compiled_pattern session \<noteq> None);
     assert_true (cs_compiled_black_list session = None)
   }"

definition test_updates_for_unknown_client_are_noop :: "timestamp \<Rightarrow> test" where
  "test_updates_for_unknown_client_are_noop now = do {
     let mgr = session_manager_new;
     let pos = log_position_new ''mysql-bin.000001'' 100;
     let mgr = sessions_update_ack ''ghost'' pos mgr;
     let mgr = sessions_heartbeat now ''ghost'' mgr;
     assert_true (sessions_get mgr ''ghost'' = None)
   }"

definition test_register_overwrites_existing_session :: "regex_engine \<Rightarrow> timestamp \<Rightarrow> test" where
  "test_register_overwrites_existing_session rx now = do {
     let mgr = session_manager_new;
     let mgr = sessions_register rx now ''c'' ''dest-a'' filter_pattern_default mgr;
     let mgr = sessions_register rx now ''c'' ''dest-b'' filter_pattern_default mgr;
     session \<leftarrow> sessions_get mgr ''c'';
     assert_eq (cs_destination session) ''dest-b'';
     session \<leftarrow> sessions_get mgr ''c'';
     assert_eq (cs_client_id session) ''c''
   }"

definition test_session_manager_default :: "regex_engine \<Rightarrow> timestamp \<Rightarrow> test" where
  "test_session_manager_default rx now = do {
     let mgr = session_manager_new;
     let mgr = sessions_register rx now ''c'' ''d'' filter_pattern_default mgr;
     assert_true (sessions_get mgr ''c'' \<noteq> None)
   }"

definition test_session_position_storage :: "regex_engine \<Rightarrow> timestamp \<Rightarrow> test" where
  "test_session_position_storage rx now = do {
     let session = client_session_new rx now ''c1'' ''dest'' filter_pattern_default;
     assert_true (cs_last_ack_position session = None);
     let pos = log_position_new ''bin.001'' 42;
     let session = session\<lparr>cs_last_ack_position := Some pos\<rparr>;
     stored \<leftarrow> cs_last_ack_position session;
     assert_eq stored pos
   }"

lemma session_tests_pass:
  "test_session_lifecycle tiny_regex 1000 = Some ()"
  "test_position_tracking tiny_regex 1000 = Some ()"
  "test_heartbeat_updates_timestamp tiny_regex 1000 = Some ()"
  "test_invalid_filter_regex_compiles_to_none tiny_regex 1000 = Some ()"
  "test_invalid_blacklist_regex_compiles_to_none tiny_regex 1000 = Some ()"
  "test_updates_for_unknown_client_are_noop 1000 = Some ()"
  "test_register_overwrites_existing_session tiny_regex 1000 = Some ()"
  "test_session_manager_default tiny_regex 1000 = Some ()"
  "test_session_position_storage tiny_regex 1000 = Some ()"
  by (simp_all add: test_session_lifecycle_def test_position_tracking_def
      test_heartbeat_updates_timestamp_def test_invalid_filter_regex_compiles_to_none_def
      test_invalid_blacklist_regex_compiles_to_none_def test_updates_for_unknown_client_are_noop_def
      test_register_overwrites_existing_session_def test_session_manager_default_def
      test_session_position_storage_def session_manager_new_def sessions_register_def
      sessions_unregister_def sessions_get_def sessions_update_ack_def sessions_heartbeat_def
      client_session_new_def result_ok_def tiny_regex_def any_table_def filter_pattern_default_def)

end
