(* ===== verification/Canal_Tests_Store.thy ===== *)
theory Canal_Tests_Store
  imports Canal_Tests Canal_Store
begin

text \<open>
  The tests of \<open>memory.rs\<close>, run on the store of \<open>Canal_Store\<close>, in a build with debug assertions.
\<close>

definition make_event :: "string \<Rightarrow> u64 \<Rightarrow> canal_event" where
  "make_event journal pos =
     \<lparr>ev_journal_name = journal, ev_position = pos, ev_server_id = 1, ev_execute_time = 0,
      ev_entry_type = EtInsert, ev_schema_name = ''test_db'', ev_table_name = ''users'',
      ev_row_change = None, ev_ddl_sql = None, ev_gtid = None, ev_raw_bytes = []\<rparr>"

text \<open>\<open>store.put_batch(..).await.unwrap()\<close> and \<open>store.get_batch(..).await.unwrap()\<close>.\<close>

definition putting :: "canal_event list \<Rightarrow> mem_store \<Rightarrow> (i64 \<times> mem_store) option" where
  "putting evs store =
     (case put_batch True evs store of (Some i, store') \<Rightarrow> Some (i, store') | (None, _) \<Rightarrow> None)"

definition getting :: "log_position \<Rightarrow> nat \<Rightarrow> mem_store \<Rightarrow> (events \<times> mem_store) option" where
  "getting start n store =
     (case get_batch start n [TimedOut] store of
        (Some batch, store') \<Rightarrow> Some (batch, store') | (None, _) \<Rightarrow> None)"

lemma store_journal_suffix [simp]:
  "binlog_suffix ''mysql-bin.000001'' = 1" "binlog_suffix ''mysql-bin.000002'' = 2"
  by (simp_all add: binlog_suffix_def last_segment_def parse_u64_def is_digit_def digit_val_def Let_def)

lemma make_event_simps [simp]:
  "ev_key (make_event j p) = (binlog_suffix j, p)" "ev_position (make_event j p) = p"
  "ev_log_position (make_event j p) = log_position_new j p"
  "ev_journal_name (make_event j p) = j" "ev_execute_time (make_event j p) = 0"
  by (simp_all add: make_event_def ev_key_def ev_log_position_def)

lemma store_position_new [simp]: "lp_position (log_position_new j p) = p"
  by (simp add: log_position_new_def)

lemmas run_store = mem_store_new_def putting_def getting_def put_batch_def put_evict_def put_truncate_def
  bump_watermark_def raise_position_def feed_in_order_def mem_store_start_def mem_store_stop_def get_scan_def get_start_idx_def partition_point_def pp_loop.simps
  lp_less_iff lp_key_new events_len_def events_is_empty_def events_new_def word_sless_alt Let_def

definition test_put_and_get_batch :: test where
  "test_put_and_get_batch = do {
     store \<leftarrow> mem_store_new 1024;
     (_, store) \<leftarrow> putting [make_event ''mysql-bin.000001'' 100] store;
     (batch, store) \<leftarrow> getting (log_position_new ''mysql-bin.000001'' 4) 10 store;
     assert_eq (events_len batch) 1
   }"

definition test_latest_position_tracks_head :: test where
  "test_latest_position_tracks_head = do {
     store \<leftarrow> mem_store_new 1024;
     (_, store) \<leftarrow> putting [make_event ''mysql-bin.000001'' 100, make_event ''mysql-bin.000001'' 200] store;
     latest \<leftarrow> ms_latest_position store;
     assert_eq (lp_position latest) 200
   }"

definition test_buffer_overflow_evicts_oldest :: test where
  "test_buffer_overflow_evicts_oldest = do {
     store \<leftarrow> mem_store_new 2;
     (_, store) \<leftarrow> putting [make_event ''mysql-bin.000001'' 100, make_event ''mysql-bin.000001'' 200] store;
     (_, store) \<leftarrow> putting [make_event ''mysql-bin.000001'' 300] store;
     (batch, store) \<leftarrow> getting (log_position_new ''mysql-bin.000001'' 50) 10 store;
     event \<leftarrow> nth_panics (es_events batch) 0;
     assert_eq (ev_position event) 200
   }"

definition test_oversized_batch_truncated :: test where
  "test_oversized_batch_truncated = do {
     store \<leftarrow> mem_store_new 2;
     (_, store) \<leftarrow> putting [make_event ''mysql-bin.000001'' 100, make_event ''mysql-bin.000001'' 200, make_event ''mysql-bin.000001'' 300] store;
     latest \<leftarrow> ms_latest_position store;
     assert_eq (lp_position latest) 300
   }"

definition test_empty_put_is_noop :: test where
  "test_empty_put_is_noop = do {
     store \<leftarrow> mem_store_new 1024;
     (_, store) \<leftarrow> putting [] store;
     assert_true (ms_latest_position store = None)
   }"

definition test_lifecycle_start_stop :: test where
  "test_lifecycle_start_stop = do {
     store \<leftarrow> mem_store_new 1024;
     assert_true (\<not> ms_running store);
     let store = mem_store_start store;
     assert_true (ms_running store);
     let store = mem_store_stop store;
     assert_true (\<not> ms_running store)
   }"

definition test_get_batch_skips_start_position :: test where
  "test_get_batch_skips_start_position = do {
     store \<leftarrow> mem_store_new 1024;
     (_, store) \<leftarrow> putting [make_event ''mysql-bin.000001'' 100, make_event ''mysql-bin.000001'' 200] store;
     (batch, store) \<leftarrow> getting (log_position_new ''mysql-bin.000001'' 100) 10 store;
     assert_eq (events_len batch) 1;
     event \<leftarrow> nth_panics (es_events batch) 0;
     assert_eq (ev_position event) 200
   }"

definition test_get_batch_mid_buffer :: test where
  "test_get_batch_mid_buffer = do {
     store \<leftarrow> mem_store_new 1024;
     (_, store) \<leftarrow> putting [make_event ''mysql-bin.000001'' 100, make_event ''mysql-bin.000001'' 200, make_event ''mysql-bin.000001'' 300] store;
     (batch, store) \<leftarrow> getting (log_position_new ''mysql-bin.000001'' 200) 10 store;
     assert_eq (events_len batch) 1;
     event \<leftarrow> nth_panics (es_events batch) 0;
     assert_eq (ev_position event) 300
   }"

definition test_get_batch_zero_batch_size_returns_one :: test where
  "test_get_batch_zero_batch_size_returns_one = do {
     store \<leftarrow> mem_store_new 1024;
     (_, store) \<leftarrow> putting [make_event ''mysql-bin.000001'' 100, make_event ''mysql-bin.000001'' 200] store;
     (batch, store) \<leftarrow> getting (log_position_new ''mysql-bin.000001'' 50) 0 store;
     assert_eq (events_len batch) 1;
     event \<leftarrow> nth_panics (es_events batch) 0;
     assert_eq (ev_position event) 100
   }"

definition test_get_batch_does_not_consume :: test where
  "test_get_batch_does_not_consume = do {
     store \<leftarrow> mem_store_new 1024;
     (_, store) \<leftarrow> putting [make_event ''mysql-bin.000001'' 100, make_event ''mysql-bin.000001'' 200] store;
     (b1, store) \<leftarrow> getting (log_position_new ''mysql-bin.000001'' 50) 10 store;
     (b2, store) \<leftarrow> getting (log_position_new ''mysql-bin.000001'' 50) 10 store;
     assert_eq (events_len b1) 2;
     assert_eq (events_len b2) 2;
     e1 \<leftarrow> nth_panics (es_events b1) 0;
     e2 \<leftarrow> nth_panics (es_events b2) 0;
     assert_eq (ev_position e1) (ev_position e2)
   }"

definition test_get_batch_keeps_position_group_together :: test where
  "test_get_batch_keeps_position_group_together = do {
     store \<leftarrow> mem_store_new 1024;
     (_, store) \<leftarrow> putting [make_event ''mysql-bin.000001'' 100, make_event ''mysql-bin.000001'' 100, make_event ''mysql-bin.000001'' 200] store;
     (batch, store) \<leftarrow> getting (log_position_new ''mysql-bin.000001'' 50) 1 store;
     assert_eq (events_len batch) 2;
     event \<leftarrow> nth_panics (es_events batch) 0;
     assert_eq (ev_position event) 100;
     event \<leftarrow> nth_panics (es_events batch) 1;
     assert_eq (ev_position event) 100
   }"

definition test_first_position_tracks_front :: test where
  "test_first_position_tracks_front = do {
     store \<leftarrow> mem_store_new 1024;
     (_, store) \<leftarrow> putting [make_event ''mysql-bin.000001'' 100, make_event ''mysql-bin.000001'' 200] store;
     first \<leftarrow> ms_first_position store;
     assert_eq (lp_position first) 100
   }"

definition test_first_position_after_eviction :: test where
  "test_first_position_after_eviction = do {
     store \<leftarrow> mem_store_new 2;
     (_, store) \<leftarrow> putting [make_event ''mysql-bin.000001'' 100, make_event ''mysql-bin.000001'' 200] store;
     (_, store) \<leftarrow> putting [make_event ''mysql-bin.000001'' 300] store;
     first \<leftarrow> ms_first_position store;
     assert_eq (lp_position first) 200;
     latest \<leftarrow> ms_latest_position store;
     assert_eq (lp_position latest) 300
   }"

definition test_get_batch_with_timestamp_cursor_selects_by_execute_time :: test where
  "test_get_batch_with_timestamp_cursor_selects_by_execute_time = do {
     store \<leftarrow> mem_store_new 1024;
     let early = (make_event ''mysql-bin.000001'' 100)\<lparr>ev_execute_time := 1000\<rparr>;
     let late = (make_event ''mysql-bin.000001'' 200)\<lparr>ev_execute_time := 2000\<rparr>;
     (_, store) \<leftarrow> putting [early, late] store;
     let start = \<lparr>lp_journal_name = '''', lp_position = 0, lp_timestamp = Some 1500, lp_server_id = None, lp_gtid = None\<rparr>;
     (batch, store) \<leftarrow> getting start 10 store;
     assert_eq (events_len batch) 1;
     event \<leftarrow> nth_panics (es_events batch) 0;
     assert_eq (ev_position event) 200
   }"

definition test_evicted_watermark_none_until_eviction :: test where
  "test_evicted_watermark_none_until_eviction = do {
     store \<leftarrow> mem_store_new 2;
     (_, store) \<leftarrow> putting [make_event ''mysql-bin.000001'' 100, make_event ''mysql-bin.000001'' 200] store;
     assert_true (ms_evicted_watermark store = None);
     (_, store) \<leftarrow> putting [make_event ''mysql-bin.000001'' 300] store;
     watermark \<leftarrow> ms_evicted_watermark store;
     assert_eq (lp_position watermark) 100
   }"

definition test_evicted_watermark_covers_oversized_batch_drop :: test where
  "test_evicted_watermark_covers_oversized_batch_drop = do {
     store \<leftarrow> mem_store_new 2;
     (_, store) \<leftarrow> putting [make_event ''mysql-bin.000001'' 100, make_event ''mysql-bin.000001'' 200, make_event ''mysql-bin.000001'' 300] store;
     watermark \<leftarrow> ms_evicted_watermark store;
     assert_eq (lp_position watermark) 100
   }"

definition test_put_batch_id_increments :: test where
  "test_put_batch_id_increments = do {
     store \<leftarrow> mem_store_new 1024;
     (id1, store) \<leftarrow> putting [make_event ''mysql-bin.000001'' 100] store;
     (id2, store) \<leftarrow> putting [make_event ''mysql-bin.000001'' 200] store;
     assert_eq id1 0;
     assert_true (id1 <s id2)
   }"

definition test_cross_journal_batch_read :: test where
  "test_cross_journal_batch_read = do {
     store \<leftarrow> mem_store_new 1024;
     (_, store) \<leftarrow> putting [make_event ''mysql-bin.000001'' 100] store;
     (_, store) \<leftarrow> putting [make_event ''mysql-bin.000002'' 50] store;
     (batch, store) \<leftarrow> getting (log_position_new ''mysql-bin.000001'' 0) 10 store;
     assert_eq (events_len batch) 2;
     (batch2, store) \<leftarrow> getting (log_position_new ''mysql-bin.000002'' 0) 10 store;
     assert_eq (events_len batch2) 1;
     event \<leftarrow> nth_panics (es_events batch2) 0;
     assert_eq (ev_journal_name event) ''mysql-bin.000002''
   }"

definition test_empty_batch_timeout_returns_empty_events :: test where
  "test_empty_batch_timeout_returns_empty_events = do {
     store \<leftarrow> mem_store_new 1024;
     (_, store) \<leftarrow> putting [make_event ''mysql-bin.000001'' 100] store;
     (batch, store) \<leftarrow> getting (log_position_new ''mysql-bin.000001'' 500) 10 store;
     assert_true (events_is_empty batch);
     assert_eq (es_batch_id batch) 0
   }"

lemma memory_tests_pass_1:
  "test_put_and_get_batch = Some ()"
  "test_latest_position_tracks_head = Some ()"
  "test_buffer_overflow_evicts_oldest = Some ()"
  "test_oversized_batch_truncated = Some ()"
  "test_empty_put_is_noop = Some ()"
  "test_lifecycle_start_stop = Some ()"
  "test_get_batch_skips_start_position = Some ()"
  "test_get_batch_mid_buffer = Some ()"
  "test_get_batch_zero_batch_size_returns_one = Some ()"
  "test_get_batch_does_not_consume = Some ()"
  by (simp_all add: test_put_and_get_batch_def test_latest_position_tracks_head_def
      test_buffer_overflow_evicts_oldest_def test_oversized_batch_truncated_def
      test_empty_put_is_noop_def test_lifecycle_start_stop_def test_get_batch_skips_start_position_def
      test_get_batch_mid_buffer_def test_get_batch_zero_batch_size_returns_one_def
      test_get_batch_does_not_consume_def run_store)

lemma memory_tests_pass_2:
  "test_get_batch_keeps_position_group_together = Some ()"
  "test_first_position_tracks_front = Some ()"
  "test_first_position_after_eviction = Some ()"
  "test_get_batch_with_timestamp_cursor_selects_by_execute_time = Some ()"
  "test_evicted_watermark_none_until_eviction = Some ()"
  "test_evicted_watermark_covers_oversized_batch_drop = Some ()"
  "test_put_batch_id_increments = Some ()"
  "test_cross_journal_batch_read = Some ()"
  "test_empty_batch_timeout_returns_empty_events = Some ()"
  by (simp_all add: test_get_batch_keeps_position_group_together_def test_first_position_tracks_front_def
      test_first_position_after_eviction_def
      test_get_batch_with_timestamp_cursor_selects_by_execute_time_def
      test_evicted_watermark_none_until_eviction_def
      test_evicted_watermark_covers_oversized_batch_drop_def test_put_batch_id_increments_def
      test_cross_journal_batch_read_def test_empty_batch_timeout_returns_empty_events_def run_store)

end
