(* ===== verification/Canal_Tests_Codec.thy ===== *)
theory Canal_Tests_Codec
  imports Canal_Tests Canal_Codec
begin

text \<open>
  The tests of the frame codec, \<open>codec.rs\<close>. One is left out: it looks at the capacity of the
  buffer, which is the \<open>bytes\<close> crate's (what the decoder asks for is \<open>codec_reserve\<close>).
\<close>

text \<open>A call of the decoder, and a call of the encoder.\<close>

definition decoding :: "bytes \<Rightarrow> (bytes option \<times> bytes) option" where
  "decoding buf = (case codec_decode buf of (r, buf') \<Rightarrow> map_option (\<lambda>x. (x, buf')) (unwrap r))"

definition encoding :: "bytes \<Rightarrow> bytes \<Rightarrow> bytes option" where
  "encoding item buf = (case codec_encode item buf of (r, buf') \<Rightarrow> map_option (\<lambda>_. buf') (unwrap r))"

definition hello :: bytes where
  "hello = [104, 101, 108, 108, 111]"

definition test_payload :: bytes where
  "test_payload = [116, 101, 115, 116, 45, 112, 97, 121, 108, 111, 97, 100]"
definition test_decode_complete_packet :: test where
  "test_decode_complete_packet = do {
     (result, buf) \<leftarrow> decoding ([0, 0, 0, 5] @ hello);
     assert_eq result (Some hello);
     assert_eq (length buf) 0
   }"

definition test_decode_incomplete_header :: test where
  "test_decode_incomplete_header = do {
     (result, buf) \<leftarrow> decoding [0, 0];
     assert_eq result None;
     assert_eq (length buf) 2
   }"

definition test_decode_incomplete_payload :: test where
  "test_decode_incomplete_payload = do {
     (result, buf) \<leftarrow> decoding [0, 0, 0, 10, 1, 2, 3];
     assert_eq result None;
     assert_eq (length buf) 7
   }"

definition test_encode_roundtrip :: test where
  "test_encode_roundtrip = do {
     buf \<leftarrow> encoding test_payload [];
     (decoded, buf) \<leftarrow> decoding buf;
     assert_eq decoded (Some test_payload)
   }"

definition test_decode_multiple_packets :: test where
  "test_decode_multiple_packets = do {
     (pkt1, buf) \<leftarrow> decoding [0, 0, 0, 1, 42, 0, 0, 0, 1, 99];
     assert_eq pkt1 (Some [42]);
     (pkt2, buf) \<leftarrow> decoding buf;
     assert_eq pkt2 (Some [99]);
     assert_eq (length buf) 0
   }"

definition test_encode_header_is_big_endian :: test where
  "test_encode_header_is_big_endian = do {
     buf \<leftarrow> encoding (replicate 300 0) [];
     assert_eq (buf ! 0) 0;
     assert_eq (buf ! 1) 0;
     assert_eq (buf ! 2) 1;
     assert_eq (buf ! 3) 0x2C;
     assert_eq (length buf) 304
   }"

definition test_decode_zero_length_frame :: test where
  "test_decode_zero_length_frame = do {
     (result, buf) \<leftarrow> decoding [0, 0, 0, 0];
     assert_eq result (Some []);
     assert_eq (length buf) 0
   }"

definition test_decode_rejects_oversize_packet :: test where
  "test_decode_rejects_oversize_packet = do {
     let (r, buf) = codec_decode [0x00, 0x80, 0x00, 0x01];
     err \<leftarrow> unwrap_err r;
     assert_true (case err of Protocol _ \<Rightarrow> True | _ \<Rightarrow> False);
     assert_eq (length buf) 4
   }"

definition test_decode_max_size_header_waits_for_payload :: test where
  "test_decode_max_size_header_waits_for_payload = do {
     let buf = u32_to_be_bytes (8 * 1024 * 1024);
     (result, buf) \<leftarrow> decoding buf;
     assert_eq result None
   }"

definition test_decode_large_frame_split_across_reads :: test where
  "test_decode_large_frame_split_across_reads = do {
     let buf = u32_to_be_bytes 100000 @ replicate 50000 1;
     (result, buf) \<leftarrow> decoding buf;
     assert_eq result None;
     let buf = buf @ replicate 50000 2;
     (result, buf) \<leftarrow> decoding buf;
     frame \<leftarrow> result;
     assert_eq (length frame) 100000;
     assert_eq (frame ! 0) 1;
     assert_eq (frame ! 99999) 2
   }"

definition test_decode_exact_boundary_payload :: test where
  "test_decode_exact_boundary_payload = do {
     (result, buf) \<leftarrow> decoding [0, 0, 0, 2, 1, 2];
     assert_eq result (Some [1, 2]);
     assert_eq (length buf) 0
   }"

definition test_encode_empty_payload_roundtrip :: test where
  "test_encode_empty_payload_roundtrip = do {
     buf \<leftarrow> encoding [] [];
     assert_eq (length buf) 4;
     (decoded, buf) \<leftarrow> decoding buf;
     assert_eq decoded (Some [])
   }"

definition test_encode_large_payload_roundtrip :: test where
  "test_encode_large_payload_roundtrip = do {
     let payload = replicate (64 * 1024) 7;
     buf \<leftarrow> encoding payload [];
     (decoded, buf) \<leftarrow> decoding buf;
     assert_eq decoded (Some payload)
   }"

definition test_decode_multiple_packets_with_zero_length_frame :: test where
  "test_decode_multiple_packets_with_zero_length_frame = do {
     (pkt1, buf) \<leftarrow> decoding [0, 0, 0, 1, 42, 0, 0, 0, 0, 0, 0, 0, 1, 99];
     assert_eq pkt1 (Some [42]);
     (pkt2, buf) \<leftarrow> decoding buf;
     assert_eq pkt2 (Some []);
     (pkt3, buf) \<leftarrow> decoding buf;
     assert_eq pkt3 (Some [99]);
     assert_eq (length buf) 0
   }"

lemma codec_tests_pass_1:
  "test_decode_complete_packet = Some ()"
  "test_decode_incomplete_header = Some ()"
  "test_decode_incomplete_payload = Some ()"
  "test_encode_roundtrip = Some ()"
  "test_decode_multiple_packets = Some ()"
  "test_decode_zero_length_frame = Some ()"
  "test_decode_rejects_oversize_packet = Some ()"
  "test_decode_max_size_header_waits_for_payload = Some ()"
  "test_decode_exact_boundary_payload = Some ()"
  "test_encode_empty_payload_roundtrip = Some ()"
  by (simp_all add: test_decode_complete_packet_def test_decode_incomplete_header_def
      test_decode_incomplete_payload_def test_encode_roundtrip_def test_decode_multiple_packets_def
      test_decode_zero_length_frame_def test_decode_rejects_oversize_packet_def
      test_decode_max_size_header_waits_for_payload_def test_decode_exact_boundary_payload_def
      test_encode_empty_payload_roundtrip_def decoding_def encoding_def codec_decode_def codec_encode_def
      hello_def test_payload_def u32_from_be_bytes_def u32_to_be_bytes_def max_packet_size_def Let_def)

lemma codec_tests_pass_2:
  "test_decode_multiple_packets_with_zero_length_frame = Some ()"
  by (simp_all add: test_decode_multiple_packets_with_zero_length_frame_def decoding_def encoding_def
      codec_decode_def codec_encode_def hello_def test_payload_def u32_from_be_bytes_def
      u32_to_be_bytes_def max_packet_size_def Let_def)

text \<open>The large frames, which are not written out.\<close>

lemma decode_large_split:
  "codec_decode (u32_to_be_bytes (of_nat (length (a @ b))) @ a) = (Inr None, u32_to_be_bytes (of_nat (length (a @ b))) @ a)"
  if "length (a @ b) \<le> max_packet_size" "b \<noteq> []" "a \<noteq> []" for a b :: bytes
  using unat_frame_length [OF that(1)] that by (simp add: codec_decode_def Let_def)

lemma large_frames_pass:
  "test_encode_header_is_big_endian = Some ()"
  "test_decode_large_frame_split_across_reads = Some ()"
  "test_encode_large_payload_roundtrip = Some ()"
proof -
  show "test_encode_header_is_big_endian = Some ()"
    by (simp add: test_encode_header_is_big_endian_def encoding_def codec_encode_def u32_to_be_bytes_def Let_def)
  show "test_encode_large_payload_roundtrip = Some ()"
    using codec_decode_frame [of "replicate (64 * 1024) 7" "[]"]
    by (simp add: test_encode_large_payload_roundtrip_def encoding_def decoding_def codec_encode_eq max_packet_size_def
        Let_def)
  let ?a = "replicate 50000 1 :: bytes" and ?b = "replicate 50000 2 :: bytes"
  have len: "(of_nat (length (?a @ ?b)) :: u32) = 100000" "length (?a @ ?b) \<le> max_packet_size"
    by (simp_all add: max_packet_size_def)
  have "codec_decode (u32_to_be_bytes 100000 @ ?a) = (Inr None, u32_to_be_bytes 100000 @ ?a)"
    using decode_large_split [OF len(2)] unfolding len(1) by simp
  moreover have "codec_decode (u32_to_be_bytes 100000 @ ?a @ ?b) = (Inr (Some (?a @ ?b)), [])"
    using codec_decode_frame [OF len(2), of "[]"] unfolding codec_frame_eq len(1) by simp
  ultimately show "test_decode_large_frame_split_across_reads = Some ()"
    by (simp add: test_decode_large_frame_split_across_reads_def decoding_def nth_append Let_def)
qed

end
