(* ===== verification/Canal_Tests_Binlog.thy ===== *)
theory Canal_Tests_Binlog
  imports Canal_Tests Canal_Connector
begin

text \<open>
  The tests of \<open>canal-binlog\<close>: \<open>column_serde.rs\<close>, \<open>table_map.rs\<close>, \<open>converter.rs\<close> and \<open>connector.rs\<close>.
  The texts of floating point numbers are the standard library's; the test that looks at them is
  run with the two texts it expects.
\<close>

subsection \<open>\<open>column_serde.rs\<close>\<close>

definition make_table_map_event ::
    "u8 list \<Rightarrow> bool list \<Rightarrow> table_metadata option \<Rightarrow> table_map_event" where
  "make_table_map_event column_types null_bitmap meta =
     \<lparr>tm_table_id = 1, tm_database_name = ''db'', tm_table_name = ''t'', tm_column_types = column_types,
      tm_null_bitmap = null_bitmap, tm_table_metadata = meta\<rparr>"

text \<open>The bits of 1.5 as an \<open>f32\<close> and of -2.25 as an \<open>f64\<close>.\<close>

definition one_and_a_half :: u32 where
  "one_and_a_half = 0x3FC00000"

definition minus_two_and_a_quarter :: u64 where
  "minus_two_and_a_quarter = 0xC002000000000000"

definition test_floats :: float_display where
  "test_floats =
     \<lparr>fd_f32 = (\<lambda>x. if x = one_and_a_half then ''1.5'' else ''?''),
      fd_f64 = (\<lambda>x. if x = minus_two_and_a_quarter then ''-2.25'' else ''?'')\<rparr>"
definition test_mysql_value_to_string_numerics :: "float_display \<Rightarrow> test" where
  "test_mysql_value_to_string_numerics fd = do {
     assert_eq (mysql_value_to_string fd (TinyInt 255)) ''255'';
     assert_eq (mysql_value_to_string fd (SmallInt 65535)) ''65535'';
     assert_eq (mysql_value_to_string fd (MediumInt 16777215)) ''16777215'';
     assert_eq (mysql_value_to_string fd (MyInt 42)) ''42'';
     assert_eq (mysql_value_to_string fd (BigInt 18446744073709551615)) ''18446744073709551615'';
     assert_eq (mysql_value_to_string fd (MyFloat one_and_a_half)) ''1.5'';
     assert_eq (mysql_value_to_string fd (MyDouble minus_two_and_a_quarter)) ''-2.25'';
     assert_eq (mysql_value_to_string fd (MyDecimal ''123.45'')) ''123.45'';
     assert_eq (mysql_value_to_string fd (MyString ''hello'')) ''hello'';
     assert_eq (mysql_value_to_string fd (MyEnum 3)) ''3'';
     assert_eq (mysql_value_to_string fd (MySet 5)) ''5'';
     assert_eq (mysql_value_to_string fd (MyYear 2024)) ''2024''
   }"

definition test_mysql_value_to_string_blob :: "float_display \<Rightarrow> test" where
  "test_mysql_value_to_string_blob fd = do {
     assert_eq (mysql_value_to_string fd (MyBlob (as_bytes ''plain text''))) ''plain text'';
     assert_eq (mysql_value_to_string fd (MyBlob [0xff, 0x00, 0xab])) ''ff00ab'';
     assert_eq (mysql_value_to_string fd (MyBlob [])) ''''
   }"

definition test_mysql_value_to_string_bit :: "float_display \<Rightarrow> test" where
  "test_mysql_value_to_string_bit fd = do {
     assert_eq (mysql_value_to_string fd (MyBit [])) '''';
     assert_eq (mysql_value_to_string fd (MyBit [True, False, True])) ''101'';
     assert_eq (mysql_value_to_string fd (MyBit (replicate 4 False))) ''0000''
   }"

definition test_mysql_value_to_string_temporal :: "float_display \<Rightarrow> test" where
  "test_mysql_value_to_string_temporal fd = do {
     assert_eq (mysql_value_to_string fd (MyDate \<lparr>md_year = 2024, md_month = 1, md_day = 31\<rparr>)) ''2024-01-31'';
     assert_eq (mysql_value_to_string fd (MyDate \<lparr>md_year = 7, md_month = 3, md_day = 2\<rparr>)) ''0007-03-02'';
     assert_eq (mysql_value_to_string fd (MyTime \<lparr>mt_hour = 10, mt_minute = 30, mt_second = 59\<rparr>)) ''10:30:59'';
     assert_eq (mysql_value_to_string fd (MyDateTime \<lparr>md_year = 2024, md_month = 12, md_day = 31\<rparr>
         \<lparr>mt_hour = 23, mt_minute = 59, mt_second = 58\<rparr>)) ''2024-12-31 23:59:58'';
     assert_eq (mysql_value_to_string fd (MyTimestamp 1700000000)) ''1700000000''
   }"

definition test_build_column_infos_without_metadata :: test where
  "test_build_column_infos_without_metadata = do {
     let tm = make_table_map_event [3, 253, 4] [False, True, False] None;
     let infos = build_column_infos tm;
     assert_eq (length infos) 3;
     i0 \<leftarrow> nth_panics infos 0;
     i1 \<leftarrow> nth_panics infos 1;
     i2 \<leftarrow> nth_panics infos 2;
     assert_eq (ci_name i0) ''col_0'';
     assert_eq (ci_name i1) ''col_1'';
     assert_eq (ci_column_type i0) 3;
     assert_eq (ci_column_type i2) 4;
     assert_true (\<not> ci_is_key i0);
     assert_true (ci_is_nullable i1);
     assert_true (\<not> ci_is_nullable i2)
   }"

definition test_build_column_infos_with_names_and_pks :: test where
  "test_build_column_infos_with_names_and_pks = do {
     let meta = \<lparr>tmd_column_names = Some [''id'', ''name'', ''age''], tmd_simple_primary_keys = Some [0],
         tmd_primary_keys_with_prefix = Some [(1, 10)]\<rparr>;
     let tm = make_table_map_event [3, 253, 3] [False, False, False] (Some meta);
     let infos = build_column_infos tm;
     i0 \<leftarrow> nth_panics infos 0;
     i1 \<leftarrow> nth_panics infos 1;
     i2 \<leftarrow> nth_panics infos 2;
     assert_eq (ci_name i0) ''id'';
     assert_eq (ci_name i1) ''name'';
     assert_true (ci_is_key i0);
     assert_true (ci_is_key i1);
     assert_true (\<not> ci_is_key i2);
     assert_true (\<not> ci_is_nullable i2)
   }"

definition test_build_column_infos_pk_out_of_bounds_ignored :: test where
  "test_build_column_infos_pk_out_of_bounds_ignored = do {
     let meta = \<lparr>tmd_column_names = Some [''id''], tmd_simple_primary_keys = Some [5],
         tmd_primary_keys_with_prefix = Some [(9, 4)]\<rparr>;
     let tm = make_table_map_event [3] [True] (Some meta);
     let infos = build_column_infos tm;
     assert_eq (length infos) 1;
     i0 \<leftarrow> nth_panics infos 0;
     assert_true (\<not> ci_is_key i0)
   }"

definition test_build_column_infos_short_vectors :: test where
  "test_build_column_infos_short_vectors = do {
     let meta = \<lparr>tmd_column_names = Some [''a'', ''b'', ''c''], tmd_simple_primary_keys = None,
         tmd_primary_keys_with_prefix = None\<rparr>;
     let tm = make_table_map_event [3, 253] [False] (Some meta);
     let infos = build_column_infos tm;
     assert_eq (length infos) 2;
     i0 \<leftarrow> nth_panics infos 0;
     i1 \<leftarrow> nth_panics infos 1;
     assert_eq (ci_name i0) ''a'';
     assert_eq (ci_name i1) ''b'';
     assert_eq (ci_column_type i0) 3;
     assert_eq (ci_column_type i1) 253;
     assert_true (\<not> ci_is_nullable i0);
     assert_true (ci_is_nullable i1)
   }"

definition test_extract_column_values_with_infos :: "float_display \<Rightarrow> test" where
  "test_extract_column_values_with_infos fd = do {
     let infos =
         [\<lparr>ci_name = ''id'', ci_column_type = 3, ci_is_key = True, ci_is_nullable = False\<rparr>,
          \<lparr>ci_name = ''note'', ci_column_type = 253, ci_is_key = False, ci_is_nullable = True\<rparr>];
     let row = [Some (MyInt 7), None, Some (MyString ''extra'')];
     let values = extract_column_values fd row infos;
     assert_eq (length values) 3;
     v0 \<leftarrow> nth_panics values 0;
     v1 \<leftarrow> nth_panics values 1;
     v2 \<leftarrow> nth_panics values 2;
     assert_eq (cv_name v0) ''id'';
     assert_eq (cv_value v0) (Some ''7'');
     assert_true (cv_is_key v0);
     assert_eq (cv_column_type v0) 3;
     assert_eq (cv_name v1) ''note'';
     assert_true (cv_value v1 = None);
     assert_eq (cv_name v2) ''col_2'';
     assert_eq (cv_value v2) (Some ''extra'');
     assert_true (\<not> cv_is_key v2);
     assert_eq (cv_column_type v2) 0;
     assert_true (list_all (\<lambda>v. \<not> cv_updated v) values)
   }"

definition test_extract_column_values_empty :: "float_display \<Rightarrow> test" where
  "test_extract_column_values_empty fd =
     assert_true (extract_column_values fd [] [] = [])"

lemma hex_digits:
  "hex_digit 0 = CHR ''0''" "hex_digit 10 = CHR ''a''" "hex_digit 11 = CHR ''b''" "hex_digit 15 = CHR ''f''"
  by (simp_all add: hex_digit_def char_of_def bit_0)

lemma utf8_samples:
  "of_bytes [] = []" "utf8_valid []" "\<not> utf8_valid [255, 0, 171]" "utf8_valid (map unat (as_bytes ''plain text''))"
  by (simp_all add: utf8_valid.simps utf8_step_def utf8_seq3_def utf8_seq4_def utf8_cont_def as_bytes_def of_bytes_def)

lemmas run_columns = mysql_value_to_string_def test_floats_def one_and_a_half_def minus_two_and_a_quarter_def
  int_str_def nat_str.simps replicate_numeral hex_byte_def hex_digits date_str_def time_str_def pad_int_def pad_str_def
  build_column_infos_def make_table_map_event_def col_name_def list_get_def mark_key_def extract_column_values_def
  utf8_samples of_bytes_as_bytes Let_def
lemma column_tests_pass_1:
  "test_mysql_value_to_string_numerics test_floats = Some ()"
  "test_mysql_value_to_string_blob test_floats = Some ()"
  "test_mysql_value_to_string_bit test_floats = Some ()"
  by (simp_all add: test_mysql_value_to_string_numerics_def test_mysql_value_to_string_blob_def
      test_mysql_value_to_string_bit_def run_columns)

lemma column_tests_pass_2:
  "test_mysql_value_to_string_temporal test_floats = Some ()"
  "test_build_column_infos_without_metadata = Some ()"
  "test_build_column_infos_with_names_and_pks = Some ()"
  by (simp_all add: test_mysql_value_to_string_temporal_def test_build_column_infos_without_metadata_def
      test_build_column_infos_with_names_and_pks_def run_columns)

lemma column_tests_pass_3:
  "test_build_column_infos_pk_out_of_bounds_ignored = Some ()"
  "test_build_column_infos_short_vectors = Some ()"
  "test_extract_column_values_with_infos test_floats = Some ()"
  by (simp_all add: test_build_column_infos_pk_out_of_bounds_ignored_def
      test_build_column_infos_short_vectors_def test_extract_column_values_with_infos_def run_columns)

lemma column_tests_pass_4:
  "test_extract_column_values_empty test_floats = Some ()"
  by (simp_all add: test_extract_column_values_empty_def run_columns)

subsection \<open>\<open>table_map.rs\<close>\<close>

definition make_info :: "string \<Rightarrow> i32 \<Rightarrow> column_info" where
  "make_info name col_type =
     \<lparr>ci_name = name, ci_column_type = col_type, ci_is_key = False, ci_is_nullable = True\<rparr>"
definition test_table_map_put_and_get :: test where
  "test_table_map_put_and_get = do {
     let cache = table_map_put 42 ''mydb'' ''users'' table_map_new;
     result \<leftarrow> table_map_get cache 42;
     assert_eq (fst result) ''mydb'';
     assert_eq (snd result) ''users'';
     assert_eq (table_map_get cache 99) None
   }"

definition test_clear_removes_all :: test where
  "test_clear_removes_all = do {
     let cache = table_map_put 1 ''db'' ''t1'' table_map_new;
     let cache = table_map_put 2 ''db'' ''t2'' cache;
     let cache = table_map_clear cache;
     assert_true (table_map_get cache 1 = None);
     assert_true (table_map_get cache 2 = None)
   }"

definition test_missing_table_id :: test where
  "test_missing_table_id = do {
     let cache = table_map_new;
     assert_true (table_map_get cache 42 = None)
   }"

definition test_put_with_columns :: test where
  "test_put_with_columns = do {
     let cols = [\<lparr>ci_name = ''id'', ci_column_type = 3, ci_is_key = True, ci_is_nullable = False\<rparr>];
     let cache = table_map_put_with_columns 1 ''db'' ''tbl'' cols table_map_new;
     result \<leftarrow> table_map_get cache 1;
     assert_eq (fst result) ''db'';
     assert_eq (snd result) ''tbl'';
     cols \<leftarrow> table_map_get_columns cache 1;
     assert_eq (length cols) 1
   }"

definition test_put_after_put_with_columns_clears_columns :: test where
  "test_put_after_put_with_columns_clears_columns = do {
     let cache = table_map_put_with_columns 1 ''db'' ''t1'' [make_info ''id'' 3] table_map_new;
     let cache = table_map_put 1 ''db'' ''t1'' cache;
     result \<leftarrow> table_map_get cache 1;
     assert_eq (snd result) ''t1'';
     assert_true (table_map_get_columns cache 1 = None)
   }"

definition test_put_with_columns_overwrites :: test where
  "test_put_with_columns_overwrites = do {
     let cache = table_map_put_with_columns 1 ''db'' ''t1'' [make_info ''id'' 3] table_map_new;
     let cache = table_map_put_with_columns 1 ''db'' ''t1'' [make_info ''a'' 1, make_info ''b'' 2] cache;
     cols \<leftarrow> table_map_get_columns cache 1;
     assert_eq (length cols) 2
   }"

definition test_get_columns_missing :: test where
  "test_get_columns_missing = do {
     let cache = table_map_new;
     assert_true (table_map_get_columns cache 42 = None);
     let cache = table_map_put 1 ''db'' ''t'' cache;
     assert_true (table_map_get_columns cache 1 = None)
   }"

definition test_table_map_default_impl_empty :: test where
  "test_table_map_default_impl_empty = do {
     let cache = table_map_new;
     assert_true (table_map_get cache 1 = None);
     assert_true (table_map_get_columns cache 1 = None)
   }"

lemma table_map_tests_pass:
  "test_table_map_put_and_get = Some ()"
  "test_clear_removes_all = Some ()"
  "test_missing_table_id = Some ()"
  "test_put_with_columns = Some ()"
  "test_put_after_put_with_columns_clears_columns = Some ()"
  "test_put_with_columns_overwrites = Some ()"
  "test_get_columns_missing = Some ()"
  "test_table_map_default_impl_empty = Some ()"
  by (simp_all add: test_table_map_put_and_get_def test_clear_removes_all_def test_missing_table_id_def
      test_put_with_columns_def test_put_after_put_with_columns_clears_columns_def
      test_put_with_columns_overwrites_def test_get_columns_missing_def
      test_table_map_default_impl_empty_def table_map_new_def table_map_get_def table_map_get_columns_def
      table_map_put_def table_map_put_with_columns_def table_map_clear_def make_info_def)

subsection \<open>\<open>converter.rs\<close>\<close>

definition make_value :: "string \<Rightarrow> string \<Rightarrow> column_value" where
  "make_value name value =
     \<lparr>cv_name = name, cv_value = Some value, cv_column_type = 253, cv_is_key = False, cv_updated = False\<rparr>"
definition test_insert_event :: test where
  "test_insert_event = do {
     let converter = handle_table_map 10 ''mydb'' ''products'' event_converter_new;
     change \<leftarrow> unwrap (handle_row_event converter 10 EtInsert [make_value ''id'' ''1'', make_value ''name'' ''widget'']);
     assert_eq (rc_dml_type change) DmlInsert;
     assert_true (rc_before change = None);
     image \<leftarrow> rc_after change;
     assert_eq (length (rd_columns image)) 2
   }"

definition test_update_event_separate_before_after :: test where
  "test_update_event_separate_before_after = do {
     let converter = handle_table_map 10 ''mydb'' ''products'' event_converter_new;
     change \<leftarrow> unwrap (handle_update_row_event converter 10
         [make_value ''id'' ''1'', make_value ''price'' ''10''] [make_value ''id'' ''1'', make_value ''price'' ''20'']);
     assert_eq (rc_dml_type change) DmlUpdate;
     before \<leftarrow> rc_before change;
     image \<leftarrow> rc_after change;
     assert_eq (length (rd_columns before)) 2;
     assert_eq (length (rd_columns image)) 2;
     col \<leftarrow> nth_panics (rd_columns image) 1;
     assert_true (cv_updated col)
   }"

definition test_delete_event :: test where
  "test_delete_event = do {
     let converter = handle_table_map 10 ''mydb'' ''products'' event_converter_new;
     change \<leftarrow> unwrap (handle_row_event converter 10 EtDelete [make_value ''id'' ''1'']);
     assert_eq (rc_dml_type change) DmlDelete;
     assert_true (rc_after change = None);
     before \<leftarrow> rc_before change;
     col \<leftarrow> nth_panics (rd_columns before) 0;
     assert_eq (cv_value col) (Some ''1'')
   }"

definition test_missing_table_map_errors :: test where
  "test_missing_table_map_errors = do {
     let converter = event_converter_new;
     let result = handle_row_event converter 999 EtInsert [];
     assert_true (isl result)
   }"

definition test_clear_after_rotate :: test where
  "test_clear_after_rotate = do {
     let converter = handle_table_map 1 ''db'' ''tbl'' event_converter_new;
     let converter = clear_table_map converter;
     let result = handle_row_event converter 1 EtInsert [];
     assert_true (isl result)
   }"

definition test_update_unchanged_columns_not_marked :: test where
  "test_update_unchanged_columns_not_marked = do {
     let converter = handle_table_map 10 ''mydb'' ''products'' event_converter_new;
     change \<leftarrow> unwrap (handle_update_row_event converter 10
         [make_value ''id'' ''1'', make_value ''price'' ''10''] [make_value ''id'' ''1'', make_value ''price'' ''10'']);
     image \<leftarrow> rc_after change;
     assert_true (list_all (\<lambda>c. \<not> cv_updated c) (rd_columns image))
   }"

definition test_update_extra_after_columns_marked_updated :: test where
  "test_update_extra_after_columns_marked_updated = do {
     let converter = handle_table_map 10 ''mydb'' ''products'' event_converter_new;
     change \<leftarrow> unwrap (handle_update_row_event converter 10
         [make_value ''id'' ''1''] [make_value ''id'' ''1'', make_value ''new_col'' ''x'']);
     image \<leftarrow> rc_after change;
     c0 \<leftarrow> nth_panics (rd_columns image) 0;
     c1 \<leftarrow> nth_panics (rd_columns image) 1;
     assert_true (\<not> cv_updated c0);
     assert_true (cv_updated c1)
   }"

definition test_update_marks_changed_value :: test where
  "test_update_marks_changed_value = do {
     let converter = handle_table_map 10 ''mydb'' ''products'' event_converter_new;
     change \<leftarrow> unwrap (handle_update_row_event converter 10 [make_value ''name'' ''old''] [make_value ''name'' ''new'']);
     image \<leftarrow> rc_after change;
     c0 \<leftarrow> nth_panics (rd_columns image) 0;
     assert_true (cv_updated c0)
   }"

definition test_row_event_update_unsupported :: test where
  "test_row_event_update_unsupported = do {
     let converter = handle_table_map 10 ''mydb'' ''products'' event_converter_new;
     err \<leftarrow> unwrap_err (handle_row_event converter 10 EtUpdate [make_value ''id'' ''1'']);
     assert_true (case err of Internal _ \<Rightarrow> True | _ \<Rightarrow> False)
   }"

definition test_update_missing_table_map_errors :: test where
  "test_update_missing_table_map_errors = do {
     let converter = event_converter_new;
     let result = handle_update_row_event converter 999 [] [];
     assert_true (case result of Inl (NotFound _) \<Rightarrow> True | _ \<Rightarrow> False)
   }"

definition test_columns_from_table_map_event :: test where
  "test_columns_from_table_map_event = do {
     let columns =
         [\<lparr>ci_name = ''id'', ci_column_type = 3, ci_is_key = True, ci_is_nullable = False\<rparr>,
          \<lparr>ci_name = ''name'', ci_column_type = 253, ci_is_key = False, ci_is_nullable = True\<rparr>];
     let converter = handle_table_map_event 20 ''db'' ''tbl'' columns event_converter_new;
     cols \<leftarrow> converter_get_columns converter 20;
     assert_eq (length cols) 2;
     c0 \<leftarrow> nth_panics cols 0;
     assert_true (ci_is_key c0)
   }"

definition test_get_columns_none_without_event :: test where
  "test_get_columns_none_without_event = do {
     let converter = event_converter_new;
     assert_true (converter_get_columns converter 1 = None)
   }"

definition test_insert_event_uses_table_map_names :: test where
  "test_insert_event_uses_table_map_names = do {
     let converter = handle_table_map_event 30 ''inventory'' ''items''
         [\<lparr>ci_name = ''sku'', ci_column_type = 253, ci_is_key = True, ci_is_nullable = False\<rparr>] event_converter_new;
     change \<leftarrow> unwrap (handle_row_event converter 30 EtInsert [make_value ''sku'' ''A-1'']);
     assert_eq (rc_schema_name change) ''inventory'';
     assert_eq (rc_table_name change) ''items'';
     image \<leftarrow> rc_after change;
     c0 \<leftarrow> nth_panics (rd_columns image) 0;
     assert_eq (cv_name c0) ''sku''
   }"

lemma converter_tests_pass_1:
  "test_insert_event = Some ()"
  "test_update_event_separate_before_after = Some ()"
  "test_delete_event = Some ()"
  "test_missing_table_map_errors = Some ()"
  "test_clear_after_rotate = Some ()"
  "test_update_unchanged_columns_not_marked = Some ()"
  "test_update_extra_after_columns_marked_updated = Some ()"
  by (simp_all add: test_insert_event_def test_update_event_separate_before_after_def
      test_delete_event_def test_missing_table_map_errors_def test_clear_after_rotate_def
      test_update_unchanged_columns_not_marked_def test_update_extra_after_columns_marked_updated_def
      event_converter_new_def handle_table_map_def handle_table_map_event_def clear_table_map_def
      converter_get_columns_def handle_row_event_def handle_update_row_event_def table_not_found_def
      make_value_def table_map_new_def table_map_get_def table_map_get_columns_def table_map_put_def
      table_map_put_with_columns_def table_map_clear_def Let_def)

lemma converter_tests_pass_2:
  "test_update_marks_changed_value = Some ()"
  "test_row_event_update_unsupported = Some ()"
  "test_update_missing_table_map_errors = Some ()"
  "test_columns_from_table_map_event = Some ()"
  "test_get_columns_none_without_event = Some ()"
  "test_insert_event_uses_table_map_names = Some ()"
  by (simp_all add: test_update_marks_changed_value_def test_row_event_update_unsupported_def
      test_update_missing_table_map_errors_def test_columns_from_table_map_event_def
      test_get_columns_none_without_event_def test_insert_event_uses_table_map_names_def
      event_converter_new_def handle_table_map_def handle_table_map_event_def clear_table_map_def
      converter_get_columns_def handle_row_event_def handle_update_row_event_def table_not_found_def
      make_value_def table_map_new_def table_map_get_def table_map_get_columns_def table_map_put_def
      table_map_put_with_columns_def table_map_clear_def Let_def)

subsection \<open>\<open>connector.rs\<close>\<close>

text \<open>The iterator of the first test panics with a text, the one of the second yields three items;
  in the code those are bytes, here they are binlog items.\<close>

definition next_or_panic_converts_panic_into_outcome :: test where
  "next_or_panic_converts_panic_into_outcome = do {
     let it = PanicsWith (Some ''index out of bounds: the len is 3 but the index is 5'');
     (case next_or_panic it of
          Panicked msg \<Rightarrow> assert_true (contains msg ''index out of bounds'')
        | _ \<Rightarrow> None)
   }"

definition next_or_panic_passes_items_and_end_through_unchanged :: "binlog_item \<Rightarrow> binlog_item \<Rightarrow> binlog_item \<Rightarrow> test" where
  "next_or_panic_passes_items_and_end_through_unchanged a b c = do {
     assert_eq (next_or_panic (Yields a)) (Item a);
     assert_eq (next_or_panic (Yields b)) (Item b);
     assert_eq (next_or_panic (Yields c)) (Item c);
     assert_eq (next_or_panic Ends) Done
   }"

definition default_ssl_mode_is_disabled :: test where
  "default_ssl_mode_is_disabled = do {
     connector \<leftarrow> unwrap (connector_new ''localhost'' 3306 ''u'' ''p'' 1);
     assert_eq (bc_ssl_mode connector) ''Disabled''
   }"

lemma connector_tests_pass:
  "next_or_panic_converts_panic_into_outcome = Some ()"
  "next_or_panic_passes_items_and_end_through_unchanged a b c = Some ()"
  "default_ssl_mode_is_disabled = Some ()"
  by (simp_all add: next_or_panic_converts_panic_into_outcome_def
      next_or_panic_passes_items_and_end_through_unchanged_def default_ssl_mode_is_disabled_def
      next_or_panic_def connector_new_def)

end
