(* ===== verification/Canal_Tests_Sink.thy ===== *)
theory Canal_Tests_Sink
  imports Canal_Tests_Common Canal_Kafka Canal_Debug "HOL-Library.Countable"
begin

text \<open>
  The tests of \<open>canal-sink\<close> (\<open>sink.rs\<close>) and of \<open>canal-connector\<close> (\<open>kafka.rs\<close> and
  \<open>kafka_tests_extra.rs\<close>). The worker of a sink takes the turns that the test leaves it time for;
  the texts of \<open>serde_json\<close> are parameters, of which the tests need that reading inverts writing.
\<close>

subsection \<open>\<open>sink.rs\<close>\<close>

record mock_connector =
  mk_name :: string
  mk_dispatched :: "canal_event list list"

definition mock_new :: "string \<Rightarrow> mock_connector" where
  "mock_new name = \<lparr>mk_name = name, mk_dispatched = []\<rparr>"

definition mock_dispatch :: "mock_connector dispatch" where
  "mock_dispatch evs k = (Inr (), k\<lparr>mk_dispatched := mk_dispatched k @ [evs]\<rparr>)"

definition make_table_event :: "string \<Rightarrow> string \<Rightarrow> u64 \<Rightarrow> canal_event" where
  "make_table_event schema table pos =
     \<lparr>ev_journal_name = ''mysql-bin.000001'', ev_position = pos, ev_server_id = 1, ev_execute_time = 0,
      ev_entry_type = EtInsert, ev_schema_name = schema, ev_table_name = table, ev_row_change = None,
      ev_ddl_sql = None, ev_gtid = None, ev_raw_bytes = []\<rparr>"

text \<open>\<open>sink.sink(..).await.unwrap()\<close>, a read of the store, and a sleep, in which the worker takes some turns.\<close>

definition sinking :: "canal_event list \<Rightarrow> mock_connector event_sink \<Rightarrow> (events \<times> mock_connector event_sink) option" where
  "sinking evs s =
     (case sink True evs s of (Some (Inr batch), s') \<Rightarrow> Some (batch, s') | _ \<Rightarrow> None)"

definition reading :: "log_position \<Rightarrow> nat \<Rightarrow> mem_store \<Rightarrow> events option" where
  "reading start n store = fst (get_batch start n [TimedOut] store)"

definition sleeping :: "nat \<Rightarrow> mock_connector event_sink \<Rightarrow> mock_connector event_sink" where
  "sleeping turns s = (worker_step mock_dispatch ^^ turns) s"
definition test_sink_stores_and_returns_events :: "regex_engine \<Rightarrow> test" where
  "test_sink_stores_and_returns_events rx = do {
     store \<leftarrow> mem_store_new 1024;
     flt \<leftarrow> unwrap (event_filter_new rx any_table);
     let s = sink_store_only store flt;
     (batch, s) \<leftarrow> sinking [make_table_event ''test_db'' ''users'' 100] s;
     assert_true (0 <=s es_batch_id batch);
     stored \<leftarrow> reading (log_position_new ''mysql-bin.000001'' 0) 10 (sk_store s);
     assert_eq (events_len stored) 1
   }"

definition test_filter_excludes_non_matching :: "regex_engine \<Rightarrow> test" where
  "test_filter_excludes_non_matching rx = do {
     store \<leftarrow> mem_store_new 1024;
     flt \<leftarrow> unwrap (event_filter_new rx (''test_db'' @ backslash @ ''.users''));
     let s = sink_store_only store flt;
     (batch, s) \<leftarrow> sinking [make_table_event ''test_db'' ''users'' 100, make_table_event ''test_db'' ''orders'' 200] s;
     assert_true (0 <=s es_batch_id batch);
     stored \<leftarrow> reading (log_position_new ''mysql-bin.000001'' 0) 10 (sk_store s);
     assert_eq (events_len stored) 1;
     event \<leftarrow> nth_panics (es_events stored) 0;
     assert_eq (ev_table_name event) ''users''
   }"

definition test_connector_receives_events :: "regex_engine \<Rightarrow> nat \<Rightarrow> test" where
  "test_connector_receives_events rx turns = do {
     store \<leftarrow> mem_store_new 1024;
     flt \<leftarrow> unwrap (event_filter_new rx any_table);
     let s = sink_new store flt [];
     let s = add_connector (mock_new ''test-connector'') s;
     (_, s) \<leftarrow> sinking [make_table_event ''db'' ''tbl'' 100] s;
     let s = sleeping turns s;
     k \<leftarrow> nth_panics (sk_connectors s) 0;
     assert_eq (length (mk_dispatched k)) 1;
     batch \<leftarrow> nth_panics (mk_dispatched k) 0;
     assert_eq (length batch) 1;
     event \<leftarrow> nth_panics batch 0;
     assert_eq (ev_table_name event) ''tbl''
   }"

definition test_fifo_ordering_preserved :: "regex_engine \<Rightarrow> nat \<Rightarrow> test" where
  "test_fifo_ordering_preserved rx turns = do {
     store \<leftarrow> mem_store_new 1024;
     flt \<leftarrow> unwrap (event_filter_new rx any_table);
     let s = sink_new store flt [];
     let s = add_connector (mock_new ''fifo-test'') s;
     (_, s) \<leftarrow> sinking [make_table_event ''db'' ''tbl'' (1 * 100)] s;
     (_, s) \<leftarrow> sinking [make_table_event ''db'' ''tbl'' (2 * 100)] s;
     (_, s) \<leftarrow> sinking [make_table_event ''db'' ''tbl'' (3 * 100)] s;
     let s = sleeping turns s;
     k \<leftarrow> nth_panics (sk_connectors s) 0;
     assert_eq (length (mk_dispatched k)) 3;
     b0 \<leftarrow> nth_panics (mk_dispatched k) 0;
     b1 \<leftarrow> nth_panics (mk_dispatched k) 1;
     b2 \<leftarrow> nth_panics (mk_dispatched k) 2;
     e0 \<leftarrow> nth_panics b0 0;
     e1 \<leftarrow> nth_panics b1 0;
     e2 \<leftarrow> nth_panics b2 0;
     assert_eq (ev_position e0) 100;
     assert_eq (ev_position e1) 200;
     assert_eq (ev_position e2) 300
   }"

lemma make_table_event_simps [simp]:
  "ev_key (make_table_event s t p) = (1, p)" "ev_position (make_table_event s t p) = p"
  "ev_log_position (make_table_event s t p) = log_position_new ''mysql-bin.000001'' p"
  "ev_schema_name (make_table_event s t p) = s" "ev_table_name (make_table_event s t p) = t"
  by (simp_all add: make_table_event_def ev_key_def ev_log_position_def)

lemma sleeping_3: "sleeping 3 s = worker_step mock_dispatch (worker_step mock_dispatch (worker_step mock_dispatch s))"
  by (simp add: sleeping_def numeral_3_eq_3)

lemmas run_sink = mem_store_new_def event_filter_new_def any_table_def tiny_regex_def max_filter_len_def max_regex_size_def
  sink_store_only_def sink_new_def sink_with_metrics_def add_connector_def mock_new_def mock_dispatch_def sinking_def reading_def
  sleeping_3 sink_def ensure_worker_def worker_step_def filter_passes_def event_filter_matches_def put_batch_def put_evict_def
  put_truncate_def bump_watermark_def raise_position_def feed_in_order_def get_scan_def get_start_idx_def partition_point_def
  pp_loop.simps lp_key_new events_len_def events_new_def Let_def
lemma sink_tests_pass_1:
  "test_sink_stores_and_returns_events tiny_regex = Some ()"
  "test_filter_excludes_non_matching tiny_regex = Some ()"
  by (simp_all add: test_sink_stores_and_returns_events_def test_filter_excludes_non_matching_def
      run_sink cong: let_weak_cong bind_weak_cong)

lemma sink_tests_pass_2:
  "test_connector_receives_events tiny_regex 3 = Some ()"
  "test_fifo_ordering_preserved tiny_regex 3 = Some ()"
  by (simp_all add: test_connector_receives_events_def test_fifo_ordering_preserved_def run_sink cong:
      let_weak_cong bind_weak_cong)

subsection \<open>\<open>kafka.rs\<close>\<close>

text \<open>Indexing of a \<open>serde_json::Value\<close>, which is \<open>Null\<close> for what is not there, and \<open>get\<close>.\<close>

definition json_get :: "json \<Rightarrow> string \<Rightarrow> json option" where
  "json_get v name = (case v of JObj fs \<Rightarrow> map_of fs name | _ \<Rightarrow> None)"

definition json_field :: "json \<Rightarrow> string \<Rightarrow> json" where
  "json_field v name = unwrap_or (json_get v name) JNull"

definition json_nth :: "json \<Rightarrow> nat \<Rightarrow> json" where
  "json_nth v i = (case v of JArr xs \<Rightarrow> (if i < length xs then xs ! i else JNull) | _ \<Rightarrow> JNull)"

text \<open>A broker that nothing is asked of.\<close>

definition no_broker :: kafka_broker where
  "no_broker =
     \<lparr>bk_create = (\<lambda>_. Inr ()), bk_metadata = (\<lambda>_ _. Inr (Inr ())), bk_send = (\<lambda>_ _. (None, 0)), bk_sends = 0,
      bk_handed = {#}, bk_confirmed = {#}, bk_stored = {#}\<rparr>"

definition connecting :: "string \<Rightarrow> string \<Rightarrow> string \<Rightarrow> kafka_connector option" where
  "connecting name servers topic = unwrap (kafka_connector_new name (kafka_config_new servers topic) no_broker)"

definition make_row_event :: "string \<Rightarrow> string \<Rightarrow> u64 \<Rightarrow> canal_event" where
  "make_row_event schema table pos =
     \<lparr>ev_journal_name = ''mysql-bin.000001'', ev_position = pos, ev_server_id = 1, ev_execute_time = 1234567890,
      ev_entry_type = EtInsert, ev_schema_name = schema, ev_table_name = table,
      ev_row_change = Some
        \<lparr>rc_table_name = table, rc_schema_name = schema, rc_before = None,
         rc_after = Some \<lparr>rd_columns =
           [\<lparr>cv_name = ''id'', cv_value = Some ''1'', cv_column_type = 3, cv_is_key = True, cv_updated = False\<rparr>,
            \<lparr>cv_name = ''name'', cv_value = Some ''Alice'', cv_column_type = 253, cv_is_key = False, cv_updated = False\<rparr>]\<rparr>,
         rc_dml_type = DmlInsert\<rparr>,
      ev_ddl_sql = None, ev_gtid = Some ''uuid:1-100'', ev_raw_bytes = []\<rparr>"

type_synonym json_parse = "string \<Rightarrow> (string, json) rust_result"
definition test_serialize_insert_event :: "json_text \<Rightarrow> json_parse \<Rightarrow> test" where
  "test_serialize_insert_event to_string from_str = do {
     connector \<leftarrow> connecting ''test'' ''localhost:9092'' ''test-topic'';
     let messages = serialize_events to_string [make_row_event ''test_db'' ''users'' 100];
     assert_eq (length messages) 1;
     message \<leftarrow> nth_panics messages 0;
     assert_eq (fst message) ''test_db'';
     parsed \<leftarrow> unwrap (from_str (snd message));
     assert_eq (json_field parsed ''schema'') (JStr ''test_db'');
     assert_eq (json_field parsed ''table'') (JStr ''users'')
   }"

definition test_serialize_multiple_events :: "json_text \<Rightarrow> test" where
  "test_serialize_multiple_events to_string = do {
     connector \<leftarrow> connecting ''test'' ''localhost:9092'' ''test-topic'';
     let messages = serialize_events to_string [make_row_event ''db'' ''t1'' 100, make_row_event ''db'' ''t2'' 200];
     assert_eq (length messages) 2
   }"

definition test_connector_name :: test where
  "test_connector_name = do {
     connector \<leftarrow> connecting ''canal-kafka-1'' ''localhost:9092'' ''topic'';
     assert_eq (kc_name connector) ''canal-kafka-1''
   }"

definition test_empty_events_produces_empty_messages :: "json_text \<Rightarrow> test" where
  "test_empty_events_produces_empty_messages to_string = do {
     connector \<leftarrow> connecting ''test'' ''localhost:9092'' ''test-topic'';
     let messages = serialize_events to_string [];
     assert_eq (length messages) 0
   }"

definition base_event :: "string \<Rightarrow> string \<Rightarrow> u64 \<Rightarrow> event_type \<Rightarrow> canal_event" where
  "base_event schema table pos entry_type =
     \<lparr>ev_journal_name = ''mysql-bin.000001'', ev_position = pos, ev_server_id = 1, ev_execute_time = 1234567890,
      ev_entry_type = entry_type, ev_schema_name = schema, ev_table_name = table, ev_row_change = None,
      ev_ddl_sql = None, ev_gtid = None, ev_raw_bytes = []\<rparr>"

definition make_cell :: "string \<Rightarrow> string option \<Rightarrow> bool \<Rightarrow> column_value" where
  "make_cell name value updated =
     \<lparr>cv_name = name, cv_value = value, cv_column_type = 253, cv_is_key = False, cv_updated = updated\<rparr>"

definition serialize_one :: "json_text \<Rightarrow> json_parse \<Rightarrow> canal_event \<Rightarrow> json option" where
  "serialize_one to_string from_str event = do {
     let messages = serialize_events to_string [event];
     assert_eq (length messages) 1;
     message \<leftarrow> nth_panics messages 0;
     unwrap (from_str (snd message))
   }"
definition test_config_defaults_clone_and_debug :: "(string \<Rightarrow> string) \<Rightarrow> test" where
  "test_config_defaults_clone_and_debug w = do {
     let config = kafka_config_new ''kafka:9092'' ''topic-a'';
     assert_eq (kf_servers config) ''kafka:9092'';
     assert_eq (kf_topic config) ''topic-a'';
     assert_true (kf_ssl_ca_location config = None);
     assert_true (kf_sasl_username config = None);
     let with_sasl = config\<lparr>kf_sasl_username := Some ''user'', kf_sasl_password := Some ''hunter2''\<rparr>;
     assert_eq (kf_servers with_sasl) (kf_servers config);
     let dbg = debug_kafka_config w with_sasl;
     assert_true (contains dbg ''<redacted>'');
     assert_true (\<not> contains dbg ''hunter2'')
   }"

definition test_serialize_ddl_event :: "json_text \<Rightarrow> json_parse \<Rightarrow> test" where
  "test_serialize_ddl_event to_string from_str = do {
     connector \<leftarrow> connecting ''t'' ''k:9092'' ''topic'';
     let event = (base_event ''db'' ''users'' 100 EtDdl)\<lparr>ev_ddl_sql := Some ''ALTER TABLE users ADD COLUMN age INT''\<rparr>;
     v \<leftarrow> serialize_one to_string from_str event;
     assert_eq (json_field v ''schema'') (JStr ''db'');
     assert_eq (json_field v ''table'') (JStr ''users'');
     assert_eq (json_field v ''type'') (JStr ''DDL'');
     assert_eq (json_field v ''ddl_sql'') (JStr ''ALTER TABLE users ADD COLUMN age INT'');
     assert_eq (json_field v ''position'') (JNum 100);
     assert_eq (json_field v ''journal'') (JStr ''mysql-bin.000001'');
     assert_eq (json_field v ''server_id'') (JNum 1);
     assert_eq (json_field v ''execute_time'') (JNum 1234567890);
     assert_true (json_get v ''row_change'' = None)
   }"

definition test_serialize_update_with_before_and_after :: "json_text \<Rightarrow> json_parse \<Rightarrow> test" where
  "test_serialize_update_with_before_and_after to_string from_str = do {
     connector \<leftarrow> connecting ''t'' ''k:9092'' ''topic'';
     let event = (base_event ''db'' ''users'' 200 EtUpdate)\<lparr>ev_row_change := Some
         \<lparr>rc_table_name = ''users'', rc_schema_name = ''db'',
           rc_before = Some \<lparr>rd_columns = [make_cell ''name'' (Some ''alice'') False]\<rparr>,
           rc_after = Some \<lparr>rd_columns = [make_cell ''name'' (Some ''bob'') True]\<rparr>, rc_dml_type = DmlUpdate\<rparr>\<rparr>;
     v \<leftarrow> serialize_one to_string from_str event;
     assert_eq (json_field v ''type'') (JStr ''UPDATE'');
     let rc = json_field v ''row_change'';
     assert_eq (json_field rc ''dml_type'') (JStr ''UPDATE'');
     assert_eq (json_field (json_nth (json_field rc ''after'') 0) ''name'') (JStr ''name'');
     assert_eq (json_field (json_nth (json_field rc ''after'') 0) ''value'') (JStr ''bob'');
     assert_eq (json_field (json_nth (json_field rc ''after'') 0) ''updated'') (JBool True);
     assert_eq (json_field (json_nth (json_field rc ''before'') 0) ''value'') (JStr ''alice'');
     assert_true (json_get (json_nth (json_field rc ''before'') 0) ''updated'' = None)
   }"

definition test_serialize_delete_event :: "json_text \<Rightarrow> json_parse \<Rightarrow> test" where
  "test_serialize_delete_event to_string from_str = do {
     connector \<leftarrow> connecting ''t'' ''k:9092'' ''topic'';
     let event = (base_event ''db'' ''users'' 300 EtDelete)\<lparr>ev_row_change := Some
         \<lparr>rc_table_name = ''users'', rc_schema_name = ''db'',
           rc_before = Some \<lparr>rd_columns = [make_cell ''id'' (Some ''99'') False]\<rparr>, rc_after = None,
           rc_dml_type = DmlDelete\<rparr>\<rparr>;
     v \<leftarrow> serialize_one to_string from_str event;
     assert_eq (json_field (json_field v ''row_change'') ''dml_type'') (JStr ''DELETE'');
     assert_eq (json_field (json_nth (json_field (json_field v ''row_change'') ''before'') 0) ''value'') (JStr ''99'');
     assert_true (json_get (json_field v ''row_change'') ''after'' = None)
   }"

definition test_serialize_null_column_value :: "json_text \<Rightarrow> json_parse \<Rightarrow> test" where
  "test_serialize_null_column_value to_string from_str = do {
     connector \<leftarrow> connecting ''t'' ''k:9092'' ''topic'';
     let event = (base_event ''db'' ''users'' 400 EtInsert)\<lparr>ev_row_change := Some
         \<lparr>rc_table_name = ''users'', rc_schema_name = ''db'', rc_before = None,
           rc_after = Some \<lparr>rd_columns = [make_cell ''email'' None False]\<rparr>, rc_dml_type = DmlInsert\<rparr>\<rparr>;
     v \<leftarrow> serialize_one to_string from_str event;
     assert_eq (json_field (json_nth (json_field (json_field v ''row_change'') ''after'') 0) ''value'') JNull
   }"

definition test_serialize_event_without_row_change_or_ddl :: "json_text \<Rightarrow> json_parse \<Rightarrow> test" where
  "test_serialize_event_without_row_change_or_ddl to_string from_str = do {
     connector \<leftarrow> connecting ''t'' ''k:9092'' ''topic'';
     let event = base_event ''db'' ''users'' 500 EtInsert;
     v \<leftarrow> serialize_one to_string from_str event;
     assert_eq (json_field v ''type'') (JStr ''INSERT'');
     assert_true (json_get v ''row_change'' = None);
     assert_true (json_get v ''ddl_sql'' = None);
     assert_true (json_get v ''gtid'' = None)
   }"

definition test_serialize_with_gtid :: "json_text \<Rightarrow> json_parse \<Rightarrow> test" where
  "test_serialize_with_gtid to_string from_str = do {
     connector \<leftarrow> connecting ''t'' ''k:9092'' ''topic'';
     let event = (base_event ''db'' ''users'' 600 EtInsert)\<lparr>ev_gtid := Some ''uuid:1-100''\<rparr>;
     v \<leftarrow> serialize_one to_string from_str event;
     assert_eq (json_field v ''gtid'') (JStr ''uuid:1-100'')
   }"

definition test_dispatch_empty_events_ok_without_connect :: "json_text \<Rightarrow> test" where
  "test_dispatch_empty_events_ok_without_connect to_string = do {
     connector \<leftarrow> connecting ''t'' ''k:9092'' ''topic'';
     _ \<leftarrow> unwrap (fst (kafka_dispatch to_string [] connector));
     Some ()
   }"

definition test_dispatch_without_connect_errors :: "json_text \<Rightarrow> test" where
  "test_dispatch_without_connect_errors to_string = do {
     connector \<leftarrow> connecting ''t'' ''k:9092'' ''topic'';
     let evs = [make_row_event ''db'' ''tbl'' 100];
     err \<leftarrow> unwrap_err (fst (kafka_dispatch to_string evs connector));
     assert_true (case err of Internal _ \<Rightarrow> True | _ \<Rightarrow> False)
   }"

definition test_close_without_connect_ok :: test where
  "test_close_without_connect_ok = do {
     connector \<leftarrow> connecting ''t'' ''k:9092'' ''topic'';
     let (r, connector) = kafka_close connector;
     _ \<leftarrow> unwrap r;
     let (r, connector) = kafka_close connector;
     _ \<leftarrow> unwrap r;
     Some ()
   }"

lemmas run_kafka = connecting_def kafka_connector_new_def kafka_config_new_def no_broker_def make_row_event_def base_event_def
  make_cell_def serialize_one_def serialize_events_def List.map_filter_simps kafka_payload_of_def kafka_payload_json_def
  kafka_row_change_json_def kafka_column_json_def kafka_column_of_def skip_none_def json_opt_str_def json_get_def
  json_field_def json_nth_def event_type_as_str_def dml_type_as_str_def kafka_dispatch_def kafka_close_def
lemma kafka_tests_pass_1:
  assumes "\<And>v. to_string v = Inr (text v)" and "\<And>v. from_str (text v) = Inr v"
  shows
  "test_serialize_insert_event to_string from_str = Some ()"
  "test_serialize_multiple_events to_string = Some ()"
  "test_connector_name = Some ()"
  "test_empty_events_produces_empty_messages to_string = Some ()"
  "test_serialize_ddl_event to_string from_str = Some ()"
  "test_serialize_update_with_before_and_after to_string from_str = Some ()"
  "test_serialize_delete_event to_string from_str = Some ()"
  by (simp_all add: assms test_serialize_insert_event_def test_serialize_multiple_events_def
      test_connector_name_def test_empty_events_produces_empty_messages_def test_serialize_ddl_event_def
      test_serialize_update_with_before_and_after_def test_serialize_delete_event_def run_kafka cong:
      let_weak_cong bind_weak_cong)

lemma kafka_tests_pass_2:
  assumes "\<And>v. to_string v = Inr (text v)" and "\<And>v. from_str (text v) = Inr v"
  shows
  "test_serialize_null_column_value to_string from_str = Some ()"
  "test_serialize_event_without_row_change_or_ddl to_string from_str = Some ()"
  "test_serialize_with_gtid to_string from_str = Some ()"
  "test_dispatch_empty_events_ok_without_connect to_string = Some ()"
  "test_dispatch_without_connect_errors to_string = Some ()"
  "test_close_without_connect_ok = Some ()"
  by (simp_all add: assms test_serialize_null_column_value_def
      test_serialize_event_without_row_change_or_ddl_def test_serialize_with_gtid_def
      test_dispatch_empty_events_ok_without_connect_def test_dispatch_without_connect_errors_def
      test_close_without_connect_ok_def run_kafka cong: let_weak_cong bind_weak_cong)

text \<open>There are such functions: the JSON trees are countable.\<close>

instance json :: countable by countable_datatype

lemma json_library_exists:
  "\<exists>(to_string :: json_text) from_str text. (\<forall>v. to_string v = Inr (text v)) \<and> (\<forall>v. from_str (text v) = Inr v)"
proof (intro exI conjI allI)
  let ?text = "\<lambda>v :: json. replicate (to_nat v) CHR ''x''"
  show "(\<lambda>v. Inr (?text v)) v = Inr (?text v)" for v by (rule refl)
  show "(\<lambda>s. Inr (from_nat (length s))) (?text v) = Inr v" for v by simp
qed

lemma test_config_defaults_clone_and_debug_passes: "test_config_defaults_clone_and_debug w = Some ()"
  by (simp add: test_config_defaults_clone_and_debug_def kafka_config_new_def debug_kafka_config_def debug_struct_def
      debug_option_def debug_str_def escape_ascii_def redacted_def Let_def)

end
