(* ===== verification/Canal_Tests_Metrics.thy ===== *)
theory Canal_Tests_Metrics
  imports Canal_Tests Canal_Metrics Canal_Meta
begin

text \<open>
  The tests of \<open>canal-prometheus\<close> (\<open>metrics_server.rs\<close>) and of \<open>canal-meta\<close> (\<open>lib.rs\<close>). The text
  that the recorder renders is the \<open>metrics-exporter-prometheus\<close> crate's and a parameter of the
  tests that read it; they are run with its exposition format. Left out are the tests that start a
  listener, the one that looks at the help texts, and the round trips through \<open>serde_json\<close>.
\<close>

subsection \<open>\<open>metrics_server.rs\<close>\<close>

text \<open>\<open>str::trim_start\<close>, \<open>str::trim\<close>, \<open>str::strip_prefix\<close>.\<close>

definition trim_start :: "string \<Rightarrow> string" where
  "trim_start s = dropWhile (\<lambda>c. c = CHR '' '') s"

definition trim :: "string \<Rightarrow> string" where
  "trim s = rev (trim_start (rev (trim_start s)))"

fun strip_prefix :: "string \<Rightarrow> string \<Rightarrow> string option" where
  "strip_prefix s [] = Some s"
| "strip_prefix [] (p # ps) = None"
| "strip_prefix (c # cs) (p # ps) = (if c = p then strip_prefix cs ps else None)"

text \<open>\<open>metric_value\<close>; the values of these tests are whole numbers, which \<open>parse_u64\<close> reads.\<close>

definition line_value :: "string \<Rightarrow> string \<Rightarrow> nat option" where
  "line_value name line =
     (let line = trim_start line
      in if starts_with line ''#'' then None
         else (case strip_prefix line name of
                 None \<Rightarrow> None
               | Some rest \<Rightarrow> if \<not> starts_with rest '' '' then None else parse_u64 (trim rest)))"

fun find_map :: "('a \<Rightarrow> 'b option) \<Rightarrow> 'a list \<Rightarrow> 'b option" where
  "find_map f [] = None"
| "find_map f (x # xs) = (case f x of Some y \<Rightarrow> Some y | None \<Rightarrow> find_map f xs)"

definition metric_value :: "string \<Rightarrow> string \<Rightarrow> nat" where
  "metric_value rendered name = unwrap_or (find_map (line_value name) (split_lines rendered)) 0"

text \<open>The exposition format, with the lines of the five metrics.\<close>

definition exposition_metric :: "string \<Rightarrow> string \<Rightarrow> nat \<Rightarrow> string list" where
  "exposition_metric kind name n = [''# TYPE '' @ name @ '' '' @ kind, name @ '' '' @ nat_str n, '''']"

definition exposition_lines :: "canal_metrics \<Rightarrow> string list" where
  "exposition_lines m =
     exposition_metric ''counter'' ''canal_events_parsed_total'' (cm_parsed m)
     @ exposition_metric ''counter'' ''canal_events_filtered_total'' (cm_filtered m)
     @ exposition_metric ''counter'' ''canal_events_dispatched_total'' (cm_dispatched m)
     @ exposition_metric ''counter'' ''canal_dispatch_errors_total'' (cm_dispatch_errors m)
     @ exposition_metric ''gauge'' ''canal_instances_active'' (cm_instances_active m)"

definition exposition :: "canal_metrics \<Rightarrow> string" where
  "exposition m = concat (map (\<lambda>l. l @ [CHR 0x0A]) (exposition_lines m))"

lemma split_line: "CHR 0x0A \<notin> set l \<Longrightarrow> split_lines (l @ CHR 0x0A # s) = l # split_lines s"
  by (induction l) auto

lemma split_lines_concat:
  "\<forall>l \<in> set ls. CHR 0x0A \<notin> set l \<Longrightarrow> split_lines (concat (map (\<lambda>l. l @ [CHR 0x0A]) ls)) = ls"
  by (induction ls) (simp_all add: split_line)

lemma newline_not_in_nat_str: "CHR 0x0A \<notin> set (nat_str n)"
  using nat_str_digits [of "CHR 0x0A" n] by (auto simp: is_digit_def)

lemma split_exposition [simp]: "split_lines (exposition m) = exposition_lines m"
  unfolding exposition_def
  by (rule split_lines_concat) (simp add: exposition_lines_def exposition_metric_def newline_not_in_nat_str)

definition earlier_metrics :: canal_metrics where
  "earlier_metrics = \<lparr>cm_parsed = 12, cm_filtered = 5, cm_dispatched = 7, cm_dispatch_errors = 1, cm_instances_active = 2\<rparr>"
definition test_metrics_server_with_auth_flag :: test where
  "test_metrics_server_with_auth_flag = do {
     let server = metrics_server_new ''127.0.0.1:0'';
     assert_true (mv_auth_token server = None);
     let server = metrics_with_auth ''tok'' server;
     assert_eq (mv_auth_token server) (Some ''tok'')
   }"

definition test_inc_parsed_renders :: "(canal_metrics \<Rightarrow> string) \<Rightarrow> canal_metrics \<Rightarrow> test" where
  "test_inc_parsed_renders render m = do {
     let before = metric_value (render m) ''canal_events_parsed_total'';
     let m = inc_parsed 7 m;
     let later = metric_value (render m) ''canal_events_parsed_total'';
     assert_eq later (before + 7)
   }"

definition test_inc_filtered_and_dispatched_renders :: "(canal_metrics \<Rightarrow> string) \<Rightarrow> canal_metrics \<Rightarrow> test" where
  "test_inc_filtered_and_dispatched_renders render m = do {
     let before_f = metric_value (render m) ''canal_events_filtered_total'';
     let before_d = metric_value (render m) ''canal_events_dispatched_total'';
     let m = inc_filtered 2 m;
     let m = inc_dispatched 3 m;
     let rendered = render m;
     assert_eq (metric_value rendered ''canal_events_filtered_total'') (before_f + 2);
     assert_eq (metric_value rendered ''canal_events_dispatched_total'') (before_d + 3)
   }"

definition test_inc_dispatch_errors_and_zero :: "(canal_metrics \<Rightarrow> string) \<Rightarrow> canal_metrics \<Rightarrow> test" where
  "test_inc_dispatch_errors_and_zero render m = do {
     let before = metric_value (render m) ''canal_dispatch_errors_total'';
     let m = inc_dispatch_errors 0 m;
     let m = inc_dispatch_errors 1 m;
     assert_eq (metric_value (render m) ''canal_dispatch_errors_total'') (before + 1)
   }"

definition test_set_instances_active_gauge :: "(canal_metrics \<Rightarrow> string) \<Rightarrow> canal_metrics \<Rightarrow> test" where
  "test_set_instances_active_gauge render m = do {
     let m = set_instances_active 4 m;
     assert_eq (metric_value (render m) ''canal_instances_active'') 4;
     let m = set_instances_active 0 m;
     assert_eq (metric_value (render m) ''canal_instances_active'') 0
   }"

definition test_metrics_auth_no_token_always_allowed :: test where
  "test_metrics_auth_no_token_always_allowed =
     assert_true (check_metrics_auth None None)"

definition test_metrics_auth_bearer_and_raw_token :: test where
  "test_metrics_auth_bearer_and_raw_token = do {
     assert_true (check_metrics_auth (Some ''Bearer tok'') (Some ''tok''));
     assert_true (check_metrics_auth (Some ''tok'') (Some ''tok''))
   }"

definition test_metrics_auth_rejections :: test where
  "test_metrics_auth_rejections = do {
     assert_true (\<not> check_metrics_auth None (Some ''tok''));
     assert_true (\<not> check_metrics_auth (Some ''Bearer wrong'') (Some ''tok''));
     assert_true (\<not> check_metrics_auth (Some ''Bearer to'') (Some ''tok''))
   }"

definition test_metrics_auth_empty_token_rejected :: test where
  "test_metrics_auth_empty_token_rejected = do {
     assert_true (\<not> check_metrics_auth None (Some ''''));
     assert_true (\<not> check_metrics_auth (Some ''Bearer '') (Some ''''))
   }"

lemma metrics_tests_pass:
  "test_metrics_server_with_auth_flag = Some ()"
  "test_inc_parsed_renders exposition earlier_metrics = Some ()"
  "test_inc_filtered_and_dispatched_renders exposition earlier_metrics = Some ()"
  "test_inc_dispatch_errors_and_zero exposition earlier_metrics = Some ()"
  "test_set_instances_active_gauge exposition earlier_metrics = Some ()"
  "test_metrics_auth_no_token_always_allowed = Some ()"
  "test_metrics_auth_bearer_and_raw_token = Some ()"
  "test_metrics_auth_rejections = Some ()"
  "test_metrics_auth_empty_token_rejected = Some ()"
  by (simp_all add: test_metrics_server_with_auth_flag_def test_inc_parsed_renders_def
      test_inc_filtered_and_dispatched_renders_def test_inc_dispatch_errors_and_zero_def
      test_set_instances_active_gauge_def test_metrics_auth_no_token_always_allowed_def
      test_metrics_auth_bearer_and_raw_token_def test_metrics_auth_rejections_def
      test_metrics_auth_empty_token_rejected_def metrics_server_new_def metrics_with_auth_def
      check_metrics_auth_def bytes_eq_iff bearer_def as_bytes_def metric_value_def line_value_def
      exposition_lines_def exposition_metric_def earlier_metrics_def inc_parsed_def inc_filtered_def
      inc_dispatched_def inc_dispatch_errors_def set_instances_active_def trim_def trim_start_def
      parse_u64_def is_digit_def digit_val_def nat_str.simps Let_def)

subsection \<open>\<open>lib.rs\<close> of \<open>canal-meta\<close>\<close>

definition make_column :: "string \<Rightarrow> bool \<Rightarrow> nat \<Rightarrow> column_meta" where
  "make_column name is_key pos =
     \<lparr>cm_name = name, cm_column_type = 253, cm_is_key = is_key, cm_is_nullable = False, cm_position = pos\<rparr>"

definition make_table_meta :: "int \<Rightarrow> table_meta" where
  "make_table_meta now =
     \<lparr>tm_schema_name = ''test_db'', tm_table_name = ''users'',
      tm_columns = [make_column ''id'' True 0, make_column ''name'' False 1, make_column ''email'' False 2],
      tm_updated_at = now\<rparr>"
definition test_put_and_get :: "int \<Rightarrow> test" where
  "test_put_and_get now = do {
     let cache = meta_put ''test_db.users'' (make_table_meta now) meta_new;
     meta \<leftarrow> meta_get cache ''test_db.users'';
     assert_eq (tm_schema_name meta) ''test_db'';
     assert_eq (column_count meta) 3
   }"

definition test_primary_keys :: "int \<Rightarrow> test" where
  "test_primary_keys now = do {
     let cache = meta_put ''test_db.users'' (make_table_meta now) meta_new;
     meta \<leftarrow> meta_get cache ''test_db.users'';
     let keys = primary_keys meta;
     assert_eq (length keys) 1;
     key \<leftarrow> nth_panics keys 0;
     assert_eq (cm_name key) ''id''
   }"

definition test_get_column_by_name :: "int \<Rightarrow> test" where
  "test_get_column_by_name now = do {
     let cache = meta_put ''test_db.users'' (make_table_meta now) meta_new;
     meta \<leftarrow> meta_get cache ''test_db.users'';
     col \<leftarrow> get_column meta ''email'';
     assert_eq (cm_name col) ''email'';
     assert_true (\<not> cm_is_key col)
   }"

definition test_remove :: "int \<Rightarrow> test" where
  "test_remove now = do {
     let cache = meta_put ''test_db.users'' (make_table_meta now) meta_new;
     let cache = meta_remove ''test_db.users'' cache;
     assert_true (meta_get cache ''test_db.users'' = None)
   }"

definition test_clear :: "int \<Rightarrow> test" where
  "test_clear now = do {
     let cache = meta_put ''a.b'' (make_table_meta now) meta_new;
     let cache = meta_put ''a.c'' (make_table_meta now) cache;
     let cache = meta_clear cache;
     assert_eq (meta_len cache) 0;
     assert_eq (meta_len cache) 0
   }"

definition test_contains :: "int \<Rightarrow> test" where
  "test_contains now = do {
     let cache = meta_new;
     assert_true (\<not> meta_contains cache ''a.b'');
     let cache = meta_put ''a.b'' (make_table_meta now) cache;
     assert_true (meta_contains cache ''a.b'')
   }"

definition test_get_missing_returns_none :: test where
  "test_get_missing_returns_none = do {
     let cache = meta_new;
     assert_true (meta_get cache ''no.such.table'' = None)
   }"

definition test_remove_nonexistent_is_noop :: test where
  "test_remove_nonexistent_is_noop = do {
     let cache = meta_remove ''no.such.table'' meta_new;
     assert_eq (meta_len cache) 0
   }"

definition test_is_empty_and_len :: "int \<Rightarrow> test" where
  "test_is_empty_and_len now = do {
     let cache = meta_new;
     assert_true (meta_is_empty cache);
     assert_eq (meta_len cache) 0;
     let cache = meta_put ''a.b'' (make_table_meta now) cache;
     let cache = meta_put ''a.c'' (make_table_meta now) cache;
     assert_true (\<not> meta_is_empty cache);
     assert_eq (meta_len cache) 2
   }"

definition test_put_overwrites_existing :: "int \<Rightarrow> test" where
  "test_put_overwrites_existing now = do {
     let cache = meta_put ''a.b'' (make_table_meta now) meta_new;
     let v2 = (make_table_meta now)\<lparr>tm_table_name := ''users_v2''\<rparr>;
     let cache = meta_put ''a.b'' v2 cache;
     assert_eq (meta_len cache) 1;
     meta \<leftarrow> meta_get cache ''a.b'';
     assert_eq (tm_table_name meta) ''users_v2''
   }"

definition test_get_returns_clone :: "int \<Rightarrow> test" where
  "test_get_returns_clone now = do {
     let cache = meta_put ''a.b'' (make_table_meta now) meta_new;
     meta \<leftarrow> meta_get cache ''a.b'';
     let meta = meta\<lparr>tm_table_name := ''mutated''\<rparr>;
     meta \<leftarrow> meta_get cache ''a.b'';
     assert_eq (tm_table_name meta) ''users''
   }"

definition test_get_column_missing :: "int \<Rightarrow> test" where
  "test_get_column_missing now = do {
     let meta = make_table_meta now;
     assert_true (get_column meta ''no_such_column'' = None);
     assert_true (get_column meta ''ID'' = None)
   }"

definition test_multiple_primary_keys :: "int \<Rightarrow> test" where
  "test_multiple_primary_keys now = do {
     let meta = (make_table_meta now)\<lparr>tm_columns :=
         [make_column ''a'' True 0, make_column ''b'' True 1, make_column ''c'' False 2]\<rparr>;
     let keys = primary_keys meta;
     assert_eq (length keys) 2;
     key \<leftarrow> nth_panics keys 0;
     assert_eq (cm_name key) ''a'';
     key \<leftarrow> nth_panics keys 1;
     assert_eq (cm_name key) ''b''
   }"

definition test_zero_primary_keys :: "int \<Rightarrow> test" where
  "test_zero_primary_keys now = do {
     let meta = make_table_meta now;
     let meta = meta\<lparr>tm_columns := map (\<lambda>c. c\<lparr>cm_is_key := False\<rparr>) (tm_columns meta)\<rparr>;
     assert_true (primary_keys meta = [])
   }"

definition test_column_count_empty_table :: "int \<Rightarrow> test" where
  "test_column_count_empty_table now = do {
     let meta = \<lparr>tm_schema_name = ''db'', tm_table_name = ''empty'', tm_columns = [], tm_updated_at = now\<rparr>;
     assert_eq (column_count meta) 0;
     assert_true (primary_keys meta = [])
   }"

definition test_default_impl_empty :: test where
  "test_default_impl_empty = do {
     let cache = meta_new;
     assert_true (meta_is_empty cache)
   }"

lemma meta_tests_pass_1:
  "test_put_and_get now = Some ()"
  "test_primary_keys now = Some ()"
  "test_get_column_by_name now = Some ()"
  "test_remove now = Some ()"
  "test_clear now = Some ()"
  "test_contains now = Some ()"
  "test_get_missing_returns_none = Some ()"
  "test_remove_nonexistent_is_noop = Some ()"
  "test_is_empty_and_len now = Some ()"
  "test_put_overwrites_existing now = Some ()"
  by (simp_all add: test_put_and_get_def test_primary_keys_def test_get_column_by_name_def
      test_remove_def test_clear_def test_contains_def test_get_missing_returns_none_def
      test_remove_nonexistent_is_noop_def test_is_empty_and_len_def test_put_overwrites_existing_def
      make_column_def make_table_meta_def meta_new_def meta_put_def meta_get_def meta_remove_def
      meta_contains_def meta_len_def meta_is_empty_def meta_clear_def primary_keys_def column_count_def
      get_column_def fcard_finsert_if)

lemma meta_tests_pass_2:
  "test_get_returns_clone now = Some ()"
  "test_get_column_missing now = Some ()"
  "test_multiple_primary_keys now = Some ()"
  "test_zero_primary_keys now = Some ()"
  "test_column_count_empty_table now = Some ()"
  "test_default_impl_empty = Some ()"
  by (simp_all add: test_get_returns_clone_def test_get_column_missing_def test_multiple_primary_keys_def
      test_zero_primary_keys_def test_column_count_empty_table_def test_default_impl_empty_def
      make_column_def make_table_meta_def meta_new_def meta_put_def meta_get_def meta_remove_def
      meta_contains_def meta_len_def meta_is_empty_def meta_clear_def primary_keys_def column_count_def
      get_column_def fcard_finsert_if)

end
