(* ===== verification/Canal_Tests_Admin.thy ===== *)
theory Canal_Tests_Admin
  imports Canal_Tests_Common Canal_Page Canal_Debug
begin

text \<open>
  The tests of \<open>canal-instance\<close> (\<open>instance.rs\<close>) and of \<open>canal-admin\<close> (\<open>lib.rs\<close>). Left out are those
  that only start a listener or serve the embedded picture. The iteration order of the manager's
  map is a parameter; the instances have no connectors, of the type \<open>unit\<close>.
\<close>

subsection \<open>\<open>instance.rs\<close>\<close>

definition make_config :: "string \<Rightarrow> instance_config" where
  "make_config destination =
     \<lparr>ic_destination = destination, ic_mysql_host = ''localhost'', ic_mysql_port = 3306,
      ic_mysql_username = ''root'', ic_mysql_password = ''pass'', ic_mysql_server_id = 1001,
      ic_start_position = log_position_new ''mysql-bin.000001'' 4, ic_filter = filter_pattern_default,
      ic_store_buffer_size = 1024, ic_connector_names = []\<rparr>"

text \<open>\<open>CanalInstance::new(config, vec![])\<close>, whose store may panic, and its \<open>unwrap\<close>.\<close>

definition creating :: "regex_engine \<Rightarrow> instance_config \<Rightarrow> unit canal_instance option" where
  "creating rx config = Option.bind (canal_instance_new rx config []) unwrap"

text \<open>\<open>manager.register(CanalInstance::new(make_config(..), vec![]).unwrap())\<close>.\<close>

definition registering :: "regex_engine \<Rightarrow> string \<Rightarrow> unit instance_manager \<Rightarrow> unit instance_manager option" where
  "registering rx destination m =
     map_option (\<lambda>i. manager_register i m) (creating rx (make_config destination))"

definition fed_event :: canal_event where
  "fed_event =
     \<lparr>ev_journal_name = ''mysql-bin.000001'', ev_position = 100, ev_server_id = 1, ev_execute_time = 0,
      ev_entry_type = EtInsert, ev_schema_name = ''db'', ev_table_name = ''t'', ev_row_change = None,
      ev_ddl_sql = None, ev_gtid = None, ev_raw_bytes = []\<rparr>"
definition test_instance_creation_and_lifecycle :: "regex_engine \<Rightarrow> test" where
  "test_instance_creation_and_lifecycle rx = do {
     instance \<leftarrow> creating rx (make_config ''test-dest'');
     assert_eq (instance_destination instance) ''test-dest'';
     assert_true (\<not> ci_running instance)
   }"

definition test_invalid_filter_returns_error :: "regex_engine \<Rightarrow> test" where
  "test_invalid_filter_returns_error rx = do {
     let config = make_config ''bad-filter'';
     let config = config\<lparr>ic_filter := (ic_filter config)\<lparr>fp_pattern := ''[invalid''\<rparr>\<rparr>;
     result \<leftarrow> canal_instance_new rx config ([] :: unit list);
     assert_true (isl result)
   }"

definition test_manager_register_and_lookup :: "regex_engine \<Rightarrow> test" where
  "test_manager_register_and_lookup rx = do {
     let manager = manager_new;
     manager \<leftarrow> registering rx ''my-dest'' manager;
     let found = manager_get manager ''my-dest'';
     assert_true (found \<noteq> None)
   }"

definition test_manager_list_instances :: "regex_engine \<Rightarrow> (unit map_order) \<Rightarrow> test" where
  "test_manager_list_instances rx iter = do {
     let manager = manager_new;
     manager \<leftarrow> registering rx ''a'' manager;
     manager \<leftarrow> registering rx ''b'' manager;
     manager \<leftarrow> registering rx ''c'' manager;
     assert_eq (length (manager_list iter manager)) 3
   }"

definition test_manager_remove :: "regex_engine \<Rightarrow> test" where
  "test_manager_remove rx = do {
     let manager = manager_new;
     manager \<leftarrow> registering rx ''x'' manager;
     let (removed, manager) = manager_remove ''x'' manager;
     assert_true (removed \<noteq> None);
     assert_true (manager_get manager ''x'' = None)
   }"

definition test_feed_events_to_instance :: "regex_engine \<Rightarrow> test" where
  "test_feed_events_to_instance rx = do {
     instance \<leftarrow> creating rx (make_config ''feed-test'');
     let instance = instance_start instance;
     let (r, instance) = feed True [fed_event] instance;
     r \<leftarrow> r;
     _ \<leftarrow> unwrap r;
     assert_true (ms_latest_position (instance_store instance) \<noteq> None)
   }"

definition test_config_clone :: test where
  "test_config_clone = do {
     let config = make_config ''clone-test'';
     let cloned = config;
     assert_eq (ic_destination config) (ic_destination cloned)
   }"

definition test_config_debug_redacts_password :: "(string \<Rightarrow> string) \<Rightarrow> test" where
  "test_config_debug_redacts_password w = do {
     let config = make_config ''dbg-test'';
     let config = config\<lparr>ic_mysql_password := ''sup3rsecret''\<rparr>;
     let dbg = debug_instance_config w config;
     assert_true (contains dbg ''destination'');
     assert_true (contains dbg ''<redacted>'');
     assert_true (\<not> contains dbg ''sup3rsecret'')
   }"

definition test_feed_before_start_errors :: "regex_engine \<Rightarrow> test" where
  "test_feed_before_start_errors rx = do {
     instance \<leftarrow> creating rx (make_config ''not-started'');
     let (r, instance) = feed True [] instance;
     r \<leftarrow> r;
     err \<leftarrow> unwrap_err r;
     assert_true (case err of Internal _ \<Rightarrow> True | _ \<Rightarrow> False)
   }"

definition test_feed_after_stop_errors :: "regex_engine \<Rightarrow> test" where
  "test_feed_after_stop_errors rx = do {
     instance \<leftarrow> creating rx (make_config ''stopped'');
     let instance = instance_start instance;
     let instance = instance_stop instance;
     let (r, instance) = feed True [] instance;
     r \<leftarrow> r;
     assert_true (isl r)
   }"

definition test_lifecycle_transitions_idempotent :: "regex_engine \<Rightarrow> test" where
  "test_lifecycle_transitions_idempotent rx = do {
     instance \<leftarrow> creating rx (make_config ''life'');
     assert_true (\<not> ci_running instance);
     let instance = instance_start instance;
     assert_true (ci_running instance);
     let instance = instance_start instance;
     assert_true (ci_running instance);
     let instance = instance_stop instance;
     assert_true (\<not> ci_running instance);
     let instance = instance_stop instance;
     assert_true (\<not> ci_running instance)
   }"

definition test_feed_empty_events_after_start :: "regex_engine \<Rightarrow> test" where
  "test_feed_empty_events_after_start rx = do {
     instance \<leftarrow> creating rx (make_config ''empty-feed'');
     let instance = instance_start instance;
     let (r, instance) = feed True [] instance;
     r \<leftarrow> r;
     assert_true (\<not> isl r);
     assert_true (ms_latest_position (instance_store instance) = None)
   }"

definition test_invalid_blacklist_returns_config_error :: "regex_engine \<Rightarrow> test" where
  "test_invalid_blacklist_returns_config_error rx = do {
     let config = make_config ''bad-blacklist'';
     let config = config\<lparr>ic_filter := (ic_filter config)\<lparr>fp_black_list := ''[bad''\<rparr>\<rparr>;
     result \<leftarrow> canal_instance_new rx config ([] :: unit list);
     assert_true (case result of Inl (Config _) \<Rightarrow> True | _ \<Rightarrow> False)
   }"

definition test_manager_get_and_remove_missing :: "(unit map_order) \<Rightarrow> test" where
  "test_manager_get_and_remove_missing iter = do {
     let manager = manager_new;
     assert_true (manager_get manager ''nope'' = None);
     let (removed, manager) = manager_remove ''nope'' manager;
     assert_true (removed = None);
     assert_true (manager_list iter manager = [])
   }"

definition test_manager_start_stop_all_and_running_count :: "regex_engine \<Rightarrow> (unit map_order) \<Rightarrow> test" where
  "test_manager_start_stop_all_and_running_count rx iter = do {
     let manager = manager_new;
     manager \<leftarrow> registering rx ''a'' manager;
     manager \<leftarrow> registering rx ''b'' manager;
     assert_eq (running_count iter manager) 0;
     let (r, manager) = start_all iter manager;
     _ \<leftarrow> unwrap r;
     assert_eq (running_count iter manager) 2;
     let (r, manager) = stop_all iter manager;
     _ \<leftarrow> unwrap r;
     assert_eq (running_count iter manager) 0
   }"

definition test_manager_register_overwrites_same_destination :: "regex_engine \<Rightarrow> (unit map_order) \<Rightarrow> test" where
  "test_manager_register_overwrites_same_destination rx iter = do {
     let manager = manager_new;
     manager \<leftarrow> registering rx ''dup'' manager;
     manager \<leftarrow> registering rx ''dup'' manager;
     assert_eq (length (manager_list iter manager)) 1
   }"

definition test_instance_with_blacklist_filter_builds :: "regex_engine \<Rightarrow> test" where
  "test_instance_with_blacklist_filter_builds rx = do {
     let config = make_config ''blacklisted'';
     let config = config\<lparr>ic_filter := (ic_filter config)\<lparr>fp_black_list := ''logs''\<rparr>\<rparr>;
     instance \<leftarrow> creating rx config;
     assert_eq (instance_destination instance) ''blacklisted'';
     assert_true (ms_latest_position (instance_store instance) = None)
   }"

lemma make_config_simps [simp]:
  "ic_destination (make_config d) = d" "ic_filter (make_config d) = filter_pattern_default"
  "ic_store_buffer_size (make_config d) = 1024" "fp_pattern filter_pattern_default = any_table"
  "fp_black_list filter_pattern_default = []"
  by (simp_all add: make_config_def filter_pattern_default_def any_table_def)

lemmas run_instance = creating_def any_table_def max_regex_size_def registering_def instance_destination_def instance_store_def feed_def sink_def sink_new_def sink_with_metrics_def
  mem_store_new_def put_batch_def put_evict_def put_truncate_def bump_watermark_def feed_in_order_def fed_event_def filter_passes_def event_filter_matches_def
  not_running_error_def invalid_filter_def canal_instance_new_def event_filter_with_blacklist_def max_filter_len_def tiny_regex_def
  instance_start_def instance_stop_def start_all_def stop_all_def running_count_def manager_list_def manager_new_def
  manager_get_def manager_register_def manager_remove_def sorted_list_of_fmap_def sorted_list_of_fset.rep_eq
  update_instance_def insert_Diff_if card_insert_if Let_def
lemma instance_tests_pass_1:
  "test_instance_creation_and_lifecycle tiny_regex = Some ()"
  "test_invalid_filter_returns_error tiny_regex = Some ()"
  "test_manager_register_and_lookup tiny_regex = Some ()"
  "test_manager_list_instances tiny_regex sorted_list_of_fmap = Some ()"
  "test_manager_remove tiny_regex = Some ()"
  "test_feed_events_to_instance tiny_regex = Some ()"
  by (simp_all add: test_instance_creation_and_lifecycle_def test_invalid_filter_returns_error_def
      test_manager_register_and_lookup_def test_manager_list_instances_def test_manager_remove_def
      test_feed_events_to_instance_def run_instance cong: let_weak_cong bind_weak_cong)

lemma instance_tests_pass_2:
  "test_config_clone = Some ()"
  "test_feed_before_start_errors tiny_regex = Some ()"
  "test_feed_after_stop_errors tiny_regex = Some ()"
  "test_lifecycle_transitions_idempotent tiny_regex = Some ()"
  "test_feed_empty_events_after_start tiny_regex = Some ()"
  "test_invalid_blacklist_returns_config_error tiny_regex = Some ()"
  by (simp_all add: test_config_clone_def test_feed_before_start_errors_def
      test_feed_after_stop_errors_def test_lifecycle_transitions_idempotent_def
      test_feed_empty_events_after_start_def test_invalid_blacklist_returns_config_error_def run_instance
      cong: let_weak_cong bind_weak_cong)

lemma instance_tests_pass_3:
  "test_manager_get_and_remove_missing sorted_list_of_fmap = Some ()"
  "test_manager_start_stop_all_and_running_count tiny_regex sorted_list_of_fmap = Some ()"
  "test_manager_register_overwrites_same_destination tiny_regex sorted_list_of_fmap = Some ()"
  "test_instance_with_blacklist_filter_builds tiny_regex = Some ()"
  by (simp_all add: test_manager_get_and_remove_missing_def
      test_manager_start_stop_all_and_running_count_def
      test_manager_register_overwrites_same_destination_def
      test_instance_with_blacklist_filter_builds_def run_instance cong: let_weak_cong bind_weak_cong)

lemma test_config_debug_redacts_password_passes: "test_config_debug_redacts_password w = Some ()"
  by (simp add: test_config_debug_redacts_password_def make_config_def debug_instance_config_def debug_struct_def
      debug_str_def escape_ascii_def redacted_def nat_str.simps Let_def)

subsection \<open>\<open>lib.rs\<close> of \<open>canal-admin\<close>\<close>

text \<open>The helpers of the tests. The clock stands still; the header \<open>0xFF 0xFE\<close> is no text, so that
  \<open>check_auth\<close> sees none.\<close>

definition state_with :: "int \<Rightarrow> unit instance_manager \<Rightarrow> string option \<Rightarrow> unit admin_state" where
  "state_with now mgr token =
     \<lparr>ad_instance_manager = mgr, ad_started_at = now, ad_admin_token = token\<rparr>"

definition starting :: "string \<Rightarrow> unit instance_manager \<Rightarrow> unit instance_manager option" where
  "starting d mgr = map_option (\<lambda>_. update_instance d instance_start mgr) (manager_get mgr d)"

definition find_summary :: "string \<Rightarrow> instance_summary list \<Rightarrow> instance_summary option" where
  "find_summary n xs = find (\<lambda>i. is_name i = n) xs"
definition test_index_shows_the_mascot :: "regex_engine \<Rightarrow> (unit map_order) \<Rightarrow> string \<Rightarrow> int \<Rightarrow> test" where
  "test_index_shows_the_mascot rx iter version now = do {
     let mgr = manager_new;
     mgr \<leftarrow> registering rx ''example'' mgr;
     let html = index_handler iter version now (state_with now mgr None);
     assert_true (contains html pet_name);
     assert_true (contains html ''/pet.svg'');
     assert_true (contains html version)
   }"

definition test_index_does_not_leak_instance_names_without_auth :: "regex_engine \<Rightarrow> (unit map_order) \<Rightarrow> string \<Rightarrow> int \<Rightarrow> test" where
  "test_index_does_not_leak_instance_names_without_auth rx iter version now = do {
     let mgr = manager_new;
     mgr \<leftarrow> registering rx ''secret-prod-db'' mgr;
     let html = index_handler iter version now (state_with now mgr (Some ''s3cret''));
     assert_true (\<not> contains html ''secret-prod-db'')
   }"

definition test_check_auth_no_token_required :: test where
  "test_check_auth_no_token_required =
     assert_eq (check_auth None None) (Inr ())"

definition test_check_auth_missing_header :: test where
  "test_check_auth_missing_header =
     assert_eq (check_auth None (Some ''secret'')) (Inl 401)"

definition test_check_auth_bearer_token_valid :: test where
  "test_check_auth_bearer_token_valid =
     assert_eq (check_auth (Some ''Bearer secret'') (Some ''secret'')) (Inr ())"

definition test_check_auth_raw_token_valid :: test where
  "test_check_auth_raw_token_valid =
     assert_eq (check_auth (Some ''secret'') (Some ''secret'')) (Inr ())"

definition test_check_auth_wrong_token :: test where
  "test_check_auth_wrong_token =
     assert_eq (check_auth (Some ''Bearer wrong'') (Some ''secret'')) (Inl 401)"

definition test_check_auth_empty_header_value :: test where
  "test_check_auth_empty_header_value =
     assert_eq (check_auth (Some '''') (Some ''secret'')) (Inl 401)"

definition test_register_and_list_instances :: "int \<Rightarrow> test" where
  "test_register_and_list_instances now = do {
     let mgr = (manager_new :: unit instance_manager);
     let server = admin_server_new now ''127.0.0.1:0'' mgr;
     assert_true (starts_with (as_bind_addr server) ''127.0.0.1'')
   }"

definition test_admin_server_with_auth :: "int \<Rightarrow> test" where
  "test_admin_server_with_auth now = do {
     let mgr = (manager_new :: unit instance_manager);
     let server = admin_with_auth ''test-token'' (admin_server_new now ''127.0.0.1:0'' mgr);
     assert_true (ad_admin_token (as_state server) \<noteq> None)
   }"

definition test_admin_state_debug_masks_token :: "(int \<Rightarrow> string) \<Rightarrow> int \<Rightarrow> test" where
  "test_admin_state_debug_masks_token instant now = do {
     let mgr = (manager_new :: unit instance_manager);
     let state = \<lparr>ad_instance_manager = mgr, ad_started_at = now, ad_admin_token = Some ''secret''\<rparr>;
     let dbg = debug_admin_state instant state;
     assert_true (contains dbg ''has_auth'');
     assert_true (\<not> contains dbg ''secret'')
   }"

definition test_constant_time_eq_cases :: test where
  "test_constant_time_eq_cases = do {
     assert_true (constant_time_eq (as_bytes ''abc'') (as_bytes ''abc''));
     assert_true (constant_time_eq [] []);
     assert_true (constant_time_eq [0xE5, 0xAF, 0x86, 0xE9, 0x92, 0xA5] [0xE5, 0xAF, 0x86, 0xE9, 0x92, 0xA5]);
     assert_true (constant_time_eq [0, 255, 1] [0, 255, 1]);
     assert_true (\<not> constant_time_eq (as_bytes ''abc'') (as_bytes ''abd''));
     assert_true (\<not> constant_time_eq (as_bytes ''abc'') (as_bytes ''abcd''));
     assert_true (\<not> constant_time_eq (as_bytes ''abc'') (as_bytes []));
     assert_true (\<not> constant_time_eq (as_bytes []) (as_bytes ''a''));
     assert_true (\<not> constant_time_eq (as_bytes ''a'') (as_bytes ''b''));
     assert_true (\<not> constant_time_eq [0xE5, 0xAF, 0x86, 0xE9, 0x92, 0xA5] [0xE5, 0xAF, 0x86, 0xE7, 0xA0, 0x81])
   }"

definition test_check_auth_invalid_and_case_sensitive_headers :: test where
  "test_check_auth_invalid_and_case_sensitive_headers = do {
     assert_eq (check_auth None (Some ''secret'')) (Inl 401);
     assert_eq (check_auth (Some ''bearer secret'') (Some ''secret'')) (Inl 401)
   }"

definition test_check_auth_empty_token_and_prefix_rejected :: test where
  "test_check_auth_empty_token_and_prefix_rejected = do {
     assert_eq (check_auth None (Some '''')) (Inl 401);
     assert_eq (check_auth (Some ''Bearer sec'') (Some ''secret'')) (Inl 401)
   }"

definition test_health_handler_fields :: "string \<Rightarrow> int \<Rightarrow> test" where
  "test_health_handler_fields version now = do {
     let mgr = manager_new;
     let state = state_with now mgr None;
     let resp = health_handler version now state;
     assert_eq (hr_status resp) ''UP'';
     assert_eq (hr_version resp) version;
     assert_eq (hr_uptime_seconds resp) 0
   }"

definition test_list_instances_empty :: "(unit map_order) \<Rightarrow> int \<Rightarrow> test" where
  "test_list_instances_empty iter now = do {
     let mgr = manager_new;
     let state = state_with now mgr None;
     resp \<leftarrow> unwrap (list_instances iter None state);
     assert_true (resp = [])
   }"

definition test_list_instances_reports_running_state :: "regex_engine \<Rightarrow> (unit map_order) \<Rightarrow> int \<Rightarrow> test" where
  "test_list_instances_reports_running_state rx iter now = do {
     let mgr = manager_new;
     mgr \<leftarrow> registering rx ''one'' mgr;
     mgr \<leftarrow> registering rx ''two'' mgr;
     mgr \<leftarrow> starting ''one'' mgr;
     let state = state_with now mgr None;
     resp \<leftarrow> unwrap (list_instances iter None state);
     assert_eq (length resp) 2;
     one \<leftarrow> find_summary ''one'' resp;
     assert_true (is_running_flag one);
     one \<leftarrow> find_summary ''one'' resp;
     assert_eq (is_destination one) ''one'';
     two \<leftarrow> find_summary ''two'' resp;
     assert_true (\<not> is_running_flag two)
   }"

definition test_handlers_require_auth_when_configured :: "regex_engine \<Rightarrow> (unit map_order) \<Rightarrow> int \<Rightarrow> test" where
  "test_handlers_require_auth_when_configured rx iter now = do {
     let mgr = manager_new;
     mgr \<leftarrow> registering rx ''one'' mgr;
     let state = state_with now mgr (Some ''token'');
     err \<leftarrow> unwrap_err (list_instances iter None state);
     assert_eq err 401;
     err \<leftarrow> unwrap_err (fst (start_instance None ''one'' state));
     assert_eq err 401;
     resp \<leftarrow> unwrap (list_instances iter (Some ''Bearer token'') state);
     assert_eq (length resp) 1
   }"

definition test_start_instance_unknown_destination :: "int \<Rightarrow> test" where
  "test_start_instance_unknown_destination now = do {
     let mgr = manager_new;
     let state = state_with now mgr None;
     resp \<leftarrow> unwrap (fst (start_instance None ''ghost'' state));
     assert_eq (st_status resp) ''not_found'';
     assert_true (contains (st_message resp) ''ghost'')
   }"

definition test_start_instance_success_and_idempotent :: "regex_engine \<Rightarrow> int \<Rightarrow> test" where
  "test_start_instance_success_and_idempotent rx now = do {
     let mgr = manager_new;
     mgr \<leftarrow> registering rx ''db1'' mgr;
     let state = state_with now mgr None;
     let (r, state) = start_instance None ''db1'' state;
     resp \<leftarrow> unwrap r;
     assert_eq (st_status resp) ''ok'';
     assert_true (contains (st_message resp) ''started'');
     let mgr = ad_instance_manager state;
     instance \<leftarrow> manager_get mgr ''db1'';
     assert_true (ci_running instance);
     let state = state_with now mgr None;
     let (r, state) = start_instance None ''db1'' state;
     resp \<leftarrow> unwrap r;
     assert_eq (st_status resp) ''ok'';
     instance \<leftarrow> manager_get (ad_instance_manager state) ''db1'';
     assert_true (ci_running instance)
   }"

definition test_stop_instance_success_and_not_found :: "regex_engine \<Rightarrow> int \<Rightarrow> test" where
  "test_stop_instance_success_and_not_found rx now = do {
     let mgr = manager_new;
     mgr \<leftarrow> registering rx ''db1'' mgr;
     mgr \<leftarrow> starting ''db1'' mgr;
     let state = state_with now mgr None;
     let (r, state) = stop_instance None ''db1'' state;
     resp \<leftarrow> unwrap r;
     assert_eq (st_status resp) ''ok'';
     let mgr = ad_instance_manager state;
     instance \<leftarrow> manager_get mgr ''db1'';
     assert_true (\<not> ci_running instance);
     let state = state_with now mgr None;
     resp \<leftarrow> unwrap (fst (stop_instance None ''nope'' state));
     assert_eq (st_status resp) ''not_found''
   }"

lemmas run_admin = run_instance state_with_def starting_def find_summary_def check_auth_def bearer_def
  constant_time_eq_text admin_server_new_def admin_with_auth_def debug_admin_state_def debug_struct_def debug_bool_def
  health_handler_def elapsed_secs_def list_instances_def start_instance_def stop_instance_def start_result_def
  stop_result_def not_found_message_def quoted_def
lemma admin_tests_pass_1:
  "test_check_auth_no_token_required = Some ()"
  "test_check_auth_missing_header = Some ()"
  "test_check_auth_bearer_token_valid = Some ()"
  "test_check_auth_raw_token_valid = Some ()"
  "test_check_auth_wrong_token = Some ()"
  "test_check_auth_empty_header_value = Some ()"
  by (simp_all add: test_check_auth_no_token_required_def test_check_auth_missing_header_def
      test_check_auth_bearer_token_valid_def test_check_auth_raw_token_valid_def
      test_check_auth_wrong_token_def test_check_auth_empty_header_value_def run_admin cong:
      let_weak_cong bind_weak_cong)

lemma admin_tests_pass_2:
  "test_register_and_list_instances 7 = Some ()"
  "test_admin_server_with_auth 7 = Some ()"
  "test_admin_state_debug_masks_token (\<lambda>_. ''Instant'') 7 = Some ()"
  "test_check_auth_invalid_and_case_sensitive_headers = Some ()"
  "test_check_auth_empty_token_and_prefix_rejected = Some ()"
  "test_health_handler_fields ''0.1.0'' 7 = Some ()"
  by (simp_all add: test_register_and_list_instances_def test_admin_server_with_auth_def
      test_admin_state_debug_masks_token_def test_check_auth_invalid_and_case_sensitive_headers_def
      test_check_auth_empty_token_and_prefix_rejected_def test_health_handler_fields_def run_admin cong:
      let_weak_cong bind_weak_cong)

lemma admin_tests_pass_3:
  "test_list_instances_empty sorted_list_of_fmap 7 = Some ()"
  "test_list_instances_reports_running_state tiny_regex sorted_list_of_fmap 7 = Some ()"
  "test_handlers_require_auth_when_configured tiny_regex sorted_list_of_fmap 7 = Some ()"
  "test_start_instance_unknown_destination 7 = Some ()"
  "test_start_instance_success_and_idempotent tiny_regex 7 = Some ()"
  "test_stop_instance_success_and_not_found tiny_regex 7 = Some ()"
  by (simp_all add: test_list_instances_empty_def test_list_instances_reports_running_state_def
      test_handlers_require_auth_when_configured_def test_start_instance_unknown_destination_def
      test_start_instance_success_and_idempotent_def test_stop_instance_success_and_not_found_def
      run_admin cong: let_weak_cong bind_weak_cong)

lemma constant_time_eq_self [simp]: "constant_time_eq a a"
  by (simp add: constant_time_eq_iff)

lemma constant_time_eq_differ: "i < length a \<Longrightarrow> i < length b \<Longrightarrow> a ! i \<noteq> b ! i \<Longrightarrow> \<not> constant_time_eq a b"
  by (auto simp: constant_time_eq_iff byte_at_def intro!: exI [of _ i])

lemma test_constant_time_eq_cases_passes: "test_constant_time_eq_cases = Some ()"
proof -
  have "\<not> constant_time_eq [0xE5, 0xAF, 0x86, 0xE9, 0x92, 0xA5] [0xE5, 0xAF, 0x86, 0xE7, 0xA0, 0x81]"
    by (rule constant_time_eq_differ [of 3]) simp_all
  moreover have "\<not> constant_time_eq (as_bytes ''abc'') (as_bytes [])" "\<not> constant_time_eq (as_bytes []) (as_bytes ''a'')"
    "\<not> constant_time_eq (as_bytes ''abc'') (as_bytes ''abd'')" "\<not> constant_time_eq (as_bytes ''abc'') (as_bytes ''abcd'')"
    "\<not> constant_time_eq (as_bytes ''a'') (as_bytes ''b'')"
    by (subst constant_time_eq_text; simp)+
  ultimately show ?thesis
    by (simp only: test_constant_time_eq_cases_def constant_time_eq_self assert_simps not_False_eq_True bind.bind_lunit)
qed
text \<open>The landing page.\<close>

lemma test_index_shows_the_mascot_passes:
  "test_index_shows_the_mascot tiny_regex sorted_list_of_fmap ''0.1.0'' 7 = Some ()"
  by (simp add: test_index_shows_the_mascot_def index_handler_def index_page_def index_values_def run_instance state_with_def
      elapsed_secs_def pet_name_def pet_tagline_def em_dash_def newline_def int_str_def nat_str.simps)

lemma test_index_does_not_leak_instance_names_without_auth_passes:
  "test_index_does_not_leak_instance_names_without_auth tiny_regex sorted_list_of_fmap ''0.1.0'' 7 = Some ()"
  by (simp add: test_index_does_not_leak_instance_names_without_auth_def index_handler_def index_page_def index_values_def
      run_instance state_with_def elapsed_secs_def pet_name_def pet_tagline_def em_dash_def newline_def int_str_def nat_str.simps)

end
