(* ===== verification/Canal_Tests_Prost.thy ===== *)
theory Canal_Tests_Prost
  imports Canal_Std Canal_Proto "HOL-Library.Countable"
begin

text \<open>
  What the tests of the server rely on of \<open>prost\<close>: decoding inverts encoding for every message, a
  packet with a type and the row change of an event are not empty, the row change of an event
  without rows is short, and three bodies that are not protobuf are refused. A concrete wire format
  with these laws shows that they can hold together.
\<close>

definition prost_laws :: "prost \<Rightarrow> bool" where
  "prost_laws pb \<longleftrightarrow>
     (\<forall>m. dec_packet pb (enc_packet pb m) = Inr m)
     \<and> (\<forall>m. dec_client_auth pb (enc_client_auth pb m) = Inr m)
     \<and> (\<forall>m. dec_ack pb (enc_ack pb m) = Inr m)
     \<and> (\<forall>m. dec_client_ack pb (enc_client_ack pb m) = Inr m)
     \<and> (\<forall>m. dec_sub pb (enc_sub pb m) = Inr m)
     \<and> (\<forall>m. dec_get_request pb (enc_get_request pb m) = Inr m)
     \<and> (\<forall>m. dec_messages pb (enc_messages pb m) = Inr m)
     \<and> (\<forall>m. dec_client_rollback pb (enc_client_rollback pb m) = Inr m)
     \<and> (\<forall>m. dec_entry pb (enc_entry pb m) = Inr m)
     \<and> (\<forall>m. dec_proto_row_change pb (enc_proto_row_change pb m) = Inr m)
     \<and> (\<forall>m. pk_type m \<noteq> 0 \<longrightarrow> enc_packet pb m \<noteq> [])
     \<and> (\<forall>m. prc_event_type_present m \<noteq> None \<longrightarrow> enc_proto_row_change pb m \<noteq> [])
     \<and> (\<forall>v. length (enc_proto_row_change pb
            (proto_row_change_default\<lparr>prc_event_type_present := Some (RowEventType v)\<rparr>)) \<le> 16)
     \<and> isl (dec_client_auth pb [0xFF, 0x00, 0xDE, 0xAD])
     \<and> isl (dec_client_ack pb [0xFF, 0xFF])
     \<and> isl (dec_client_rollback pb [0xFF])"

lemma prost_decode:
  assumes "prost_laws pb"
  shows "dec_packet pb (enc_packet pb p) = Inr p"
    and "dec_client_auth pb (enc_client_auth pb auth) = Inr auth"
    and "dec_ack pb (enc_ack pb ack) = Inr ack"
    and "dec_client_ack pb (enc_client_ack pb cack) = Inr cack"
    and "dec_sub pb (enc_sub pb sub) = Inr sub"
    and "dec_get_request pb (enc_get_request pb get) = Inr get"
    and "dec_messages pb (enc_messages pb msgs) = Inr msgs"
    and "dec_client_rollback pb (enc_client_rollback pb rollback) = Inr rollback"
    and "dec_entry pb (enc_entry pb entry) = Inr entry"
    and "dec_proto_row_change pb (enc_proto_row_change pb rc) = Inr rc"
  using assms by (simp_all add: prost_laws_def)

lemma prost_garbage:
  assumes "prost_laws pb"
  obtains e1 e2 e3 where "dec_client_auth pb [0xFF, 0x00, 0xDE, 0xAD] = Inl e1"
    "dec_client_ack pb [0xFF, 0xFF] = Inl e2" "dec_client_rollback pb [0xFF] = Inl e3"
  using assms by (auto simp: prost_laws_def isl_def)

lemma packet_not_empty:
  assumes "prost_laws pb" and "pk_type m \<noteq> 0"
  shows "enc_packet pb m \<noteq> []"
  using assms by (simp add: prost_laws_def)

lemma row_change_not_empty:
  assumes "prost_laws pb" and "prc_event_type_present m = Some v"
  shows "enc_proto_row_change pb m \<noteq> []"
  using assms by (simp add: prost_laws_def)

text \<open>The length of a row change without rows, as the header's signed field.\<close>

lemma row_change_length:
  assumes "prost_laws pb"
  shows "0 <s (of_nat (length (enc_proto_row_change pb
    (proto_row_change_default\<lparr>prc_event_type_present := Some (RowEventType v)\<rparr>))) :: i64)"
proof -
  let ?b = "enc_proto_row_change pb (proto_row_change_default\<lparr>prc_event_type_present := Some (RowEventType v)\<rparr>)"
  have "?b \<noteq> []" "length ?b \<le> 16"
    using assms by (simp_all add: prost_laws_def)
  then have n: "0 < length ?b" "length ?b < 2 ^ 63"
    by simp_all
  then have "sint (of_nat (length ?b) :: i64) = int (length ?b)"
    by (simp add: signed_of_nat signed_take_bit_int_eq_self_iff)
  with n show ?thesis
    by (simp add: word_sless_alt)
qed

subsection \<open>A wire format with these laws\<close>

instance magic_number_present :: countable by countable_datatype
instance packet_version_present :: countable by countable_datatype
instance compression_present :: countable by countable_datatype
instance net_read_timeout_present :: countable by countable_datatype
instance net_write_timeout_present :: countable by countable_datatype
instance error_code_present :: countable by countable_datatype
instance timeout_present :: countable by countable_datatype
instance unit_present :: countable by countable_datatype
instance auto_ack_present :: countable by countable_datatype
instance header_version_present :: countable by countable_datatype
instance source_type_present :: countable by countable_datatype
instance event_type_present :: countable by countable_datatype
instance entry_type_present :: countable by countable_datatype
instance is_null_present :: countable by countable_datatype
instance row_event_type_present :: countable by countable_datatype
instance is_ddl_present :: countable by countable_datatype

instance packet_ext :: (countable) countable
  by (rule countable_classI [of
      "\<lambda>x. to_nat (pk_type x, pk_body x, pk_magic_number_present x, pk_version_present x,
        pk_compression_present x, packet.more x)"]) simp

instance client_auth_ext :: (countable) countable
  by (rule countable_classI [of
      "\<lambda>x. to_nat (ca_username x, ca_password x, ca_destination x, ca_client_id x,
        ca_filter x, ca_start_timestamp x, ca_net_read_timeout_present x,
        ca_net_write_timeout_present x, client_auth.more x)"]) simp

instance ack_ext :: (countable) countable
  by (rule countable_classI [of
      "\<lambda>x. to_nat (ak_error_message x, ak_error_code_present x, ack.more x)"]) simp

instance client_ack_ext :: (countable) countable
  by (rule countable_classI [of
      "\<lambda>x. to_nat (cl_destination x, cl_client_id x, cl_batch_id x, client_ack.more x)"]) simp

instance sub_ext :: (countable) countable
  by (rule countable_classI [of
      "\<lambda>x. to_nat (sb_destination x, sb_client_id x, sb_filter x, sub.more x)"]) simp

instance get_request_ext :: (countable) countable
  by (rule countable_classI [of
      "\<lambda>x. to_nat (gt_destination x, gt_client_id x, gt_fetch_size x,
        gt_timeout_present x, gt_unit_present x, gt_auto_ack_present x, get_request.more x)"]) simp

instance messages_ext :: (countable) countable
  by (rule countable_classI [of
      "\<lambda>x. to_nat (mg_batch_id x, mg_messages x, messages.more x)"]) simp

instance client_rollback_ext :: (countable) countable
  by (rule countable_classI [of
      "\<lambda>x. to_nat (cr_destination x, cr_client_id x, cr_batch_id x,
        client_rollback.more x)"]) simp

instance pair_ext :: (countable) countable
  by (rule countable_classI [of
      "\<lambda>x. to_nat (kv_key x, kv_value x, pair.more x)"]) simp

instance header_ext :: (countable) countable
  by (rule countable_classI [of
      "\<lambda>x. to_nat (hd_logfile_name x, hd_logfile_offset x, hd_server_id x,
        hd_serveren_code x, hd_execute_time x, hd_schema_name x, hd_table_name x,
        hd_event_length x, hd_props x, hd_gtid x, hd_version_present x, hd_source_type_present x,
        hd_event_type_present x, header.more x)"]) simp

instance entry_ext :: (countable) countable
  by (rule countable_classI [of
      "\<lambda>x. to_nat (en_header x, en_store_value x, en_entry_type_present x, entry.more x)"]) simp

instance column_ext :: (countable) countable
  by (rule countable_classI [of
      "\<lambda>x. to_nat (co_index x, co_sql_type x, co_name x, co_is_key x, co_updated x,
        co_props x, co_value x, co_length x, co_mysql_type x, co_is_null_present x,
        column.more x)"]) simp

instance proto_row_data_ext :: (countable) countable
  by (rule countable_classI [of
      "\<lambda>x. to_nat (prd_before_columns x, prd_after_columns x, prd_props x,
        proto_row_data.more x)"]) simp

instance proto_row_change_ext :: (countable) countable
  by (rule countable_classI [of
      "\<lambda>x. to_nat (prc_table_id x, prc_sql x, prc_row_datas x, prc_props x,
        prc_ddl_schema_name x, prc_event_type_present x, prc_is_ddl_present x,
        proto_row_change.more x)"]) simp

text \<open>A message as a number in unary; and a row change without rows as a tag with its event type.\<close>

definition unary :: "'a :: countable \<Rightarrow> bytes" where
  "unary m = replicate (Suc (to_nat m)) 1"

definition decode_with :: "('a \<Rightarrow> bytes) \<Rightarrow> bytes \<Rightarrow> (string, 'a) rust_result" where
  "decode_with enc b = (if b \<in> range enc then Inr (inv enc b) else Inl ''unreadable'')"

definition plain_row_change :: "i32 \<Rightarrow> proto_row_change" where
  "plain_row_change v = proto_row_change_default\<lparr>prc_event_type_present := Some (RowEventType v)\<rparr>"

definition encode_row_change :: "proto_row_change \<Rightarrow> bytes" where
  "encode_row_change m =
     (case prc_event_type_present m of
        Some (RowEventType v) \<Rightarrow>
          (if m = plain_row_change v then 2 # u32_to_be_bytes v else unary m)
      | None \<Rightarrow> unary m)"

definition unary_prost :: prost where
  "unary_prost =
     \<lparr>enc_packet = unary, dec_packet = decode_with unary,
      enc_client_auth = unary, dec_client_auth = decode_with unary,
      enc_ack = unary, dec_ack = decode_with unary,
      enc_client_ack = unary, dec_client_ack = decode_with unary,
      enc_sub = unary, dec_sub = decode_with unary,
      enc_get_request = unary, dec_get_request = decode_with unary,
      enc_messages = unary, dec_messages = decode_with unary,
      enc_client_rollback = unary, dec_client_rollback = decode_with unary,
      enc_entry = unary, dec_entry = decode_with unary,
      enc_proto_row_change = encode_row_change, dec_proto_row_change = decode_with encode_row_change\<rparr>"

lemma decode_with_inverse: "inj enc \<Longrightarrow> decode_with enc (enc m) = Inr m"
  by (simp add: decode_with_def)

lemma inj_unary: "inj unary"
  by (rule injI) (auto simp: unary_def replicate_eq_replicate)

lemma unary_head: "b # bs = unary m \<Longrightarrow> b = 1"
  by (simp add: unary_def)

lemma unary_not_empty: "unary m \<noteq> []"
  by (simp add: unary_def)

lemma hd_unary: "hd (unary m) = 1"
  by (simp add: unary_def)

lemma unary_refuses: "b \<noteq> 1 \<Longrightarrow> isl (decode_with unary (b # bs))"
  by (auto simp: decode_with_def dest: unary_head)

lemma inj_encode_row_change: "inj encode_row_change"
proof (rule inj_on_inverseI)
  fix m :: proto_row_change
  show "(\<lambda>b. if hd b = 2 then plain_row_change (u32_from_be_bytes (tl b)) else inv unary b)
      (encode_row_change m) = m"
    by (auto simp: encode_row_change_def hd_unary inj_unary split: option.splits row_event_type_present.splits)
qed

lemma prost_laws_hold: "prost_laws unary_prost"
proof -
  have "\<forall>m. prc_event_type_present m \<noteq> None \<longrightarrow> encode_row_change m \<noteq> []"
    by (auto simp: encode_row_change_def unary_def split: row_event_type_present.splits if_splits)
  moreover have "\<forall>v. length (encode_row_change (plain_row_change v)) \<le> 16"
    by (simp add: encode_row_change_def plain_row_change_def)
  ultimately show ?thesis
    by (simp add: prost_laws_def unary_prost_def decode_with_inverse inj_unary inj_encode_row_change
        unary_refuses unary_not_empty plain_row_change_def)
qed

end
