(* ===== verification/Canal_Tests_Wire.thy ===== *)
theory Canal_Tests_Wire
  imports Canal_Tests_Common Canal_Tests_Store Canal_Tests_Prost Canal_Conversion
begin

text \<open>
  The tests of the server about what goes over the wire: \<open>tests.rs\<close>, with the sessions, the entries
  and the packets, and \<open>tests_conversion.rs\<close>. They run on every wire format with the laws of
  \<open>Canal_Tests_Prost\<close>. Left out is the test that only binds a listener.
\<close>

subsection \<open>\<open>tests.rs\<close>\<close>

definition test_handle_client_registers_and_sends_events :: "regex_engine \<Rightarrow> timestamp \<Rightarrow> test" where
  "test_handle_client_registers_and_sends_events rx now = do {
     store \<leftarrow> mem_store_new 1024;
     let sessions = session_manager_new;
     let event = \<lparr>ev_journal_name = ''mysql-bin.000001'', ev_position = 200, ev_server_id = 1, ev_execute_time = 0,
         ev_entry_type = EtInsert, ev_schema_name = ''test'', ev_table_name = ''t'', ev_row_change = None,
         ev_ddl_sql = None, ev_gtid = None, ev_raw_bytes = []\<rparr>;
     (_, store) \<leftarrow> putting [event] store;
     let sessions = sessions_register rx now ''test-client'' ''example'' filter_pattern_default sessions;
     session \<leftarrow> sessions_get sessions ''test-client'';
     assert_eq (cs_client_id session) ''test-client'';
     let sessions = sessions_unregister ''test-client'' sessions;
     assert_true (sessions_get sessions ''test-client'' = None);
     let start_pos = log_position_new ''mysql-bin.000001'' 4;
     (batch, store) \<leftarrow> getting start_pos 10 store;
     assert_eq (length (es_events batch)) 1
   }"

lemma registry_tests_pass:
  "test_handle_client_registers_and_sends_events tiny_regex 1000 = Some ()"
  by (simp_all add: test_handle_client_registers_and_sends_events_def run_store ev_key_def
      ev_log_position_def session_manager_new_def sessions_register_def sessions_unregister_def
      sessions_get_def client_session_new_def)

text \<open>The length of the entry's row change is the row's own; the test looks at its sign.\<close>

definition test_canal_event_to_entry_header_fields :: "prost \<Rightarrow> test" where
  "test_canal_event_to_entry_header_fields pb = do {
     let event = \<lparr>ev_journal_name = ''mysql-bin.000001'', ev_position = 1234, ev_server_id = 42,
         ev_execute_time = 1690000000, ev_entry_type = EtInsert, ev_schema_name = ''mydb'',
         ev_table_name = ''users'', ev_row_change = None, ev_ddl_sql = None,
         ev_gtid = Some ''3e11fa47-71ca-11e1-9e33-c80aa9429562:1-5'', ev_raw_bytes = replicate 100 0\<rparr>;
     entry \<leftarrow> unwrap (canal_event_to_entry pb event);
     h \<leftarrow> en_header entry;
     assert_eq (hd_logfile_name h) ''mysql-bin.000001'';
     assert_eq (hd_logfile_offset h) 1234;
     assert_eq (hd_server_id h) 42;
     assert_eq (hd_execute_time h) 1690000000;
     assert_eq (hd_schema_name h) ''mydb'';
     assert_eq (hd_table_name h) ''users'';
     assert_eq (hd_gtid h) ''3e11fa47-71ca-11e1-9e33-c80aa9429562:1-5'';
     assert_true (0 <s hd_event_length h);
     assert_eq (hd_event_type_present h) (Some (EventTypeField (proto_event_type_i32 PeInsert)))
   }"

definition test_canal_event_to_entry_with_row_change :: "prost \<Rightarrow> test" where
  "test_canal_event_to_entry_with_row_change pb = do {
     let row_change = \<lparr>rc_table_name = ''users'', rc_schema_name = ''mydb'', rc_before = None,
         rc_after = Some \<lparr>rd_columns =
           [\<lparr>cv_name = ''id'', cv_value = Some ''1'', cv_column_type = 3, cv_is_key = True, cv_updated = False\<rparr>,
            \<lparr>cv_name = ''name'', cv_value = Some ''alice'', cv_column_type = 253, cv_is_key = False,
             cv_updated = False\<rparr>]\<rparr>,
         rc_dml_type = DmlInsert\<rparr>;
     let event = \<lparr>ev_journal_name = ''mysql-bin.000001'', ev_position = 567, ev_server_id = 1, ev_execute_time = 0,
         ev_entry_type = EtInsert, ev_schema_name = ''mydb'', ev_table_name = ''users'',
         ev_row_change = Some row_change, ev_ddl_sql = None, ev_gtid = None, ev_raw_bytes = []\<rparr>;
     entry \<leftarrow> unwrap (canal_event_to_entry pb event);
     assert_true (en_store_value entry \<noteq> []);
     rc \<leftarrow> unwrap (dec_proto_row_change pb (en_store_value entry));
     assert_eq (length (prc_row_datas rc)) 1;
     rd \<leftarrow> nth_panics (prc_row_datas rc) 0;
     assert_eq (length (prd_before_columns rd)) 0;
     assert_eq (length (prd_after_columns rd)) 2;
     col0 \<leftarrow> nth_panics (prd_after_columns rd) 0;
     assert_eq (co_name col0) ''id'';
     assert_eq (co_value col0) ''1'';
     assert_true (co_is_key col0);
     col1 \<leftarrow> nth_panics (prd_after_columns rd) 1;
     assert_eq (co_name col1) ''name'';
     assert_eq (co_value col1) ''alice'';
     assert_true (\<not> co_is_key col1)
   }"

definition test_canal_event_to_entry_update_with_before_and_after :: "prost \<Rightarrow> test" where
  "test_canal_event_to_entry_update_with_before_and_after pb = do {
     let row_change = \<lparr>rc_table_name = ''users'', rc_schema_name = ''mydb'',
         rc_before = Some \<lparr>rd_columns =
           [\<lparr>cv_name = ''name'', cv_value = Some ''alice'', cv_column_type = 253, cv_is_key = False,
             cv_updated = False\<rparr>]\<rparr>,
         rc_after = Some \<lparr>rd_columns =
           [\<lparr>cv_name = ''name'', cv_value = Some ''bob'', cv_column_type = 253, cv_is_key = False,
             cv_updated = True\<rparr>]\<rparr>,
         rc_dml_type = DmlUpdate\<rparr>;
     let event = \<lparr>ev_journal_name = ''mysql-bin.000001'', ev_position = 789, ev_server_id = 1, ev_execute_time = 0,
         ev_entry_type = EtUpdate, ev_schema_name = ''mydb'', ev_table_name = ''users'',
         ev_row_change = Some row_change, ev_ddl_sql = None, ev_gtid = None, ev_raw_bytes = []\<rparr>;
     entry \<leftarrow> unwrap (canal_event_to_entry pb event);
     assert_true (en_store_value entry \<noteq> []);
     rc \<leftarrow> unwrap (dec_proto_row_change pb (en_store_value entry));
     rd \<leftarrow> nth_panics (prc_row_datas rc) 0;
     assert_eq (length (prd_before_columns rd)) 1;
     col0 \<leftarrow> nth_panics (prd_before_columns rd) 0;
     assert_eq (co_value col0) ''alice'';
     assert_true (\<not> co_updated col0);
     assert_eq (length (prd_after_columns rd)) 1;
     col0 \<leftarrow> nth_panics (prd_after_columns rd) 0;
     assert_eq (co_value col0) ''bob'';
     assert_true (co_updated col0)
   }"

definition test_canal_event_to_entry_delete :: "prost \<Rightarrow> test" where
  "test_canal_event_to_entry_delete pb = do {
     let row_change = \<lparr>rc_table_name = ''users'', rc_schema_name = ''mydb'',
         rc_before = Some \<lparr>rd_columns =
           [\<lparr>cv_name = ''id'', cv_value = Some ''99'', cv_column_type = 3, cv_is_key = True, cv_updated = False\<rparr>]\<rparr>,
         rc_after = None, rc_dml_type = DmlDelete\<rparr>;
     let event = \<lparr>ev_journal_name = ''mysql-bin.000001'', ev_position = 999, ev_server_id = 1, ev_execute_time = 0,
         ev_entry_type = EtDelete, ev_schema_name = ''mydb'', ev_table_name = ''users'',
         ev_row_change = Some row_change, ev_ddl_sql = None, ev_gtid = None, ev_raw_bytes = []\<rparr>;
     entry \<leftarrow> unwrap (canal_event_to_entry pb event);
     rc \<leftarrow> unwrap (dec_proto_row_change pb (en_store_value entry));
     rd \<leftarrow> nth_panics (prc_row_datas rc) 0;
     assert_eq (length (prd_before_columns rd)) 1;
     assert_eq (length (prd_after_columns rd)) 0;
     col0 \<leftarrow> nth_panics (prd_before_columns rd) 0;
     assert_eq (co_value col0) ''99''
   }"

definition test_canal_event_to_entry_ddl :: "prost \<Rightarrow> test" where
  "test_canal_event_to_entry_ddl pb = do {
     let event = \<lparr>ev_journal_name = ''mysql-bin.000001'', ev_position = 200, ev_server_id = 1, ev_execute_time = 0,
         ev_entry_type = EtDdl, ev_schema_name = ''mydb'', ev_table_name = ''users'', ev_row_change = None,
         ev_ddl_sql = Some ''ALTER TABLE users ADD COLUMN age INT'', ev_gtid = None, ev_raw_bytes = []\<rparr>;
     entry \<leftarrow> unwrap (canal_event_to_entry pb event);
     rc \<leftarrow> unwrap (dec_proto_row_change pb (en_store_value entry));
     assert_eq (prc_sql rc) ''ALTER TABLE users ADD COLUMN age INT'';
     assert_eq (prc_ddl_schema_name rc) ''mydb'';
     assert_eq (prc_is_ddl_present rc) (Some (IsDdl True))
   }"

definition test_column_value_to_proto_with_null :: test where
  "test_column_value_to_proto_with_null = do {
     let col = \<lparr>cv_name = ''email'', cv_value = None, cv_column_type = 253, cv_is_key = False, cv_updated = False\<rparr>;
     let proto_col = column_value_to_proto col False;
     assert_eq (co_name proto_col) ''email'';
     assert_eq (co_value proto_col) '''';
     assert_true (co_is_null_present proto_col \<noteq> None)
   }"

lemmas run_conversion = canal_event_to_entry_def proto_event_code_def entry_header_def entry_row_change_def
  column_value_to_proto_def entry_default_def proto_row_change_default_def proto_row_data_default_def
  header_default_def column_default_def dml_code_def Let_def

lemma plain_row_change_length:
  assumes "prost_laws pb"
  shows "0 <s (of_nat (length (enc_proto_row_change pb
    \<lparr>prc_table_id = 0, prc_sql = [], prc_row_datas = [], prc_props = [],
     prc_ddl_schema_name = [], prc_event_type_present = Some (RowEventType v), prc_is_ddl_present = None\<rparr>)) :: i64)"
  using row_change_length [OF assms, of v] by (simp add: proto_row_change_default_def)

lemmas run_prost = prost_decode row_change_not_empty plain_row_change_length

lemma entry_tests_pass_1:
  assumes "prost_laws pb"
  shows
  "test_canal_event_to_entry_header_fields pb = Some ()"
  "test_canal_event_to_entry_with_row_change pb = Some ()"
  "test_canal_event_to_entry_update_with_before_and_after pb = Some ()"
  by (simp_all add: assms test_canal_event_to_entry_header_fields_def
      test_canal_event_to_entry_with_row_change_def
      test_canal_event_to_entry_update_with_before_and_after_def run_conversion run_prost [OF assms])

lemma entry_tests_pass_2:
  assumes "prost_laws pb"
  shows
  "test_canal_event_to_entry_delete pb = Some ()"
  "test_canal_event_to_entry_ddl pb = Some ()"
  "test_column_value_to_proto_with_null = Some ()"
  by (simp_all add: assms test_canal_event_to_entry_delete_def test_canal_event_to_entry_ddl_def
      test_column_value_to_proto_with_null_def run_conversion run_prost [OF assms])

definition test_send_ack_packet_structure :: "prost \<Rightarrow> test" where
  "test_send_ack_packet_structure pb = do {
     let ack = ack_default;
     let packet = packet_default\<lparr>pk_type := packet_type_i32 PtAck, pk_body := enc_ack pb ack\<rparr>;
     let wire = enc_packet pb packet;
     decoded \<leftarrow> unwrap (dec_packet pb wire);
     assert_eq (pk_type decoded) (packet_type_i32 PtAck);
     decoded_ack \<leftarrow> unwrap (dec_ack pb (pk_body decoded));
     assert_eq (ak_error_code_present decoded_ack) None;
     assert_eq (ak_error_message decoded_ack) ''''
   }"

definition test_send_ack_packet_with_error :: "prost \<Rightarrow> test" where
  "test_send_ack_packet_with_error pb = do {
     let ack = \<lparr>ak_error_message = ''something went wrong'', ak_error_code_present = Some (ErrorCode 5)\<rparr>;
     let packet = packet_default\<lparr>pk_type := packet_type_i32 PtAck, pk_body := enc_ack pb ack\<rparr>;
     let wire = enc_packet pb packet;
     decoded \<leftarrow> unwrap (dec_packet pb wire);
     assert_eq (pk_type decoded) (packet_type_i32 PtAck);
     decoded_ack \<leftarrow> unwrap (dec_ack pb (pk_body decoded));
     assert_eq (ak_error_message decoded_ack) ''something went wrong'';
     assert_eq (ak_error_code_present decoded_ack) (Some (ErrorCode 5))
   }"

definition test_messages_packet_roundtrip :: "prost \<Rightarrow> test" where
  "test_messages_packet_roundtrip pb = do {
     let event = \<lparr>ev_journal_name = ''mysql-bin.000001'', ev_position = 42, ev_server_id = 1, ev_execute_time = 1000,
         ev_entry_type = EtInsert, ev_schema_name = ''db'', ev_table_name = ''t'', ev_row_change = None,
         ev_ddl_sql = None, ev_gtid = None, ev_raw_bytes = []\<rparr>;
     entry \<leftarrow> unwrap (canal_event_to_entry pb event);
     let entry_bytes = enc_entry pb entry;
     let msgs = messages_default\<lparr>mg_batch_id := 1\<rparr>;
     let msgs = msgs\<lparr>mg_messages := mg_messages msgs @ [entry_bytes]\<rparr>;
     let packet = packet_default\<lparr>pk_type := packet_type_i32 PtMessages, pk_body := enc_messages pb msgs\<rparr>;
     let wire = enc_packet pb packet;
     decoded_packet \<leftarrow> unwrap (dec_packet pb wire);
     assert_eq (pk_type decoded_packet) (packet_type_i32 PtMessages);
     decoded_msgs \<leftarrow> unwrap (dec_messages pb (pk_body decoded_packet));
     assert_eq (mg_batch_id decoded_msgs) 1;
     assert_eq (length (mg_messages decoded_msgs)) 1;
     message \<leftarrow> nth_panics (mg_messages decoded_msgs) 0;
     decoded_entry \<leftarrow> unwrap (dec_entry pb message);
     h \<leftarrow> en_header decoded_entry;
     assert_eq (hd_logfile_name h) ''mysql-bin.000001'';
     assert_eq (hd_logfile_offset h) 42
   }"

definition test_client_auth_encoding_roundtrip :: "prost \<Rightarrow> test" where
  "test_client_auth_encoding_roundtrip pb = do {
     let auth = client_auth_default\<lparr>ca_username := ''canal'', ca_password := [0x12, 0x34],
         ca_destination := ''example'', ca_client_id := ''1001'', ca_filter := any_table, ca_start_timestamp := 0\<rparr>;
     let packet = packet_default\<lparr>pk_type := packet_type_i32 PtClientauthentication, pk_body := enc_client_auth pb auth\<rparr>;
     let wire = enc_packet pb packet;
     decoded \<leftarrow> unwrap (dec_packet pb wire);
     assert_eq (pk_type decoded) (packet_type_i32 PtClientauthentication);
     decoded_auth \<leftarrow> unwrap (dec_client_auth pb (pk_body decoded));
     assert_eq (ca_username decoded_auth) ''canal'';
     assert_eq (ca_client_id decoded_auth) ''1001'';
     assert_eq (ca_filter decoded_auth) any_table
   }"

definition test_sub_encoding_roundtrip :: "prost \<Rightarrow> test" where
  "test_sub_encoding_roundtrip pb = do {
     let sub = \<lparr>sb_destination = ''example'', sb_client_id = ''1001'', sb_filter = ''mydb'' @ backslash @ ''.users''\<rparr>;
     let packet = packet_default\<lparr>pk_type := packet_type_i32 PtSubscription, pk_body := enc_sub pb sub\<rparr>;
     let wire = enc_packet pb packet;
     decoded \<leftarrow> unwrap (dec_packet pb wire);
     assert_eq (pk_type decoded) (packet_type_i32 PtSubscription);
     decoded_sub \<leftarrow> unwrap (dec_sub pb (pk_body decoded));
     assert_eq (sb_client_id decoded_sub) ''1001'';
     assert_eq (sb_filter decoded_sub) (''mydb'' @ backslash @ ''.users'')
   }"

definition test_get_encoding_roundtrip :: "prost \<Rightarrow> test" where
  "test_get_encoding_roundtrip pb = do {
     let get = get_request_default\<lparr>gt_destination := ''example'', gt_client_id := ''1001'', gt_fetch_size := 100\<rparr>;
     let packet = packet_default\<lparr>pk_type := packet_type_i32 PtGet, pk_body := enc_get_request pb get\<rparr>;
     let wire = enc_packet pb packet;
     decoded \<leftarrow> unwrap (dec_packet pb wire);
     assert_eq (pk_type decoded) (packet_type_i32 PtGet);
     decoded_get \<leftarrow> unwrap (dec_get_request pb (pk_body decoded));
     assert_eq (gt_fetch_size decoded_get) 100;
     assert_eq (gt_client_id decoded_get) ''1001''
   }"

definition test_client_ack_encoding_roundtrip :: "prost \<Rightarrow> test" where
  "test_client_ack_encoding_roundtrip pb = do {
     let ack = \<lparr>cl_destination = ''example'', cl_client_id = ''1001'', cl_batch_id = 42\<rparr>;
     let packet = packet_default\<lparr>pk_type := packet_type_i32 PtClientack, pk_body := enc_client_ack pb ack\<rparr>;
     let wire = enc_packet pb packet;
     decoded \<leftarrow> unwrap (dec_packet pb wire);
     assert_eq (pk_type decoded) (packet_type_i32 PtClientack);
     decoded_ack \<leftarrow> unwrap (dec_client_ack pb (pk_body decoded));
     assert_eq (cl_batch_id decoded_ack) 42
   }"

definition test_client_rollback_encoding_roundtrip :: "prost \<Rightarrow> test" where
  "test_client_rollback_encoding_roundtrip pb = do {
     let rollback = \<lparr>cr_destination = ''example'', cr_client_id = ''1001'', cr_batch_id = 10\<rparr>;
     let packet = packet_default\<lparr>pk_type := packet_type_i32 PtClientrollback, pk_body := enc_client_rollback pb rollback\<rparr>;
     let wire = enc_packet pb packet;
     decoded \<leftarrow> unwrap (dec_packet pb wire);
     assert_eq (pk_type decoded) (packet_type_i32 PtClientrollback);
     decoded_rollback \<leftarrow> unwrap (dec_client_rollback pb (pk_body decoded));
     assert_eq (cr_batch_id decoded_rollback) 10
   }"

lemma packet_tests_pass:
  assumes "prost_laws pb"
  shows
  "test_send_ack_packet_structure pb = Some ()"
  "test_send_ack_packet_with_error pb = Some ()"
  "test_messages_packet_roundtrip pb = Some ()"
  "test_client_auth_encoding_roundtrip pb = Some ()"
  "test_sub_encoding_roundtrip pb = Some ()"
  "test_get_encoding_roundtrip pb = Some ()"
  "test_client_ack_encoding_roundtrip pb = Some ()"
  "test_client_rollback_encoding_roundtrip pb = Some ()"
  by (simp_all add: assms test_send_ack_packet_structure_def test_send_ack_packet_with_error_def
      test_messages_packet_roundtrip_def test_client_auth_encoding_roundtrip_def
      test_sub_encoding_roundtrip_def test_get_encoding_roundtrip_def
      test_client_ack_encoding_roundtrip_def test_client_rollback_encoding_roundtrip_def run_conversion
      run_prost [OF assms] packet_default_def ack_default_def messages_default_def
      client_auth_default_def get_request_default_def)

subsection \<open>\<open>tests_conversion.rs\<close>\<close>

definition make_entry_event :: "event_type \<Rightarrow> row_change option \<Rightarrow> string option \<Rightarrow> canal_event" where
  "make_entry_event ty change ddl =
     \<lparr>ev_journal_name = ''mysql-bin.000001'', ev_position = 100, ev_server_id = 1, ev_execute_time = 0,
      ev_entry_type = ty, ev_schema_name = ''mydb'', ev_table_name = ''users'', ev_row_change = change,
      ev_ddl_sql = ddl, ev_gtid = None, ev_raw_bytes = []\<rparr>"

definition assert_entry_type :: "entry \<Rightarrow> i32 \<Rightarrow> test" where
  "assert_entry_type entry expected = do {
     hdr \<leftarrow> en_header entry;
     case hd_event_type_present hdr of
       Some (EventTypeField v) \<Rightarrow> assert_eq v expected
     | None \<Rightarrow> None
   }"

definition test_canal_event_to_entry_unknown_type_returns_error :: "prost \<Rightarrow> test" where
  "test_canal_event_to_entry_unknown_type_returns_error pb = do {
     let event = make_entry_event (EtUnknown 99) None None;
     err \<leftarrow> unwrap_err (canal_event_to_entry pb event);
     assert_true (case err of Protocol _ \<Rightarrow> True | _ \<Rightarrow> False)
   }"

definition test_canal_event_to_entry_xid_maps_to_xacommit :: "prost \<Rightarrow> test" where
  "test_canal_event_to_entry_xid_maps_to_xacommit pb = do {
     entry \<leftarrow> unwrap (canal_event_to_entry pb (make_entry_event EtXid None None));
     assert_entry_type entry (proto_event_type_i32 PeXacommit)
   }"

definition test_canal_event_to_entry_heartbeat_maps_to_mheartbeat :: "prost \<Rightarrow> test" where
  "test_canal_event_to_entry_heartbeat_maps_to_mheartbeat pb = do {
     entry \<leftarrow> unwrap (canal_event_to_entry pb (make_entry_event EtHeartbeat None None));
     assert_entry_type entry (proto_event_type_i32 PeMheartbeat)
   }"

definition test_canal_event_to_entry_ddl_query_rotate_map_to_query :: "prost \<Rightarrow> test" where
  "test_canal_event_to_entry_ddl_query_rotate_map_to_query pb = do {
     entry \<leftarrow> unwrap (canal_event_to_entry pb (make_entry_event EtDdl None None));
     assert_entry_type entry (proto_event_type_i32 PeQuery);
     entry \<leftarrow> unwrap (canal_event_to_entry pb (make_entry_event EtQuery None None));
     assert_entry_type entry (proto_event_type_i32 PeQuery);
     entry \<leftarrow> unwrap (canal_event_to_entry pb (make_entry_event EtRotate None None));
     assert_entry_type entry (proto_event_type_i32 PeQuery)
   }"

definition test_canal_event_to_entry_without_row_change_or_ddl :: "prost \<Rightarrow> test" where
  "test_canal_event_to_entry_without_row_change_or_ddl pb = do {
     entry \<leftarrow> unwrap (canal_event_to_entry pb (make_entry_event EtInsert None None));
     assert_true (en_store_value entry \<noteq> []);
     rc \<leftarrow> unwrap (dec_proto_row_change pb (en_store_value entry));
     assert_eq (prc_event_type_present rc) (Some (RowEventType (proto_event_type_i32 PeInsert)));
     let event = make_entry_event EtInsert None None;
     let event = event\<lparr>ev_raw_bytes := [1, 2, 3]\<rparr>;
     entry \<leftarrow> unwrap (canal_event_to_entry pb event);
     h \<leftarrow> en_header entry;
     assert_true (0 <s hd_event_length h)
   }"

definition test_canal_event_to_entry_header_source_type_mysql :: "prost \<Rightarrow> test" where
  "test_canal_event_to_entry_header_source_type_mysql pb = do {
     entry \<leftarrow> unwrap (canal_event_to_entry pb (make_entry_event EtInsert None None));
     hdr \<leftarrow> en_header entry;
     assert_eq (hd_source_type_present hdr) (Some (SourceType (source_type_i32 TyMysql)))
   }"

definition test_column_value_to_proto_with_value :: test where
  "test_column_value_to_proto_with_value = do {
     let col = \<lparr>cv_name = ''id'', cv_value = Some ''42'', cv_column_type = 3, cv_is_key = True, cv_updated = True\<rparr>;
     let proto_col = column_value_to_proto col True;
     assert_eq (co_name proto_col) ''id'';
     assert_eq (co_value proto_col) ''42'';
     assert_true (co_is_key proto_col);
     assert_true (co_updated proto_col);
     assert_true (co_is_null_present proto_col = None);
     assert_eq (co_sql_type proto_col) 3
   }"

definition test_column_value_to_proto_null_value :: test where
  "test_column_value_to_proto_null_value = do {
     let col = \<lparr>cv_name = ''email'', cv_value = None, cv_column_type = 253, cv_is_key = False, cv_updated = False\<rparr>;
     let proto_col = column_value_to_proto col False;
     assert_eq (co_value proto_col) '''';
     assert_true (co_is_null_present proto_col \<noteq> None);
     assert_true (\<not> co_updated proto_col)
   }"

lemma conversion_tests_pass_1:
  assumes "prost_laws pb"
  shows
  "test_canal_event_to_entry_unknown_type_returns_error pb = Some ()"
  "test_canal_event_to_entry_xid_maps_to_xacommit pb = Some ()"
  "test_canal_event_to_entry_heartbeat_maps_to_mheartbeat pb = Some ()"
  "test_canal_event_to_entry_ddl_query_rotate_map_to_query pb = Some ()"
  by (simp_all add: assms test_canal_event_to_entry_unknown_type_returns_error_def
      test_canal_event_to_entry_xid_maps_to_xacommit_def
      test_canal_event_to_entry_heartbeat_maps_to_mheartbeat_def
      test_canal_event_to_entry_ddl_query_rotate_map_to_query_def run_conversion run_prost [OF assms]
      make_entry_event_def assert_entry_type_def unknown_event_error_def)

lemma conversion_tests_pass_2:
  assumes "prost_laws pb"
  shows
  "test_canal_event_to_entry_without_row_change_or_ddl pb = Some ()"
  "test_canal_event_to_entry_header_source_type_mysql pb = Some ()"
  "test_column_value_to_proto_with_value = Some ()"
  "test_column_value_to_proto_null_value = Some ()"
  by (simp_all add: assms test_canal_event_to_entry_without_row_change_or_ddl_def
      test_canal_event_to_entry_header_source_type_mysql_def test_column_value_to_proto_with_value_def
      test_column_value_to_proto_null_value_def run_conversion run_prost [OF assms] make_entry_event_def
      assert_entry_type_def unknown_event_error_def)

end
