(* ===== verification/Canal_Tests_Server.thy ===== *)
theory Canal_Tests_Server
  imports Canal_Tests_Wire Canal_Server
begin

text \<open>
  The tests of the server's handlers, \<open>tests_handlers.rs\<close> and the first part of \<open>tests_e2e.rs\<close>. The
  transport pair of a test is the transport of a \<open>ctx\<close>, whose frames the test reads in the order
  sent, and the number of frames read so far. The clock reads \<open>now\<close>, and no other task runs.
\<close>

subsection \<open>\<open>tests_handlers.rs\<close>\<close>

definition framing :: "prost \<Rightarrow> packet_type \<Rightarrow> bytes \<Rightarrow> bytes" where
  "framing pb ptype body = enc_packet pb (packet_default\<lparr>pk_type := packet_type_i32 ptype, pk_body := body\<rparr>)"

definition auth_frame :: "prost \<Rightarrow> string \<Rightarrow> string \<Rightarrow> bytes \<Rightarrow> bytes" where
  "auth_frame pb client_id flt password =
     framing pb PtClientauthentication
       (enc_client_auth pb (client_auth_default
          \<lparr>ca_username := ''canal'', ca_password := password, ca_destination := ''example'',
           ca_client_id := client_id, ca_filter := flt\<rparr>))"

definition sub_frame :: "prost \<Rightarrow> string \<Rightarrow> string \<Rightarrow> bytes" where
  "sub_frame pb client_id flt =
     framing pb PtSubscription
       (enc_sub pb \<lparr>sb_destination = ''example'', sb_client_id = client_id, sb_filter = flt\<rparr>)"

definition fetch_frame :: "prost \<Rightarrow> string \<Rightarrow> i32 \<Rightarrow> bytes" where
  "fetch_frame pb client_id fetch_size =
     framing pb PtGet
       (enc_get_request pb (get_request_default
          \<lparr>gt_destination := ''example'', gt_client_id := client_id, gt_fetch_size := fetch_size\<rparr>))"

text \<open>
  The pipe of a test takes every frame. A handler without a store argument is run on a \<open>ctx\<close> with a
  store that it does not look at.
\<close>

definition transport_new :: transport where
  "transport_new = \<lparr>tr_sent = [], tr_budget = None, tr_error = Internal ''''\<rparr>"

definition unused_store :: mem_store where
  "unused_store = the (mem_store_new 1)"

definition handler_ctx :: "client_state \<Rightarrow> session_manager \<Rightarrow> mem_store \<Rightarrow> ctx" where
  "handler_ctx state sessions store =
     \<lparr>cx_transport = transport_new, cx_state = state, cx_sessions = sessions, cx_store = store\<rparr>"

definition next_packet :: "prost \<Rightarrow> ctx \<Rightarrow> nat \<Rightarrow> (packet \<times> nat) option" where
  "next_packet pb c n = do {
     b \<leftarrow> nth_panics (tr_sent (cx_transport c)) n;
     p \<leftarrow> unwrap (dec_packet pb b);
     Some (p, Suc n)
   }"

definition next_ack :: "prost \<Rightarrow> ctx \<Rightarrow> nat \<Rightarrow> (ack \<times> nat) option" where
  "next_ack pb c n = do {
     (pkt, n) \<leftarrow> next_packet pb c n;
     assert_eq (pk_type pkt) (packet_type_i32 PtAck);
     ack \<leftarrow> unwrap (dec_ack pb (pk_body pkt));
     Some (ack, n)
   }"

definition auth_state ::
    "prost \<Rightarrow> regex_engine \<Rightarrow> timestamp \<Rightarrow> mem_store \<Rightarrow> string \<Rightarrow> string \<Rightarrow> (ctx \<times> nat) option" where
  "auth_state pb rx now store client_id flt = do {
     let c = handler_ctx client_state_default session_manager_new store;
     packet \<leftarrow> unwrap (dec_packet pb (auth_frame pb client_id flt []));
     let (r, c) = handle_auth pb rx None now packet c;
     _ \<leftarrow> unwrap r;
     (_, n) \<leftarrow> next_ack pb c 0;
     Some (c, n)
   }"

definition make_stored_event :: "string \<Rightarrow> string \<Rightarrow> u64 \<Rightarrow> canal_event" where
  "make_stored_event schema table pos =
     \<lparr>ev_journal_name = ''mysql-bin.000001'', ev_position = pos, ev_server_id = 1, ev_execute_time = 0,
      ev_entry_type = EtInsert, ev_schema_name = schema, ev_table_name = table, ev_row_change = None,
      ev_ddl_sql = None, ev_gtid = None, ev_raw_bytes = []\<rparr>"

lemmas run_frames = framing_def auth_frame_def sub_frame_def fetch_frame_def packet_default_def
  client_auth_default_def get_request_default_def ack_default_def

lemmas run_handler = handler_ctx_def transport_new_def client_state_default_def next_packet_def next_ack_def
  ctx_send_def transport_send_def send_ack_ok_def send_ack_err_def ack_ok_frame_def ack_err_frame_def
  packet_frame_def session_manager_new_def sessions_register_def sessions_get_def client_session_new_def

lemmas run_auth = handle_auth_def auth_accept_def auth_reject_def auth_filter_def bad_password_def
  as_bytes_def max_filter_pattern_len_def filter_too_long_def filter_pattern_validate_def
  filter_pattern_default_def result_ok_def tiny_regex_def any_table_def nat_str.simps word_sless_alt Let_def

lemma few_failures [simp]: "\<not> 3 \<le> (1 :: u32)" "\<not> 3 \<le> (2 :: u32)"
  by (simp_all add: word_le_nat_alt)

definition test_handle_auth_success_no_token :: "prost \<Rightarrow> regex_engine \<Rightarrow> timestamp \<Rightarrow> test" where
  "test_handle_auth_success_no_token pb rx now = do {
     let c = handler_ctx client_state_default session_manager_new unused_store;
     packet \<leftarrow> unwrap (dec_packet pb (auth_frame pb ''alice'' any_table []));
     let (r, c) = handle_auth pb rx None now packet c;
     _ \<leftarrow> unwrap r;
     assert_true (st_authenticated (cx_state c));
     assert_eq (st_client_id (cx_state c)) (Some ''alice'');
     session \<leftarrow> sessions_get (cx_sessions c) ''alice'';
     assert_eq (cs_destination session) ''example'';
     (ack, n) \<leftarrow> next_ack pb c 0;
     assert_true (ak_error_message ack = '''');
     assert_true (ak_error_code_present ack = None)
   }"

definition test_handle_auth_with_matching_token :: "prost \<Rightarrow> regex_engine \<Rightarrow> timestamp \<Rightarrow> test" where
  "test_handle_auth_with_matching_token pb rx now = do {
     let c = handler_ctx client_state_default session_manager_new unused_store;
     packet \<leftarrow> unwrap (dec_packet pb (auth_frame pb ''bob'' any_table (as_bytes ''secret'')));
     let (r, c) = handle_auth pb rx (Some ''secret'') now packet c;
     _ \<leftarrow> unwrap r;
     assert_true (st_authenticated (cx_state c));
     (ack, n) \<leftarrow> next_ack pb c 0;
     assert_true (ak_error_message ack = '''')
   }"

definition test_handle_auth_wrong_password_rejected :: "prost \<Rightarrow> regex_engine \<Rightarrow> timestamp \<Rightarrow> test" where
  "test_handle_auth_wrong_password_rejected pb rx now = do {
     let c = handler_ctx client_state_default session_manager_new unused_store;
     packet \<leftarrow> unwrap (dec_packet pb (auth_frame pb ''mallory'' any_table (as_bytes ''wrong'')));
     let (r, c) = handle_auth pb rx (Some ''secret'') now packet c;
     _ \<leftarrow> unwrap r;
     assert_true (\<not> st_authenticated (cx_state c));
     assert_eq (st_auth_error_count (cx_state c)) 1;
     assert_true (sessions_get (cx_sessions c) ''mallory'' = None);
     (ack, n) \<leftarrow> next_ack pb c 0;
     assert_true (contains (ak_error_message ack) ''authentication failed'');
     assert_true (ak_error_code_present ack \<noteq> None)
   }"

definition test_handle_auth_three_failures_disconnect :: "prost \<Rightarrow> regex_engine \<Rightarrow> timestamp \<Rightarrow> test" where
  "test_handle_auth_three_failures_disconnect pb rx now = do {
     let c = handler_ctx client_state_default session_manager_new unused_store;
     packet \<leftarrow> unwrap (dec_packet pb (auth_frame pb ''mallory'' any_table (as_bytes ''wrong'')));
     let (r, c) = handle_auth pb rx (Some ''secret'') now packet c;
     _ \<leftarrow> unwrap r;
     (_, n) \<leftarrow> next_ack pb c 0;
     let (r, c) = handle_auth pb rx (Some ''secret'') now packet c;
     _ \<leftarrow> unwrap r;
     (_, n) \<leftarrow> next_ack pb c n;
     let (r, c) = handle_auth pb rx (Some ''secret'') now packet c;
     err \<leftarrow> unwrap_err r;
     assert_true (case err of AuthFailed _ \<Rightarrow> True | _ \<Rightarrow> False)
   }"

definition test_handle_auth_empty_client_id_uses_anonymous :: "prost \<Rightarrow> regex_engine \<Rightarrow> timestamp \<Rightarrow> test" where
  "test_handle_auth_empty_client_id_uses_anonymous pb rx now = do {
     let c = handler_ctx client_state_default session_manager_new unused_store;
     packet \<leftarrow> unwrap (dec_packet pb (auth_frame pb '''' any_table []));
     let (r, c) = handle_auth pb rx None now packet c;
     _ \<leftarrow> unwrap r;
     assert_eq (st_client_id (cx_state c)) (Some ''anonymous'');
     assert_true (sessions_get (cx_sessions c) ''anonymous'' \<noteq> None);
     (ack, n) \<leftarrow> next_ack pb c 0;
     Some ()
   }"

definition test_handle_auth_filter_too_long_rejected :: "prost \<Rightarrow> regex_engine \<Rightarrow> timestamp \<Rightarrow> test" where
  "test_handle_auth_filter_too_long_rejected pb rx now = do {
     let c = handler_ctx client_state_default session_manager_new unused_store;
     let long_filter = replicate 257 CHR ''a'';
     packet \<leftarrow> unwrap (dec_packet pb (auth_frame pb ''alice'' long_filter []));
     let (r, c) = handle_auth pb rx None now packet c;
     _ \<leftarrow> unwrap r;
     assert_true (\<not> st_authenticated (cx_state c));
     assert_true (sessions_get (cx_sessions c) ''alice'' = None);
     (ack, n) \<leftarrow> next_ack pb c 0;
     assert_true (contains (ak_error_message ack) ''filter pattern too long'')
   }"

definition test_handle_auth_invalid_filter_regex_rejected :: "prost \<Rightarrow> regex_engine \<Rightarrow> timestamp \<Rightarrow> test" where
  "test_handle_auth_invalid_filter_regex_rejected pb rx now = do {
     let c = handler_ctx client_state_default session_manager_new unused_store;
     packet \<leftarrow> unwrap (dec_packet pb (auth_frame pb ''alice'' ''[invalid'' []));
     let (r, c) = handle_auth pb rx None now packet c;
     _ \<leftarrow> unwrap r;
     assert_true (\<not> st_authenticated (cx_state c));
     assert_true (sessions_get (cx_sessions c) ''alice'' = None);
     (ack, n) \<leftarrow> next_ack pb c 0;
     assert_true (contains (ak_error_message ack) ''invalid filter pattern'')
   }"

definition test_handle_auth_garbage_body_returns_protocol_error :: "prost \<Rightarrow> regex_engine \<Rightarrow> timestamp \<Rightarrow> test" where
  "test_handle_auth_garbage_body_returns_protocol_error pb rx now = do {
     let c = handler_ctx client_state_default session_manager_new unused_store;
     let packet = packet_default\<lparr>pk_type := packet_type_i32 PtClientauthentication, pk_body := [0xFF, 0x00, 0xDE, 0xAD]\<rparr>;
     let (r, c) = handle_auth pb rx None now packet c;
     err \<leftarrow> unwrap_err r;
     assert_true (case err of Protocol _ \<Rightarrow> True | _ \<Rightarrow> False)
   }"

definition test_handle_auth_start_timestamp_sets_position :: "prost \<Rightarrow> regex_engine \<Rightarrow> timestamp \<Rightarrow> test" where
  "test_handle_auth_start_timestamp_sets_position pb rx now = do {
     let c = handler_ctx client_state_default session_manager_new unused_store;
     let auth = client_auth_default\<lparr>ca_client_id := ''ts'', ca_start_timestamp := 1234567890\<rparr>;
     let packet = packet_default\<lparr>pk_type := packet_type_i32 PtClientauthentication, pk_body := enc_client_auth pb auth\<rparr>;
     let (r, c) = handle_auth pb rx None now packet c;
     _ \<leftarrow> unwrap r;
     pos \<leftarrow> st_current_pos (cx_state c);
     assert_eq (lp_timestamp pos) (Some 1234567890);
     assert_eq (lp_position pos) 0;
     (ack, n) \<leftarrow> next_ack pb c 0;
     Some ()
   }"

lemma auth_tests_pass_1:
  assumes "prost_laws pb"
  shows
  "test_handle_auth_success_no_token pb tiny_regex 1000 = Some ()"
  "test_handle_auth_with_matching_token pb tiny_regex 1000 = Some ()"
  "test_handle_auth_wrong_password_rejected pb tiny_regex 1000 = Some ()"
  by (simp_all add: assms test_handle_auth_success_no_token_def test_handle_auth_with_matching_token_def
      test_handle_auth_wrong_password_rejected_def prost_decode [OF assms] run_frames run_handler
      run_auth xor_fold_def byte_of_char_def cong: let_weak_cong bind_weak_cong)

lemma auth_tests_pass_2:
  assumes "prost_laws pb"
  shows
  "test_handle_auth_three_failures_disconnect pb tiny_regex 1000 = Some ()"
  "test_handle_auth_empty_client_id_uses_anonymous pb tiny_regex 1000 = Some ()"
  "test_handle_auth_filter_too_long_rejected pb tiny_regex 1000 = Some ()"
  by (simp_all add: assms test_handle_auth_three_failures_disconnect_def
      test_handle_auth_empty_client_id_uses_anonymous_def test_handle_auth_filter_too_long_rejected_def
      prost_decode [OF assms] run_frames run_handler run_auth xor_fold_def byte_of_char_def cong:
      let_weak_cong bind_weak_cong)

lemma auth_tests_pass_3:
  assumes "prost_laws pb"
  shows
  "test_handle_auth_invalid_filter_regex_rejected pb tiny_regex 1000 = Some ()"
  "test_handle_auth_start_timestamp_sets_position pb tiny_regex 1000 = Some ()"
  by (simp_all add: assms test_handle_auth_invalid_filter_regex_rejected_def
      test_handle_auth_start_timestamp_sets_position_def prost_decode [OF assms] run_frames run_handler
      run_auth xor_fold_def byte_of_char_def cong: let_weak_cong bind_weak_cong)

lemma garbage_auth_test_passes:
  assumes "prost_laws pb"
  shows "test_handle_auth_garbage_body_returns_protocol_error pb tiny_regex 1000 = Some ()"
  by (rule prost_garbage [OF assms])
    (simp add: test_handle_auth_garbage_body_returns_protocol_error_def handle_auth_def packet_default_def)

definition test_handle_auth_start_timestamp_then_get_returns_matching_events :: "prost \<Rightarrow> regex_engine \<Rightarrow> timestamp \<Rightarrow> test" where
  "test_handle_auth_start_timestamp_then_get_returns_matching_events pb rx now = do {
     store \<leftarrow> mem_store_new 1024;
     let early = make_stored_event ''db'' ''t'' 100;
     let early = early\<lparr>ev_execute_time := 1000\<rparr>;
     let late = make_stored_event ''db'' ''t'' 200;
     let late = late\<lparr>ev_execute_time := 2000\<rparr>;
     (_, store) \<leftarrow> putting [early, late] store;
     let c = handler_ctx client_state_default session_manager_new store;
     let auth = client_auth_default\<lparr>ca_client_id := ''ts'', ca_start_timestamp := 1500\<rparr>;
     let packet = packet_default\<lparr>pk_type := packet_type_i32 PtClientauthentication, pk_body := enc_client_auth pb auth\<rparr>;
     let (r, c) = handle_auth pb rx None now packet c;
     _ \<leftarrow> unwrap r;
     (ack, n) \<leftarrow> next_ack pb c 0;
     packet \<leftarrow> unwrap (dec_packet pb (fetch_frame pb ''ts'' 100));
     let (r, c) = handle_get pb no_interference packet c;
     _ \<leftarrow> unwrap r;
     (resp, n) \<leftarrow> next_packet pb c n;
     assert_eq (pk_type resp) (packet_type_i32 PtMessages);
     msgs \<leftarrow> unwrap (dec_messages pb (pk_body resp));
     assert_eq (length (mg_messages msgs)) 1;
     message \<leftarrow> nth_panics (mg_messages msgs) 0;
     entry \<leftarrow> unwrap (dec_entry pb message);
     hdr \<leftarrow> en_header entry;
     assert_eq (hd_logfile_offset hdr) 200;
     pos \<leftarrow> st_current_pos (cx_state c);
     assert_eq (lp_timestamp pos) None;
     assert_eq (lp_position pos) 200
   }"

definition test_handle_auth_second_auth_on_same_connection_rejected :: "prost \<Rightarrow> regex_engine \<Rightarrow> timestamp \<Rightarrow> test" where
  "test_handle_auth_second_auth_on_same_connection_rejected pb rx now = do {
     let c = handler_ctx client_state_default session_manager_new unused_store;
     packet \<leftarrow> unwrap (dec_packet pb (auth_frame pb ''alice'' any_table []));
     let (r, c) = handle_auth pb rx None now packet c;
     _ \<leftarrow> unwrap r;
     (ack, n) \<leftarrow> next_ack pb c 0;
     packet \<leftarrow> unwrap (dec_packet pb (auth_frame pb ''bob'' any_table []));
     let (r, c) = handle_auth pb rx None now packet c;
     _ \<leftarrow> unwrap r;
     (ack, n) \<leftarrow> next_ack pb c n;
     assert_true (contains (ak_error_message ack) ''already authenticated'');
     assert_eq (st_client_id (cx_state c)) (Some ''alice'');
     assert_true (sessions_get (cx_sessions c) ''bob'' = None);
     assert_true (sessions_get (cx_sessions c) ''alice'' \<noteq> None)
   }"

definition test_handle_sub_client_id_mismatch_rejected :: "prost \<Rightarrow> regex_engine \<Rightarrow> timestamp \<Rightarrow> test" where
  "test_handle_sub_client_id_mismatch_rejected pb rx now = do {
     let c = handler_ctx (client_state_default\<lparr>st_client_id := Some ''alice'', st_authenticated := True\<rparr>)
         session_manager_new unused_store;
     packet \<leftarrow> unwrap (dec_packet pb (sub_frame pb ''bob'' (''db'' @ backslash @ ''..*'')));
     let (r, c) = handle_sub pb rx now packet c;
     _ \<leftarrow> unwrap r;
     (ack, n) \<leftarrow> next_ack pb c 0;
     assert_true (contains (ak_error_message ack) ''client_id mismatch'');
     assert_true (sessions_get (cx_sessions c) ''bob'' = None)
   }"

definition test_handle_sub_success_updates_filter :: "prost \<Rightarrow> regex_engine \<Rightarrow> timestamp \<Rightarrow> test" where
  "test_handle_sub_success_updates_filter pb rx now = do {
     let c = handler_ctx (client_state_default\<lparr>st_client_id := Some ''alice'', st_authenticated := True\<rparr>)
         session_manager_new unused_store;
     packet \<leftarrow> unwrap (dec_packet pb (sub_frame pb ''alice'' (''db'' @ backslash @ ''..*'')));
     let (r, c) = handle_sub pb rx now packet c;
     _ \<leftarrow> unwrap r;
     (ack, n) \<leftarrow> next_ack pb c 0;
     assert_true (ak_error_message ack = '''');
     session \<leftarrow> sessions_get (cx_sessions c) ''alice'';
     assert_eq (fp_pattern (cs_filter session)) (''db'' @ backslash @ ''..*'');
     assert_eq (st_client_id (cx_state c)) (Some ''alice'')
   }"

definition test_handle_sub_filter_too_long_rejected :: "prost \<Rightarrow> regex_engine \<Rightarrow> timestamp \<Rightarrow> test" where
  "test_handle_sub_filter_too_long_rejected pb rx now = do {
     let c = handler_ctx (client_state_default\<lparr>st_client_id := Some ''alice'', st_authenticated := True\<rparr>)
         session_manager_new unused_store;
     packet \<leftarrow> unwrap (dec_packet pb (sub_frame pb ''alice'' (replicate 257 CHR ''x'')));
     let (r, c) = handle_sub pb rx now packet c;
     _ \<leftarrow> unwrap r;
     (ack, n) \<leftarrow> next_ack pb c 0;
     assert_true (contains (ak_error_message ack) ''filter pattern too long'')
   }"

definition test_handle_sub_invalid_filter_regex_rejected :: "prost \<Rightarrow> regex_engine \<Rightarrow> timestamp \<Rightarrow> test" where
  "test_handle_sub_invalid_filter_regex_rejected pb rx now = do {
     let c = handler_ctx (client_state_default\<lparr>st_client_id := Some ''alice'', st_authenticated := True\<rparr>)
         session_manager_new unused_store;
     packet \<leftarrow> unwrap (dec_packet pb (sub_frame pb ''alice'' ''[bad''));
     let (r, c) = handle_sub pb rx now packet c;
     _ \<leftarrow> unwrap r;
     (ack, n) \<leftarrow> next_ack pb c 0;
     assert_true (contains (ak_error_message ack) ''invalid filter pattern'')
   }"

definition test_handle_get_without_client_id_errors :: "prost \<Rightarrow> test" where
  "test_handle_get_without_client_id_errors pb = do {
     store \<leftarrow> mem_store_new 1024;
     let c = handler_ctx client_state_default session_manager_new store;
     packet \<leftarrow> unwrap (dec_packet pb (fetch_frame pb ''c1'' 100));
     let (r, c) = handle_get pb no_interference packet c;
     err \<leftarrow> unwrap_err r;
     assert_true (case err of Protocol _ \<Rightarrow> True | _ \<Rightarrow> False)
   }"

lemma make_stored_event_simps [simp]:
  "ev_key (make_stored_event d t p) = (1, p)" "ev_position (make_stored_event d t p) = p"
  "ev_execute_time (make_stored_event d t p) = 0" "ev_entry_type (make_stored_event d t p) = EtInsert"
  "ev_row_change (make_stored_event d t p) = None" "ev_ddl_sql (make_stored_event d t p) = None"
  "ev_journal_name (make_stored_event d t p) = ''mysql-bin.000001''"
  "ev_schema_name (make_stored_event d t p) = d" "ev_table_name (make_stored_event d t p) = t"
  "ev_log_position (make_stored_event d t p) = log_position_new ''mysql-bin.000001'' p"
  by (simp_all add: make_stored_event_def ev_key_def ev_log_position_def)

lemma lp_timestamp_new [simp]: "lp_timestamp (log_position_new j p) = None"
  by (simp add: log_position_new_def)

lemmas run_get = handle_get_def no_interference_def get_batch_size_def max_fetch_size_def
  serve_batch_def session_passes_def filter_passes_def messages_frame_def
  ev_full_name_def events_with_events_def
  get_start_def get_lost_def default_start_def session_ack_def

lemmas run_entry = canal_event_to_entry_def proto_event_code_def entry_header_def entry_default_def
  header_default_def

lemma sub_tests_pass_1:
  assumes "prost_laws pb"
  shows
  "test_handle_auth_start_timestamp_then_get_returns_matching_events pb tiny_regex 1000 = Some ()"
  "test_handle_auth_second_auth_on_same_connection_rejected pb tiny_regex 1000 = Some ()"
  "test_handle_sub_client_id_mismatch_rejected pb tiny_regex 1000 = Some ()"
  by (simp_all add: assms test_handle_auth_start_timestamp_then_get_returns_matching_events_def
      test_handle_auth_second_auth_on_same_connection_rejected_def
      test_handle_sub_client_id_mismatch_rejected_def prost_decode [OF assms] run_frames run_handler
      run_auth run_store run_get run_entry handle_sub_def client_id_mismatch_def make_stored_event_def
      ev_key_def ev_log_position_def cong: let_weak_cong bind_weak_cong)

lemma sub_tests_pass_2:
  assumes "prost_laws pb"
  shows
  "test_handle_sub_success_updates_filter pb tiny_regex 1000 = Some ()"
  "test_handle_sub_filter_too_long_rejected pb tiny_regex 1000 = Some ()"
  "test_handle_sub_invalid_filter_regex_rejected pb tiny_regex 1000 = Some ()"
  by (simp_all add: assms test_handle_sub_success_updates_filter_def
      test_handle_sub_filter_too_long_rejected_def test_handle_sub_invalid_filter_regex_rejected_def
      prost_decode [OF assms] run_frames run_handler run_auth run_store run_get run_entry handle_sub_def
      client_id_mismatch_def make_stored_event_def ev_key_def ev_log_position_def cong: let_weak_cong
      bind_weak_cong)

lemma sub_tests_pass_3:
  assumes "prost_laws pb"
  shows
  "test_handle_get_without_client_id_errors pb = Some ()"
  by (simp_all add: assms test_handle_get_without_client_id_errors_def prost_decode [OF assms] run_frames
      run_handler run_auth run_store run_get run_entry handle_sub_def client_id_mismatch_def
      make_stored_event_def ev_key_def ev_log_position_def cong: let_weak_cong bind_weak_cong)

definition test_handle_get_returns_events_as_messages :: "prost \<Rightarrow> regex_engine \<Rightarrow> timestamp \<Rightarrow> test" where
  "test_handle_get_returns_events_as_messages pb rx now = do {
     store \<leftarrow> mem_store_new 1024;
     (_, store) \<leftarrow> putting [make_stored_event ''db'' ''t'' 100] store;
     (c, n) \<leftarrow> auth_state pb rx now store ''c1'' any_table;
     packet \<leftarrow> unwrap (dec_packet pb (fetch_frame pb ''c1'' 100));
     let (r, c) = handle_get pb no_interference packet c;
     _ \<leftarrow> unwrap r;
     (resp, n) \<leftarrow> next_packet pb c n;
     assert_eq (pk_type resp) (packet_type_i32 PtMessages);
     msgs \<leftarrow> unwrap (dec_messages pb (pk_body resp));
     assert_eq (length (mg_messages msgs)) 1;
     message \<leftarrow> nth_panics (mg_messages msgs) 0;
     entry \<leftarrow> unwrap (dec_entry pb message);
     hdr \<leftarrow> en_header entry;
     assert_eq (hd_logfile_name hdr) ''mysql-bin.000001'';
     assert_eq (hd_logfile_offset hdr) 100;
     end_pos \<leftarrow> st_last_get_end_pos (cx_state c);
     assert_eq (lp_position end_pos) 100;
     assert_true (st_current_pos (cx_state c) \<noteq> None)
   }"

definition test_handle_get_all_filtered_sends_empty_messages :: "prost \<Rightarrow> regex_engine \<Rightarrow> timestamp \<Rightarrow> test" where
  "test_handle_get_all_filtered_sends_empty_messages pb rx now = do {
     store \<leftarrow> mem_store_new 1024;
     (_, store) \<leftarrow> putting [make_stored_event ''db'' ''t'' 100] store;
     (c, n) \<leftarrow> auth_state pb rx now store ''c1'' (''nomatch'' @ backslash @ ''..*'');
     packet \<leftarrow> unwrap (dec_packet pb (fetch_frame pb ''c1'' 100));
     let (r, c) = handle_get pb no_interference packet c;
     _ \<leftarrow> unwrap r;
     (resp, n) \<leftarrow> next_packet pb c n;
     assert_eq (pk_type resp) (packet_type_i32 PtMessages);
     msgs \<leftarrow> unwrap (dec_messages pb (pk_body resp));
     assert_true (mg_messages msgs = [])
   }"

definition test_handle_get_fetch_size_zero_clamped_to_one :: "prost \<Rightarrow> regex_engine \<Rightarrow> timestamp \<Rightarrow> test" where
  "test_handle_get_fetch_size_zero_clamped_to_one pb rx now = do {
     store \<leftarrow> mem_store_new 1024;
     (_, store) \<leftarrow> putting [make_stored_event ''db'' ''t'' 100, make_stored_event ''db'' ''t'' 200] store;
     (c, n) \<leftarrow> auth_state pb rx now store ''c1'' any_table;
     packet \<leftarrow> unwrap (dec_packet pb (fetch_frame pb ''c1'' 0));
     let (r, c) = handle_get pb no_interference packet c;
     _ \<leftarrow> unwrap r;
     (resp, n) \<leftarrow> next_packet pb c n;
     msgs \<leftarrow> unwrap (dec_messages pb (pk_body resp));
     assert_eq (length (mg_messages msgs)) 1
   }"

definition test_handle_get_negative_fetch_size_clamped :: "prost \<Rightarrow> regex_engine \<Rightarrow> timestamp \<Rightarrow> test" where
  "test_handle_get_negative_fetch_size_clamped pb rx now = do {
     store \<leftarrow> mem_store_new 1024;
     (_, store) \<leftarrow> putting [make_stored_event ''db'' ''t'' 100, make_stored_event ''db'' ''t'' 200] store;
     (c, n) \<leftarrow> auth_state pb rx now store ''c1'' any_table;
     packet \<leftarrow> unwrap (dec_packet pb (fetch_frame pb ''c1'' (- 5)));
     let (r, c) = handle_get pb no_interference packet c;
     _ \<leftarrow> unwrap r;
     (resp, n) \<leftarrow> next_packet pb c n;
     msgs \<leftarrow> unwrap (dec_messages pb (pk_body resp));
     assert_eq (length (mg_messages msgs)) 2
   }"

text \<open>A store of capacity 2 that holds the positions 200 and 300; position 100 was evicted.\<close>

definition store_with_evicted_position_100 :: "mem_store option" where
  "store_with_evicted_position_100 = do {
     store \<leftarrow> mem_store_new 2;
     (_, store) \<leftarrow> putting [make_stored_event ''db'' ''t'' 100, make_stored_event ''db'' ''t'' 200] store;
     (_, store) \<leftarrow> putting [make_stored_event ''db'' ''t'' 300] store;
     watermark \<leftarrow> ms_evicted_watermark store;
     assert_eq (lp_position watermark) 100;
     Some store
   }"

definition test_handle_get_cursor_below_watermark_reports_dropped_events :: "prost \<Rightarrow> regex_engine \<Rightarrow> timestamp \<Rightarrow> test" where
  "test_handle_get_cursor_below_watermark_reports_dropped_events pb rx now = do {
     store \<leftarrow> store_with_evicted_position_100;
     (c, n) \<leftarrow> auth_state pb rx now store ''c1'' any_table;
     let c = c\<lparr>cx_state := (cx_state c)\<lparr>st_current_pos := Some (log_position_new ''mysql-bin.000001'' 50)\<rparr>\<rparr>;
     packet \<leftarrow> unwrap (dec_packet pb (fetch_frame pb ''c1'' 100));
     let (r, c) = handle_get pb no_interference packet c;
     _ \<leftarrow> unwrap r;
     (ack, n) \<leftarrow> next_ack pb c n;
     assert_true (contains (ak_error_message ack) ''eviction watermark'');
     pos \<leftarrow> st_current_pos (cx_state c);
     assert_eq (lp_position pos) 50
   }"

definition test_handle_get_fresh_client_below_watermark_is_served :: "prost \<Rightarrow> regex_engine \<Rightarrow> timestamp \<Rightarrow> test" where
  "test_handle_get_fresh_client_below_watermark_is_served pb rx now = do {
     store \<leftarrow> store_with_evicted_position_100;
     (c, n) \<leftarrow> auth_state pb rx now store ''c1'' any_table;
     assert_true (st_current_pos (cx_state c) = None);
     packet \<leftarrow> unwrap (dec_packet pb (fetch_frame pb ''c1'' 100));
     let (r, c) = handle_get pb no_interference packet c;
     _ \<leftarrow> unwrap r;
     (resp, n) \<leftarrow> next_packet pb c n;
     assert_eq (pk_type resp) (packet_type_i32 PtMessages);
     msgs \<leftarrow> unwrap (dec_messages pb (pk_body resp));
     assert_eq (length (mg_messages msgs)) 2
   }"

lemma get_tests_pass_1:
  assumes "prost_laws pb"
  shows
  "test_handle_get_returns_events_as_messages pb tiny_regex 1000 = Some ()"
  "test_handle_get_all_filtered_sends_empty_messages pb tiny_regex 1000 = Some ()"
  by (simp_all add: assms test_handle_get_returns_events_as_messages_def
      test_handle_get_all_filtered_sends_empty_messages_def prost_decode [OF assms] run_frames
      run_handler run_auth run_store run_get run_entry auth_state_def messages_default_def
      log_position_display_def store_with_evicted_position_100_def cursor_lost_error_def cong:
      let_weak_cong bind_weak_cong)

lemma get_tests_pass_2:
  assumes "prost_laws pb"
  shows
  "test_handle_get_fetch_size_zero_clamped_to_one pb tiny_regex 1000 = Some ()"
  "test_handle_get_negative_fetch_size_clamped pb tiny_regex 1000 = Some ()"
  by (simp_all add: assms test_handle_get_fetch_size_zero_clamped_to_one_def
      test_handle_get_negative_fetch_size_clamped_def prost_decode [OF assms] run_frames run_handler
      run_auth run_store run_get run_entry auth_state_def messages_default_def log_position_display_def
      store_with_evicted_position_100_def cursor_lost_error_def cong: let_weak_cong bind_weak_cong)

lemma get_tests_pass_3:
  assumes "prost_laws pb"
  shows
  "test_handle_get_cursor_below_watermark_reports_dropped_events pb tiny_regex 1000 = Some ()"
  "test_handle_get_fresh_client_below_watermark_is_served pb tiny_regex 1000 = Some ()"
  by (simp_all add: assms test_handle_get_cursor_below_watermark_reports_dropped_events_def
      test_handle_get_fresh_client_below_watermark_is_served_def prost_decode [OF assms] run_frames
      run_handler run_auth run_store run_get run_entry auth_state_def messages_default_def
      log_position_display_def store_with_evicted_position_100_def cursor_lost_error_def cong:
      let_weak_cong bind_weak_cong)

subsection \<open>\<open>tests_e2e.rs\<close>\<close>

definition test_handle_client_ack_updates_session :: "prost \<Rightarrow> regex_engine \<Rightarrow> timestamp \<Rightarrow> test" where
  "test_handle_client_ack_updates_session pb rx now = do {
     let sessions = sessions_register rx now ''c1'' ''example'' filter_pattern_default session_manager_new;
     let end_pos = log_position_new ''mysql-bin.000001'' 500;
     let state = client_state_default\<lparr>st_client_id := Some ''c1'', st_last_get_batch_id := 7, st_last_get_end_pos := Some end_pos\<rparr>;
     let ack = \<lparr>cl_destination = ''example'', cl_client_id = ''c1'', cl_batch_id = 7\<rparr>;
     let packet = packet_default\<lparr>pk_type := packet_type_i32 PtClientack, pk_body := enc_client_ack pb ack\<rparr>;
     let c = handle_client_ack pb packet (handler_ctx state sessions unused_store);
     assert_eq (st_last_ack_pos (cx_state c)) (Some end_pos);
     session \<leftarrow> sessions_get (cx_sessions c) ''c1'';
     assert_eq (cs_last_ack_position session) (Some end_pos)
   }"

definition test_handle_client_ack_mismatched_batch_is_ignored :: "prost \<Rightarrow> regex_engine \<Rightarrow> timestamp \<Rightarrow> test" where
  "test_handle_client_ack_mismatched_batch_is_ignored pb rx now = do {
     let sessions = sessions_register rx now ''c1'' ''example'' filter_pattern_default session_manager_new;
     let end_pos = log_position_new ''mysql-bin.000001'' 500;
     let state = client_state_default\<lparr>st_client_id := Some ''c1'', st_last_get_batch_id := 7, st_last_get_end_pos := Some end_pos\<rparr>;
     let ack = \<lparr>cl_destination = ''example'', cl_client_id = ''c1'', cl_batch_id = 999\<rparr>;
     let packet = packet_default\<lparr>pk_type := packet_type_i32 PtClientack, pk_body := enc_client_ack pb ack\<rparr>;
     let c = handle_client_ack pb packet (handler_ctx state sessions unused_store);
     assert_true (st_last_ack_pos (cx_state c) = None);
     session \<leftarrow> sessions_get (cx_sessions c) ''c1'';
     assert_true (cs_last_ack_position session = None)
   }"

definition test_handle_client_ack_garbage_body_noop :: "prost \<Rightarrow> test" where
  "test_handle_client_ack_garbage_body_noop pb = do {
     let packet = packet_default\<lparr>pk_type := packet_type_i32 PtClientack, pk_body := [0xFF, 0xFF]\<rparr>;
     let c = handle_client_ack pb packet (handler_ctx client_state_default session_manager_new unused_store);
     assert_true (st_last_ack_pos (cx_state c) = None)
   }"

definition test_handle_client_ack_without_batch_does_nothing :: "prost \<Rightarrow> test" where
  "test_handle_client_ack_without_batch_does_nothing pb = do {
     let state = client_state_default\<lparr>st_client_id := Some ''c1''\<rparr>;
     let ack = \<lparr>cl_destination = ''example'', cl_client_id = ''c1'', cl_batch_id = 1\<rparr>;
     let packet = packet_default\<lparr>pk_type := packet_type_i32 PtClientack, pk_body := enc_client_ack pb ack\<rparr>;
     let c = handle_client_ack pb packet (handler_ctx state session_manager_new unused_store);
     assert_true (st_last_ack_pos (cx_state c) = None);
     assert_true (st_current_pos (cx_state c) = None)
   }"

definition test_handle_client_rollback_restores_ack_position :: "prost \<Rightarrow> test" where
  "test_handle_client_rollback_restores_ack_position pb = do {
     let ack_pos = log_position_new ''mysql-bin.000001'' 100;
     let state = client_state_default\<lparr>st_current_pos := Some (log_position_new ''mysql-bin.000001'' 999), st_last_ack_pos := Some ack_pos\<rparr>;
     let rollback = \<lparr>cr_destination = ''example'', cr_client_id = ''c1'', cr_batch_id = 1\<rparr>;
     let packet = packet_default\<lparr>pk_type := packet_type_i32 PtClientrollback, pk_body := enc_client_rollback pb rollback\<rparr>;
     let c = handle_client_rollback pb packet (handler_ctx state session_manager_new unused_store);
     assert_eq (st_current_pos (cx_state c)) (Some ack_pos)
   }"

definition test_handle_client_rollback_without_ack_clears_position :: "prost \<Rightarrow> test" where
  "test_handle_client_rollback_without_ack_clears_position pb = do {
     let state = client_state_default\<lparr>st_current_pos := Some (log_position_new ''mysql-bin.000001'' 999)\<rparr>;
     let rollback = \<lparr>cr_destination = ''example'', cr_client_id = ''c1'', cr_batch_id = 1\<rparr>;
     let packet = packet_default\<lparr>pk_type := packet_type_i32 PtClientrollback, pk_body := enc_client_rollback pb rollback\<rparr>;
     let c = handle_client_rollback pb packet (handler_ctx state session_manager_new unused_store);
     assert_true (st_current_pos (cx_state c) = None)
   }"

definition test_handle_client_rollback_garbage_body_noop :: "prost \<Rightarrow> test" where
  "test_handle_client_rollback_garbage_body_noop pb = do {
     let state = client_state_default\<lparr>st_current_pos := Some (log_position_new ''mysql-bin.000001'' 999)\<rparr>;
     let packet = packet_default\<lparr>pk_type := packet_type_i32 PtClientrollback, pk_body := [0xFF]\<rparr>;
     let c = handle_client_rollback pb packet (handler_ctx state session_manager_new unused_store);
     assert_true (st_current_pos (cx_state c) \<noteq> None)
   }"

definition test_handle_heartbeat_acks_and_updates_session :: "prost \<Rightarrow> regex_engine \<Rightarrow> timestamp \<Rightarrow> test" where
  "test_handle_heartbeat_acks_and_updates_session pb rx now = do {
     (c, n) \<leftarrow> auth_state pb rx now unused_store ''c1'' any_table;
     session \<leftarrow> sessions_get (cx_sessions c) ''c1'';
     let earlier = cs_last_heartbeat session;
     let (r, c) = handle_heartbeat pb (now + 5) c;
     _ \<leftarrow> unwrap r;
     (ack, n) \<leftarrow> next_ack pb c n;
     assert_true (ak_error_message ack = '''');
     session \<leftarrow> sessions_get (cx_sessions c) ''c1'';
     let later = cs_last_heartbeat session;
     assert_true (earlier < later)
   }"

lemma ack_tests_pass:
  assumes "prost_laws pb"
  shows
  "test_handle_client_ack_updates_session pb tiny_regex 1000 = Some ()"
  "test_handle_client_ack_mismatched_batch_is_ignored pb tiny_regex 1000 = Some ()"
  "test_handle_client_ack_without_batch_does_nothing pb = Some ()"
  "test_handle_client_rollback_restores_ack_position pb = Some ()"
  "test_handle_client_rollback_without_ack_clears_position pb = Some ()"
  "test_handle_heartbeat_acks_and_updates_session pb tiny_regex 1000 = Some ()"
  by (simp_all add: assms test_handle_client_ack_updates_session_def
      test_handle_client_ack_mismatched_batch_is_ignored_def
      test_handle_client_ack_without_batch_does_nothing_def
      test_handle_client_rollback_restores_ack_position_def
      test_handle_client_rollback_without_ack_clears_position_def
      test_handle_heartbeat_acks_and_updates_session_def prost_decode [OF assms] run_frames run_handler
      run_auth auth_state_def handle_client_ack_def handle_client_rollback_def handle_heartbeat_def
      sessions_update_ack_def sessions_heartbeat_def cong: let_weak_cong bind_weak_cong)

lemma garbage_tests_pass:
  assumes "prost_laws pb"
  shows "test_handle_client_ack_garbage_body_noop pb = Some ()"
    and "test_handle_client_rollback_garbage_body_noop pb = Some ()"
  by (rule prost_garbage [OF assms],
      simp add: test_handle_client_ack_garbage_body_noop_def test_handle_client_rollback_garbage_body_noop_def
        handle_client_ack_def handle_client_rollback_def packet_default_def handler_ctx_def client_state_default_def)+

definition test_handle_client_ack_stale_batch_does_not_advance_durable_ack :: "prost \<Rightarrow> regex_engine \<Rightarrow> timestamp \<Rightarrow> test" where
  "test_handle_client_ack_stale_batch_does_not_advance_durable_ack pb rx now = do {
     store \<leftarrow> mem_store_new 1024;
     (_, store) \<leftarrow> putting [make_stored_event ''db'' ''t'' 100, make_stored_event ''db'' ''t'' 200] store;
     (c, n) \<leftarrow> auth_state pb rx now store ''c1'' any_table;
     packet \<leftarrow> unwrap (dec_packet pb (fetch_frame pb ''c1'' 1));
     let (r, c) = handle_get pb no_interference packet c;
     _ \<leftarrow> unwrap r;
     (resp, n) \<leftarrow> next_packet pb c n;
     packet \<leftarrow> unwrap (dec_packet pb (fetch_frame pb ''c1'' 1));
     let (r, c) = handle_get pb no_interference packet c;
     _ \<leftarrow> unwrap r;
     (resp, n) \<leftarrow> next_packet pb c n;
     end_pos \<leftarrow> st_last_get_end_pos (cx_state c);
     assert_eq (lp_position end_pos) 200;
     let stale_batch = st_last_get_batch_id (cx_state c) - 1;
     let ack = \<lparr>cl_destination = ''example'', cl_client_id = ''c1'', cl_batch_id = stale_batch\<rparr>;
     let packet = packet_default\<lparr>pk_type := packet_type_i32 PtClientack, pk_body := enc_client_ack pb ack\<rparr>;
     let c = handle_client_ack pb packet c;
     assert_true (st_last_ack_pos (cx_state c) = None);
     session \<leftarrow> sessions_get (cx_sessions c) ''c1'';
     assert_true (cs_last_ack_position session = None);
     let ack = \<lparr>cl_destination = ''example'', cl_client_id = ''c1'', cl_batch_id = st_last_get_batch_id (cx_state c)\<rparr>;
     let packet = packet_default\<lparr>pk_type := packet_type_i32 PtClientack, pk_body := enc_client_ack pb ack\<rparr>;
     let c = handle_client_ack pb packet c;
     acked \<leftarrow> st_last_ack_pos (cx_state c);
     assert_eq (lp_position acked) 200
   }"

definition test_handle_get_blacklist_filters_events :: "prost \<Rightarrow> regex_engine \<Rightarrow> timestamp \<Rightarrow> test" where
  "test_handle_get_blacklist_filters_events pb rx now = do {
     store \<leftarrow> mem_store_new 1024;
     (_, store) \<leftarrow> putting [make_stored_event ''db'' ''users'' 100, make_stored_event ''db'' ''logs'' 200] store;
     let c = handler_ctx client_state_default session_manager_new store;
     let auth = client_auth_default\<lparr>ca_client_id := ''c1'', ca_filter := any_table\<rparr>;
     let packet = packet_default\<lparr>pk_type := packet_type_i32 PtClientauthentication, pk_body := enc_client_auth pb auth\<rparr>;
     let (r, c) = handle_auth pb rx None now packet c;
     _ \<leftarrow> unwrap r;
     (ack, n) \<leftarrow> next_ack pb c 0;
     let blacklisted = \<lparr>fp_pattern = any_table, fp_black_list = ''db'' @ backslash @ ''.logs''\<rparr>;
     let c = c\<lparr>cx_sessions := sessions_register rx now ''c1'' ''example'' blacklisted (cx_sessions c)\<rparr>;
     packet \<leftarrow> unwrap (dec_packet pb (fetch_frame pb ''c1'' 100));
     let (r, c) = handle_get pb no_interference packet c;
     _ \<leftarrow> unwrap r;
     (resp, n) \<leftarrow> next_packet pb c n;
     msgs \<leftarrow> unwrap (dec_messages pb (pk_body resp));
     assert_eq (length (mg_messages msgs)) 1;
     message \<leftarrow> nth_panics (mg_messages msgs) 0;
     entry \<leftarrow> unwrap (dec_entry pb message);
     hdr \<leftarrow> en_header entry;
     assert_eq (hd_table_name hdr) ''users''
   }"

lemma batch_tests_pass_1:
  assumes "prost_laws pb"
  shows
  "test_handle_client_ack_stale_batch_does_not_advance_durable_ack pb tiny_regex 1000 = Some ()"
  by (simp_all add: assms test_handle_client_ack_stale_batch_does_not_advance_durable_ack_def
      prost_decode [OF assms] run_frames run_handler run_auth run_store run_get run_entry auth_state_def
      messages_default_def handle_client_ack_def sessions_update_ack_def cong: let_weak_cong
      bind_weak_cong)

lemma batch_tests_pass_2:
  assumes "prost_laws pb"
  shows
  "test_handle_get_blacklist_filters_events pb tiny_regex 1000 = Some ()"
  by (simp_all add: assms test_handle_get_blacklist_filters_events_def prost_decode [OF assms] run_frames
      run_handler run_auth run_store run_get run_entry auth_state_def messages_default_def
      handle_client_ack_def sessions_update_ack_def cong: let_weak_cong bind_weak_cong)

end
