(* ===== verification/Canal_Tests_E2e.thy ===== *)
theory Canal_Tests_E2e
  imports Canal_Tests_Server Canal_System
begin

text \<open>
  The tests of \<open>tests_e2e.rs\<close> that run a whole server over TCP, on the server of \<open>Canal_System\<close>. The
  test and the server's tasks alternate: what the client sends arrives and is handled before the test
  reads on, and a \<open>Get\<close> scans the store once. The socket and the codec at its two ends
  (\<open>Canal_Codec\<close>) carry frames; a frame that the test reads is one that the connection has sent.
\<close>

definition spawn_server :: "string \<Rightarrow> string option \<Rightarrow> server_system option" where
  "spawn_server addr auth = do {
     store \<leftarrow> mem_store_new 1024;
     let server = canal_server_new addr store;
     let server = (case auth of Some token \<Rightarrow> with_auth token server | None \<Rightarrow> server);
     Some (system_start server)
   }"

text \<open>A connection, with its place among those of the server, and the number of frames read from it.\<close>

definition client_connects :: "server_system \<Rightarrow> (nat \<times> server_system) option" where
  "client_connects sys =
     (let sys' = system_step True null_prost tiny_regex (Accepts transport_new) sys
      in if length (ss_conns sys') = Suc (length (ss_conns sys)) then Some (length (ss_conns sys), sys')
         else None)"

definition client_sends ::
    "prost \<Rightarrow> regex_engine \<Rightarrow> timestamp \<Rightarrow> nat \<Rightarrow> bytes \<Rightarrow> server_system \<Rightarrow> server_system" where
  "client_sends pb rx now k payload sys =
     system_run True pb rx [Arrives k now (Frame payload), Scans k] sys"

definition client_receives :: "prost \<Rightarrow> nat \<Rightarrow> nat \<Rightarrow> server_system \<Rightarrow> (packet \<times> nat) option" where
  "client_receives pb k n sys = do {
     conn \<leftarrow> nth_panics (ss_conns sys) k;
     b \<leftarrow> nth_panics (tr_sent (cn_transport conn)) n;
     p \<leftarrow> unwrap (dec_packet pb b);
     Some (p, Suc n)
   }"

text \<open>\<open>drop(stream)\<close>; \<open>token.cancel()\<close>; and \<open>handle.await\<close>, which hangs unless the server has ended.\<close>

definition client_drops :: "prost \<Rightarrow> regex_engine \<Rightarrow> timestamp \<Rightarrow> nat \<Rightarrow> server_system \<Rightarrow> server_system" where
  "client_drops pb rx now k sys = system_step True pb rx (Arrives k now StreamEnd) sys"

definition server_cancelled :: "prost \<Rightarrow> regex_engine \<Rightarrow> server_system \<Rightarrow> server_system" where
  "server_cancelled pb rx sys = system_step True pb rx Cancelled sys"

definition server_awaited :: "server_system \<Rightarrow> unit canal_result option" where
  "server_awaited sys = (case ss_status sys of Served r \<Rightarrow> Some r | _ \<Rightarrow> None)"

definition test_server_builder_and_shutdown_token :: "prost \<Rightarrow> regex_engine \<Rightarrow> test" where
  "test_server_builder_and_shutdown_token pb rx = do {
     store \<leftarrow> mem_store_new 1024;
     let server = with_idle_timeout 30 (with_auth ''secret'' (canal_server_new ''127.0.0.1:0'' store));
     assert_true (\<not> sr_cancelled server);
     let sys = server_cancelled pb rx (system_start server);
     assert_true (sr_cancelled (ss_server sys))
   }"

definition test_with_auth_ignores_empty_token :: test where
  "test_with_auth_ignores_empty_token = do {
     store \<leftarrow> mem_store_new 1024;
     let addr = ''127.0.0.1:0'';
     let server = with_auth ''   '' (with_auth '''' (canal_server_new addr store));
     assert_true (sr_auth_token server = None);
     store \<leftarrow> mem_store_new 1024;
     let server = with_auth ''secret'' (canal_server_new addr store);
     assert_eq (sr_auth_token server) (Some ''secret'')
   }"

definition test_server_serve_shuts_down_on_cancel :: "prost \<Rightarrow> regex_engine \<Rightarrow> string \<Rightarrow> test" where
  "test_server_serve_shuts_down_on_cancel pb rx addr = do {
     sys \<leftarrow> spawn_server addr None;
     let sys = server_cancelled pb rx sys;
     result \<leftarrow> server_awaited sys;
     assert_true (\<not> isl result)
   }"

definition test_completed_client_tasks_are_pruned :: "prost \<Rightarrow> regex_engine \<Rightarrow> timestamp \<Rightarrow> string \<Rightarrow> test" where
  "test_completed_client_tasks_are_pruned pb rx now addr = do {
     sys \<leftarrow> spawn_server addr None;
     (k, sys) \<leftarrow> client_connects sys;
     let sys = client_sends pb rx now k (auth_frame pb ''c1'' any_table []) sys;
     (pkt, n) \<leftarrow> client_receives pb k 0 sys;
     assert_eq (pk_type pkt) (packet_type_i32 PtAck);
     let sys = client_drops pb rx now k sys;
     (k, sys) \<leftarrow> client_connects sys;
     let sys = client_sends pb rx now k (auth_frame pb ''c1'' any_table []) sys;
     (pkt, n) \<leftarrow> client_receives pb k 0 sys;
     assert_eq (pk_type pkt) (packet_type_i32 PtAck);
     let sys = client_drops pb rx now k sys;
     (k, sys) \<leftarrow> client_connects sys;
     let sys = client_sends pb rx now k (auth_frame pb ''c1'' any_table []) sys;
     (pkt, n) \<leftarrow> client_receives pb k 0 sys;
     assert_eq (pk_type pkt) (packet_type_i32 PtAck);
     let sys = client_drops pb rx now k sys;
     let live = length (sr_client_tasks (ss_server sys));
     assert_true (live < 3);
     let sys = server_cancelled pb rx sys;
     result \<leftarrow> server_awaited sys;
     unwrap result
   }"

definition test_server_rejects_wrong_auth_token_over_tcp :: "prost \<Rightarrow> regex_engine \<Rightarrow> timestamp \<Rightarrow> string \<Rightarrow> test" where
  "test_server_rejects_wrong_auth_token_over_tcp pb rx now addr = do {
     sys \<leftarrow> spawn_server addr (Some ''secret'');
     (k, sys) \<leftarrow> client_connects sys;
     let sys = client_sends pb rx now k (auth_frame pb ''c1'' any_table (as_bytes ''wrong'')) sys;
     (pkt, n) \<leftarrow> client_receives pb k 0 sys;
     assert_eq (pk_type pkt) (packet_type_i32 PtAck);
     ack \<leftarrow> unwrap (dec_ack pb (pk_body pkt));
     assert_true (contains (ak_error_message ack) ''authentication failed'');
     let sys = client_sends pb rx now k (fetch_frame pb ''c1'' 10) sys;
     (pkt, n) \<leftarrow> client_receives pb k n sys;
     assert_eq (pk_type pkt) (packet_type_i32 PtAck);
     ack \<leftarrow> unwrap (dec_ack pb (pk_body pkt));
     assert_true (contains (ak_error_message ack) ''not authenticated'');
     let sys = client_drops pb rx now k sys;
     let sys = server_cancelled pb rx sys;
     result \<leftarrow> server_awaited sys;
     unwrap result
   }"

definition test_server_full_client_flow_over_tcp :: "prost \<Rightarrow> regex_engine \<Rightarrow> timestamp \<Rightarrow> string \<Rightarrow> test" where
  "test_server_full_client_flow_over_tcp pb rx now addr = do {
     sys \<leftarrow> spawn_server addr None;
     let sys = system_step True pb rx (Feeds [make_stored_event ''db'' ''t'' 100]) sys;
     (k, sys) \<leftarrow> client_connects sys;
     let sys = client_sends pb rx now k (auth_frame pb ''c1'' any_table []) sys;
     (pkt, n) \<leftarrow> client_receives pb k 0 sys;
     assert_eq (pk_type pkt) (packet_type_i32 PtAck);
     ack \<leftarrow> unwrap (dec_ack pb (pk_body pkt));
     assert_true (ak_error_message ack = '''');
     let sys = client_sends pb rx now k (sub_frame pb ''c1'' any_table) sys;
     (pkt, n) \<leftarrow> client_receives pb k n sys;
     assert_eq (pk_type pkt) (packet_type_i32 PtAck);
     let sys = client_sends pb rx now k (fetch_frame pb ''c1'' 10) sys;
     (pkt, n) \<leftarrow> client_receives pb k n sys;
     assert_eq (pk_type pkt) (packet_type_i32 PtMessages);
     msgs \<leftarrow> unwrap (dec_messages pb (pk_body pkt));
     assert_eq (length (mg_messages msgs)) 1;
     message \<leftarrow> nth_panics (mg_messages msgs) 0;
     entry \<leftarrow> unwrap (dec_entry pb message);
     hdr \<leftarrow> en_header entry;
     assert_eq (hd_logfile_name hdr) ''mysql-bin.000001'';
     assert_eq (hd_logfile_offset hdr) 100;
     let sys = client_sends pb rx now k (framing pb PtHeartbeat []) sys;
     (pkt, n) \<leftarrow> client_receives pb k n sys;
     assert_eq (pk_type pkt) (packet_type_i32 PtAck);
     let sys = client_drops pb rx now k sys;
     let sys = server_cancelled pb rx sys;
     result \<leftarrow> server_awaited sys;
     unwrap result
   }"

lemma sent_types [simp]:
  "packet_type_i32 PtClientauthentication \<noteq> 0" "packet_type_i32 PtSubscription \<noteq> 0"
  "packet_type_i32 PtGet \<noteq> 0" "packet_type_i32 PtHeartbeat \<noteq> 0"
  by (simp_all add: packet_type_i32_def packet_type_disc_def)

lemma token_whitespace [simp]:
  "\<not> all_whitespace [115, 101, 99, 114, 101, 116]" "all_whitespace [32, 32, 32]" "all_whitespace []"
  by (simp_all add: all_whitespace.simps whitespace_step_def)

lemmas run_server_test = spawn_server_def client_connects_def client_sends_def client_receives_def
  client_drops_def server_cancelled_def server_awaited_def canal_server_new_def with_auth_def
  with_idle_timeout_def trim_is_empty_def system_start_def serve_start_def system_step_def serve_turn_def
  serve_step_def max_connections_def arrive_def arriving_get_def begin_get_def conn_ctx_def put_ctx_def
  settle_def control_of_def scan_turn_def client_step_def interfere_def dispatch_def client_exit_def
  reset_unknown_def handle_heartbeat_def sessions_heartbeat_def sessions_unregister_def handle_sub_def
  mem_store_start_def

lemma server_tests_pass_1:
  assumes "prost_laws pb"
  shows
  "test_server_builder_and_shutdown_token pb tiny_regex = Some ()"
  by (simp_all add: assms test_server_builder_and_shutdown_token_def prost_decode [OF assms]
      packet_not_empty [OF assms] run_server_test run_frames run_handler run_auth run_store run_get
      run_entry messages_default_def cong: let_weak_cong bind_weak_cong)

lemma server_tests_pass_2:
  assumes "prost_laws pb"
  shows
  "test_with_auth_ignores_empty_token = Some ()"
  by (simp_all add: assms test_with_auth_ignores_empty_token_def prost_decode [OF assms] packet_not_empty
      [OF assms] run_server_test run_frames run_handler run_auth run_store run_get run_entry
      messages_default_def cong: let_weak_cong bind_weak_cong)

lemma server_tests_pass_3:
  assumes "prost_laws pb"
  shows
  "test_server_serve_shuts_down_on_cancel pb tiny_regex addr = Some ()"
  by (simp_all add: assms test_server_serve_shuts_down_on_cancel_def prost_decode [OF assms]
      packet_not_empty [OF assms] run_server_test run_frames run_handler run_auth run_store run_get
      run_entry messages_default_def cong: let_weak_cong bind_weak_cong)

lemma server_tests_pass_4:
  assumes "prost_laws pb"
  shows
  "test_completed_client_tasks_are_pruned pb tiny_regex 1000 addr = Some ()"
  by (simp_all add: assms test_completed_client_tasks_are_pruned_def prost_decode [OF assms]
      packet_not_empty [OF assms] run_server_test run_frames run_handler run_auth run_store run_get
      run_entry messages_default_def cong: let_weak_cong bind_weak_cong)

lemma server_tests_pass_5:
  assumes "prost_laws pb"
  shows
  "test_server_rejects_wrong_auth_token_over_tcp pb tiny_regex 1000 addr = Some ()"
  by (simp_all add: assms test_server_rejects_wrong_auth_token_over_tcp_def prost_decode [OF assms]
      packet_not_empty [OF assms] run_server_test run_frames run_handler run_auth run_store run_get
      run_entry messages_default_def cong: let_weak_cong bind_weak_cong)

lemma server_tests_pass_6:
  assumes "prost_laws pb"
  shows
  "test_server_full_client_flow_over_tcp pb tiny_regex 1000 addr = Some ()"
  by (simp_all add: assms test_server_full_client_flow_over_tcp_def prost_decode [OF assms]
      packet_not_empty [OF assms] run_server_test run_frames run_handler run_auth run_store run_get
      run_entry messages_default_def cong: let_weak_cong bind_weak_cong)

end
