(* ===== verification/Canal_Tests_Client.thy ===== *)
theory Canal_Tests_Client
  imports Canal_Tests_Common Canal_Client Canal_Command Canal_Debug
begin

text \<open>
  The tests of \<open>canal-client\<close> (\<open>lib.rs\<close>), of the mascot (\<open>pet.rs\<close>) and of the session's \<open>Debug\<close> text
  (\<open>session.rs\<close>). Left out is the test of the embedded picture.
\<close>

definition test_client_id_is_unique :: "u64 \<Rightarrow> test" where
  "test_client_id_is_unique next_id = do {
     let (c1, next_id) = canal_client_new ''localhost'' 11111 next_id;
     let (c2, next_id) = canal_client_new ''localhost'' 11111 next_id;
     assert_true (cli_client_id c1 \<noteq> cli_client_id c2)
   }"

definition test_builder_pattern :: "u64 \<Rightarrow> test" where
  "test_builder_pattern next_id = do {
     let (client, next_id) = canal_client_new ''db.example.com'' 12345 next_id;
     let client = with_filter filter_pattern_default (with_destination ''production'' client);
     assert_eq (cli_host client) ''db.example.com'';
     assert_eq (cli_port client) 12345;
     assert_eq (cli_destination client) ''production''
   }"

definition test_canal_event_stream_drop :: test where
  "test_canal_event_stream_drop = do {
     let stream = \<lparr>est_rx = [], est_running = True\<rparr>;
     let stream = stream\<lparr>est_running := False\<rparr>;
     (item, stream) \<leftarrow> (case next_event stream of (Some item, stream) \<Rightarrow> Some (item, stream) | (None, _) \<Rightarrow> None);
     assert_true (item = None)
   }"

lemma client_tests_pass:
  "test_client_id_is_unique 1001 = Some ()"
  "test_builder_pattern 1001 = Some ()"
  "test_canal_event_stream_drop = Some ()"
  by (simp_all add: test_client_id_is_unique_def test_builder_pattern_def
      test_canal_event_stream_drop_def canal_client_new_def with_filter_def with_destination_def
      next_event_def Let_def)

definition ascii_mascot_is_printable_and_has_the_canal :: test where
  "ascii_mascot_is_printable_and_has_the_canal = do {
     assert_true (8 \<le> length (split_lines canal_crab));
     assert_true (contains canal_crab ''o'');
     assert_true (contains canal_crab ''=='');
     assert_true (contains canal_crab ''~'');
     assert_true (list_all (\<lambda>l. \<not> ends_with l '' '') (split_lines canal_crab))
   }"

definition banner_contains_art_and_name :: test where
  "banner_contains_art_and_name = do {
     let b = pet_banner;
     assert_true (contains b canal_crab);
     assert_true (contains b pet_name)
   }"

lemma pet_tests_pass:
  "ascii_mascot_is_printable_and_has_the_canal = Some ()"
  by (simp_all add: ascii_mascot_is_printable_and_has_the_canal_def canal_crab_def crab_lines_def
      art_char_def newline_def ends_with_def)

lemma banner_test_passes: "banner_contains_art_and_name = Some ()"
proof -
  have "contains pet_banner canal_crab"
    using contains_infix [of "canal_crab @ s" canal_crab "[]" for s] by (simp add: pet_banner_def)
  moreover have "contains pet_banner pet_name"
    using contains_infix [of "pet_name @ s" pet_name "canal_crab @ [newline, newline]" for s]
    by (simp add: pet_banner_def)
  ultimately show ?thesis
    by (simp add: banner_contains_art_and_name_def)
qed

definition test_session_debug_hides_internal_state :: "regex_engine \<Rightarrow> timestamp \<Rightarrow> (string \<Rightarrow> string) \<Rightarrow> (timestamp \<Rightarrow> string) \<Rightarrow> test" where
  "test_session_debug_hides_internal_state rx now w utc = do {
     let flt = \<lparr>fp_pattern = ''db'' @ backslash @ ''.t'', fp_black_list = ''''\<rparr>;
     let session = client_session_new rx now ''c1'' ''dest'' flt;
     let dbg = debug_client_session w utc session;
     assert_true (contains dbg ''client_id'');
     assert_true (contains dbg ''filter'');
     assert_true (\<not> contains dbg ''last_ack_position'')
   }"

lemma session_debug_test_passes:
  "test_session_debug_hides_internal_state tiny_regex 1000 w (\<lambda>_. ''2026-01-01T00:00:00Z'') = Some ()"
  by (simp_all add: test_session_debug_hides_internal_state_def client_session_new_def
      debug_client_session_def debug_struct_open_def debug_filter_pattern_def debug_struct_def
      debug_str_def escape_ascii_def Let_def)

end
