(* ===== verification/Spec2Isabelle.thy ===== *)
theory Spec2Isabelle
  imports Canal_Typing Canal_Client Canal_System_Progress Canal_Shutdown Canal_Page Canal_Kafka Canal_Meta
    Canal_Locks Canal_Debug Canal_Tests_Common Canal_Tests_Store Canal_Tests_Codec Canal_Tests_Binlog
    Canal_Tests_Sink Canal_Tests_Metrics Canal_Tests_Admin Canal_Tests_E2e Canal_Tests_Client
begin

text \<open>
  A verification development for Canal Rust, a server that replicates the binlog of a MySQL server,
  stores its events in memory and serves them to clients over the Canal wire protocol.

  \<^bold>\<open>The program.\<close> \<open>run_server\<close> (\<open>crates/canal-cli/src/main.rs\<close>) reads the configuration, builds
  one instance (\<open>canal-instance\<close>) from a store (\<open>canal-store\<close>) and a sink (\<open>canal-sink\<close>), and starts
  the Canal server (\<open>canal-server\<close>), the Admin API (\<open>canal-admin\<close>) and the metrics endpoint
  (\<open>canal-prometheus\<close>). The binlog connector (\<open>canal-binlog\<close>) decodes the stream of the MySQL server
  in a thread of its own and puts Canal events on a channel; the binlog task takes them off, gathers
  batches of at most 256 and feeds them to the instance. The sink filters a batch (\<open>canal-filter\<close>),
  puts it into the store and queues it for its connectors, such as Kafka (\<open>canal-connector\<close>). A
  client (\<open>canal-client\<close>) authenticates, subscribes, and then asks for batches and acknowledges them;
  the server reads the store from the client's cursor, filters by the client's session, converts the
  events to protobuf entries (\<open>canal-proto\<close>), and frames them.

  \<^bold>\<open>The theories\<close>, in the order of the data flow, with the code each models.
  \<^item> \<open>Canal_Prelude\<close>, \<open>Canal_Std\<close>: bytes, decimal texts, options, and what the code uses of Rust's
    standard library: \<open>partition_point\<close>, big-endian integers, UTF-8, saturating arithmetic.
  \<^item> \<open>Canal_Types\<close>: \<open>canal-common\<close>. Positions with their order, events, filter patterns, errors
    (\<open>canal_result\<close> is \<open>Inl\<close> an error or \<open>Inr\<close> a value), and the locale \<open>lifecycle\<close>.
  \<^item> \<open>Canal_Binlog\<close>, \<open>Canal_Connector\<close>: \<open>canal-binlog\<close>. The table map, row conversion and column
    texts; then \<open>process_and_send\<close>, the replication loop as a fold over the decoded stream, and the
    connector's \<open>connect\<close> and \<open>disconnect\<close>.
  \<^item> \<open>Canal_Filter\<close>, \<open>Canal_Store\<close>, \<open>Canal_Sink\<close>, \<open>Canal_Metrics\<close>, \<open>Canal_Kafka\<close>, \<open>Canal_Registry\<close>,
    \<open>Canal_Meta\<close>, \<open>Canal_Instance\<close>: the crates of these names. A store is the record \<open>mem_store\<close>, a
    sink \<open>event_sink\<close> with its queue and its worker as a step function, an instance
    \<open>canal_instance\<close>.
  \<^item> \<open>Canal_Session\<close>, \<open>Canal_Codec\<close>, \<open>Canal_Proto\<close>, \<open>Canal_Conversion\<close>, \<open>Canal_Server\<close>:
    \<open>canal-server\<close> and \<open>canal-proto\<close>. A connection is the record \<open>ctx\<close> (its transport, its
    \<open>ClientState\<close>, the shared sessions and store); a handler is a function from it to a result and
    the new \<open>ctx\<close>, \<open>client_step\<close> is one turn of the loop, \<open>handle_client\<close> the whole connection,
    \<open>serve_step\<close> one turn of the accept loop.
  \<^item> \<open>Canal_Server_Auth\<close>, \<open>Canal_Server_Get\<close>, \<open>Canal_Server_Live\<close>: what the server's connections can
    and cannot do, what they are served, and what they are served while the store is fed and read by
    others.
  \<^item> \<open>Canal_System\<close>, \<open>Canal_System_Sessions\<close>, \<open>Canal_System_Live\<close>, \<open>Canal_System_Progress\<close>: the
    server with all of its connections, the record \<open>server_system\<close>. \<open>system_step\<close> is one turn of one task: a feed, a turn of
    the accept loop, a frame arriving at a connection, one scan of a waiting read, or its time-out.
    The theories show that each connection is a run of \<open>handle_client\<close>, that connections with
    distinct client ids do not disturb each other, that a polling client is sent a prefix of the log
    without a gap, and, once its reads are scanned for, all of it.
  \<^item> \<open>Canal_Typing\<close>: which events are well typed, and that replication emits only such.
  \<^item> \<open>Canal_Client\<close>: \<open>canal-client\<close>. The handshake, the subscription, the poll task and the stream
    that the consumer reads.
  \<^item> \<open>Canal_Admin\<close>, \<open>Canal_Http\<close>, \<open>Canal_Page\<close>, \<open>Canal_Cli\<close>, \<open>Canal_Main\<close>, \<open>Canal_Command\<close>: the Admin API with its
    routes and its landing page, the configuration, and the set-up of \<open>main.rs\<close> with its commands.
  \<^item> \<open>Canal_Process\<close>, \<open>Canal_Shutdown\<close>: the process that \<open>run_server\<close> starts, the record \<open>process\<close>,
    which holds the server, the Admin API, the binlog task, whether the replication thread is running,
    and the shutdown token; \<open>process_step\<close> is one turn of one of them, and the second theory is about
    how it ends: \<open>run_server\<close> returns (\<open>Returned\<close>), and the process exits (\<open>Exited\<close>) when the runtime
    has no replication thread to wait for.
  \<^item> \<open>Canal_Locks\<close>: the recovery of poisoned locks (\<open>utils.rs\<close>).
  \<^item> \<open>Canal_Debug\<close>: the \<open>Debug\<close> texts of the types with secrets, from several crates.
  \<^item> \<open>Canal_Tests\<close> and the theories \<open>Canal_Tests_...\<close>: the repository's own unit tests as programs on
    the model (below). \<open>Canal_Tests_Prost\<close> states what those of the server need of prost.
  \<^item> This theory: the properties that span components.

  \<^bold>\<open>How the code is modelled.\<close> Integers keep their width as words; a text is the list of its bytes,
  so \<open>len\<close> is \<open>length\<close>, and code that counts characters decodes UTF-8 (\<open>chars_take\<close>). Mutation is
  state passing, an error a value, and a panic of the store's feed-order assertion the value
  \<open>None\<close>. Tasks that share state interleave at the points where the code awaits: for one connection
  alone, \<open>interference\<close> is what the other tasks do to the store and the sessions before, during and
  after a read; in \<open>Canal_System\<close> the other tasks are there, a turn of a task runs from one place
  where it waits for its socket or for the store to the next (\<open>phase\<close>), and any sequence of turns is a
  schedule. \<open>select_event\<close>, \<open>wake\<close> and the events of \<open>serve_step\<close> and \<open>process_step\<close> are the schedules of
  the \<open>select!\<close> loops. Third-party code is a parameter: the regex library (\<open>regex_engine\<close>), prost
  (\<open>prost\<close>), the display of floats, the JSON and YAML libraries, the address parser, the Kafka
  broker and the decoder of the binlog. What a property needs of them is among its hypotheses, with a
  concrete instance in its witness.

  \<^bold>\<open>What the lemmas show.\<close> The specification of the store is a log: \<open>store_log h s\<close> says that the
  store stands for all the events \<open>h\<close> it was ever fed, of which it has kept an end, the watermark
  marking where that begins. Feeding appends to \<open>h\<close>, the watermark test is exact, and a read from
  a cursor answers as if all of \<open>h\<close> were there (locale \<open>event_log\<close>, interpreted on the store). On it
  rest the properties of the server's \<open>Get\<close>, of a whole subscription, also on the running server
  with any number of connections and with feeds in the middle of its reads, of the instance and of
  the batching loop. The connection's state machine has an invariant over every reachable state, with
  authentication as a safety property of whole connections, alone and among the others. Events have
  types, which replication preserves and the wire relies on. The codec, the entry encoding and the
  configuration have round trips, client and server agree on the framing, and the session's filter is
  the library's filter. The sink and Kafka are described over any interleaving of feeds and worker
  turns (locale \<open>sink_target\<close>). The process is shown to be the server of \<open>Canal_System\<close> fed by the
  binlog task, to return from \<open>run_server\<close> when it is shut down and only then, to exit when its
  replication thread is not or no longer running, and to lose at most one batch. What is sent to Kafka
  is pinned for the connector and its client library; how many copies a topic gets of a message is
  left to the broker. This theory
  composes these: a binlog stream ends up as the log of the store; the log of the store ends up with
  the client's consumer; both together, from the binlog of MySQL to the consumer
  (\<open>binlog_to_consumer\<close>); and \<open>connect\<close> of the client succeeds exactly when the server authenticates it.

  \<^bold>\<open>The tests.\<close> Each unit test of the crates is a definition, a program of the option monad in which
  a failed assertion or \<open>unwrap\<close> is \<open>None\<close>, translated line by line from the test; the lemmas
  \<open>..._tests_pass\<close> evaluate it on the model to \<open>Some ()\<close>. They tie the definitions to the answers that
  the repository itself fixes, from the order of positions to whole client sessions over the server
  (\<open>Canal_Tests_E2e\<close>). The regex library is a small engine for the syntax that the tests use
  (\<open>tiny_regex\<close>); for prost and serde_json any library will do that has the laws assumed, and
  \<open>prost_laws_hold\<close> gives one.

  \<^bold>\<open>Bounds.\<close> The recursions follow the data or have a termination proof, so there is no fuel that could
  run out: the poll loop ends because every turn that goes on consumes bytes of its socket,
  \<open>decode_all\<close> because every frame does, \<open>partition_point\<close> because its interval shrinks. The number
  of rounds \<open>k\<close> of \<open>poll\<close> and \<open>get_rounds\<close> is the number of requests that a reader makes; as many as
  there are events left are enough, since every read that is not empty returns at least one.

  \<^bold>\<open>Not modelled.\<close> The text encoding of prost, serde and the Prometheus library, the sockets, timers,
  signals and threads themselves (they are the events of the step functions), log lines but those of
  the lock recovery, the wrap-around of the metrics' \<open>u64\<close> counters and their sum over several handles (a
  process has one), the turns that other tasks of the runtime may take between the return of
  \<open>run_server\<close> and their being dropped, the parsing of arguments by clap, the registration of the metrics with their
  help texts, the embedded vector picture, and build scripts. Of the unit tests fourteen: those that
  only start a listener or a server on a random port, look at the embedded picture, at help texts, at
  \<open>Clone\<close> and \<open>From\<close> implementations or at the capacity of a buffer, or go through serde_json; and
  the integration tests in the directories \<open>tests\<close> of the crates.
\<close>

section \<open>From the binlog to the store\<close>

text \<open>The items of the event channel among what the binlog task sees.\<close>

definition channel_items :: "select_event list \<Rightarrow> canal_event canal_result list" where
  "channel_items evs = List.map_filter (\<lambda>ev. case ev of Received x \<Rightarrow> x | _ \<Rightarrow> None) evs"

lemma received_channel_items: "received evs = ok_events (channel_items evs)"
  by (induction evs rule: received.induct)
    (auto simp: channel_items_def ok_events_def List.map_filter_simps split: option.splits)

lemma replication_channel:
  "ch_sent (rp_channel (snd (run_replication fd None (decoded items) start \<lparr>ch_sent = [], ch_room = None\<rparr>)))
    = emitted fd items event_converter_new start None"
  using replication_loop_emits [of "replication_start start \<lparr>ch_sent = [], ch_room = None\<rparr>" fd items]
  by (simp add: run_replication_def replication_start_def Let_def)

lemma binlog_log:
  assumes "store_log [] (instance_store i)" and "ci_running i"
    and "sorted (stream_keys items start)"
    and "channel_items evs = ch_sent (rp_channel (snd
      (run_replication fd None (decoded items) start \<lparr>ch_sent = [], ch_room = None\<rparr>)))"
    and "Received None \<notin> set evs" and "Command False \<notin> set evs"
  shows "\<exists>s. batch_loop debug (evs @ [TimerTick]) (batch_start i) = (TaskRunning, s)
    \<and> batch_loop debug (evs @ [Received None]) (batch_start i) = (TaskDone, s)
    \<and> store_log (passing i (ok_events (emitted fd items event_converter_new start None)))
        (instance_store (bs_instance s))"
proof -
  let ?flt = "sk_filter (ci_sink i)"
  let ?evs = "ok_events (emitted fd items event_converter_new start None)"
  have rec: "received evs = ?evs"
    using assms(4) by (simp add: received_channel_items replication_channel)
  have sorted: "sorted (map ev_key ([] @ filter (filter_passes ?flt) (received evs)))"
    using emitted_sorted [OF assms(3), of fd event_converter_new None] by (simp add: rec sorted_filter)
  obtain s where s: "batch_loop debug evs (batch_start i) = (TaskRunning, s)"
    "batch_inv [] ?flt (received evs) s" "length (bs_batch s) < max_batch"
    using batch_loop_inv [OF batch_start_inv [OF assms(1,2)] _ assms(5,6), of debug] sorted
    by (auto simp: batch_start_def max_batch_def)
  then obtain s' where "batch_loop debug (evs @ [TimerTick]) (batch_start i) = (TaskRunning, s')"
    "batch_loop debug (evs @ [Received None]) (batch_start i) = (TaskDone, s')"
    "batch_inv [] ?flt (received evs) s'" "bs_batch s' = []"
    using batch_loop_flush [OF s sorted] by blast
  then show ?thesis
    by (auto simp: batch_inv_def rec)
qed

text \<open>C12: From the binlog to the store. Take a stream of decoded binlog events whose statements and
  rows come in the order of file number and position, and a running instance with an empty store.
  When the binlog task has taken everything that replication puts on the channel, with the
  flush timer going off whenever it does, and the timer goes off once more or the channel ends, there
  has been no panic, and the store stands for the log of exactly the events that the stream denotes
  and the instance's filter passes, in stream order.\<close>

theorem binlog_to_store:
  assumes "store_log [] (instance_store i)" and "ci_running i"
    and "sorted (stream_keys items start)"
    and "channel_items evs = ch_sent (rp_channel (snd
      (run_replication fd None (decoded items) start \<lparr>ch_sent = [], ch_room = None\<rparr>)))"
    and "Received None \<notin> set evs" and "Command False \<notin> set evs"
  shows "\<exists>s. batch_loop debug (evs @ [TimerTick]) (batch_start i) = (TaskRunning, s)
    \<and> batch_loop debug (evs @ [Received None]) (batch_start i) = (TaskDone, s)
    \<and> store_log (passing i (ok_events (emitted fd items event_converter_new start None)))
        (instance_store (bs_instance s))"
  using assms by (rule binlog_log)

text \<open>A running instance with an empty store of capacity 2.\<close>

definition empty_instance :: "unit canal_instance" where
  "empty_instance =
     \<lparr>ci_config = sample_config,
      ci_sink = sink_new (the (mem_store_new 2)) \<lparr>ef_include = (\<lambda>_. True), ef_exclude = None\<rparr> [],
      ci_running = True\<rparr>"

lemma binlog_to_store_witness:
  "\<exists>s. batch_loop True ([TimerTick, Received (Some (Inr (ddl_event (sample_header 100) ''b.1'' ''db'' ''BEGIN'' None))),
        TimerTick, Received (Some (Inl (table_not_found 9)))] @ [Received None]) (batch_start empty_instance)
      = (TaskDone, s)
    \<and> store_log [ddl_event (sample_header 100) ''b.1'' ''db'' ''BEGIN'' None] (instance_store (bs_instance s))"
proof -
  have out: "emitted sample_floats sample_stream event_converter_new ''b.1'' None
      = [Inr (ddl_event (sample_header 100) ''b.1'' ''db'' ''BEGIN'' None), Inl (table_not_found 9)]"
    by (simp add: sample_stream_def event_output_def next_file_def next_gtid_def next_converter_def
        row_output_def handle_row_event_def event_converter_new_def table_map_new_def table_map_get_def)
  have "store_log [] (instance_store empty_instance)" "ci_running empty_instance"
    using mem_store_new_log [of 2] by (simp_all add: empty_instance_def instance_store_def mem_store_new_def)
  moreover have "sorted (stream_keys sample_stream ''b.1'')"
    by (simp add: sample_stream_def next_file_def sample_header_def binlog_suffix_sample carries_data_def)
  ultimately show ?thesis
    using binlog_to_store [of empty_instance sample_stream "''b.1''"
        "[TimerTick, Received (Some (Inr (ddl_event (sample_header 100) ''b.1'' ''db'' ''BEGIN'' None))),
        TimerTick, Received (Some (Inl (table_not_found 9)))]" sample_floats True]
    by (auto simp: replication_channel out channel_items_def List.map_filter_simps ok_events_def
        empty_instance_def filter_passes_def event_filter_matches_def Let_def simp del: batch_loop.simps)
qed

section \<open>From the store to the consumer\<close>

text \<open>
  The wire format reads back the entry of an event: the entry's bytes, and in it the row change's,
  which are not empty.
\<close>

definition wire_readable :: "prost \<Rightarrow> canal_event \<Rightarrow> bool" where
  "wire_readable pb e \<longleftrightarrow>
     (\<forall>x. canal_event_to_entry pb e = Inr x \<longrightarrow> dec_entry pb (enc_entry pb x) = Inr x)
     \<and> (\<forall>code. proto_event_code (ev_entry_type e) = Inr code \<longrightarrow>
          dec_proto_row_change pb (enc_proto_row_change pb (entry_row_change e code))
            = Inr (entry_row_change e code)
          \<and> enc_proto_row_change pb (entry_row_change e code) \<noteq> [])"

text \<open>What the client makes of an event: its image on the wire, with the encoded row change.\<close>

definition consumed :: "prost \<Rightarrow> canal_event \<Rightarrow> canal_event" where
  "consumed pb e = wire_event (en_store_value (projr (canal_event_to_entry pb e))) e"

lemma entry_bytes_consumed:
  assumes "wire_readable pb e" and "encodable e"
  shows "entry_bytes_to_event pb (entry_bytes pb e) = Inr (consumed pb e)"
proof -
  have "case canal_event_to_entry pb e of
      Inl err \<Rightarrow> \<exists>v. ev_entry_type e = EtUnknown v \<and> err = unknown_event_error v
    | Inr x \<Rightarrow> (\<forall>v. ev_entry_type e \<noteq> EtUnknown v)
        \<and> entry_bytes_to_event pb (enc_entry pb x) = Inr (wire_event (en_store_value x) e)"
    using assms(1) by (intro entry_bytes_roundtrip) (simp_all add: wire_readable_def)
  with assms(2) show ?thesis
    by (auto simp: encodable_def entry_bytes_def consumed_def split: sum.splits)
qed

text \<open>The batches under consecutive ids as the messages that carry them.\<close>

fun batch_messages ::
    "prost \<Rightarrow> (canal_event \<Rightarrow> bool) \<Rightarrow> i64 \<Rightarrow> canal_event list list \<Rightarrow> messages list" where
  "batch_messages pb passes i [] = []"
| "batch_messages pb passes i (g # gs) =
     \<lparr>mg_batch_id = i, mg_messages = map (entry_bytes pb) (filter passes g)\<rparr> # batch_messages pb passes (i + 1) gs"

lemma batch_messages_entries:
  "concat (map mg_messages (batch_messages pb passes i gs)) = map (entry_bytes pb) (filter passes (concat gs))"
  by (induction pb passes i gs rule: batch_messages.induct) simp_all

lemma batch_messages_ids:
  "map mg_batch_id (batch_messages pb passes i gs) = map (\<lambda>j. i + of_nat j) [0..<length gs]"
proof (induction pb passes i gs rule: batch_messages.induct)
  case (2 pb passes i g gs)
  have "map (\<lambda>j. i + of_nat j) [0..<length (g # gs)] = i # map (\<lambda>j. (i + 1) + of_nat j) [0..<length gs]"
    by (simp add: map_upt_Suc add.assoc del: upt_Suc)
  with 2 show ?case by simp
qed simp

text \<open>
  What the batches rely on of the wire format: a packet and the messages in it are decoded as they
  were encoded, and the encoding of a packet that has a type is not empty.
\<close>

definition batches_readable :: "prost \<Rightarrow> bool" where
  "batches_readable pb \<longleftrightarrow>
     (\<forall>q. dec_packet pb (enc_packet pb q) = Inr q)
     \<and> (\<forall>m. dec_messages pb (enc_messages pb m) = Inr m)
     \<and> (\<forall>q. pk_type q \<noteq> 0 \<longrightarrow> enc_packet pb q \<noteq> [])"

lemma carries_messages_frame:
  assumes "batches_readable pb" and "length (messages_frame pb i ms) \<le> max_packet_size"
  shows "carries pb (messages_frame pb i ms) \<lparr>mg_batch_id = i, mg_messages = ms\<rparr>"
proof -
  have "packet_type_i32 PtMessages \<noteq> 0"
    by code_simp
  then show ?thesis
    using assms by (simp add: carries_def batches_readable_def messages_frame_def packet_frame_def)
qed

lemma batch_frames_carry:
  assumes "batches_readable pb" and "\<forall>b \<in> set (batch_frames pb passes i gs). length b \<le> max_packet_size"
  shows "list_all2 (carries pb) (batch_frames pb passes i gs) (batch_messages pb passes i gs)"
  using assms
  by (induction pb passes i gs rule: batch_messages.induct)
    (simp_all add: batch_frame_def carries_messages_frame)

lemma batch_messages_carried:
  assumes "batches_readable pb"
    and "frames = batch_frames pb passes i gs @ replicate k (messages_frame pb 0 [])"
    and "\<And>b. b \<in> set frames \<Longrightarrow> length b \<le> max_packet_size"
    and "tcp_in (po_stream t) = concat (map codec_frame frames)"
    and "tcp_writes (po_stream t) = None" and "po_consumer t = None"
    and "\<And>e. e \<in> set (filter passes (concat gs)) \<Longrightarrow> wire_readable pb e \<and> encodable e"
  shows "po_out (poll_loop pb d cid t)
      = po_out t @ map (\<lambda>e. Inr (consumed pb e)) (filter passes (concat gs))
    \<and> tcp_out (po_stream (poll_loop pb d cid t)) = tcp_out (po_stream t)
      @ concat (map (\<lambda>j. get_frame pb d cid @ ack_frame pb d cid j)
          (map (\<lambda>j. i + of_nat j) [0..<length gs] @ replicate k 0))
      @ get_frame pb d cid"
proof -
  let ?ms = "batch_messages pb passes i gs @ replicate k \<lparr>mg_batch_id = 0, mg_messages = []\<rparr>"
  have "list_all2 (carries pb) (batch_frames pb passes i gs) (batch_messages pb passes i gs)"
    by (rule batch_frames_carry [OF assms(1)]) (use assms(2,3) in auto)
  moreover have "list_all2 (carries pb) (replicate k (messages_frame pb 0 []))
      (replicate k \<lparr>mg_batch_id = 0, mg_messages = []\<rparr>)"
    using carries_messages_frame [OF assms(1), of 0 "[]"] assms(2,3)
    by (cases "k = 0") (auto simp: list_all2_conv_all_nth)
  ultimately have "list_all2 (carries pb) frames ?ms"
    unfolding assms(2) by (rule list_all2_appendI)
  note loop = poll_loop_batches [OF this assms(4-6), of d cid]
  have ids: "concat (map (\<lambda>m. get_frame pb d cid @ ack_frame pb d cid (mg_batch_id m)) ?ms)
      = concat (map (\<lambda>j. get_frame pb d cid @ ack_frame pb d cid j)
          (map (\<lambda>j. i + of_nat j) [0..<length gs] @ replicate k 0))"
    by (simp flip: batch_messages_ids [of pb passes i gs] add: comp_def)
  have "concat (map (\<lambda>m. map (entry_bytes_to_event pb) (mg_messages m)) ?ms)
      = map (entry_bytes_to_event pb) (concat (map mg_messages ?ms))"
    by (simp add: map_concat comp_def)
  also have "concat (map mg_messages ?ms) = map (entry_bytes pb) (filter passes (concat gs))"
    by (simp add: batch_messages_entries)
  also have "map (entry_bytes_to_event pb) (map (entry_bytes pb) (filter passes (concat gs)))
      = map (entry_bytes_to_event pb \<circ> entry_bytes pb) (filter passes (concat gs))"
    by (simp only: map_map)
  also have "\<dots> = map (\<lambda>e. Inr (consumed pb e)) (filter passes (concat gs))"
    using assms(7) entry_bytes_consumed by (intro map_cong refl) (simp add: comp_def)
  finally show ?thesis
    using loop ids by simp
qed

lemma log_consumer:
  assumes "subscribed h cid passes p c"
    and "sent (get_rounds k pb (get_packet pb d cid) (ack_packet pb d cid) c) = sent c @ frames"
    and "dec_get_request pb (pk_body (get_packet pb d cid)) = Inr (get_request_default
      \<lparr>gt_destination := d, gt_client_id := cid, gt_fetch_size := 100\<rparr>)"
    and "\<And>i. dec_client_ack pb (pk_body (ack_packet pb d cid i))
      = Inr \<lparr>cl_destination = d, cl_client_id = cid, cl_batch_id = i\<rparr>"
    and "\<And>e. e \<in> set h \<Longrightarrow> encodable e"
    and "\<And>e. e \<in> set (filter passes (after p h)) \<Longrightarrow> wire_readable pb e"
    and "length (after p h) \<le> k" and "gs = groups 100 (after p h)"
    and "batches_readable pb" and "\<And>b. b \<in> set frames \<Longrightarrow> length b \<le> max_packet_size"
    and "tcp_in (po_stream t) = concat (map codec_frame frames)"
    and "tcp_writes (po_stream t) = None" and "po_consumer t = None"
  shows "po_out (poll_loop pb d cid t) = po_out t @ map (\<lambda>e. Inr (consumed pb e)) (filter passes (after p h))
    \<and> tcp_out (po_stream (poll_loop pb d cid t)) = tcp_out (po_stream t)
      @ concat (map (\<lambda>j. get_frame pb d cid @ ack_frame pb d cid j)
          (map (\<lambda>j. ms_batch_id_seq (cx_store c) + of_nat j) [0..<length gs] @ replicate (k - length gs) 0))
      @ get_frame pb d cid"
proof -
  have size: "get_batch_size (gt_fetch_size (get_request_default
      \<lparr>gt_destination := d, gt_client_id := cid, gt_fetch_size := 100\<rparr>)) = 100"
    by (simp add: get_batch_size_def max_fetch_size_def)
  have ack: "\<exists>a. dec_client_ack pb (pk_body (ack_packet pb d cid i)) = Inr a \<and> cl_batch_id a = i" for i
    using assms(4) by simp
  have frames: "frames = batch_frames pb passes (ms_batch_id_seq (cx_store c)) gs
      @ replicate (k - length gs) (messages_frame pb 0 [])"
    using get_rounds_frames [OF assms(1,3) ack _ assms(7) refl] assms(2,5) unfolding size
    by (simp add: assms(8))
  have gs: "concat gs = after p h"
    by (simp add: assms(8) concat_groups)
  have "set (after p h) \<subseteq> set h"
    by (auto simp: after_def)
  then have "e \<in> set (filter passes (concat gs)) \<Longrightarrow> wire_readable pb e \<and> encodable e" for e
    using assms(5,6) by (auto simp: gs)
  then show ?thesis
    using batch_messages_carried [OF assms(9) frames assms(10-13), of d cid]
    by (simp only: gs)
qed

text \<open>C13: From the log to the consumer. A subscribed connection that has lost nothing is asked by the
  client's own \<open>Get\<close> and \<open>ClientAck\<close> packets, at least once per event of the log after its
  cursor; the client reads from its socket the frames that the server has written, whatever they are,
  each at most 8 MB. Nothing is assumed of these frames but that size: the wire format decodes
  packets, messages, requests and entries as they were encoded. Then its consumer is handed the
  events of the log after the cursor that the session's filter passes, each once, in order and
  without an error, with exactly the losses of the wire format; and what the client writes is one
  \<open>Get\<close> per frame, each batch acknowledged under the id that the server gave it.\<close>

theorem log_to_consumer:
  assumes "subscribed h cid passes p c"
    and "sent (get_rounds k pb (get_packet pb d cid) (ack_packet pb d cid) c) = sent c @ frames"
    and "dec_get_request pb (pk_body (get_packet pb d cid)) = Inr (get_request_default
      \<lparr>gt_destination := d, gt_client_id := cid, gt_fetch_size := 100\<rparr>)"
    and "\<And>i. dec_client_ack pb (pk_body (ack_packet pb d cid i))
      = Inr \<lparr>cl_destination = d, cl_client_id = cid, cl_batch_id = i\<rparr>"
    and "\<And>e. e \<in> set h \<Longrightarrow> encodable e"
    and "\<And>e. e \<in> set (filter passes (after p h)) \<Longrightarrow> wire_readable pb e"
    and "length (after p h) \<le> k" and "gs = groups 100 (after p h)"
    and "batches_readable pb" and "\<And>b. b \<in> set frames \<Longrightarrow> length b \<le> max_packet_size"
    and "tcp_in (po_stream t) = concat (map codec_frame frames)"
    and "tcp_writes (po_stream t) = None" and "po_consumer t = None"
  shows "po_out (poll_loop pb d cid t) = po_out t @ map (\<lambda>e. Inr (consumed pb e)) (filter passes (after p h))
    \<and> tcp_out (po_stream (poll_loop pb d cid t)) = tcp_out (po_stream t)
      @ concat (map (\<lambda>j. get_frame pb d cid @ ack_frame pb d cid j)
          (map (\<lambda>j. ms_batch_id_seq (cx_store c) + of_nat j) [0..<length gs] @ replicate (k - length gs) 0))
      @ get_frame pb d cid"
  using assms by (rule log_consumer)

text \<open>
  A wire format for one \<open>Get\<close>. A packet is its fixed-width fields followed by its body; messages are
  the batch id in unary and the entries, each byte under a mark and each entry up to an end mark; an
  acknowledgement of batch \<open>j\<close> is \<open>j\<close> bytes long; the one entry is the event \<open>e\<close>.
\<close>

definition plain_option :: "i32 option \<Rightarrow> bytes" where
  "plain_option x = (case x of None \<Rightarrow> 0 # u32_to_be_bytes 0 | Some v \<Rightarrow> 1 # u32_to_be_bytes v)"

definition read_option :: "bytes \<Rightarrow> i32 option" where
  "read_option b = (if hd b = 0 then None else Some (u32_from_be_bytes (tl b)))"

definition plain_packet :: "packet \<Rightarrow> bytes" where
  "plain_packet q =
     u32_to_be_bytes (pk_type q)
     @ plain_option (map_option (\<lambda>x. case x of MagicNumber v \<Rightarrow> v) (pk_magic_number_present q))
     @ plain_option (map_option (\<lambda>x. case x of PacketVersion v \<Rightarrow> v) (pk_version_present q))
     @ plain_option (map_option (\<lambda>x. case x of CompressionField v \<Rightarrow> v) (pk_compression_present q))
     @ pk_body q"

definition read_packet_bytes :: "bytes \<Rightarrow> packet" where
  "read_packet_bytes b =
     \<lparr>pk_type = u32_from_be_bytes (take 4 b), pk_body = drop 19 b,
      pk_magic_number_present = map_option MagicNumber (read_option (take 5 (drop 4 b))),
      pk_version_present = map_option PacketVersion (read_option (take 5 (drop 9 b))),
      pk_compression_present = map_option CompressionField (read_option (take 5 (drop 14 b)))\<rparr>"

definition plain_entry :: "bytes \<Rightarrow> bytes" where
  "plain_entry e = concat (map (\<lambda>b. [1, b]) e) @ [0]"

fun read_entries :: "bytes \<Rightarrow> bytes list" where
  "read_entries (m # b # bs) =
     (if m = 0 then [] # read_entries (b # bs)
      else case read_entries bs of [] \<Rightarrow> [[b]] | e # es \<Rightarrow> (b # e) # es)"
| "read_entries [m] = [[]]"
| "read_entries [] = []"

definition plain_messages :: "messages \<Rightarrow> bytes" where
  "plain_messages m = replicate (unat (mg_batch_id m)) 0 @ [1] @ concat (map plain_entry (mg_messages m))"

definition read_messages :: "bytes \<Rightarrow> messages" where
  "read_messages b =
     \<lparr>mg_batch_id = of_nat (length (takeWhile (\<lambda>x. x = 0) b)),
      mg_messages = read_entries (tl (dropWhile (\<lambda>x. x = 0) b))\<rparr>"

lemma length_plain_option [simp]: "length (plain_option x) = 5"
  by (cases x) (simp_all add: plain_option_def)

lemma read_plain_option [simp]: "read_option (plain_option x) = x"
  by (cases x) (simp_all add: plain_option_def read_option_def)

lemma read_plain_packet: "read_packet_bytes (plain_packet q) = q"
proof -
  have [simp]: "map_option MagicNumber (map_option (\<lambda>x. case x of MagicNumber v \<Rightarrow> v) a) = a"
    "map_option PacketVersion (map_option (\<lambda>x. case x of PacketVersion v \<Rightarrow> v) b) = b"
    "map_option CompressionField (map_option (\<lambda>x. case x of CompressionField v \<Rightarrow> v) c) = c" for a b c
    by (cases a, simp, simp split: magic_number_present.split)
      (cases b, simp, simp split: packet_version_present.split,
       cases c, simp, simp split: compression_present.split)
  show ?thesis
    by (cases q) (simp add: read_packet_bytes_def plain_packet_def)
qed

lemma read_plain_entry: "read_entries (plain_entry e @ bs) = e # read_entries bs"
proof (induction e)
  case Nil
  then show ?case by (cases bs) (simp_all add: plain_entry_def)
qed (simp add: plain_entry_def)

lemma read_plain_messages: "read_messages (plain_messages m) = m"
proof -
  have "read_entries (concat (map plain_entry es)) = es" for es
    by (induction es) (simp_all add: read_plain_entry)
  moreover have "takeWhile (\<lambda>x. x = 0) (replicate n 0 @ (1 :: u8) # xs) = replicate n 0"
    "dropWhile (\<lambda>x. x = 0) (replicate n 0 @ (1 :: u8) # xs) = 1 # xs" for n xs
    by (induction n) simp_all
  ultimately show ?thesis
    by (cases m) (simp add: read_messages_def plain_messages_def)
qed

definition event_code :: "canal_event \<Rightarrow> i32" where
  "event_code e = (case proto_event_code (ev_entry_type e) of Inr code \<Rightarrow> code | Inl _ \<Rightarrow> 0)"

definition carrying_prost :: "canal_event \<Rightarrow> prost" where
  "carrying_prost e =
     (let pb = const_prost entry_default (entry_row_change e 0);
          x = projr (canal_event_to_entry pb e)
      in (const_prost x (entry_row_change e (event_code e)))
        \<lparr>enc_packet := plain_packet, dec_packet := \<lambda>b. Inr (read_packet_bytes b),
         enc_messages := plain_messages, dec_messages := \<lambda>b. Inr (read_messages b),
         dec_get_request := \<lambda>_. Inr (get_request_default
           \<lparr>gt_destination := ''d'', gt_client_id := ''c1'', gt_fetch_size := 100\<rparr>),
         enc_client_ack := \<lambda>a. replicate (unat (cl_batch_id a)) 0,
         dec_client_ack := \<lambda>b. Inr \<lparr>cl_destination = ''d'', cl_client_id = ''c1'', cl_batch_id = of_nat (length b)\<rparr>\<rparr>)"

lemma carrying_readable: "batches_readable (carrying_prost e)"
  by (simp add: batches_readable_def carrying_prost_def Let_def read_plain_packet read_plain_messages)
    (simp add: plain_packet_def u32_to_be_bytes_def)

lemma carrying_entry:
  assumes "encodable e"
  shows "wire_readable (carrying_prost e) e" and "entry_bytes (carrying_prost e) e = [1]"
proof -
  obtain code where "proto_event_code (ev_entry_type e) = Inr code"
    using assms by (cases "ev_entry_type e") (auto simp: encodable_def proto_event_code_def)
  then show "wire_readable (carrying_prost e) e" "entry_bytes (carrying_prost e) e = [1]"
    by (simp_all add: carrying_prost_def const_prost_def wire_readable_def entry_bytes_def
        canal_event_to_entry_def event_code_def Let_def)
qed

lemma carrying_requests:
  "dec_get_request (carrying_prost e) (pk_body (get_packet (carrying_prost e) ''d'' ''c1'')) = Inr
     (get_request_default\<lparr>gt_destination := ''d'', gt_client_id := ''c1'', gt_fetch_size := 100\<rparr>)"
  "dec_client_ack (carrying_prost e) (pk_body (ack_packet (carrying_prost e) ''d'' ''c1'' j))
    = Inr \<lparr>cl_destination = ''d'', cl_client_id = ''c1'', cl_batch_id = j\<rparr>"
  by (simp_all add: carrying_prost_def ack_packet_def Let_def)

text \<open>One request of a client that has one event to read, which its filter passes.\<close>

lemma carrying_round:
  assumes "subscribed h ''c1'' passes p c" and "after p h = [e]" and "passes e"
    and "\<And>x. x \<in> set h \<Longrightarrow> encodable x" and "ms_batch_id_seq (cx_store c) = i" and "pb = carrying_prost e"
  shows "sent (get_rounds 1 pb (get_packet pb ''d'' ''c1'') (ack_packet pb ''d'' ''c1'') c)
      = sent c @ [messages_frame pb i [[1]]]"
    and "groups 100 [e] = [[e]]"
    and "length (messages_frame pb i [[1]]) = unat i + 23"
proof -
  show g: "groups 100 [e] = [[e]]"
    by (simp add: groups.simps next_group_def)
  have "encodable e"
    using assms(2,4) by (metis after_def filter_is_subset list.set_intros(1) subsetD)
  then have frame: "batch_frame pb passes i [e] = messages_frame pb i [[1]]"
    using assms(3) by (simp add: assms(6) batch_frame_def carrying_entry)
  have ack: "\<exists>a. dec_client_ack pb (pk_body (ack_packet pb ''d'' ''c1'' j)) = Inr a \<and> cl_batch_id a = j" for j
    by (simp add: assms(6) carrying_requests)
  show "sent (get_rounds 1 pb (get_packet pb ''d'' ''c1'') (ack_packet pb ''d'' ''c1'') c)
      = sent c @ [messages_frame pb i [[1]]]"
    using get_rounds_frames [OF assms(1) carrying_requests(1) [of e, folded assms(6)] ack assms(4), of 1] assms(2,5) g
    by (simp add: get_batch_size_def max_fetch_size_def frame)
  show "length (messages_frame pb i [[1]]) = unat i + 23"
    by (simp add: assms(6) messages_frame_def packet_frame_def carrying_prost_def plain_packet_def
        plain_messages_def plain_entry_def packet_default_def Let_def)
qed

definition cursor_ctx :: ctx where
  "cursor_ctx = sub_ctx\<lparr>cx_state := (cx_state sub_ctx)\<lparr>st_current_pos := Some (log_position_new ''b.1'' 2)\<rparr>\<rparr>"

lemma log_to_consumer_witness:
  "po_out (poll_loop (carrying_prost (sample_event ''b.1'' 3)) ''d'' ''c1'' (sample_task None
        (codec_frame (messages_frame (carrying_prost (sample_event ''b.1'' 3)) 7 [[1]]))))
    = [Inr (consumed (carrying_prost (sample_event ''b.1'' 3)) (sample_event ''b.1'' 3))]"
proof -
  let ?passes = "session_passes (sessions_get (cx_sessions sub_ctx) ''c1'')" and ?p = "log_position_new ''b.1'' 2"
  let ?e = "sample_event ''b.1'' 3"
  let ?pb = "carrying_prost ?e"
  let ?t = "sample_task None (codec_frame (messages_frame ?pb 7 [[1]]))"
  have pass: "?passes ?e"
    by (simp add: sub_ctx_def server_simps client_session_new_def session_passes_def result_ok_def
        literal_engine_def sample_event_def ev_full_name_def Let_def)
  have a: "after ?p sample_log = [?e]"
    by simp
  have s: "subscribed sample_log ''c1'' ?passes ?p cursor_ctx"
    using sub_ctx_simps(5) by (simp add: subscribed_def sample_store_log cursor_ctx_def)
  have seq: "ms_batch_id_seq (cx_store cursor_ctx) = 7"
    by (simp add: cursor_ctx_def sub_ctx_def sample_ctx_def sample_store_def)
  note round = carrying_round [OF s a pass sample_log_encodable seq refl]
  have readable: "e \<in> set (filter ?passes (after ?p sample_log)) \<Longrightarrow> wire_readable ?pb e" for e
    using carrying_entry(1) [of ?e] by (simp add: a encodable_def sample_event_def split: if_splits)
  have small: "b \<in> set [messages_frame ?pb 7 [[1]]] \<Longrightarrow> length b \<le> max_packet_size" for b
    using round(3) by (simp add: max_packet_size_def)
  have "length (after ?p sample_log) \<le> 1" "[[?e]] = groups 100 (after ?p sample_log)"
    by (simp only: a, simp) (simp only: a round(2))
  note out = log_to_consumer [OF s round(1) carrying_requests sample_log_encodable readable this
      carrying_readable small, of ?t]
  have "po_out (poll_loop ?pb ''d'' ''c1'' ?t)
    = po_out ?t @ map (\<lambda>e. Inr (consumed ?pb e)) (filter ?passes (after ?p sample_log))"
    by (rule conjunct1 [OF out]) (simp_all add: sample_task_def)
  then show ?thesis
    by (simp add: a pass sample_task_def)
qed

section \<open>From the binlog to the consumer\<close>

text \<open>The connection of an authenticated client with cursor \<open>p\<close>, of which nothing has been dropped.\<close>

definition reads_from :: "string \<Rightarrow> (canal_event \<Rightarrow> bool) \<Rightarrow> log_position \<Rightarrow> ctx \<Rightarrow> bool" where
  "reads_from cid passes p c \<longleftrightarrow>
     st_client_id (cx_state c) = Some cid \<and> st_current_pos (cx_state c) = Some p \<and> lp_timestamp p = None
     \<and> \<not> cursor_lost (cx_store c) p \<and> sessions_get (cx_sessions c) cid \<noteq> None
     \<and> session_passes (sessions_get (cx_sessions c) cid) = passes \<and> tr_budget (cx_transport c) = None"

text \<open>The event as the client rebuilds it when the wire format keeps everything: the raw bytes are
  those of its row change.\<close>

definition delivered :: "prost \<Rightarrow> canal_event \<Rightarrow> canal_event" where
  "delivered pb e = e\<lparr>ev_raw_bytes := en_store_value (projr (canal_event_to_entry pb e))\<rparr>"

lemma emitted_typed:
  assumes "Inr e \<in> set (emitted fd items event_converter_new start None)"
    and "list_all (\<lambda>(hdr, event). cells_present event) items"
  shows "encodable e \<and> consumed pb e = delivered pb e"
proof -
  have "channel_typed (rp_channel (snd (run_replication fd None (decoded items) start \<lparr>ch_sent = [], ch_room = None\<rparr>)))"
    by (rule run_replication_typed) simp
  then have typed: "well_typed e"
    using assms(1) by (simp add: channel_typed_def replication_channel)
  moreover have "event_filled e"
    using emitted_filled [OF assms(2) _ assms(1)] by simp
  moreover have "encodable e"
    using well_typed_converts [OF typed, of pb]
    by (auto simp: encodable_def canal_event_to_entry_def proto_event_code_def split: event_type.splits)
  ultimately show ?thesis
    by (simp add: consumed_def delivered_def well_typed_wire)
qed

text \<open>C1: The whole system. MySQL's binlog, with its statements and rows in the order of file and
  position and no row without cells, is replicated to the event channel; the binlog task batches what
  it receives, with the flush timer going off whenever it does, and feeds a running instance whose
  store is empty; a client whose filter passes \<open>passes\<close> and that has lost nothing polls the server
  from its cursor \<open>p\<close>, at least once per event, over the library's own packets. Then nothing panics,
  and the consumer is handed exactly the events that the binlog denotes, the instance's filter passes,
  that lie after the cursor and that the client's filter passes: each once, in binlog order, without
  an error, and field by field the event that replication emitted, up to its raw bytes. Of the frames
  that the client reads nothing is assumed but that the server has written them and that each is at
  most 8 MB; the wire format decodes packets, messages, requests and entries as they were encoded.\<close>

theorem binlog_to_consumer:
  assumes "store_log [] (instance_store i)" and "ci_running i" and "sorted (stream_keys items start)"
    and "list_all (\<lambda>(hdr, event). cells_present event) items"
    and "channel_items evs = ch_sent (rp_channel (snd
      (run_replication fd None (decoded items) start \<lparr>ch_sent = [], ch_room = None\<rparr>)))"
    and "Received None \<notin> set evs" and "Command False \<notin> set evs"
    and "batch_loop debug (evs @ [TimerTick]) (batch_start i) = (status, s)"
    and "cx_store c = instance_store (bs_instance s)" and "reads_from cid passes p c"
    and "es = after p (passing i (ok_events (emitted fd items event_converter_new start None)))"
    and "length es \<le> k"
    and "sent (get_rounds k pb (get_packet pb d cid) (ack_packet pb d cid) c) = sent c @ frames"
    and "dec_get_request pb (pk_body (get_packet pb d cid)) = Inr (get_request_default
      \<lparr>gt_destination := d, gt_client_id := cid, gt_fetch_size := 100\<rparr>)"
    and "\<And>i. dec_client_ack pb (pk_body (ack_packet pb d cid i))
      = Inr \<lparr>cl_destination = d, cl_client_id = cid, cl_batch_id = i\<rparr>"
    and "\<And>e. e \<in> set (filter passes es) \<Longrightarrow> wire_readable pb e"
    and "batches_readable pb" and "\<And>b. b \<in> set frames \<Longrightarrow> length b \<le> max_packet_size"
    and "tcp_in (po_stream t) = concat (map codec_frame frames)"
    and "tcp_writes (po_stream t) = None" and "po_consumer t = None"
  shows "status = TaskRunning
    \<and> po_out (poll_loop pb d cid t) = po_out t @ map (\<lambda>e. Inr (delivered pb e)) (filter passes es)"
proof -
  let ?evs = "ok_events (emitted fd items event_converter_new start None)"
  have store: "status = TaskRunning" "store_log (passing i ?evs) (instance_store (bs_instance s))"
    using binlog_log [OF assms(1-3,5-7), of debug] assms(8) by auto
  have typed: "encodable e \<and> consumed pb e = delivered pb e" if "e \<in> set (passing i ?evs)" for e
    using emitted_typed [OF _ assms(4), of e fd start pb] that by auto
  have sub: "subscribed (passing i ?evs) cid passes p c"
    using store(2) assms(9,10) by (simp add: subscribed_def reads_from_def)
  have "po_out (poll_loop pb d cid t) = po_out t @ map (\<lambda>e. Inr (consumed pb e)) (filter passes es)"
    unfolding assms(11)
    using log_consumer [OF sub assms(13-15) _ _ _ refl assms(17,18) assms(19-21)] typed assms(12,16)
    unfolding assms(11) by blast
  moreover have "map (\<lambda>e. Inr (consumed pb e)) (filter passes es)
      = (map (\<lambda>e. Inr (delivered pb e)) (filter passes es) :: canal_event canal_result list)"
    using typed assms(11) by (auto simp: after_def)
  ultimately show ?thesis
    using store(1) by simp
qed

definition begin_event :: canal_event where
  "begin_event = ddl_event (sample_header 100) ''b.1'' ''db'' ''BEGIN'' None"

definition sample_schedule :: "select_event list" where
  "sample_schedule = [TimerTick, Received (Some (Inr begin_event)), TimerTick, Received (Some (Inl (table_not_found 9)))]"

lemma sample_schedule_store:
  "\<exists>s. batch_loop True (sample_schedule @ [TimerTick]) (batch_start empty_instance) = (TaskRunning, s)
    \<and> ms_evicted_watermark (instance_store (bs_instance s)) = None \<and> ms_batch_id_seq (instance_store (bs_instance s)) = 1"
  by (simp add: sample_schedule_def batch_step_def feed_batch_def feed_def sink_def batch_start_def empty_instance_def
     mem_store_new_def max_batch_def inc_parsed_def put_batch_def put_evict_def put_truncate_def bump_watermark_def
     feed_in_order_def instance_store_def filter_passes_def event_filter_matches_def sink_new_def sink_with_metrics_def metrics_new_def Let_def begin_event_def)

lemma binlog_to_consumer_witness:
  "po_out (poll_loop (carrying_prost begin_event) ''d'' ''c1'' (sample_task None
        (codec_frame (messages_frame (carrying_prost begin_event) 1 [[1]]))))
    = [Inr (delivered (carrying_prost begin_event) begin_event)]"
proof -
  let ?pb = "carrying_prost begin_event"
  let ?t = "sample_task None (codec_frame (messages_frame ?pb 1 [[1]]))" and ?p = "log_position_new ''b.1'' 4"
  obtain s where s: "batch_loop True (sample_schedule @ [TimerTick]) (batch_start empty_instance) = (TaskRunning, s)"
    "ms_evicted_watermark (instance_store (bs_instance s)) = None"
    "ms_batch_id_seq (instance_store (bs_instance s)) = 1"
    using sample_schedule_store by blast
  define c where "c = sub_ctx\<lparr>cx_store := instance_store (bs_instance s),
    cx_state := (cx_state sub_ctx)\<lparr>st_current_pos := Some ?p\<rparr>,
    cx_sessions := sessions_register literal_engine 0 ''c1'' ''d'' \<lparr>fp_pattern = ''db.'', fp_black_list = ''''\<rparr> Map.empty\<rparr>"
  define passes where "passes = session_passes (sessions_get (cx_sessions c) ''c1'')"
  have pass: "passes begin_event"
    by (simp add: passes_def c_def server_simps client_session_new_def session_passes_def result_ok_def
        literal_engine_def begin_event_def ddl_event_def ev_full_name_def Let_def)
  have reads: "reads_from ''c1'' passes ?p c"
    using s(2) by (simp add: reads_from_def passes_def c_def cursor_lost_def server_simps)
  have out: "emitted sample_floats sample_stream event_converter_new ''b.1'' None
      = [Inr begin_event, Inl (table_not_found 9)]"
    by (simp add: begin_event_def sample_stream_def event_output_def next_file_def next_gtid_def next_converter_def
        row_output_def handle_row_event_def event_converter_new_def table_map_new_def table_map_get_def)
  have log: "passing empty_instance (ok_events (emitted sample_floats sample_stream event_converter_new ''b.1'' None))
      = [begin_event]"
    by (simp add: out ok_events_def empty_instance_def sink_new_def sink_with_metrics_def filter_passes_def
        event_filter_matches_def Let_def)
  have a: "after ?p [begin_event] = [begin_event]"
    by (simp add: after_def begin_event_def ddl_event_def ev_key_def lp_key_new sample_header_def)
  have start: "store_log [] (instance_store empty_instance)" "ci_running empty_instance"
    using mem_store_new_log [of 2] by (simp_all add: empty_instance_def instance_store_def mem_store_new_def)
  have sorted: "sorted (stream_keys sample_stream ''b.1'')"
    by (simp add: sample_stream_def next_file_def sample_header_def binlog_suffix_sample carries_data_def)
  have cells: "list_all (\<lambda>(hdr, event). cells_present event) sample_stream"
    by (simp add: sample_stream_def cells_present_def)
  have chan: "channel_items sample_schedule = ch_sent (rp_channel (snd (run_replication sample_floats None
      (decoded sample_stream) ''b.1'' \<lparr>ch_sent = [], ch_room = None\<rparr>)))"
    by (simp add: replication_channel out channel_items_def sample_schedule_def List.map_filter_simps)
  have ends: "Received None \<notin> set sample_schedule" "Command False \<notin> set sample_schedule"
    by (simp_all add: sample_schedule_def)
  have store: "cx_store c = instance_store (bs_instance s)"
    by (simp add: c_def)
  have pre: "store_log [begin_event] (cx_store c)"
    using binlog_log [OF start sorted chan ends, of True] s(1) by (simp add: log store)
  have es: "[begin_event] = after ?p (passing empty_instance
      (ok_events (emitted sample_floats sample_stream event_converter_new ''b.1'' None)))"
    by (simp only: log a)
  have enc: "x \<in> set [begin_event] \<Longrightarrow> encodable x" for x
    by (simp add: begin_event_def ddl_event_def encodable_def)
  have sub: "subscribed [begin_event] ''c1'' passes ?p c"
    using pre reads by (simp add: subscribed_def reads_from_def)
  have seq: "ms_batch_id_seq (cx_store c) = 1"
    using s(3) by (simp add: c_def)
  note round = carrying_round [OF sub a pass enc seq refl]
  have readable: "x \<in> set (filter passes [begin_event]) \<Longrightarrow> wire_readable ?pb x" for x
    using carrying_entry(1) [OF enc] by (simp split: if_splits)
  have small: "b \<in> set [messages_frame ?pb 1 [[1]]] \<Longrightarrow> length b \<le> max_packet_size" for b
    using round(3) by (simp add: max_packet_size_def)
  have "TaskRunning = TaskRunning \<and> po_out (poll_loop ?pb ''d'' ''c1'' ?t)
      = po_out ?t @ map (\<lambda>e. Inr (delivered ?pb e)) (filter passes [begin_event])"
    by (rule binlog_to_consumer [OF start sorted cells chan ends s(1) store reads es _ round(1) carrying_requests readable
          carrying_readable small])
      (simp_all add: sample_task_def)
  then show ?thesis
    by (simp add: pass sample_task_def)
qed

section \<open>The handshake of the client library\<close>

text \<open>The refusal that a client without a password gets from a server, empty if there is none.\<close>

definition handshake_refusal :: "regex_engine \<Rightarrow> string option \<Rightarrow> canal_client \<Rightarrow> string" where
  "handshake_refusal rx tok cl =
     (if is_some_and (\<lambda>t. t \<noteq> []) tok then ''authentication failed''
      else (case auth_filter rx (fp_pattern (cli_filter cl)) of Inl msg \<Rightarrow> msg | Inr _ \<Rightarrow> []))"

definition reply_frame :: "prost \<Rightarrow> string \<Rightarrow> bytes" where
  "reply_frame pb msg = (if msg = [] then ack_ok_frame pb else ack_err_frame pb msg)"

text \<open>The wire format reads back the acknowledgement with this message, from a frame of legal size.\<close>

definition ack_readable :: "prost \<Rightarrow> string \<Rightarrow> bool" where
  "ack_readable pb msg \<longleftrightarrow>
     (let b = reply_frame pb msg
      in b \<noteq> [] \<and> length b \<le> max_packet_size
        \<and> (case dec_packet pb b of
             Inl _ \<Rightarrow> False
           | Inr p \<Rightarrow> pk_type p = packet_type_i32 PtAck \<and> dec_ack pb (pk_body p) = Inr (if msg = []
               then ack_default else \<lparr>ak_error_message = msg, ak_error_code_present = Some (ErrorCode 1)\<rparr>)))"

definition sent_auth :: "canal_client \<Rightarrow> client_auth" where
  "sent_auth cl = client_auth_default\<lparr>ca_destination := cli_destination cl,
     ca_client_id := id_string cl, ca_filter := fp_pattern (cli_filter cl)\<rparr>"

lemma auth_filter_message: "auth_filter rx flt = Inl msg \<Longrightarrow> msg \<noteq> []"
  by (auto simp: auth_filter_def filter_too_long_def Let_def split: if_splits sum.splits)

lemma handshake_reply:
  assumes "dec_client_auth pb (pk_body packet) = Inr (sent_auth cl)"
    and "\<not> st_authenticated (cx_state c)" and "tr_budget (cx_transport c) = None"
    and "c' = snd (handle_auth pb rx tok now packet c)" and "msg = handshake_refusal rx tok cl"
  shows "sent c' = sent c @ [reply_frame pb msg] \<and> (st_authenticated (cx_state c') \<longleftrightarrow> msg = [])
    \<and> (msg = [] \<longrightarrow> st_client_id (cx_state c') = Some (id_string cl))"
proof -
  have bad: "is_some_and (bad_password (ca_password (sent_auth cl))) tok
      \<longleftrightarrow> is_some_and (\<lambda>t. t \<noteq> []) tok"
    by (cases tok) (auto simp: bad_password_iff sent_auth_def client_auth_default_def as_bytes_def)
  have sent_ok: "sent (snd (send_ack_ok pb d)) = sent d @ [ack_ok_frame pb]"
    and sent_err: "sent (snd (send_ack_err pb m d)) = sent d @ [ack_err_frame pb m]"
    if "tr_budget (cx_transport d) = None" for d m
    using that by (simp_all add: send_ack_ok_def send_ack_err_def ctx_send_def transport_send_def)
  have id: "ca_client_id (sent_auth cl) = id_string cl" "id_string cl \<noteq> []"
    by (simp_all add: sent_auth_def id_string_def)
  have flt: "ca_filter (sent_auth cl) = fp_pattern (cli_filter cl)"
    by (simp add: sent_auth_def)
  show ?thesis
  proof (cases "is_some_and (\<lambda>t. t \<noteq> []) tok")
    case True
    with assms bad show ?thesis
      by (simp add: handle_auth_def handshake_refusal_def reply_frame_def server_simps sent_err)
  next
    case False
    with assms bad id flt show ?thesis
      by (auto simp: handle_auth_def auth_accept_def handshake_refusal_def reply_frame_def Let_def
          server_simps sent_ok sent_err dest: auth_filter_message split: sum.splits)
  qed
qed

text \<open>C22: The handshake. A client that connects to a server's fresh connection, and reads the frames
  the server answers its \<open>ClientAuth\<close> with, ends connected exactly when the server has authenticated
  the connection, then under the client's own id; otherwise it reports the server's refusal. As the
  client has no password to send, a server with a token that is not empty always refuses it.\<close>

theorem handshake:
  assumes "dec_client_auth pb (pk_body (auth_packet pb cl)) = Inr (sent_auth cl)"
    and "\<not> st_authenticated (cx_state c)" and "tr_budget (cx_transport c) = None"
    and "c' = snd (handle_auth pb rx tok now (auth_packet pb cl) c)"
    and "ack_readable pb (handshake_refusal rx tok cl)"
    and "tcp_in s = concat (map codec_frame (drop (length (sent c)) (sent c')))" and "tcp_writes s = None"
  shows "case fst (client_connect pb (Inr s) cl) of
      Inr _ \<Rightarrow> \<not> is_some_and (\<lambda>t. t \<noteq> []) tok \<and> st_authenticated (cx_state c')
        \<and> st_client_id (cx_state c') = Some (id_string cl)
        \<and> cli_stream (snd (client_connect pb (Inr s) cl)) \<noteq> None
    | Inl e \<Rightarrow> e = AuthFailed (handshake_refusal rx tok cl) \<and> \<not> st_authenticated (cx_state c')"
proof -
  let ?msg = "handshake_refusal rx tok cl" and ?out = "codec_frame (enc_packet pb (auth_packet pb cl))"
  note reply = handshake_reply [OF assms(1-4) refl]
  have inp: "tcp_in s = codec_frame (reply_frame pb ?msg) @ []"
    using assms(6) reply by simp
  obtain p where p: "dec_packet pb (reply_frame pb ?msg) = Inr p" "pk_type p = packet_type_i32 PtAck"
    "reply_frame pb ?msg \<noteq> []" "length (reply_frame pb ?msg) \<le> max_packet_size"
    "dec_ack pb (pk_body p) = Inr (if ?msg = [] then ack_default
       else \<lparr>ak_error_message = ?msg, ak_error_code_present = Some (ErrorCode 1)\<rparr>)"
    using assms(5) by (auto simp: ack_readable_def Let_def split: sum.splits)
  have "read_packet pb (s\<lparr>tcp_out := tcp_out s @ ?out\<rparr>) = (Inr p, s\<lparr>tcp_out := tcp_out s @ ?out, tcp_in := []\<rparr>)"
    using read_packet_frame [OF _ p(3,4,1), of "s\<lparr>tcp_out := tcp_out s @ ?out\<rparr>" "[]"] inp by simp
  moreover have "send_packet pb (auth_packet pb cl) s = (Inr (), s\<lparr>tcp_out := tcp_out s @ ?out\<rparr>)"
    using assms(7) by (simp add: send_packet_frame write_all_def)
  ultimately have "client_connect pb (Inr s) cl = (if ?msg = []
      then (Inr (), cl\<lparr>cli_stream := Some (s\<lparr>tcp_out := tcp_out s @ ?out, tcp_in := []\<rparr>)\<rparr>)
      else (Inl (AuthFailed ?msg), cl))"
    using p(2,5) by (simp add: client_connect_def connect_handshake_def ack_default_def)
  moreover have "is_some_and (\<lambda>t. t \<noteq> []) tok \<Longrightarrow> ?msg \<noteq> []"
    by (simp add: handshake_refusal_def)
  ultimately show ?thesis
    using reply by (cases "?msg = []") auto
qed


text \<open>A wire format with one \<open>ClientAuth\<close>, and one acknowledgement that refuses the connection.\<close>

definition refusing_prost :: prost where
  "refusing_prost = null_prost
     \<lparr>enc_packet := \<lambda>_. [1], dec_packet := \<lambda>_. Inr (packet_default\<lparr>pk_type := packet_type_i32 PtAck\<rparr>),
      dec_client_auth := \<lambda>_. Inr (sent_auth (fst (canal_client_new ''h'' 11111 1001))),
      dec_ack := \<lambda>_. Inr \<lparr>ak_error_message = ''authentication failed'', ak_error_code_present = Some (ErrorCode 1)\<rparr>\<rparr>"

lemma handshake_witness:
  "fst (client_connect refusing_prost (Inr \<lparr>tcp_in = codec_frame [1], tcp_out = [], tcp_writes = None\<rparr>)
      (fst (canal_client_new ''h'' 11111 1001))) = Inl (AuthFailed ''authentication failed'')"
proof -
  let ?cl = "fst (canal_client_new ''h'' 11111 1001)"
  let ?s = "\<lparr>tcp_in = codec_frame [1], tcp_out = [], tcp_writes = None\<rparr>"
  have refusal: "handshake_refusal literal_engine (Some ''secret'') ?cl = ''authentication failed''"
    by (simp add: handshake_refusal_def)
  have auth: "dec_client_auth refusing_prost b = Inr (sent_auth ?cl)" for b
    by (simp add: refusing_prost_def)
  have reply: "reply_frame refusing_prost msg = [1]" for msg
    by (simp add: reply_frame_def ack_ok_frame_def ack_err_frame_def packet_frame_def refusing_prost_def)
  have readable: "ack_readable refusing_prost ''authentication failed''"
    unfolding ack_readable_def reply by (simp add: refusing_prost_def max_packet_size_def)
  have fresh: "\<not> st_authenticated (cx_state sample_ctx)" "tr_budget (cx_transport sample_ctx) = None"
    "sent sample_ctx = []"
    by (simp_all add: sample_ctx_def client_state_default_def sample_transport_def)
  note sent = handshake_reply [OF auth fresh(1,2) refl refl, unfolded reply fresh, THEN conjunct1]
  show ?thesis
    using handshake [of refusing_prost ?cl sample_ctx _ literal_engine "Some ''secret''" 0 ?s,
        OF auth fresh(1,2) refl]
    by (simp add: refusal readable sent fresh split: sum.splits)
qed

end
